(* ===== verification/Prelude.thy ===== *)
theory Prelude
  imports Complex_Main
begin

text \<open>
  Shared vocabulary of the development: error results as sums, the pieces of Go's
  \<^verbatim>\<open>strings\<close>, \<^verbatim>\<open>math/big\<close> and \<^verbatim>\<open>fmt\<close> packages the sources use (on byte
  strings, as Go has them), decimal digit strings, and the generic lemmas on lists, rationals and
  rounding that several components need.  Collections: \<open>go_strings\<close> (computation rules of the
  string helpers), \<open>half_up\<close> (facts on rounding).
\<close>

named_theorems go_strings "computation rules of the string helpers"
named_theorems half_up "facts about half-up rounding"

section \<open>Results that may fail\<close>

text \<open>A Go function returning \<^verbatim>\<open>(T, error)\<close> is a value of \<open>'e + 'a\<close>: \<open>Inl\<close> is the error.\<close>

definition bindE :: "'e + 'a \<Rightarrow> ('a \<Rightarrow> 'e + 'b) \<Rightarrow> 'e + 'b" where
  "bindE m f = (case m of Inl e \<Rightarrow> Inl e | Inr x \<Rightarrow> f x)"

declare bindE_def [code_unfold]

lemma bindE_simps [simp]: "bindE (Inl e) f = Inl e" "bindE (Inr x) f = f x"
  by (simp_all add: bindE_def)

lemma bindE_Inr_iff: "bindE m f = Inr y \<longleftrightarrow> (\<exists>x. m = Inr x \<and> f x = Inr y)"
  by (cases m) auto

lemma bindE_InrE [elim]:
  assumes "bindE m f = Inr y" obtains x where "m = Inr x" "f x = Inr y"
  using assms by (auto simp: bindE_Inr_iff)

text \<open>A guard, and a value that must be there.\<close>

definition need :: "bool \<Rightarrow> 'e \<Rightarrow> 'e + unit" where
  "need b e = (if b then Inr () else Inl e)"

lemma need_Inr [simp]: "need b e = Inr u \<longleftrightarrow> b"
  by (simp add: need_def)

definition found :: "'a option \<Rightarrow> 'e \<Rightarrow> 'e + 'a" where
  "found x e = (case x of None \<Rightarrow> Inl e | Some v \<Rightarrow> Inr v)"

lemma found_Inr [simp]: "found x e = Inr v \<longleftrightarrow> x = Some v"
  by (simp add: found_def split: option.split)

text \<open>The loop \<^verbatim>\<open>for _, x := range xs\<close> whose body may return an error.\<close>

fun mapE :: "('a \<Rightarrow> 'e + 'b) \<Rightarrow> 'a list \<Rightarrow> 'e + 'b list" where
  "mapE f [] = Inr []"
| "mapE f (x # xs) = bindE (f x) (\<lambda>y. bindE (mapE f xs) (\<lambda>ys. Inr (y # ys)))"

lemma mapE_Inr_iff:
  "mapE f xs = Inr ys \<longleftrightarrow> list_all2 (\<lambda>x y. f x = Inr y) xs ys"
proof (induction xs arbitrary: ys)
  case Nil
  then show ?case by auto
next
  case (Cons x xs)
  then show ?case by (cases ys) (auto simp: bindE_Inr_iff)
qed

lemma mapE_mem: "mapE f xs = Inr ys \<Longrightarrow> y \<in> set ys \<Longrightarrow> \<exists>x \<in> set xs. f x = Inr y"
  by (induction xs arbitrary: ys) (auto simp: bindE_Inr_iff)

lemma mapE_length: "mapE f xs = Inr ys \<Longrightarrow> length ys = length xs"
  by (auto simp: mapE_Inr_iff dest: list_all2_lengthD)


section \<open>Go byte strings\<close>

text \<open>
  \<^verbatim>\<open>unicode.IsSpace\<close> on UTF-8: the byte sequences that encode a white-space rune.
  \<^verbatim>\<open>strings.TrimSpace\<close> removes them from both ends.
\<close>

definition space_runes :: "string list" where
  "space_runes =
     [[CHR 0x09], [CHR 0x0A], [CHR 0x0B], [CHR 0x0C], [CHR 0x0D], [CHR 0x20],
      [CHR 0xC2, CHR 0x85], [CHR 0xC2, CHR 0xA0], [CHR 0xE1, CHR 0x9A, CHR 0x80],
      [CHR 0xE2, CHR 0x80, CHR 0x80], [CHR 0xE2, CHR 0x80, CHR 0x81], [CHR 0xE2, CHR 0x80, CHR 0x82],
      [CHR 0xE2, CHR 0x80, CHR 0x83], [CHR 0xE2, CHR 0x80, CHR 0x84], [CHR 0xE2, CHR 0x80, CHR 0x85],
      [CHR 0xE2, CHR 0x80, CHR 0x86], [CHR 0xE2, CHR 0x80, CHR 0x87], [CHR 0xE2, CHR 0x80, CHR 0x88],
      [CHR 0xE2, CHR 0x80, CHR 0x89], [CHR 0xE2, CHR 0x80, CHR 0x8A], [CHR 0xE2, CHR 0x80, CHR 0xA8],
      [CHR 0xE2, CHR 0x80, CHR 0xA9], [CHR 0xE2, CHR 0x80, CHR 0xAF], [CHR 0xE2, CHR 0x81, CHR 0x9F],
      [CHR 0xE3, CHR 0x80, CHR 0x80]]"

definition has_prefix :: "string \<Rightarrow> string \<Rightarrow> bool" where
  "has_prefix s p = (take (length p) s = p)"

definition trim_prefix :: "string \<Rightarrow> string \<Rightarrow> string" where
  "trim_prefix s p = (if has_prefix s p then drop (length p) s else s)"

text \<open>Removes runes of \<open>rs\<close> (given by their encodings) from the front, longest run first.\<close>

fun trim_runes :: "string list \<Rightarrow> string \<Rightarrow> string" where
  "trim_runes rs s =
     (case find (\<lambda>r. r \<noteq> [] \<and> has_prefix s r) rs of
        None \<Rightarrow> s
      | Some r \<Rightarrow> if r = [] \<or> s = [] then s else trim_runes rs (drop (length r) s))"

declare trim_runes.simps [simp del]

definition trim_space :: "string \<Rightarrow> string" where
  "trim_space s = rev (trim_runes (map rev space_runes) (rev (trim_runes space_runes s)))"

text \<open>\<^verbatim>\<open>strings.TrimLeft\<close> and \<^verbatim>\<open>TrimRight\<close> with a one-character cutset.\<close>

definition trim_left :: "char \<Rightarrow> string \<Rightarrow> string" where
  "trim_left c s = dropWhile (\<lambda>x. x = c) s"

definition trim_right :: "char \<Rightarrow> string \<Rightarrow> string" where
  "trim_right c s = rev (dropWhile (\<lambda>x. x = c) (rev s))"

text \<open>\<^verbatim>\<open>strings.Split(s, sep)\<close> for a one-character separator.\<close>

fun split_on :: "char \<Rightarrow> string \<Rightarrow> string list" where
  "split_on c [] = [[]]"
| "split_on c (x # xs) =
     (case split_on c xs of
        [] \<Rightarrow> []
      | p # ps \<Rightarrow> if x = c then [] # p # ps else (x # p) # ps)"

text \<open>
  \<^verbatim>\<open>strings.ToUpper\<close> as far as a comparison with an ASCII constant can see it: ASCII letters, and
  the two runes outside ASCII whose upper case is an ASCII letter (dotless i and long s).
\<close>

definition upper_ascii :: "char \<Rightarrow> char" where
  "upper_ascii c =
     (let n = (of_char c :: nat) in if 97 \<le> n \<and> n \<le> 122 then char_of (n - 32) else c)"

fun to_upper :: "string \<Rightarrow> string" where
  "to_upper [] = []"
| "to_upper [c] = [upper_ascii c]"
| "to_upper (c # d # cs) =
     (if c = CHR 0xC4 \<and> d = CHR 0xB1 then CHR ''I'' # to_upper cs
      else if c = CHR 0xC5 \<and> d = CHR 0xBF then CHR ''S'' # to_upper cs
      else upper_ascii c # to_upper (d # cs))"

lemma split_on_ne [simp]: "split_on c s \<noteq> []"
  by (induction s) (auto split: list.splits)

lemma split_on_no_sep [go_strings]: "c \<notin> set s \<Longrightarrow> split_on c s = [s]"
  by (induction s) auto

lemma split_on_sep [go_strings]:
  "c \<notin> set s \<Longrightarrow> split_on c (s @ c # t) = s # split_on c t"
  by (induction s) (auto split: list.splits)

lemma set_split_on: "p \<in> set (split_on c s) \<Longrightarrow> set p \<subseteq> set s - {c}"
proof (induction s arbitrary: p)
  case (Cons x xs)
  show ?case
  proof (cases "split_on c xs")
    case (Cons q qs)
    then have "\<forall>r \<in> set (q # qs). set r \<subseteq> set xs - {c}" using Cons.IH by simp
    then show ?thesis using Cons.prems Cons by (fastforce split: if_splits)
  qed simp
qed simp

lemma split_on_singleton: "split_on c s = [a] \<Longrightarrow> s = a"
  by (induction s arbitrary: a) (auto split: list.splits if_splits)

lemma split_on_two: "split_on c s = [a, b] \<Longrightarrow> s = a @ c # b"
proof (induction s arbitrary: a)
  case (Cons x xs)
  then show ?case
    by (auto split: list.splits if_splits dest: split_on_singleton)
qed simp

lemma trim_runes_id [go_strings]:
  "(\<And>r. r \<in> set rs \<Longrightarrow> r = [] \<or> \<not> has_prefix s r) \<Longrightarrow> trim_runes rs s = s"
proof -
  assume "\<And>r. r \<in> set rs \<Longrightarrow> r = [] \<or> \<not> has_prefix s r"
  then have "find (\<lambda>r. r \<noteq> [] \<and> has_prefix s r) rs = None"
    by (auto simp: find_None_iff)
  then show ?thesis by (subst trim_runes.simps) simp
qed

lemma trim_runes_Nil [simp]: "trim_runes rs [] = []"
  by (rule trim_runes_id) (auto simp: has_prefix_def)

text \<open>A printable ASCII byte: neither white space nor part of a longer encoding.\<close>

definition plain_char :: "char \<Rightarrow> bool" where
  "plain_char c = (33 \<le> (of_char c :: nat) \<and> (of_char c :: nat) < 128)"

lemma has_prefix_hd: "has_prefix s r \<Longrightarrow> r \<noteq> [] \<Longrightarrow> s \<noteq> [] \<and> hd s = hd r"
  by (cases r; cases s) (auto simp: has_prefix_def)

lemma space_runes_not_plain:
  "r \<in> set space_runes \<Longrightarrow> r \<noteq> [] \<and> \<not> plain_char (hd r) \<and> \<not> plain_char (last r)"
  by (auto simp: space_runes_def plain_char_def)

lemma trim_space_plain [go_strings]:
  assumes "plain_char (hd s)" "plain_char (last s)"
  shows "trim_space s = s"
proof (cases "s = []")
  case False
  have "trim_runes space_runes s = s"
    using assms(1) by (intro trim_runes_id) (metis has_prefix_hd space_runes_not_plain)
  moreover have "trim_runes (map rev space_runes) (rev s) = rev s"
  proof (intro trim_runes_id)
    fix r assume "r \<in> set (map rev space_runes)"
    then obtain q where "q \<in> set space_runes" "r = rev q" by auto
    then show "r = [] \<or> \<not> has_prefix (rev s) r"
      using assms(2) False by (metis has_prefix_hd hd_rev space_runes_not_plain)
  qed
  ultimately show ?thesis by (simp add: trim_space_def)
qed (simp add: trim_space_def)

lemma trim_runes_stops: "r \<in> set rs \<Longrightarrow> r = [] \<or> \<not> has_prefix (trim_runes rs s) r"
proof (induction rs s rule: trim_runes.induct)
  case (1 rs s)
  show ?case
  proof (cases "find (\<lambda>r. r \<noteq> [] \<and> has_prefix s r) rs")
    case None
    then have "trim_runes rs s = s" by (subst trim_runes.simps) simp
    then show ?thesis using 1(2) None by (auto simp: find_None_iff)
  next
    case (Some q)
    then have "q \<noteq> []" "s \<noteq> []" by (auto simp: find_Some_iff has_prefix_def)
    then show ?thesis using 1 Some by (subst trim_runes.simps) simp
  qed
qed

lemma trim_runes_suffix: "\<exists>p. s = p @ trim_runes rs s"
proof (induction rs s rule: trim_runes.induct)
  case (1 rs s)
  show ?case
  proof (cases "find (\<lambda>r. r \<noteq> [] \<and> has_prefix s r) rs")
    case None
    then show ?thesis by (subst trim_runes.simps) simp
  next
    case (Some q)
    then have q: "q \<noteq> []" "s \<noteq> []" by (auto simp: find_Some_iff has_prefix_def)
    then obtain p where "drop (length q) s = p @ trim_runes rs (drop (length q) s)" using 1 Some by auto
    then have "s = (take (length q) s @ p) @ trim_runes rs (drop (length q) s)" by (metis append_assoc append_take_drop_id)
    moreover have "trim_runes rs s = trim_runes rs (drop (length q) s)" using Some q by (subst trim_runes.simps) simp
    ultimately show ?thesis by metis
  qed
qed

lemma trim_space_idem [simp]: "trim_space (trim_space s) = trim_space s"
proof -
  define a where "a = trim_runes space_runes s"
  define b where "b = trim_runes (map rev space_runes) (rev a)"
  have s: "trim_space s = rev b" by (simp add: trim_space_def a_def b_def)
  obtain p where "rev a = p @ b" using trim_runes_suffix unfolding b_def by blast
  then have ab: "a = rev b @ rev p" by (metis rev_append rev_rev_ident)
  have "trim_runes space_runes (rev b) = rev b"
  proof (rule trim_runes_id)
    fix r assume "r \<in> set space_runes"
    then have "r = [] \<or> \<not> has_prefix a r" using trim_runes_stops unfolding a_def by blast
    then show "r = [] \<or> \<not> has_prefix (rev b) r" by (auto simp: ab has_prefix_def)
  qed
  moreover have "trim_runes (map rev space_runes) b = b"
    using trim_runes_stops unfolding b_def by (intro trim_runes_id)
  ultimately show ?thesis unfolding s by (simp add: trim_space_def)
qed

section \<open>Decimal digit strings\<close>

definition is_digit :: "char \<Rightarrow> bool" where
  "is_digit c = (48 \<le> (of_char c :: nat) \<and> (of_char c :: nat) \<le> 57)"

definition digit_char :: "nat \<Rightarrow> char" where
  "digit_char d = char_of (48 + d)"

definition digit_val :: "char \<Rightarrow> nat" where
  "digit_val c = of_char c - 48"

text \<open>\<^verbatim>\<open>big.Int.String\<close> of a non-negative value, and \<^verbatim>\<open>SetString(_, 10)\<close> of digits.\<close>

fun dec_of_nat :: "nat \<Rightarrow> string" where
  "dec_of_nat n =
     (if n < 10 then [digit_char n] else dec_of_nat (n div 10) @ [digit_char (n mod 10)])"

declare dec_of_nat.simps [simp del]

definition nat_of_dec :: "string \<Rightarrow> nat" where
  "nat_of_dec s = foldl (\<lambda>a c. 10 * a + digit_val c) 0 s"

definition all_digits :: "string \<Rightarrow> bool" where
  "all_digits s = list_all is_digit s"

lemma of_char_digit_char [simp]: "d < 10 \<Longrightarrow> (of_char (digit_char d) :: nat) = 48 + d"
  by (simp add: digit_char_def)

lemma digit_val_char [simp]: "d < 10 \<Longrightarrow> digit_val (digit_char d) = d"
  by (simp add: digit_val_def)

lemma is_digit_char [simp]: "d < 10 \<Longrightarrow> is_digit (digit_char d)"
  by (simp add: is_digit_def)

lemma digit_char_val [simp]: "is_digit c \<Longrightarrow> digit_char (digit_val c) = c"
  by (auto simp: is_digit_def digit_char_def digit_val_def)

lemma digit_val_less [simp]: "is_digit c \<Longrightarrow> digit_val c < 10"
  by (auto simp: is_digit_def digit_val_def)

lemma digit_plain [simp]: "is_digit c \<Longrightarrow> plain_char c"
  by (auto simp: is_digit_def plain_char_def)

lemma digit_char_0: "digit_char 0 = CHR ''0''"
  using digit_char_val [of "CHR ''0''"] by (simp add: is_digit_def digit_val_def)

lemma all_digits_simps [simp]:
  "all_digits []" "all_digits (c # s) \<longleftrightarrow> is_digit c \<and> all_digits s"
  "all_digits (s @ t) \<longleftrightarrow> all_digits s \<and> all_digits t"
  by (auto simp: all_digits_def)

lemma all_digits_set: "all_digits s \<longleftrightarrow> (\<forall>c \<in> set s. is_digit c)"
  by (simp add: all_digits_def list_all_iff)

lemma all_digits_replicate [simp]: "all_digits (replicate n (CHR ''0''))"
  by (auto simp: all_digits_set is_digit_def)

lemma nat_of_dec_append:
  "nat_of_dec (s @ t) = nat_of_dec s * 10 ^ length t + nat_of_dec t"
proof -
  have acc: "foldl (\<lambda>a c. 10 * a + digit_val c) k t
      = k * 10 ^ length t + foldl (\<lambda>a c. 10 * a + digit_val c) 0 t" for k
  proof (induction t arbitrary: k rule: rev_induct)
    case (snoc x xs)
    show ?case using snoc [of k] by (simp add: algebra_simps)
  qed simp
  show ?thesis using acc [of "foldl (\<lambda>a c. 10 * a + digit_val c) 0 s"]
    by (simp add: nat_of_dec_def)
qed

lemma nat_of_dec_simps [simp]:
  "nat_of_dec [] = 0" "nat_of_dec [c] = digit_val c"
  by (simp_all add: nat_of_dec_def)

lemma nat_of_dec_Cons: "nat_of_dec (c # s) = digit_val c * 10 ^ length s + nat_of_dec s"
  using nat_of_dec_append [of "[c]" s] by simp

lemma nat_of_dec_snoc [simp]: "nat_of_dec (s @ [c]) = 10 * nat_of_dec s + digit_val c"
  by (simp add: nat_of_dec_append)

lemma digit_val_zero [simp]: "digit_val (CHR ''0'') = 0"
  by (simp add: digit_val_def)

lemma nat_of_dec_replicate [simp]: "nat_of_dec (replicate n (CHR ''0'') @ s) = nat_of_dec s"
  by (induction n) (simp_all add: nat_of_dec_Cons)

lemma nat_of_dec_less: "all_digits s \<Longrightarrow> nat_of_dec s < 10 ^ length s"
proof (induction s rule: rev_induct)
  case (snoc c s)
  then have "nat_of_dec s < 10 ^ length s" "digit_val c < 10" by auto
  then show ?case by simp
qed simp

lemma dec_of_nat_nonempty [simp]: "dec_of_nat n \<noteq> []"
  by (subst dec_of_nat.simps) simp

lemma all_digits_dec_of_nat [simp]: "all_digits (dec_of_nat n)"
  by (induction n rule: dec_of_nat.induct) (subst dec_of_nat.simps, auto)

lemma nat_of_dec_of_nat [simp]: "nat_of_dec (dec_of_nat n) = n"
  by (induction n rule: dec_of_nat.induct) (subst dec_of_nat.simps, auto)

lemma dec_of_nat_hd: "0 < n \<Longrightarrow> hd (dec_of_nat n) \<noteq> CHR ''0''"
proof (induction n rule: dec_of_nat.induct)
  case (1 n)
  show ?case
  proof (cases "n < 10")
    case True
    then have "(of_char (digit_char n) :: nat) \<noteq> of_char (CHR ''0'')" using 1 by simp
    then show ?thesis using True by (subst dec_of_nat.simps) (auto simp del: of_char_digit_char)
  next
    case False
    with 1 show ?thesis by (subst dec_of_nat.simps) (simp add: hd_append)
  qed
qed

lemma dec_of_nat_of_dec:
  assumes "all_digits s" "s \<noteq> []" "hd s \<noteq> CHR ''0'' \<or> s = ''0''"
  shows "dec_of_nat (nat_of_dec s) = s"
  using assms
proof (induction s rule: rev_induct)
  case (snoc c s)
  show ?case
  proof (cases "s = []")
    case True
    then show ?thesis using snoc.prems by (subst dec_of_nat.simps) simp
  next
    case False
    then have hd: "hd s \<noteq> CHR ''0''" using snoc.prems by auto
    have d: "all_digits s" "is_digit c" using snoc.prems by auto
    have IH: "dec_of_nat (nat_of_dec s) = s" using snoc.IH d False hd by simp
    have "nat_of_dec s \<noteq> 0"
    proof
      assume "nat_of_dec s = 0"
      then have "s = dec_of_nat 0" using IH by simp
      then show False using hd by (simp add: dec_of_nat.simps digit_char_0)
    qed
    then have "\<not> 10 * nat_of_dec s + digit_val c < 10" by simp
    then show ?thesis using IH d by (subst dec_of_nat.simps) simp
  qed
qed simp

lemma length_dec_of_nat_le: "0 < k \<Longrightarrow> n < 10 ^ k \<Longrightarrow> length (dec_of_nat n) \<le> k"
proof (induction n arbitrary: k rule: dec_of_nat.induct)
  case (1 n)
  show ?case
  proof (cases "n < 10")
    case False
    then obtain j where j: "k = Suc j" "0 < j" using 1 by (cases k; cases "k - 1") auto
    then have "n div 10 < 10 ^ j" using 1 by (simp add: less_mult_imp_div_less mult.commute)
    then show ?thesis using "1.IH" [of j] False j by (subst dec_of_nat.simps) simp
  qed (use 1 in \<open>subst dec_of_nat.simps, simp\<close>)
qed

text \<open>The number of digits is minimal, so a padded numeral of fixed width is unique.\<close>

lemma length_dec_of_nat_gt: "0 < n \<Longrightarrow> 10 ^ k \<le> n \<Longrightarrow> k < length (dec_of_nat n)"
  using nat_of_dec_less [OF all_digits_dec_of_nat [of n]]
  by (metis linorder_not_less nat_of_dec_of_nat one_less_numeral_iff order_less_le_trans
      power_increasing_iff semiring_norm(76) order.strict_trans1)


section \<open>Trimming zeros\<close>

lemma trim_right_split: "s = trim_right c s @ replicate (length s - length (trim_right c s)) c"
proof -
  have "takeWhile (\<lambda>x. x = c) (rev s) = replicate (length (takeWhile (\<lambda>x. x = c) (rev s))) c"
    by (metis (mono_tags, lifting) replicate_eqI set_takeWhileD)
  moreover have "length (takeWhile (\<lambda>x. x = c) (rev s)) = length s - length (trim_right c s)"
    by (metis (no_types) diff_add_inverse2 length_append length_rev takeWhile_dropWhile_id trim_right_def)
  ultimately show ?thesis
    by (metis rev_append rev_replicate rev_rev_ident takeWhile_dropWhile_id trim_right_def)
qed

lemma trim_right_zeros:
  assumes "all_digits s"
  shows "all_digits (trim_right (CHR ''0'') s)" "length (trim_right (CHR ''0'') s) \<le> length s"
    "of_nat (nat_of_dec (trim_right (CHR ''0'') s)) / 10 ^ length (trim_right (CHR ''0'') s)
     = (of_nat (nat_of_dec s) / 10 ^ length s :: rat)"
proof -
  define t where "t = trim_right (CHR ''0'') s"
  define j where "j = length s - length t"
  have s: "s = t @ replicate j (CHR ''0'')" using trim_right_split [of s "CHR ''0''"] by (simp add: t_def j_def)
  have z: "nat_of_dec (replicate j (CHR ''0'')) = 0"
    using nat_of_dec_replicate [of j "[]"] by simp
  have v: "nat_of_dec s = nat_of_dec t * 10 ^ j" by (subst s) (simp add: nat_of_dec_append z)
  have l: "length s = length t + j" by (subst s) simp
  have "all_digits t" using assms by (subst (asm) s) simp
  moreover have "of_nat (nat_of_dec t) / 10 ^ length t = (of_nat (nat_of_dec s) / 10 ^ length s :: rat)"
    by (simp add: v l power_add)
  ultimately show "all_digits (trim_right (CHR ''0'') s)" "length (trim_right (CHR ''0'') s) \<le> length s"
    "of_nat (nat_of_dec (trim_right (CHR ''0'') s)) / 10 ^ length (trim_right (CHR ''0'') s)
     = (of_nat (nat_of_dec s) / 10 ^ length s :: rat)"
    using l by (simp_all add: t_def)
qed

lemma of_nat_div_mod: "0 < p \<Longrightarrow> (of_nat m / of_nat p :: rat) = of_nat (m div p) + of_nat (m mod p) / of_nat p"
proof -
  assume "0 < p"
  have "(of_nat m :: rat) = of_nat (m div p) * of_nat p + of_nat (m mod p)"
    by (metis div_mult_mod_eq of_nat_add of_nat_mult)
  then show ?thesis using \<open>0 < p\<close> by (simp add: add_divide_distrib)
qed

section \<open>Rounding half away from zero\<close>

text \<open>
  The reference notion behind every \<^verbatim>\<open>HALF_UP\<close> routine of the sources: the nearest integer, ties
  away from zero.  Each routine is proved equal to it.
\<close>

definition round_half_away :: "rat \<Rightarrow> int" where
  "round_half_away x = (if x < 0 then - \<lfloor>- x + 1/2\<rfloor> else \<lfloor>x + 1/2\<rfloor>)"

lemma round_half_away_error [half_up]: "\<bar>of_int (round_half_away x) - x\<bar> \<le> 1/2"
  using of_int_floor_le [of "x + 1/2"] floor_correct [of "x + 1/2"] floor_correct [of "- x + 1/2"]
  unfolding round_half_away_def abs_le_iff by (cases "x < 0") (simp_all only: if_True if_False of_int_minus, linarith+)

lemma round_half_away_of_int [simp]: "round_half_away (of_int n) = n"
  unfolding round_half_away_def by (auto; linarith)

lemma round_half_away_numeral [simp]: "round_half_away (numeral n) = numeral n"
  using round_half_away_of_int [of "numeral n"] by simp

lemma round_half_away_0 [simp]: "round_half_away 0 = 0"
  using round_half_away_of_int [of 0] by simp

lemma round_half_away_minus: "round_half_away (- x) = - round_half_away x"
  unfolding round_half_away_def by (auto; linarith)

lemma round_half_away_mono: "x \<le> y \<Longrightarrow> round_half_away x \<le> round_half_away y"
proof -
  assume "x \<le> y"
  then have "\<lfloor>x + 1/2\<rfloor> \<le> \<lfloor>y + 1/2\<rfloor>" "\<lfloor>- y + 1/2\<rfloor> \<le> \<lfloor>- x + 1/2\<rfloor>"
    by (auto intro: floor_mono)
  moreover have "x < 0 \<Longrightarrow> 0 \<le> y \<Longrightarrow> 0 \<le> \<lfloor>- x + 1/2\<rfloor> \<and> 0 \<le> \<lfloor>y + 1/2\<rfloor>" by simp
  ultimately show ?thesis
    using \<open>x \<le> y\<close> unfolding round_half_away_def
    by (cases "x < 0"; cases "y < 0") (simp_all del: floor_diff_of_int, linarith+)
qed

lemma round_half_away_nonneg: "0 \<le> x \<Longrightarrow> 0 \<le> round_half_away x"
  using round_half_away_mono [of 0 x] by simp

lemma round_half_away_nonpos: "x \<le> 0 \<Longrightarrow> round_half_away x \<le> 0"
  using round_half_away_mono [of x 0] by simp

text \<open>Ties go away from zero.\<close>

lemma round_half_away_tie: "0 \<le> n \<Longrightarrow> round_half_away (of_int n + 1/2) = n + 1"
proof -
  assume "0 \<le> n"
  have "(of_int n + 1/2 + 1/2 :: rat) = of_int (n + 1)" by simp
  with \<open>0 \<le> n\<close> show ?thesis unfolding round_half_away_def by (simp only: floor_of_int) auto
qed

text \<open>The integer computation: quotient and doubled remainder.\<close>

lemma floor_half_up_div:
  assumes "0 \<le> n" "(0::int) < d"
  shows "\<lfloor>of_int n / of_int d + 1/2 :: rat\<rfloor> = n div d + (if d \<le> 2 * (n mod d) then 1 else 0)"
proof -
  have "n = d * (n div d) + n mod d" by simp
  then have q: "(of_int n / of_int d :: rat) = of_int (n div d) + of_int (n mod d) / of_int d"
    using assms(2) by (metis (no_types, opaque_lifting) add_divide_distrib less_irrefl
        nonzero_mult_div_cancel_left of_int_0_eq_iff of_int_add of_int_mult)
  have r: "0 \<le> n mod d" "n mod d < d" using assms(2) by auto
  have half: "(of_int (n mod d) / of_int d \<ge> (1/2 :: rat)) \<longleftrightarrow> d \<le> 2 * (n mod d)"
  proof -
    have "(of_int (n mod d) / of_int d \<ge> (1/2 :: rat)) \<longleftrightarrow> (of_int d :: rat) \<le> of_int (2 * (n mod d))"
      using assms(2) by (simp add: field_simps)
    then show ?thesis by (simp only: of_int_le_iff)
  qed
  have lt: "of_int (n mod d) / of_int d < (1 :: rat)" "0 \<le> (of_int (n mod d) / of_int d :: rat)"
    using r assms(2) by auto
  define f :: rat where "f = of_int (n mod d) / of_int d"
  have "(if d \<le> 2 * (n mod d) then 1 else 0) \<le> f + 1/2
      \<and> f + 1/2 < (if d \<le> 2 * (n mod d) then 1 else 0) + 1"
    using half lt unfolding f_def [symmetric] by (cases "d \<le> 2 * (n mod d)") auto
  then show ?thesis unfolding q f_def [symmetric] by (intro floor_unique) (auto split: if_splits)
qed

lemma round_half_away_quotient:
  assumes "d \<noteq> 0"
  shows "round_half_away (of_int n / of_int d)
    = (if sgn n * sgn d < 0 then - 1 else 1) *
      (\<bar>n\<bar> div \<bar>d\<bar> + (if \<bar>d\<bar> \<le> 2 * (\<bar>n\<bar> mod \<bar>d\<bar>) then 1 else 0))"
proof -
  have *: "\<lfloor>of_int \<bar>n\<bar> / of_int \<bar>d\<bar> + 1/2 :: rat\<rfloor>
      = \<bar>n\<bar> div \<bar>d\<bar> + (if \<bar>d\<bar> \<le> 2 * (\<bar>n\<bar> mod \<bar>d\<bar>) then 1 else 0)"
    using assms by (intro floor_half_up_div) auto
  have neg: "(of_int n / of_int d :: rat) < 0 \<longleftrightarrow> sgn n * sgn d < 0"
    using assms by (auto simp: divide_less_0_iff sgn_if)
  have ab: "(of_int \<bar>n\<bar> / of_int \<bar>d\<bar> :: rat)
      = (if sgn n * sgn d < 0 then - (of_int n / of_int d) else of_int n / of_int d)"
    using assms by (auto simp: sgn_if abs_if)
  show ?thesis using * unfolding ab round_half_away_def neg by (auto split: if_splits)
qed

end
