(* ===== verification/Money.thy ===== *)
theory Money
  imports Prelude "HOL-Library.Word"
begin

text \<open>
  The exact decimal type of \<^verbatim>\<open>src/internal/money/decimal.go\<close>: parsing, printing, comparison,
  exact addition, subtraction and multiplication, and the two rounding operations
  (\<^verbatim>\<open>Div\<close> and \<^verbatim>\<open>Quantize\<close>, both \<^verbatim>\<open>HALF_UP\<close>).  \<^verbatim>\<open>big.Int\<close> is \<open>int\<close>.
  The field \<^verbatim>\<open>scale\<close> is a \<open>nat\<close>: every constructor of the package stores a length, a sum, a
  maximum or a checked non-negative argument there, and \<^verbatim>\<open>pow10\<close>'s panic on a negative power is
  excluded by that type.  Arguments that may be negative (\<^verbatim>\<open>maxScale\<close>, \<^verbatim>\<open>scale\<close>) are \<open>int\<close>.
  The abstraction is \<open>decimal_rat\<close>; the locale \<open>exact_decimal\<close> is what clients rely on.
\<close>

section \<open>The model\<close>

datatype money_error = ErrInvalidDecimal | ErrDivisionByZero | ErrInvalidScale

type_synonym rounding_mode = "8 word"

definition HalfUp :: rounding_mode where
  "HalfUp = 0"

record decimal =
  dtext :: string
  dscale :: nat
  dvalue :: int

definition zero_decimal :: decimal where \<comment> \<open>the Go zero value \<^verbatim>\<open>Decimal{}\<close>\<close>
  "zero_decimal = \<lparr>dtext = [], dscale = 0, dvalue = 0\<rparr>"

definition ParseDecimal :: "string \<Rightarrow> int \<Rightarrow> money_error + decimal" where
  "ParseDecimal inp maxScale =
     (let input = trim_space inp in
      if input = [] \<or> maxScale < 0 \<or> CHR ''e'' \<in> set input \<or> CHR ''E'' \<in> set input
      then Inl ErrInvalidDecimal
      else
        let negative = has_prefix input ''-'';
            unsigned = trim_prefix (trim_prefix input ''+'') ''-'';
            parts = split_on (CHR ''.'') unsigned in
        if length parts > 2 \<or> parts ! 0 = [] \<or> (length parts = 2 \<and> parts ! 1 = [])
           \<or> (length parts = 2 \<and> int (length (parts ! 1)) > maxScale)
        then Inl ErrInvalidDecimal
        else if \<not> list_all (list_all is_digit) parts then Inl ErrInvalidDecimal
        else
          let fraction = (if length parts = 2 then parts ! 1 else []);
              trimmed = trim_left (CHR ''0'') (parts ! 0 @ fraction);
              digits = (if trimmed = [] then ''0'' else trimmed);
              negative = (if trimmed = [] then False else negative);
              value = (if negative then - int (nat_of_dec digits) else int (nat_of_dec digits));
              integer = trim_left (CHR ''0'') (parts ! 0);
              integer = (if integer = [] then ''0'' else integer);
              text = (if fraction \<noteq> [] then integer @ ''.'' @ fraction else integer);
              text = (if negative then ''-'' @ text else text) in
          Inr \<lparr>dtext = text, dscale = length fraction, dvalue = value\<rparr>)"

definition dec_String :: "decimal \<Rightarrow> string" where
  "dec_String d = (if dtext d = [] then ''0'' else dtext d)"

definition dec_Sign :: "decimal \<Rightarrow> int" where
  "dec_Sign d = sgn (dvalue d)"

definition dec_Scale :: "decimal \<Rightarrow> int" where
  "dec_Scale d = int (dscale d)"

definition pow10 :: "nat \<Rightarrow> int" where
  "pow10 n = 10 ^ n"

definition dec_Equal :: "decimal \<Rightarrow> decimal \<Rightarrow> bool" where
  "dec_Equal d other =
     (let left = (if dscale d < dscale other then dvalue d * pow10 (dscale other - dscale d) else dvalue d);
          right = (if dscale d < dscale other then dvalue other
                   else if dscale other < dscale d then dvalue other * pow10 (dscale d - dscale other)
                   else dvalue other) in
      left = right)"

definition aligned :: "decimal \<Rightarrow> decimal \<Rightarrow> int \<times> int" where
  "aligned left right =
     (if dscale left < dscale right
      then (dvalue left * pow10 (dscale right - dscale left), dvalue right)
      else if dscale right < dscale left
      then (dvalue left, dvalue right * pow10 (dscale left - dscale right))
      else (dvalue left, dvalue right))"

definition formatScaled :: "int \<Rightarrow> nat \<Rightarrow> string" where
  "formatScaled value scale =
     (let negative = value < 0;
          digits = dec_of_nat (nat \<bar>value\<bar>);
          digits = (if 0 < scale then
             (let digits = (if length digits \<le> scale
                            then replicate (scale - length digits + 1) (CHR ''0'') @ digits
                            else digits) in
              take (length digits - scale) digits @ ''.'' @ drop (length digits - scale) digits)
           else digits) in
      if negative then ''-'' @ digits else digits)"

definition fromScaledInt :: "int \<Rightarrow> nat \<Rightarrow> decimal" where
  "fromScaledInt value scale =
     (if value = 0 then \<lparr>dtext = formatScaled 0 scale, dscale = scale, dvalue = 0\<rparr>
      else \<lparr>dtext = formatScaled value scale, dscale = scale, dvalue = value\<rparr>)"

definition go_max :: "nat \<Rightarrow> nat \<Rightarrow> nat" where
  "go_max left right = (if left > right then left else right)"

definition dec_Cmp :: "decimal \<Rightarrow> decimal \<Rightarrow> int" where
  "dec_Cmp d other = (case aligned d other of (left, right) \<Rightarrow>
     if left < right then -1 else if left = right then 0 else 1)"

definition dec_Add :: "decimal \<Rightarrow> decimal \<Rightarrow> decimal" where
  "dec_Add d other = (case aligned d other of (left, right) \<Rightarrow>
     fromScaledInt (left + right) (go_max (dscale d) (dscale other)))"

definition dec_Sub :: "decimal \<Rightarrow> decimal \<Rightarrow> decimal" where
  "dec_Sub d other = (case aligned d other of (left, right) \<Rightarrow>
     fromScaledInt (left - right) (go_max (dscale d) (dscale other)))"

definition dec_Mul :: "decimal \<Rightarrow> decimal \<Rightarrow> decimal" where
  "dec_Mul d other = fromScaledInt (dvalue d * dvalue other) (dscale d + dscale other)"

definition divHalfUp :: "int \<Rightarrow> int \<Rightarrow> int" where
  "divHalfUp numerator denominator =
     (let negative = sgn numerator * sgn denominator < 0;
          n = \<bar>numerator\<bar>;
          d = \<bar>denominator\<bar>;
          quotient = n div d;
          remainder = n mod d;
          quotient = (if remainder * 2 \<ge> d then quotient + 1 else quotient) in
      if negative then - quotient else quotient)"

definition dec_Div :: "decimal \<Rightarrow> decimal \<Rightarrow> int \<Rightarrow> money_error + decimal" where
  "dec_Div d other scale =
     (if scale < 0 then Inl ErrInvalidScale
      else if dec_Sign other = 0 then Inl ErrDivisionByZero
      else
        let exponent = scale + int (dscale other) - int (dscale d);
            numerator = (if exponent \<ge> 0 then dvalue d * pow10 (nat exponent) else dvalue d);
            denominator = (if exponent \<ge> 0 then dvalue other else dvalue other * pow10 (nat (- exponent))) in
        Inr (fromScaledInt (divHalfUp numerator denominator) (nat scale)))"

definition dec_Quantize :: "decimal \<Rightarrow> int \<Rightarrow> rounding_mode \<Rightarrow> money_error + decimal" where
  "dec_Quantize d scale mode =
     (if scale < 0 \<or> mode \<noteq> HalfUp then Inl ErrInvalidScale
      else if scale \<ge> int (dscale d)
      then Inr (fromScaledInt (dvalue d * pow10 (nat scale - dscale d)) (nat scale))
      else Inr (fromScaledInt (divHalfUp (dvalue d) (pow10 (dscale d - nat scale))) (nat scale)))"

section \<open>Well-formed decimals and the value they denote\<close>

definition decimal_ok :: "decimal \<Rightarrow> bool" where
  "decimal_ok d = (dtext d = formatScaled (dvalue d) (dscale d))"

definition decimal_rat :: "decimal \<Rightarrow> rat" where
  "decimal_rat d = of_int (dvalue d) / 10 ^ dscale d"

lemma fromScaledInt_simps [simp]:
  "dvalue (fromScaledInt v s) = v" "dscale (fromScaledInt v s) = s"
  "dtext (fromScaledInt v s) = formatScaled v s"
  by (auto simp: fromScaledInt_def)

lemma fromScaledInt_ok [simp]: "decimal_ok (fromScaledInt v s)"
  by (simp add: decimal_ok_def)

lemma fromScaledInt_rat [simp]: "decimal_rat (fromScaledInt v s) = of_int v / 10 ^ s"
  by (simp add: decimal_rat_def)

lemma decimal_ok_unique: "decimal_ok d \<Longrightarrow> d = fromScaledInt (dvalue d) (dscale d)"
  by (cases d) (auto simp: decimal_ok_def fromScaledInt_def)

lemma aligned_eq:
  "aligned l r = (dvalue l * 10 ^ (go_max (dscale l) (dscale r) - dscale l),
                  dvalue r * 10 ^ (go_max (dscale l) (dscale r) - dscale r))"
  by (auto simp: aligned_def go_max_def pow10_def)

lemma aligned_rat:
  assumes "aligned l r = (a, b)"
  shows "decimal_rat l = of_int a / 10 ^ go_max (dscale l) (dscale r)"
    and "decimal_rat r = of_int b / 10 ^ go_max (dscale l) (dscale r)"
proof -
  have cut: "of_int v / 10 ^ s = of_int v * 10 ^ (m - s) / (10 ^ m :: rat)" if "s \<le> m" for v s m
    using that by (auto simp: power_add dest!: le_Suc_ex)
  show "decimal_rat l = of_int a / 10 ^ go_max (dscale l) (dscale r)"
    "decimal_rat r = of_int b / 10 ^ go_max (dscale l) (dscale r)"
    using assms unfolding decimal_rat_def aligned_eq
    by (auto simp: go_max_def intro!: cut)
qed

lemma dec_Add_rat [simp]: "decimal_rat (dec_Add d e) = decimal_rat d + decimal_rat e"
  by (cases "aligned d e") (simp add: dec_Add_def aligned_rat add_divide_distrib)

lemma dec_Sub_rat [simp]: "decimal_rat (dec_Sub d e) = decimal_rat d - decimal_rat e"
  by (cases "aligned d e") (simp add: dec_Sub_def aligned_rat diff_divide_distrib)

lemma dec_Mul_rat [simp]: "decimal_rat (dec_Mul d e) = decimal_rat d * decimal_rat e"
  by (simp add: dec_Mul_def decimal_rat_def power_add)


lemma dec_Cmp_rat:
  "dec_Cmp d e = (if decimal_rat d < decimal_rat e then -1
                  else if decimal_rat d = decimal_rat e then 0 else 1)"
  by (cases "aligned d e") (simp add: dec_Cmp_def aligned_rat divide_less_cancel)

lemma dec_Equal_rat: "dec_Equal d e \<longleftrightarrow> decimal_rat d = decimal_rat e"
proof -
  have "dec_Equal d e \<longleftrightarrow> fst (aligned d e) = snd (aligned d e)"
    by (auto simp: dec_Equal_def aligned_def)
  then show ?thesis by (cases "aligned d e") (simp add: aligned_rat)
qed

lemma dec_Sign_rat: "dec_Sign d = (if decimal_rat d < 0 then -1 else if decimal_rat d = 0 then 0 else 1)"
  by (auto simp: dec_Sign_def decimal_rat_def divide_less_0_iff sgn_if)

lemma divHalfUp_rat: "d \<noteq> 0 \<Longrightarrow> divHalfUp n d = round_half_away (of_int n / of_int d)"
  by (simp add: round_half_away_quotient divHalfUp_def mult.commute)

lemma dec_Div_rat:
  assumes "dec_Div d e scale = Inr r"
  shows "decimal_rat r = of_int (round_half_away (decimal_rat d / decimal_rat e * 10 ^ nat scale)) / 10 ^ nat scale"
    and "dscale r = nat scale" and "decimal_ok r"
proof -
  have sc: "0 \<le> scale" and e0: "dvalue e \<noteq> 0"
    using assms by (auto simp: dec_Div_def dec_Sign_def sgn_if split: if_splits)
  let ?x = "scale + int (dscale e) - int (dscale d)"
  let ?n = "if ?x \<ge> 0 then dvalue d * pow10 (nat ?x) else dvalue d"
  let ?m = "if ?x \<ge> 0 then dvalue e else dvalue e * pow10 (nat (- ?x))"
  have r: "r = fromScaledInt (divHalfUp ?n ?m) (nat scale)"
    using assms sc e0 by (auto simp: dec_Div_def Let_def split: if_splits)
  have m0: "?m \<noteq> 0" using e0 by (simp add: pow10_def)
  have "(of_int ?n / of_int ?m :: rat) = decimal_rat d / decimal_rat e * 10 ^ nat scale"
  proof (cases "?x \<ge> 0")
    case True
    then have "nat ?x + dscale d = nat scale + dscale e" using sc by linarith
    then have "(10::rat) ^ nat ?x * 10 ^ dscale d = 10 ^ nat scale * 10 ^ dscale e"
      by (metis power_add)
    then show ?thesis using True e0 by (simp add: decimal_rat_def pow10_def field_simps)
  next
    case False
    then have "nat scale + dscale e + nat (- ?x) = dscale d" using sc by linarith
    then have "(10::rat) ^ nat scale * 10 ^ dscale e * 10 ^ nat (- ?x) = 10 ^ dscale d"
      by (metis power_add)
    then show ?thesis using False e0 by (simp add: decimal_rat_def pow10_def field_simps)
  qed
  then show "decimal_rat r = of_int (round_half_away (decimal_rat d / decimal_rat e * 10 ^ nat scale)) / 10 ^ nat scale"
    unfolding r fromScaledInt_rat divHalfUp_rat [OF m0] by (simp only:)
  show "dscale r = nat scale" "decimal_ok r" by (simp_all add: r)
qed

lemma dec_Div_total:
  "0 \<le> scale \<Longrightarrow> decimal_rat e \<noteq> 0 \<Longrightarrow> \<exists>r. dec_Div d e scale = Inr r"
  by (simp add: dec_Div_def dec_Sign_def decimal_rat_def Let_def sgn_if)

lemma dec_Quantize_rat:
  assumes "dec_Quantize d scale mode = Inr r"
  shows "decimal_rat r = of_int (round_half_away (decimal_rat d * 10 ^ nat scale)) / 10 ^ nat scale"
    and "dscale r = nat scale" and "decimal_ok r"
proof -
  have sc: "0 \<le> scale" using assms by (auto simp: dec_Quantize_def split: if_splits)
  show "decimal_rat r = of_int (round_half_away (decimal_rat d * 10 ^ nat scale)) / 10 ^ nat scale"
  proof (cases "scale \<ge> int (dscale d)")
    case True
    then have k: "nat scale = (nat scale - dscale d) + dscale d" by linarith
    have v: "decimal_rat d * 10 ^ nat scale = of_int (dvalue d * 10 ^ (nat scale - dscale d))"
      unfolding decimal_rat_def by (subst k) (simp add: power_add)
    have "r = fromScaledInt (dvalue d * 10 ^ (nat scale - dscale d)) (nat scale)"
      using assms True by (auto simp: dec_Quantize_def pow10_def split: if_splits)
    then show ?thesis unfolding v round_half_away_of_int by simp
  next
    case False
    then have k: "dscale d = (dscale d - nat scale) + nat scale" using sc by linarith
    have v: "decimal_rat d * 10 ^ nat scale = of_int (dvalue d) / of_int (10 ^ (dscale d - nat scale))"
      unfolding decimal_rat_def by (subst k) (simp add: power_add)
    have "r = fromScaledInt (divHalfUp (dvalue d) (10 ^ (dscale d - nat scale))) (nat scale)"
      using assms False by (auto simp: dec_Quantize_def pow10_def split: if_splits)
    then show ?thesis unfolding v by (simp add: divHalfUp_rat)
  qed
  show "dscale r = nat scale" "decimal_ok r"
    using assms by (auto simp: dec_Quantize_def split: if_splits)
qed

lemma dec_Quantize_total: "0 \<le> scale \<Longrightarrow> \<exists>r. dec_Quantize d scale HalfUp = Inr r"
  by (auto simp: dec_Quantize_def)


section \<open>Printing and parsing\<close>

text \<open>The padded numeral of a fraction: exactly \<open>k\<close> digits.\<close>

definition frac_digits :: "nat \<Rightarrow> nat \<Rightarrow> string" where
  "frac_digits k n = replicate (k - length (dec_of_nat n)) (CHR ''0'') @ dec_of_nat n"

lemma frac_digits_props:
  assumes "0 < k" "n < 10 ^ k"
  shows "length (frac_digits k n) = k" "all_digits (frac_digits k n)" "nat_of_dec (frac_digits k n) = n"
  using length_dec_of_nat_le [OF assms] by (simp_all add: frac_digits_def)

lemma digits_split:
  assumes "all_digits s" "k < length s"
  shows "nat_of_dec (take (length s - k) s) = nat_of_dec s div 10 ^ k"
    and "nat_of_dec (drop (length s - k) s) = nat_of_dec s mod 10 ^ k"
proof -
  let ?a = "take (length s - k) s" and ?b = "drop (length s - k) s"
  have "nat_of_dec s = nat_of_dec ?a * 10 ^ k + nat_of_dec ?b"
    using nat_of_dec_append [of ?a ?b] assms(2) by simp
  moreover have "all_digits ?b" "length ?b = k"
    using assms by (auto simp: all_digits_set dest: in_set_dropD)
  then have "nat_of_dec ?b < 10 ^ k" using nat_of_dec_less by metis
  ultimately show "nat_of_dec ?a = nat_of_dec s div 10 ^ k" "nat_of_dec ?b = nat_of_dec s mod 10 ^ k"
    by auto
qed

text \<open>Digit strings of one length are determined by their value.\<close>

lemma nat_of_dec_inj:
  "length s = length t \<Longrightarrow> all_digits s \<Longrightarrow> all_digits t \<Longrightarrow> nat_of_dec s = nat_of_dec t \<Longrightarrow> s = t"
proof (induction s t rule: rev_induct2)
  case (4 x xs y ys)
  then have "10 * nat_of_dec xs + digit_val x = 10 * nat_of_dec ys + digit_val y"
    "digit_val x < 10" "digit_val y < 10" by auto
  then have "nat_of_dec xs = nat_of_dec ys" "digit_val x = digit_val y" by presburger+
  then show ?case using 4 by (metis all_digits_simps digit_char_val length_append_singleton nat.inject)
qed auto

lemma frac_digits_eqI:
  assumes "length s = k" "all_digits s" "0 < k"
  shows "frac_digits k (nat_of_dec s) = s"
proof -
  have lt: "nat_of_dec s < 10 ^ k" using assms nat_of_dec_less by blast
  show ?thesis
    using frac_digits_props [OF assms(3) lt] assms by (intro nat_of_dec_inj) simp_all
qed

lemma formatScaled_eq:
  "formatScaled v k = (if v < 0 then ''-'' else []) @ dec_of_nat (nat \<bar>v\<bar> div 10 ^ k)
     @ (if k = 0 then [] else ''.'' @ frac_digits k (nat \<bar>v\<bar> mod 10 ^ k))"
proof (cases "k = 0")
  case False
  let ?n = "nat \<bar>v\<bar>"
  let ?ds = "dec_of_nat ?n"
  define p where "p = (if length ?ds \<le> k then replicate (k - length ?ds + 1) (CHR ''0'') @ ?ds else ?ds)"
  have p: "all_digits p" "k < length p" "nat_of_dec p = ?n"
    by (auto simp: p_def simp del: replicate.simps)
  let ?a = "take (length p - k) p" and ?b = "drop (length p - k) p"
  have b: "frac_digits k (?n mod 10 ^ k) = ?b"
  proof -
    have "length ?b = k" "all_digits ?b"
      using p by (auto simp: all_digits_set dest: in_set_dropD)
    then show ?thesis using frac_digits_eqI False digits_split [OF p(1,2)] p(3) by force
  qed
  have a: "dec_of_nat (?n div 10 ^ k) = ?a"
  proof -
    have "hd ?a \<noteq> CHR ''0'' \<or> ?a = ''0''"
    proof (cases "length ?ds \<le> k")
      case True
      then show ?thesis by (simp add: p_def)
    next
      case longer: False
      then have "0 < ?n" using False by (cases "?n = 0") (simp_all add: dec_of_nat.simps)
      then have "hd p \<noteq> CHR ''0''" using longer dec_of_nat_hd by (simp add: p_def)
      then show ?thesis using p(2) by (simp add: hd_take)
    qed
    moreover have "?a \<noteq> []" "all_digits ?a"
      using p by (auto simp: all_digits_set dest: in_set_takeD)
    ultimately have "dec_of_nat (nat_of_dec ?a) = ?a" using dec_of_nat_of_dec by blast
    then show ?thesis using digits_split [OF p(1,2)] p(3) by simp
  qed
  have "formatScaled v k = (if v < 0 then ''-'' else []) @ ?a @ ''.'' @ ?b"
    using False by (simp add: formatScaled_def Let_def p_def)
  then show ?thesis unfolding a b using False by simp
qed (simp add: formatScaled_def)

lemma nat_of_dec_trim: "nat_of_dec (trim_left (CHR ''0'') s) = nat_of_dec s"
  by (induction s) (auto simp: trim_left_def nat_of_dec_Cons)

lemma all_digits_trim: "all_digits s \<Longrightarrow> all_digits (trim_left c s)"
  by (auto simp: all_digits_set trim_left_def dest: set_dropWhileD)

lemma trim_left_hd: "trim_left c s \<noteq> [] \<Longrightarrow> hd (trim_left c s) \<noteq> c"
  by (induction s) (auto simp: trim_left_def)

lemma trim_left_zero_iff:
  assumes "all_digits s"
  shows "trim_left (CHR ''0'') s = [] \<longleftrightarrow> nat_of_dec s = 0"
proof
  assume "nat_of_dec s = 0"
  show "trim_left (CHR ''0'') s = []"
  proof (rule ccontr)
    assume ne: "trim_left (CHR ''0'') s \<noteq> []"
    then have "dec_of_nat (nat_of_dec s) = trim_left (CHR ''0'') s"
      using dec_of_nat_of_dec [OF all_digits_trim [OF assms] ne] trim_left_hd [OF ne]
      by (simp add: nat_of_dec_trim)
    then show False using trim_left_hd [OF ne] \<open>nat_of_dec s = 0\<close>
      by (metis digit_char_0 dec_of_nat.simps list.sel(1) zero_less_numeral)
  qed
qed (metis nat_of_dec_trim nat_of_dec_simps(1))

lemma integer_digits:
  assumes "all_digits s"
  shows "(if trim_left (CHR ''0'') s = [] then ''0'' else trim_left (CHR ''0'') s) = dec_of_nat (nat_of_dec s)"
proof (cases "trim_left (CHR ''0'') s = []")
  case True
  then have "nat_of_dec s = 0" using trim_left_zero_iff [OF assms] by simp
  then show ?thesis using True by (simp add: dec_of_nat.simps digit_char_0)
next
  case False
  then show ?thesis
    using dec_of_nat_of_dec [OF all_digits_trim [OF assms] False] trim_left_hd [OF False]
    by (simp add: nat_of_dec_trim)
qed

text \<open>
  What the body of \<^verbatim>\<open>ParseDecimal\<close> builds from the digits before and after the point, for a
  given sign: the normal form of the value, whatever zeros the input had in front.
\<close>

definition parsed :: "bool \<Rightarrow> string \<Rightarrow> string \<Rightarrow> decimal" where
  "parsed neg ip fp =
     fromScaledInt ((if neg then -1 else 1) * int (nat_of_dec (ip @ fp))) (length fp)"

definition unsigned_text :: "string \<Rightarrow> string \<Rightarrow> string" where
  "unsigned_text ip fp = ip @ (if fp = [] then [] else ''.'' @ fp)"

lemma parsed_text:
  assumes "all_digits ip" "all_digits fp" "0 < nat_of_dec (ip @ fp) \<or> \<not> neg"
  shows "dtext (parsed neg ip fp)
    = (if neg then ''-'' else []) @ unsigned_text (dec_of_nat (nat_of_dec ip)) fp"
proof -
  let ?n = "nat_of_dec (ip @ fp)"
  have n: "?n = nat_of_dec ip * 10 ^ length fp + nat_of_dec fp" by (rule nat_of_dec_append)
  have lt: "nat_of_dec fp < 10 ^ length fp" using assms(2) by (rule nat_of_dec_less)
  have "?n div 10 ^ length fp = nat_of_dec ip" "?n mod 10 ^ length fp = nat_of_dec fp"
    unfolding n using lt by auto
  moreover have "fp \<noteq> [] \<Longrightarrow> frac_digits (length fp) (nat_of_dec fp) = fp"
    using assms(2) by (intro frac_digits_eqI) auto
  moreover have "nat \<bar>(if neg then -1 else 1) * int ?n\<bar> = ?n" by (cases neg) simp_all
  moreover have "(if neg then -1 else 1) * int ?n < 0 \<longleftrightarrow> neg" using assms(3) by auto
  ultimately show ?thesis by (simp add: parsed_def formatScaled_eq unsigned_text_def)
qed

lemma ParseDecimal_parts:
  assumes inp: "trim_space inp = sg @ unsigned_text ip fp"
    and sg: "sg \<in> {[], ''-'', ''+'', ''+-''}"
    and digits: "all_digits ip" "ip \<noteq> []" "all_digits fp"
    and scale: "int (length fp) \<le> maxScale"
  shows "ParseDecimal inp maxScale = Inr (parsed (sg = ''-'') ip fp)"
proof -
  let ?u = "unsigned_text ip fp"
  have nodot: "CHR ''.'' \<notin> set ip" "CHR ''.'' \<notin> set fp"
    using digits by (auto simp: all_digits_set is_digit_def)
  have parts: "split_on (CHR ''.'') ?u = (if fp = [] then [ip] else [ip, fp])"
    using nodot by (auto simp: unsigned_text_def go_strings)
  have hd: "is_digit (hd ip)" using digits by (cases ip) auto
  have unsigned: "trim_prefix (trim_prefix (sg @ ?u) ''+'') ''-'' = ?u"
    using sg hd digits(2)
    by (cases ip) (auto simp: trim_prefix_def has_prefix_def unsigned_text_def is_digit_def)
  have neg: "has_prefix (sg @ ?u) ''-'' \<longleftrightarrow> sg = ''-''"
    using sg hd digits(2) by (cases ip) (auto simp: has_prefix_def unsigned_text_def is_digit_def)
  have noexp: "CHR ''e'' \<notin> set (sg @ ?u)" "CHR ''E'' \<notin> set (sg @ ?u)"
    using sg digits by (auto simp: unsigned_text_def all_digits_set is_digit_def split: if_splits)
  have ne: "sg @ ?u \<noteq> []" using digits(2) by (simp add: unsigned_text_def)
  have all: "list_all is_digit ip" "list_all is_digit fp" using digits by (simp_all add: all_digits_def)
  let ?t = "trim_left (CHR ''0'') (ip @ fp)"
  let ?neg = "if ?t = [] then False else sg = ''-''"
  have t: "?t = [] \<longleftrightarrow> nat_of_dec (ip @ fp) = 0"
    using digits by (intro trim_left_zero_iff) simp
  have same: "parsed (sg = ''-'') ip fp = parsed ?neg ip fp"
    using t by (auto simp: parsed_def)
  have txt1: "dtext (parsed ?neg ip fp)
      = (if ?neg then ''-'' else []) @ unsigned_text (dec_of_nat (nat_of_dec ip)) fp"
    using digits t by (intro parsed_text) auto
  have val: "(if ?neg then - int (nat_of_dec (if ?t = [] then ''0'' else ?t))
      else int (nat_of_dec (if ?t = [] then ''0'' else ?t))) = dvalue (parsed ?neg ip fp)"
    using t by (auto simp: parsed_def nat_of_dec_trim)
  have sc: "dscale (parsed ?neg ip fp) = length fp" by (simp add: parsed_def)
  have frac: "(if length (split_on (CHR ''.'') ?u) = 2 then split_on (CHR ''.'') ?u ! 1 else []) = fp"
    "split_on (CHR ''.'') ?u ! 0 = ip"
    using parts by (auto split: if_splits)
  have rec: "\<lparr>dtext = (if ?neg then ''-'' @ (if fp \<noteq> [] then dec_of_nat (nat_of_dec ip) @ ''.'' @ fp
              else dec_of_nat (nat_of_dec ip))
            else (if fp \<noteq> [] then dec_of_nat (nat_of_dec ip) @ ''.'' @ fp else dec_of_nat (nat_of_dec ip))),
          dscale = length fp, dvalue = dvalue (parsed ?neg ip fp)\<rparr> = parsed ?neg ip fp"
    using txt1 sc by (cases "parsed ?neg ip fp") (auto simp: unsigned_text_def)
  have guards: "\<not> (length (split_on (CHR ''.'') ?u) > 2 \<or> ip = []
      \<or> (length (split_on (CHR ''.'') ?u) = 2 \<and> split_on (CHR ''.'') ?u ! 1 = [])
      \<or> (length (split_on (CHR ''.'') ?u) = 2 \<and> int (length (split_on (CHR ''.'') ?u ! 1)) > maxScale))"
    "list_all (list_all is_digit) (split_on (CHR ''.'') ?u)" "\<not> maxScale < 0"
    using parts digits scale all by (auto split: if_splits)
  show ?thesis
    unfolding same ParseDecimal_def Let_def inp unsigned neg frac integer_digits [OF digits(1)] val rec
    using guards noexp ne by simp
qed

lemma sign_prefix_cases:
  obtains sg where "sg \<in> {[], ''-'', ''+'', ''+-''}"
    "s = sg @ trim_prefix (trim_prefix s ''+'') ''-''"
proof -
  have strip: "t = p @ trim_prefix t p \<or> t = trim_prefix t p" for t p :: string
    by (metis append_take_drop_id has_prefix_def trim_prefix_def)
  show thesis
    using strip [of s "''+''"] strip [of "trim_prefix s ''+''" "''-''"] that by force
qed

lemma ParseDecimal_InrD:
  assumes "ParseDecimal inp maxScale = Inr d"
  obtains sg ip fp where "trim_space inp = sg @ unsigned_text ip fp" "sg \<in> {[], ''-'', ''+'', ''+-''}"
    "all_digits ip" "ip \<noteq> []" "all_digits fp" "int (length fp) \<le> maxScale"
proof -
  let ?in = "trim_space inp"
  let ?u = "trim_prefix (trim_prefix ?in ''+'') ''-''"
  let ?ps = "split_on (CHR ''.'') ?u"
  obtain sg where sg: "sg \<in> {[], ''-'', ''+'', ''+-''}" "?in = sg @ ?u" by (rule sign_prefix_cases)
  have ok: "\<not> maxScale < 0" "\<not> 2 < length ?ps" "?ps ! 0 \<noteq> []"
    "length ?ps = 2 \<Longrightarrow> ?ps ! 1 \<noteq> [] \<and> int (length (?ps ! 1)) \<le> maxScale"
    "list_all (list_all is_digit) ?ps"
    using assms by (auto simp: ParseDecimal_def Let_def split: if_splits)
  have "length ?ps = 1 \<or> length ?ps = 2"
  proof -
    have "0 < length ?ps" by simp
    then show ?thesis using ok(2) by linarith
  qed
  then show thesis
  proof
    assume "length ?ps = 1"
    then obtain ip where ip: "?ps = [ip]" by (auto simp: length_Suc_conv)
    then have "?u = ip" by (rule split_on_singleton)
    then show thesis using that [of sg ip "[]"] sg ip ok by (simp add: unsigned_text_def all_digits_def)
  next
    assume "length ?ps = 2"
    then obtain ip fp where ps: "?ps = [ip, fp]" by (auto simp: length_Suc_conv numeral_2_eq_2)
    then have "?u = ip @ CHR ''.'' # fp" by (rule split_on_two)
    then show thesis using that [of sg ip fp] sg ps ok by (simp add: unsigned_text_def all_digits_def)
  qed
qed

lemma parsed_ok [simp]: "decimal_ok (parsed neg ip fp)"
  by (simp add: parsed_def)

lemma ParseDecimal_ok:
  assumes "ParseDecimal inp k = Inr d" shows "decimal_ok d \<and> int (dscale d) \<le> k"
proof -
  obtain sg ip fp where p: "trim_space inp = sg @ unsigned_text ip fp" "sg \<in> {[], ''-'', ''+'', ''+-''}"
    "all_digits ip" "ip \<noteq> []" "all_digits fp" "int (length fp) \<le> k"
    using assms by (rule ParseDecimal_InrD)
  then have "d = parsed (sg = ''-'') ip fp" using ParseDecimal_parts [OF p] assms by simp
  then show ?thesis using p(6) by (simp add: parsed_def)
qed

lemma decimal_ok_text:
  assumes "decimal_ok d"
  shows "dtext d = (if dvalue d < 0 then ''-'' else [])
      @ unsigned_text (dec_of_nat (nat \<bar>dvalue d\<bar> div 10 ^ dscale d))
          (if dscale d = 0 then [] else frac_digits (dscale d) (nat \<bar>dvalue d\<bar> mod 10 ^ dscale d))"
proof -
  have "0 < dscale d \<Longrightarrow> frac_digits (dscale d) (nat \<bar>dvalue d\<bar> mod 10 ^ dscale d) \<noteq> []"
    by (simp add: frac_digits_def)
  then show ?thesis using assms by (simp add: decimal_ok_def formatScaled_eq unsigned_text_def)
qed

lemma dec_of_nat_digit: "is_digit (hd (dec_of_nat n))" "is_digit (last (dec_of_nat n))"
  using all_digits_dec_of_nat [of n] hd_in_set [OF dec_of_nat_nonempty [of n]]
    last_in_set [OF dec_of_nat_nonempty [of n]]
  unfolding all_digits_set by blast+

lemma trim_space_decimal_text:
  assumes "decimal_ok d" shows "trim_space (dtext d) = dtext d"
proof (rule trim_space_plain)
  let ?i = "dec_of_nat (nat \<bar>dvalue d\<bar> div 10 ^ dscale d)"
  let ?f = "frac_digits (dscale d) (nat \<bar>dvalue d\<bar> mod 10 ^ dscale d)"
  have hd: "is_digit (hd ?i)" "is_digit (last ?i)" "is_digit (last ?f)"
    using dec_of_nat_digit by (simp_all add: frac_digits_def)
  have minus: "plain_char (CHR ''-'')" by (simp add: plain_char_def)
  show "plain_char (hd (dtext d))" "plain_char (last (dtext d))"
    unfolding decimal_ok_text [OF assms] unsigned_text_def
    using hd minus by (auto simp: hd_append last_append frac_digits_def)
qed

lemma Parse_String:
  assumes ok: "decimal_ok d" and sc: "int (dscale d) \<le> k"
  shows "ParseDecimal (dec_String d) k = Inr d"
proof -
  let ?n = "nat \<bar>dvalue d\<bar>"
  let ?i = "dec_of_nat (?n div 10 ^ dscale d)"
  let ?f = "if dscale d = 0 then [] else frac_digits (dscale d) (?n mod 10 ^ dscale d)"
  let ?sg = "if dvalue d < 0 then ''-'' else []"
  have tx: "dtext d = ?sg @ unsigned_text ?i ?f" by (rule decimal_ok_text [OF ok])
  have f: "length ?f = dscale d" "all_digits ?f" "nat_of_dec ?f = ?n mod 10 ^ dscale d"
    using frac_digits_props [of "dscale d" "?n mod 10 ^ dscale d"] by auto
  have str: "dec_String d = dtext d"
    using tx by (auto simp: dec_String_def unsigned_text_def split: if_splits)
  have "ParseDecimal (dtext d) k = Inr (parsed (?sg = ''-'') ?i ?f)"
    using f sc trim_space_decimal_text [OF ok] tx by (intro ParseDecimal_parts) auto
  moreover have "nat_of_dec (?i @ ?f) = ?n"
    unfolding nat_of_dec_append f(1,3) nat_of_dec_of_nat by (rule div_mult_mod_eq)
  then have "parsed (?sg = ''-'') ?i ?f = d"
    using decimal_ok_unique [OF ok] by (simp add: parsed_def f(1))
  ultimately show ?thesis by (simp add: str)
qed


section \<open>The interface clients rely on\<close>

text \<open>
  Clients compute with decimals only through these operations.  \<open>val\<close> is the number a decimal
  denotes; the laws say that addition, subtraction, multiplication and comparison are exact and that
  quantizing rounds half away from zero.
\<close>

locale exact_decimal =
  fixes val :: "'d \<Rightarrow> rat"
    and add :: "'d \<Rightarrow> 'd \<Rightarrow> 'd"
    and sub :: "'d \<Rightarrow> 'd \<Rightarrow> 'd"
    and mul :: "'d \<Rightarrow> 'd \<Rightarrow> 'd"
    and cmp :: "'d \<Rightarrow> 'd \<Rightarrow> int"
    and quantize :: "'d \<Rightarrow> int \<Rightarrow> 'e + 'd"
  assumes val_add: "val (add a b) = val a + val b"
    and val_sub: "val (sub a b) = val a - val b"
    and val_mul: "val (mul a b) = val a * val b"
    and cmp_val: "cmp a b = (if val a < val b then -1 else if val a = val b then 0 else 1)"
    and quantize_val: "0 \<le> k \<Longrightarrow>
      \<exists>r. quantize a k = Inr r \<and> val r = of_int (round_half_away (val a * 10 ^ nat k)) / 10 ^ nat k"
begin

lemmas exact = val_add val_sub val_mul

lemma cmp_less: "cmp a b < 0 \<longleftrightarrow> val a < val b"
  and cmp_le: "cmp a b \<le> 0 \<longleftrightarrow> val a \<le> val b"
  and cmp_ge: "0 \<le> cmp a b \<longleftrightarrow> val b \<le> val a"
  and cmp_gt: "0 < cmp a b \<longleftrightarrow> val b < val a"
  and cmp_eq: "cmp a b = 0 \<longleftrightarrow> val a = val b"
  by (auto simp: cmp_val)

lemma smaller_val: "val (if cmp a b \<le> 0 then a else b) = min (val a) (val b)"
  by (auto simp: cmp_le)

lemma larger_val: "val (if 0 \<le> cmp a b then a else b) = max (val a) (val b)"
  by (auto simp: cmp_ge)

lemma quantize_error:
  assumes "0 \<le> k" "quantize a k = Inr r"
  shows "\<bar>val r - val a\<bar> \<le> 1 / (2 * 10 ^ nat k)"
proof -
  have r: "val r = of_int (round_half_away (val a * 10 ^ nat k)) / 10 ^ nat k"
    using quantize_val [OF assms(1), of a] assms(2) by auto
  have "\<bar>val r * 10 ^ nat k - val a * 10 ^ nat k\<bar> \<le> 1/2"
    using round_half_away_error [of "val a * 10 ^ nat k"] by (simp add: r)
  then have "\<bar>val r - val a\<bar> * 10 ^ nat k \<le> 1/2"
    by (simp add: abs_mult flip: left_diff_distrib)
  then show ?thesis by (simp add: field_simps)
qed

text \<open>Values with at most \<open>k\<close> decimals are fixed points, and closed under sums.\<close>

definition on_grid :: "nat \<Rightarrow> 'd \<Rightarrow> bool" where
  "on_grid k a = (\<exists>n. val a = of_int n / 10 ^ k)"

lemma quantize_on_grid: "0 \<le> k \<Longrightarrow> quantize a k = Inr r \<Longrightarrow> on_grid (nat k) r"
  using quantize_val [of k a] by (auto simp: on_grid_def)

lemma quantize_fixed: "0 \<le> k \<Longrightarrow> on_grid (nat k) a \<Longrightarrow> quantize a k = Inr r \<Longrightarrow> val r = val a"
  using quantize_val [of k a] by (auto simp: on_grid_def)

lemma on_grid_add: "on_grid k a \<Longrightarrow> on_grid k b \<Longrightarrow> on_grid k (add a b)"
  unfolding on_grid_def val_add by (metis add_divide_distrib of_int_add)

lemma on_grid_sub: "on_grid k a \<Longrightarrow> on_grid k b \<Longrightarrow> on_grid k (sub a b)"
  unfolding on_grid_def val_sub by (metis diff_divide_distrib of_int_diff)

lemma quantize_mono:
  assumes "0 \<le> k" "val a \<le> val b" "quantize a k = Inr r" "quantize b k = Inr t"
  shows "val r \<le> val t"
proof -
  have "round_half_away (val a * 10 ^ nat k) \<le> round_half_away (val b * 10 ^ nat k)"
    using assms(2) by (intro round_half_away_mono) simp
  then show ?thesis
    using quantize_val [OF assms(1), of a] quantize_val [OF assms(1), of b] assms(3,4)
    by (auto simp: divide_right_mono)
qed

lemma quantize_nonneg:
  assumes "0 \<le> k" "0 \<le> val a" "quantize a k = Inr r" shows "0 \<le> val r"
proof -
  have "0 \<le> round_half_away (val a * 10 ^ nat k)" using assms by (intro round_half_away_nonneg) simp
  then show ?thesis using quantize_val [OF assms(1), of a] assms(3) by auto
qed

end

interpretation md: exact_decimal decimal_rat dec_Add dec_Sub dec_Mul dec_Cmp "\<lambda>d k. dec_Quantize d k HalfUp"
proof unfold_locales
  fix k a assume "(0::int) \<le> k"
  then show "\<exists>r. dec_Quantize a k HalfUp = Inr r
      \<and> decimal_rat r = of_int (round_half_away (decimal_rat a * 10 ^ nat k)) / 10 ^ nat k"
    using dec_Quantize_total dec_Quantize_rat(1) by blast
qed (simp_all add: dec_Cmp_rat)


section \<open>Properties\<close>

text \<open>The texts that are decimals with at most \<open>maxScale\<close> fraction digits: sign text, integer digits, fraction digits.\<close>

definition decimal_shape :: "string \<Rightarrow> int \<Rightarrow> string \<Rightarrow> string \<Rightarrow> string \<Rightarrow> bool" where
  "decimal_shape inp maxScale sg ip fp =
     (trim_space inp = sg @ ip @ (if fp = [] then [] else ''.'' @ fp)
      \<and> sg \<in> {[], ''-'', ''+'', ''+-''} \<and> all_digits ip \<and> ip \<noteq> [] \<and> all_digits fp \<and> int (length fp) \<le> maxScale)"

lemma ParseDecimal_error: "ParseDecimal inp maxScale = Inl e \<Longrightarrow> e = ErrInvalidDecimal"
  by (auto simp: ParseDecimal_def Let_def split: if_splits)

text \<open>
  Claim C14.  \<^verbatim>\<open>ParseDecimal\<close> accepts exactly: a sign text, at least one digit, and optionally a point with
  between one and \<^verbatim>\<open>maxScale\<close> digits, with white space around it.  The sign text is empty, a minus, a plus, or
  (a slip of the code, which strips both prefixes) a plus followed by a minus.  The result is the decimal in
  normal form whose value is those digits at that scale, negated when the sign text is the minus alone: the
  minus of \<open>+-5\<close> is dropped and the text read as 5.  On every other text it answers \<^verbatim>\<open>ErrInvalidDecimal\<close>, and it has no
  other error.
\<close>

theorem ParseDecimal_spec:
  "(ParseDecimal inp maxScale = Inr d \<longleftrightarrow>
     (\<exists>sg ip fp. decimal_shape inp maxScale sg ip fp
        \<and> d = fromScaledInt ((if sg = ''-'' then -1 else 1) * int (nat_of_dec (ip @ fp))) (length fp)))
   \<and> (ParseDecimal inp maxScale = Inl e \<longleftrightarrow> e = ErrInvalidDecimal \<and> (\<nexists>sg ip fp. decimal_shape inp maxScale sg ip fp))"
proof -
  let ?v = "\<lambda>sg ip fp. fromScaledInt ((if sg = ''-'' then -1 else 1) * int (nat_of_dec (ip @ fp))) (length fp)"
  have accept: "ParseDecimal inp maxScale = Inr (?v sg ip fp)" if "decimal_shape inp maxScale sg ip fp" for sg ip fp
    using that by (simp add: decimal_shape_def ParseDecimal_parts parsed_def unsigned_text_def)
  have shape: "\<exists>sg ip fp. decimal_shape inp maxScale sg ip fp" if "ParseDecimal inp maxScale = Inr x" for x
    using ParseDecimal_InrD [OF that] unfolding decimal_shape_def unsigned_text_def by metis
  show ?thesis
  proof (cases "\<exists>sg ip fp. decimal_shape inp maxScale sg ip fp")
    case True
    then show ?thesis using accept by (metis Inr_inject sum.distinct(1))
  next
    case False
    then obtain e' where "ParseDecimal inp maxScale = Inl e'" using shape by (cases "ParseDecimal inp maxScale") auto
    then show ?thesis using False ParseDecimal_error by auto
  qed
qed

text \<open>
  Claim C16.  Printing and parsing are inverse: a decimal in normal form (every result of the package,
  see the next claim) prints to a text that parses back to the same value, scale and text, under any
  limit that admits its scale.
\<close>

theorem decimal_roundtrip:
  assumes "decimal_ok d" "int (dscale d) \<le> k"
  shows "ParseDecimal (dec_String d) k = Inr d"
  using assms by (rule Parse_String)

theorem decimal_roundtrip_witness:
  "decimal_ok (fromScaledInt (- 1205) 2) \<and> ParseDecimal (dec_String (fromScaledInt (- 1205) 2)) 4
     = Inr (fromScaledInt (- 1205) 2)"
  using decimal_roundtrip [of "fromScaledInt (- 1205) 2" 4] by simp

text \<open>
  Claim C15.  Addition, subtraction, multiplication and comparison are exact on the denoted rational
  numbers, at the scales the code documents, and every result is in normal form.
\<close>

theorem decimal_arith_exact:
  "decimal_rat (dec_Add d e) = decimal_rat d + decimal_rat e
   \<and> decimal_rat (dec_Sub d e) = decimal_rat d - decimal_rat e
   \<and> decimal_rat (dec_Mul d e) = decimal_rat d * decimal_rat e
   \<and> dscale (dec_Add d e) = max (dscale d) (dscale e)
   \<and> dscale (dec_Sub d e) = max (dscale d) (dscale e)
   \<and> dscale (dec_Mul d e) = dscale d + dscale e
   \<and> decimal_ok (dec_Add d e) \<and> decimal_ok (dec_Sub d e) \<and> decimal_ok (dec_Mul d e)
   \<and> (dec_Cmp d e < 0 \<longleftrightarrow> decimal_rat d < decimal_rat e)
   \<and> (dec_Cmp d e = 0 \<longleftrightarrow> decimal_rat d = decimal_rat e)
   \<and> (dec_Equal d e \<longleftrightarrow> decimal_rat d = decimal_rat e)
   \<and> (dec_Sign d < 0 \<longleftrightarrow> decimal_rat d < 0) \<and> (dec_Sign d = 0 \<longleftrightarrow> decimal_rat d = 0)"
proof -
  have "dscale (dec_Add d e) = max (dscale d) (dscale e)" "dscale (dec_Sub d e) = max (dscale d) (dscale e)"
    "decimal_ok (dec_Add d e)" "decimal_ok (dec_Sub d e)"
    by (cases "aligned d e"; simp add: dec_Add_def dec_Sub_def go_max_def max_def)+
  then show ?thesis
    by (simp add: md.cmp_less md.cmp_eq dec_Equal_rat dec_Sign_rat dec_Mul_def [THEN arg_cong, of dscale]
        dec_Mul_def [THEN arg_cong, of decimal_ok])
qed

text \<open>
  \<^verbatim>\<open>Div\<close> and \<^verbatim>\<open>Quantize\<close> succeed exactly when the target scale is non-negative (and,
  for \<^verbatim>\<open>Div\<close>, the divisor non-zero), and then return the quotient, respectively the value, rounded
  half away from zero at that scale.
\<close>

theorem decimal_rounding:
  "dec_Div d e k =
     (if k < 0 then Inl ErrInvalidScale
      else if decimal_rat e = 0 then Inl ErrDivisionByZero
      else Inr (fromScaledInt (round_half_away (decimal_rat d / decimal_rat e * 10 ^ nat k)) (nat k)))
   \<and> dec_Quantize d k HalfUp =
     (if k < 0 then Inl ErrInvalidScale
      else Inr (fromScaledInt (round_half_away (decimal_rat d * 10 ^ nat k)) (nat k)))"
proof -
  have unique: "r = fromScaledInt v (nat k)"
    if "decimal_rat r = of_int v / 10 ^ nat k" "dscale r = nat k" "decimal_ok r" for r v
  proof -
    have "dvalue r = v" using that(1,2) by (simp add: decimal_rat_def)
    then show ?thesis using decimal_ok_unique [OF that(3)] that(2) by simp
  qed
  have "dec_Div d e k = Inr (fromScaledInt (round_half_away (decimal_rat d / decimal_rat e * 10 ^ nat k)) (nat k))"
    if nz: "0 \<le> k" "decimal_rat e \<noteq> 0"
  proof -
    obtain r where "dec_Div d e k = Inr r" using dec_Div_total [OF nz] by blast
    then show ?thesis using dec_Div_rat unique by metis
  qed
  moreover have "dec_Quantize d k HalfUp = Inr (fromScaledInt (round_half_away (decimal_rat d * 10 ^ nat k)) (nat k))"
    if nn: "0 \<le> k"
  proof -
    obtain r where "dec_Quantize d k HalfUp = Inr r" using dec_Quantize_total [OF nn] by blast
    then show ?thesis using dec_Quantize_rat unique by metis
  qed
  moreover have "decimal_rat e = 0 \<longleftrightarrow> dec_Sign e = 0" by (simp add: dec_Sign_rat)
  ultimately show ?thesis by (auto simp: dec_Div_def dec_Quantize_def)
qed

end
