(* ===== verification/Go_Rat.thy ===== *)
theory Go_Rat
  imports Money
begin

text \<open>
  The part of Go's \<^verbatim>\<open>math/big.Rat\<close> the sources use on amounts: reading a decimal text
  (\<^verbatim>\<open>SetString\<close>), writing a fraction (\<^verbatim>\<open>RatString\<close>) and a fixed number of decimals
  (\<^verbatim>\<open>FloatString\<close>), and the quotient and remainder of \<^verbatim>\<open>Num\<close> and \<^verbatim>\<open>Denom\<close>.  The grammar of
  \<^verbatim>\<open>SetString\<close> is the decimal one (sign, digits, point, exponent, or a fraction of two decimal
  integers); base prefixes and digit separators, which no text of the system carries, are rejected
  here.
\<close>

section \<open>Reading\<close>

definition take_sign :: "string \<Rightarrow> bool \<times> string" where
  "take_sign s = (case s of
     [] \<Rightarrow> (False, [])
   | c # cs \<Rightarrow> if c = CHR ''-'' then (True, cs) else if c = CHR ''+'' then (False, cs) else (False, s))"

text \<open>Mantissa with at least one digit and at most one point: digits before, digits after.\<close>

definition read_mantissa :: "string \<Rightarrow> (string \<times> string) option" where
  "read_mantissa s = (case split_on (CHR ''.'') s of
     [ip] \<Rightarrow> if ip \<noteq> [] \<and> all_digits ip then Some (ip, []) else None
   | [ip, fp] \<Rightarrow> if ip @ fp \<noteq> [] \<and> all_digits ip \<and> all_digits fp then Some (ip, fp) else None
   | _ \<Rightarrow> None)"

definition read_exponent :: "string \<Rightarrow> int option" where
  "read_exponent s = (case take_sign s of (neg, ds) \<Rightarrow>
     if ds \<noteq> [] \<and> all_digits ds then Some ((if neg then -1 else 1) * int (nat_of_dec ds)) else None)"

definition pow10_rat :: "int \<Rightarrow> rat" where
  "pow10_rat e = (if 0 \<le> e then 10 ^ nat e else 1 / 10 ^ nat (- e))"

definition read_decimal :: "string \<Rightarrow> rat option" where
  "read_decimal s =
     (let (neg, body) = take_sign s;
          mant = takeWhile (\<lambda>c. c \<noteq> CHR ''e'' \<and> c \<noteq> CHR ''E'') body;
          rest = drop (length mant) body in
      case read_mantissa mant of
        None \<Rightarrow> None
      | Some (ip, fp) \<Rightarrow>
          (case (if rest = [] then Some 0 else read_exponent (tl rest)) of
             None \<Rightarrow> None
           | Some e \<Rightarrow> Some ((if neg then -1 else 1) * of_nat (nat_of_dec (ip @ fp))
                              * pow10_rat (e - int (length fp)))))"

definition read_fraction :: "string \<Rightarrow> string \<Rightarrow> rat option" where
  "read_fraction a b =
     (case take_sign a of (neg, ds) \<Rightarrow>
        if all_digits ds \<and> all_digits b \<and> ds \<noteq> [] \<and> b \<noteq> [] \<and> nat_of_dec b \<noteq> 0
           \<and> (hd ds \<noteq> CHR ''0'' \<or> ds = ''0'') \<and> hd b \<noteq> CHR ''0''
        then Some ((if neg then -1 else 1) * of_nat (nat_of_dec ds) / of_nat (nat_of_dec b))
        else None)"

definition rat_SetString :: "string \<Rightarrow> rat option" where
  "rat_SetString s = (case split_on (CHR ''/'') s of
     [_] \<Rightarrow> read_decimal s
   | [a, b] \<Rightarrow> read_fraction a b
   | _ \<Rightarrow> None)"

section \<open>Numerator and denominator\<close>

definition rat_num :: "rat \<Rightarrow> int" where
  "rat_num x = fst (quotient_of x)"

definition rat_den :: "rat \<Rightarrow> int" where
  "rat_den x = snd (quotient_of x)"

lemma rat_den_pos [simp]: "0 < rat_den x"
  by (simp add: rat_den_def quotient_of_denom_pos')

lemma rat_num_den: "x = of_int (rat_num x) / of_int (rat_den x)"
  by (metis prod.collapse quotient_of_div rat_den_def rat_num_def)

lemma rat_num_nonneg [simp]: "0 \<le> rat_num x \<longleftrightarrow> 0 \<le> x"
proof -
  have "(0 \<le> x) = (0 \<le> (of_int (rat_num x) / of_int (rat_den x) :: rat))"
    by (rule arg_cong [OF rat_num_den])
  then show ?thesis using rat_den_pos [of x] by (auto simp: zero_le_divide_iff)
qed

lemma num_mult_div_den: "rat_num x * c div rat_den x = \<lfloor>x * of_int c\<rfloor>"
proof -
  have "x * of_int c = of_int (rat_num x * c) / of_int (rat_den x)"
    by (subst rat_num_den [of x]) simp
  then show ?thesis by (simp only: floor_divide_of_int_eq)
qed

lemma num_div_den: "rat_num x div rat_den x = \<lfloor>x\<rfloor>"
  using num_mult_div_den [of x 1] by simp

lemma num_mod_den: "of_int (rat_num x mod rat_den x) / of_int (rat_den x) = x - of_int \<lfloor>x\<rfloor>"
proof -
  have "of_int (rat_num x mod rat_den x) = (of_int (rat_num x) - of_int (rat_den x) * of_int \<lfloor>x\<rfloor> :: rat)"
    by (simp add: num_div_den [symmetric] minus_mult_div_eq_mod [symmetric])
  then show ?thesis
    by (simp add: diff_divide_distrib rat_num_den [symmetric] less_imp_neq [OF rat_den_pos, symmetric])
qed

lemma rem_mult_div_den: "(rat_num x mod rat_den x) * c div rat_den x = \<lfloor>(x - of_int \<lfloor>x\<rfloor>) * of_int c\<rfloor>"
proof -
  have "(x - of_int \<lfloor>x\<rfloor>) * of_int c = of_int ((rat_num x mod rat_den x) * c) / of_int (rat_den x)"
    by (simp add: num_mod_den [symmetric])
  then show ?thesis by (simp only: floor_divide_of_int_eq)
qed

section \<open>Writing\<close>

definition int_String :: "int \<Rightarrow> string" where
  "int_String n = (if n < 0 then ''-'' @ dec_of_nat (nat \<bar>n\<bar>) else dec_of_nat (nat n))"

definition rat_RatString :: "rat \<Rightarrow> string" where
  "rat_RatString x =
     (if rat_den x = 1 then int_String (rat_num x)
      else int_String (rat_num x) @ ''/'' @ int_String (rat_den x))"

definition rat_FloatString :: "nat \<Rightarrow> rat \<Rightarrow> string" where
  "rat_FloatString prec x =
     (if rat_den x = 1
      then int_String (rat_num x) @ (if 0 < prec then ''.'' @ replicate prec (CHR ''0'') else [])
      else
        let a = \<bar>rat_num x\<bar>; b = rat_den x; p = 10 ^ prec;
            q = a div b; r0 = (a mod b) * p;
            r = r0 div b; r2 = r0 mod b;
            up = b \<le> r2 + r2;
            r' = (if up then r + 1 else r);
            q' = (if up \<and> p \<le> r' then q + 1 else q);
            r'' = (if up \<and> p \<le> r' then r' - p else r') in
        (if rat_num x < 0 then ''-'' else []) @ dec_of_nat (nat q')
        @ (if 0 < prec
           then ''.'' @ replicate (prec - length (dec_of_nat (nat r''))) (CHR ''0'') @ dec_of_nat (nat r'')
           else []))"

section \<open>Decimal texts denote their value\<close>

lemma take_sign_digits: "is_digit (hd s) \<Longrightarrow> take_sign s = (False, s)"
  by (cases s) (auto simp: take_sign_def is_digit_def)

lemma read_mantissa_text:
  assumes "all_digits ip" "all_digits fp" "ip \<noteq> []"
  shows "read_mantissa (unsigned_text ip fp) = Some (ip, fp)"
proof -
  have "CHR ''.'' \<notin> set ip" "CHR ''.'' \<notin> set fp" using assms by (auto simp: all_digits_set is_digit_def)
  then show ?thesis using assms by (auto simp: read_mantissa_def unsigned_text_def go_strings)
qed

lemma rat_SetString_text:
  assumes "all_digits ip" "all_digits fp" "ip \<noteq> []"
  shows "rat_SetString ((if neg then ''-'' else []) @ unsigned_text ip fp)
    = Some ((if neg then -1 else 1) * of_nat (nat_of_dec (ip @ fp)) / 10 ^ length fp)"
proof -
  let ?u = "unsigned_text ip fp"
  have chars: "c \<in> set ?u \<Longrightarrow> is_digit c \<or> c = CHR ''.''" for c
    using assms by (auto simp: unsigned_text_def all_digits_set split: if_splits)
  have "CHR ''/'' \<notin> set ((if neg then ''-'' else []) @ ?u)"
    using chars [of "CHR ''/''"] by (auto simp: is_digit_def)
  then have sp: "split_on (CHR ''/'') ((if neg then ''-'' else []) @ ?u) = [(if neg then ''-'' else []) @ ?u]"
    by (rule split_on_no_sep)
  have hd: "is_digit (hd ?u)" using assms by (cases ip) (auto simp: unsigned_text_def)
  have sign: "take_sign ((if neg then ''-'' else []) @ ?u) = (neg, ?u)"
    using take_sign_digits [OF hd] by (cases neg) (simp add: take_sign_def, simp)
  have mant: "takeWhile (\<lambda>c. c \<noteq> CHR ''e'' \<and> c \<noteq> CHR ''E'') ?u = ?u"
    using chars [of "CHR ''e''"] chars [of "CHR ''E''"]
    by (subst takeWhile_eq_all_conv) (auto simp: is_digit_def)
  have "pow10_rat (0 - int (length fp)) = 1 / 10 ^ length fp" by (simp add: pow10_rat_def)
  then show ?thesis
    unfolding rat_SetString_def sp read_decimal_def
    by (simp add: sign mant read_mantissa_text [OF assms])
qed

lemma rat_SetString_decimal:
  assumes "decimal_ok d" shows "rat_SetString (dec_String d) = Some (decimal_rat d)"
proof -
  let ?n = "nat \<bar>dvalue d\<bar>"
  let ?i = "dec_of_nat (?n div 10 ^ dscale d)"
  let ?f = "if dscale d = 0 then [] else frac_digits (dscale d) (?n mod 10 ^ dscale d)"
  have f: "length ?f = dscale d" "all_digits ?f" "nat_of_dec ?f = ?n mod 10 ^ dscale d"
    using frac_digits_props [of "dscale d" "?n mod 10 ^ dscale d"] by auto
  have n: "nat_of_dec (?i @ ?f) = ?n"
    unfolding nat_of_dec_append f(1,3) nat_of_dec_of_nat by (rule div_mult_mod_eq)
  have "dec_String d = (if dvalue d < 0 then ''-'' else []) @ unsigned_text ?i ?f"
    using decimal_ok_text [OF assms] by (auto simp: dec_String_def unsigned_text_def split: if_splits)
  moreover have "of_nat ?n = (\<bar>of_int (dvalue d)\<bar> :: rat)" by simp
  ultimately show ?thesis
    using rat_SetString_text [of ?i ?f "dvalue d < 0"] f(1,2) n by (simp add: decimal_rat_def)
qed

section \<open>Writing back a scaled integer\<close>

lemma frac_digits_zero: "0 < k \<Longrightarrow> frac_digits k 0 = replicate k (CHR ''0'')"
proof -
  assume "0 < k"
  then have "frac_digits k 0 = replicate (k - 1) (CHR ''0'') @ [CHR ''0'']" by (simp add: frac_digits_def dec_of_nat.simps [of 0] digit_char_0)
  then show ?thesis using \<open>0 < k\<close> by (cases k) (simp_all add: replicate_append_same)
qed

lemma FloatString_scaled: "rat_FloatString k (of_int v / 10 ^ k) = formatScaled v k"
proof -
  let ?x = "of_int v / 10 ^ k :: rat" and ?p = "10 ^ k :: int"
  define a b n where "a = \<bar>rat_num ?x\<bar>" and "b = rat_den ?x" and "n = \<bar>v\<bar>"
  have b: "0 < b" by (simp add: b_def)
  have "(of_int (rat_num ?x * ?p) :: rat) = of_int (v * b)"
    using arg_cong [OF rat_num_den [of ?x], of "\<lambda>y. y * 10 ^ k * of_int b"] b unfolding b_def [symmetric] by simp
  then have num: "rat_num ?x * ?p = v * b" by (simp only: of_int_eq_iff)
  have ap: "a * ?p = n * b" using arg_cong [OF num, of abs] b by (simp add: a_def n_def abs_mult)
  have "(0 :: rat) < 10 ^ k" by simp
  then have "(0 \<le> ?x) = (0 \<le> v)" by (simp only: pos_le_divide_eq mult_zero_left of_int_0_le_iff)
  then have neg: "rat_num ?x < 0 \<longleftrightarrow> v < 0" using rat_num_nonneg [of ?x] by linarith
  have split: "(a mod b) * ?p = b * (n - a div b * ?p)"
  proof -
    have "a mod b = a - b * (a div b)" by (simp add: minus_mult_div_eq_mod)
    then have "(a mod b) * ?p = a * ?p - b * (a div b) * ?p" by (simp add: left_diff_distrib)
    then show ?thesis unfolding ap by (simp add: algebra_simps)
  qed
  have r: "(a mod b) * ?p div b = n - a div b * ?p" "(a mod b) * ?p mod b = 0" using split b by simp_all
  have "b * (n - a div b * ?p) < b * ?p" "0 \<le> b * (n - a div b * ?p)"
    using b pos_mod_bound [of b a] pos_mod_sign [of b a] unfolding split [symmetric] by simp_all
  then have "0 \<le> n - a div b * ?p" "n - a div b * ?p < ?p" using b by (simp_all add: zero_le_mult_iff)
  then have qr: "a div b = n div ?p" "n - a div b * ?p = n mod ?p"
    by (metis add_diff_cancel_left' diff_add_cancel int_div_pos_eq mult.commute, metis add.commute diff_add_cancel int_mod_pos_eq mult.commute)
  have nat: "nat (n div ?p) = nat n div 10 ^ k" "nat (n mod ?p) = nat n mod 10 ^ k"
    by (simp_all add: n_def nat_div_distrib nat_mod_distrib nat_power_eq)
  show ?thesis
  proof (cases "b = 1")
    case True
    then have "n = a * ?p" "nat n div 10 ^ k = nat a" using ap qr(1) nat(1) by simp_all
    then have "n mod ?p = 0" "nat n div 10 ^ k = nat a" by simp_all
    then have "nat n div 10 ^ k = nat a" "nat n mod 10 ^ k = 0" using nat(2) by simp_all
    then show ?thesis using True neg frac_digits_zero [of k]
      by (auto simp: rat_FloatString_def b_def [symmetric] int_String_def a_def n_def formatScaled_eq)
  next
    case False
    then show ?thesis using neg b r qr nat
      by (simp add: rat_FloatString_def b_def [symmetric] a_def [symmetric] n_def [symmetric] Let_def formatScaled_eq frac_digits_def)
  qed
qed


end
