(* ===== verification/Apportion.thy ===== *)
theory Apportion
  imports Prelude
begin

text \<open>
  The largest-remainder loop that \<^verbatim>\<open>taxes.distributeHeaderDiscount\<close> and
  \<^verbatim>\<open>purchasing.allocateLandedCostLinesTx\<close> both contain: truncate every exact share, then hand the
  leftover units out one at a time, largest remainder first.  The locale \<open>exact_split\<close> states what the
  two callers promise; its lemmas are proved once.
\<close>

section \<open>The loop\<close>

text \<open>The inner loop: the first index whose remainder is largest, \<open>None\<close> when there is no line.\<close>

definition best_index :: "rat list \<Rightarrow> nat option" where
  "best_index rems =
     foldl (\<lambda>best i. case best of None \<Rightarrow> Some i
                     | Some b \<Rightarrow> if rems ! i > rems ! b then Some i else Some b)
       None [0..<length rems]"

text \<open>
  The outer loop \<^verbatim>\<open>for leftover.Sign() > 0\<close>.  The unit is \<open>1 / 10 ^ scale\<close>, hence positive; the test on
  \<open>u\<close> only makes the recursion total.
\<close>

function hand_out :: "rat \<Rightarrow> rat list \<Rightarrow> rat list \<Rightarrow> rat \<Rightarrow> rat list" where
  "hand_out u shares rems leftover =
     (if 0 < u \<and> 0 < leftover then
        (case best_index rems of
           None \<Rightarrow> shares
         | Some b \<Rightarrow> hand_out u (shares[b := shares ! b + u]) (rems[b := 0]) (leftover - u))
      else shares)"
  by pat_completeness auto
termination
proof (relation "measure (\<lambda>(u, shares, rems, leftover). nat \<lceil>leftover / u\<rceil>)")
  fix u :: rat and shares rems :: "rat list" and leftover :: rat and b :: nat
  assume "0 < u \<and> 0 < leftover"
  then have "\<lceil>(leftover - u) / u\<rceil> = \<lceil>leftover / u\<rceil> - 1" "0 < \<lceil>leftover / u\<rceil>"
    by (simp_all add: diff_divide_distrib)
  then show "((u, shares[b := shares ! b + u], rems[b := 0], leftover - u), u, shares, rems, leftover)
      \<in> measure (\<lambda>(u, shares, rems, leftover). nat \<lceil>leftover / u\<rceil>)" by simp
qed simp

declare hand_out.simps [simp del]

definition largest_remainder :: "(rat \<Rightarrow> rat) \<Rightarrow> rat \<Rightarrow> rat list \<Rightarrow> rat \<Rightarrow> rat \<Rightarrow> rat list" where
  "largest_remainder trunc u weights tot target =
     (let exact = map (\<lambda>w. target * w / tot) weights;
          shares = map trunc exact;
          remainders = map2 (\<lambda>e s. e - s) exact shares;
          leftover = target - sum_list shares in
      hand_out u shares remainders leftover)"

section \<open>Facts about the loop\<close>

lemma best_index_Some:
  assumes "rems \<noteq> []"
  obtains b where "best_index rems = Some b" "b < length rems" "\<And>i. i < length rems \<Longrightarrow> rems ! i \<le> rems ! b"
proof -
  let ?f = "\<lambda>best i. case best of None \<Rightarrow> Some i
    | Some b \<Rightarrow> if rems ! i > rems ! b then Some i else Some b"
  have "\<exists>b. foldl ?f None [0..<Suc n] = Some b \<and> b \<le> n \<and> (\<forall>i\<le>n. rems ! i \<le> rems ! b)" for n
  proof (induction n)
    case (Suc n)
    then obtain b where b: "foldl ?f None [0..<Suc n] = Some b" "b \<le> n" "\<forall>i\<le>n. rems ! i \<le> rems ! b"
      by blast
    have "foldl ?f None [0..<Suc (Suc n)] = ?f (Some b) (Suc n)"
      using b(1) by simp
    then show ?case using b(2,3) by (auto simp: le_Suc_eq order.trans less_imp_le)
  qed simp
  then obtain b where b: "foldl ?f None [0..<Suc (length rems - 1)] = Some b" "b \<le> length rems - 1"
    "\<forall>i\<le>length rems - 1. rems ! i \<le> rems ! b" by blast
  have "Suc (length rems - 1) = length rems" using assms by (cases rems) auto
  then show thesis using b by (intro that [of b]) (auto simp: best_index_def less_Suc_eq_le [symmetric])
qed

lemma sum_list_upd: "b < length xs \<Longrightarrow> sum_list (xs[b := v]) = sum_list xs - xs ! b + (v :: rat)"
  by (induction xs arbitrary: b) (auto split: nat.split)

lemma sum_list_of_int: "of_int (sum_list xs) = (sum_list (map of_int xs) :: rat)"
  by (induction xs) simp_all

lemma floor_unit:
  fixes x u :: rat
  assumes "0 < u" shows "of_int \<lfloor>x / u\<rfloor> * u \<le> x" "x < of_int \<lfloor>x / u\<rfloor> * u + u"
proof -
  have "of_int \<lfloor>x / u\<rfloor> * u \<le> x / u * u" using assms by (intro mult_right_mono) auto
  then show "of_int \<lfloor>x / u\<rfloor> * u \<le> x" using assms by simp
  have "x / u * u < (of_int \<lfloor>x / u\<rfloor> + 1) * u"
    using assms floor_correct [of "x / u"] by (intro mult_strict_right_mono) simp_all
  then show "x < of_int \<lfloor>x / u\<rfloor> * u + u" using assms by (simp add: algebra_simps)
qed

lemma sum_list_pos_ex:
  fixes xs :: "rat list"
  shows "0 < sum_list xs \<Longrightarrow> \<exists>i < length xs. 0 < xs ! i"
  by (metis in_set_conv_nth linorder_not_less sum_list_nonpos)

lemma hand_out_sum:
  assumes "0 < u" "length shares = length rems" "rems \<noteq> []"
  shows "leftover = of_nat m * u \<Longrightarrow>
    sum_list (hand_out u shares rems leftover) = sum_list shares + leftover
    \<and> length (hand_out u shares rems leftover) = length shares"
  using assms
proof (induction m arbitrary: shares rems leftover)
  case 0
  then show ?case by (simp add: hand_out.simps)
next
  case (Suc m)
  obtain b where b: "best_index rems = Some b" "b < length rems"
    using Suc.prems(4) by (rule best_index_Some)
  have "0 < leftover" using Suc.prems by simp
  then have step: "hand_out u shares rems leftover
      = hand_out u (shares[b := shares ! b + u]) (rems[b := 0]) (leftover - u)"
    using Suc.prems b by (subst hand_out.simps) simp
  have "leftover - u = of_nat m * u" using Suc.prems by (simp add: algebra_simps)
  from Suc.IH [OF this] show ?case
    unfolding step using Suc.prems b by (simp add: sum_list_upd)
qed

text \<open>
  While units remain, the remaining remainders outweigh them, so the largest is positive: no line gets
  two units, and only a line with a positive remainder gets one.
\<close>

lemma hand_out_each:
  assumes "0 < u" "length shares = length rems"
    "\<And>i. i < length rems \<Longrightarrow> 0 \<le> rems ! i \<and> rems ! i < u" "leftover \<le> sum_list rems"
  shows "leftover = of_nat m * u \<Longrightarrow> i < length rems \<Longrightarrow>
    hand_out u shares rems leftover ! i = shares ! i
    \<or> (hand_out u shares rems leftover ! i = shares ! i + u \<and> 0 < rems ! i)"
  using assms
proof (induction m arbitrary: shares rems leftover)
  case 0
  then show ?case by (simp add: hand_out.simps)
next
  case (Suc m)
  then have pos: "0 < leftover" by simp
  then have ne: "rems \<noteq> []" using Suc.prems by auto
  obtain b where b: "best_index rems = Some b" "b < length rems" "\<And>i. i < length rems \<Longrightarrow> rems ! i \<le> rems ! b"
    using ne by (rule best_index_Some) blast
  have top: "0 < rems ! b"
    using sum_list_pos_ex [of rems] pos Suc.prems(6) b(3) by (metis order.strict_trans1 order_less_le_trans)
  have step: "hand_out u shares rems leftover
      = hand_out u (shares[b := shares ! b + u]) (rems[b := 0]) (leftover - u)"
    using Suc.prems b pos by (subst hand_out.simps) simp
  have l: "leftover - u = of_nat m * u" using Suc.prems by (simp add: algebra_simps)
  have "sum_list (rems[b := 0]) = sum_list rems - rems ! b" using b(2) by (simp add: sum_list_upd)
  then have s: "leftover - u \<le> sum_list (rems[b := 0])"
    using Suc.prems(5) [OF b(2)] Suc.prems(6) by linarith
  have r: "\<And>j. j < length (rems[b := 0]) \<Longrightarrow> 0 \<le> rems[b := 0] ! j \<and> rems[b := 0] ! j < u"
    using Suc.prems(3,5) by (case_tac "j = b") simp_all
  have "i < length (rems[b := 0])" "length (shares[b := shares ! b + u]) = length (rems[b := 0])"
    using Suc.prems by simp_all
  from Suc.IH [OF l this(1) Suc.prems(3) this(2) r s]
  show ?case
    unfolding step using b(2) top Suc.prems(2,4) by (cases "i = b") (auto simp: nth_list_update)
qed

lemma largest_remainder_exact:
  fixes weights :: "rat list"
  assumes u: "0 < u" and ws: "\<And>w. w \<in> set weights \<Longrightarrow> 0 \<le> w" and tot: "tot = sum_list weights" "0 < tot"
    and grid: "target = of_int n * u" "0 \<le> n"
    and trunc: "\<And>x. 0 \<le> x \<Longrightarrow> trunc x = of_int \<lfloor>x / u\<rfloor> * u"
  shows "sum_list (largest_remainder trunc u weights tot target) = target"
    and "length (largest_remainder trunc u weights tot target) = length weights"
    and "i < length weights \<Longrightarrow>
      largest_remainder trunc u weights tot target ! i = trunc (target * weights ! i / tot)
      \<or> (largest_remainder trunc u weights tot target ! i = trunc (target * weights ! i / tot) + u
         \<and> trunc (target * weights ! i / tot) < target * weights ! i / tot)"
proof -
  let ?exact = "map (\<lambda>w. target * w / tot) weights"
  let ?shares = "map trunc ?exact"
  let ?rems = "map2 (\<lambda>e s. e - s) ?exact ?shares"
  let ?left = "target - sum_list ?shares"
  have t0: "0 \<le> target" using grid u by simp
  have e0: "x \<in> set ?exact \<Longrightarrow> 0 \<le> x" for x using ws tot t0 by auto
  have rem: "0 \<le> x - trunc x \<and> x - trunc x < u" if "0 \<le> x" for x
  proof -
    show ?thesis using trunc [OF that] floor_unit [OF u, of x] by simp
  qed
  have nth_rem: "i < length weights \<Longrightarrow> ?rems ! i = target * weights ! i / tot - trunc (target * weights ! i / tot)" for i
    by simp
  have rems: "i < length ?rems \<Longrightarrow> 0 \<le> ?rems ! i \<and> ?rems ! i < u" for i
    using rem [OF e0 [of "target * weights ! i / tot"]] by (simp add: image_def) (metis nth_mem)
  have sum_exact: "sum_list ?exact = target"
  proof -
    have "sum_list ?exact = (target / tot) * sum_list weights"
      using sum_list_const_mult [of "target / tot" "\<lambda>w. w" weights] by simp
    then show ?thesis using tot by simp
  qed
  have sum_rems: "sum_list ?rems = ?left"
  proof -
    have "?rems = map (\<lambda>e. e - trunc e) ?exact" by (simp add: map2_map_map o_def)
    then have "sum_list ?rems = sum_list ?exact - sum_list ?shares"
      by (simp add: sum_list_subtractf o_def)
    then show ?thesis using sum_exact by simp
  qed
  define k where "k = n - sum_list (map (\<lambda>e. \<lfloor>e / u\<rfloor>) ?exact)"
  have eq: "?shares = map (\<lambda>e. of_int \<lfloor>e / u\<rfloor> * u) ?exact"
    using trunc e0 by (intro map_cong) auto
  have "sum_list ?shares = sum_list (map (\<lambda>e. of_int \<lfloor>e / u\<rfloor>) ?exact) * u"
    unfolding eq by (rule sum_list_mult_const)
  also have "\<dots> = of_int (sum_list (map (\<lambda>e. \<lfloor>e / u\<rfloor>) ?exact)) * u"
    by (simp add: sum_list_of_int o_def)
  finally have left: "?left = of_int k * u" using grid by (simp add: k_def algebra_simps)
  have "0 \<le> ?left"
    unfolding sum_rems [symmetric] using rems by (intro sum_list_nonneg) (auto simp: in_set_conv_nth)
  then have "0 \<le> of_int k * u" by (simp only: left)
  then have "0 \<le> k" using u by (simp add: zero_le_mult_iff)
  then have m: "?left = of_nat (nat k) * u" using left by simp
  have ne: "?rems \<noteq> []" using tot by auto
  have len: "length ?shares = length ?rems" by simp
  have res: "largest_remainder trunc u weights tot target = hand_out u ?shares ?rems ?left"
    by (simp add: largest_remainder_def Let_def)
  from hand_out_sum [OF u len ne m]
  show "sum_list (largest_remainder trunc u weights tot target) = target"
    "length (largest_remainder trunc u weights tot target) = length weights"
    unfolding res by simp_all
  assume i: "i < length weights"
  then have "i < length ?rems" by simp
  from hand_out_each [OF u len rems _ m this] sum_rems
  show "largest_remainder trunc u weights tot target ! i = trunc (target * weights ! i / tot)
      \<or> (largest_remainder trunc u weights tot target ! i = trunc (target * weights ! i / tot) + u
         \<and> trunc (target * weights ! i / tot) < target * weights ! i / tot)"
    unfolding res using nth_rem [OF i] i by auto
qed

section \<open>The contract of an exact split\<close>

text \<open>
  \<open>split weights target\<close> shares a target, a multiple of the unit, out over non-negative weights.
\<close>

definition splittable :: "rat \<Rightarrow> rat list \<Rightarrow> rat \<Rightarrow> bool" where
  "splittable u ws t = ((\<forall>w \<in> set ws. 0 \<le> w) \<and> 0 < sum_list ws \<and> 0 \<le> t \<and> (\<exists>n. t = of_int n * u))"

locale exact_split =
  fixes u :: rat and split :: "rat list \<Rightarrow> rat \<Rightarrow> rat list"
  assumes unit_pos: "0 < u"
    and split_sum: "splittable u ws t \<Longrightarrow> sum_list (split ws t) = t"
    and split_length: "splittable u ws t \<Longrightarrow> length (split ws t) = length ws"
    and split_floor: "splittable u ws t \<Longrightarrow> i < length ws \<Longrightarrow>
      split ws t ! i = of_int \<lfloor>t * ws ! i / sum_list ws / u\<rfloor> * u
      \<or> (split ws t ! i = of_int \<lfloor>t * ws ! i / sum_list ws / u\<rfloor> * u + u
         \<and> of_int \<lfloor>t * ws ! i / sum_list ws / u\<rfloor> * u < t * ws ! i / sum_list ws)"
begin

lemma share_near:
  assumes "splittable u ws t" "i < length ws"
  shows "\<bar>split ws t ! i - t * ws ! i / sum_list ws\<bar> < u"
proof -
  let ?x = "t * ws ! i / sum_list ws"
  show ?thesis using split_floor [OF assms] floor_unit [OF unit_pos, of ?x] by auto
qed

lemma share_nonneg:
  assumes "splittable u ws t" "i < length ws" shows "0 \<le> split ws t ! i"
proof -
  have "0 \<le> t * ws ! i / sum_list ws" using assms by (auto simp: splittable_def)
  then have "0 \<le> t * ws ! i / sum_list ws / u" using unit_pos by (metis divide_nonneg_pos)
  then have "0 \<le> \<lfloor>t * ws ! i / sum_list ws / u\<rfloor>" by (simp only: zero_le_floor)
  then have "0 \<le> of_int \<lfloor>t * ws ! i / sum_list ws / u\<rfloor> * u" using unit_pos by simp
  then show ?thesis using split_floor [OF assms] unit_pos by linarith
qed

lemma share_grid:
  assumes "splittable u ws t" "i < length ws" shows "\<exists>n. split ws t ! i = of_int n * u"
proof -
  let ?f = "\<lfloor>t * ws ! i / sum_list ws / u\<rfloor>"
  have "of_int ?f * u + u = of_int (?f + 1) * u" by (simp add: distrib_right)
  then show ?thesis using split_floor [OF assms] by metis
qed

lemma share_zero:
  assumes "splittable u ws t" "i < length ws" "ws ! i = 0" shows "split ws t ! i = 0"
  using split_floor [OF assms(1,2)] assms(3) by simp

text \<open>A target no larger than the weights takes less than one unit more than a line holds.\<close>

lemma share_bound:
  assumes "splittable u ws t" "i < length ws" "t \<le> sum_list ws"
  shows "split ws t ! i < ws ! i + u"
proof -
  have s: "0 < sum_list ws" "0 \<le> ws ! i" using assms by (auto simp: splittable_def)
  then have "t * ws ! i / sum_list ws \<le> ws ! i"
    using assms(3) by (simp add: divide_le_eq mult.commute mult_right_mono)
  then show ?thesis using share_near [OF assms(1,2)] by linarith
qed

end

lemma exact_split_largest:
  assumes u: "0 < u" and trunc: "\<And>x. 0 \<le> x \<Longrightarrow> trunc x = of_int \<lfloor>x / u\<rfloor> * u"
  shows "exact_split u (\<lambda>ws t. largest_remainder trunc u ws (sum_list ws) t)"
proof
  show "0 < u" by (rule u)
  fix ws :: "rat list" and t :: rat
  assume sp: "splittable u ws t"
  then obtain n where n: "t = of_int n * u" "0 \<le> t" by (auto simp: splittable_def)
  have "0 \<le> n" using n u by (simp add: zero_le_mult_iff)
  have ws: "\<And>w. w \<in> set ws \<Longrightarrow> 0 \<le> w" "0 < sum_list ws" using sp by (auto simp: splittable_def)
  note exact = largest_remainder_exact [OF u ws(1) refl ws(2) n(1) \<open>0 \<le> n\<close> trunc]
  show "sum_list (largest_remainder trunc u ws (sum_list ws) t) = t"
    "length (largest_remainder trunc u ws (sum_list ws) t) = length ws" by (rule exact; assumption)+
  fix i assume i: "i < length ws"
  have e: "0 \<le> t * ws ! i / sum_list ws" using ws i n(2) by simp
  from exact(3) [OF _ _ i] show "largest_remainder trunc u ws (sum_list ws) t ! i = of_int \<lfloor>t * ws ! i / sum_list ws / u\<rfloor> * u
      \<or> (largest_remainder trunc u ws (sum_list ws) t ! i = of_int \<lfloor>t * ws ! i / sum_list ws / u\<rfloor> * u + u
         \<and> of_int \<lfloor>t * ws ! i / sum_list ws / u\<rfloor> * u < t * ws ! i / sum_list ws)"
    unfolding trunc [OF e] by blast
qed

text \<open>The loop hands out fewer units than there are lines.\<close>

fun hand_out_rounds :: "nat \<Rightarrow> rat \<Rightarrow> rat list \<Rightarrow> rat list \<Rightarrow> rat \<Rightarrow> rat list option" where
  "hand_out_rounds 0 u shares rems leftover = (if 0 < leftover then None else Some shares)"
| "hand_out_rounds (Suc n) u shares rems leftover =
     (if 0 < leftover then
        (case best_index rems of
           None \<Rightarrow> Some shares
         | Some b \<Rightarrow> hand_out_rounds n u (shares[b := shares ! b + u]) (rems[b := 0]) (leftover - u))
      else Some shares)"

lemma hand_out_rounds_eq:
  assumes "0 < u" "leftover \<le> of_nat n * u"
  shows "hand_out_rounds n u shares rems leftover = Some (hand_out u shares rems leftover)"
  using assms(2)
proof (induction n arbitrary: shares rems leftover)
  case 0
  then show ?case by (simp add: hand_out.simps)
next
  case (Suc n)
  then have "leftover - u \<le> of_nat n * u" by (simp add: algebra_simps)
  then show ?case using Suc.IH assms(1) by (subst hand_out.simps) (simp split: option.split)
qed

lemma largest_remainder_rounds:
  assumes u: "0 < u" and ws: "\<And>w. w \<in> set ws \<Longrightarrow> 0 \<le> w" "0 < sum_list ws" "0 \<le> t"
    and trunc: "\<And>x. 0 \<le> x \<Longrightarrow> trunc x = of_int \<lfloor>x / u\<rfloor> * u"
  shows "(let exact = map (\<lambda>w. t * w / sum_list ws) ws; shares = map trunc exact in
      hand_out_rounds (length ws) u shares (map2 (\<lambda>e s. e - s) exact shares) (t - sum_list shares))
    = Some (largest_remainder trunc u ws (sum_list ws) t)"
proof -
  let ?exact = "map (\<lambda>w. t * w / sum_list ws) ws"
  have sum: "sum_list ?exact = t"
    using sum_list_const_mult [of "t / sum_list ws" "\<lambda>w. w" ws] ws(2) by simp
  have e0: "x \<in> set ?exact \<Longrightarrow> 0 \<le> x" for x using ws by auto
  have near: "sum_list xs - sum_list (map trunc xs) \<le> of_nat (length xs) * u" if "\<And>x. x \<in> set xs \<Longrightarrow> 0 \<le> x" for xs
    using that
  proof (induction xs)
    case (Cons x xs)
    have "x - trunc x \<le> u" using trunc [of x] floor_unit [OF u, of x] Cons.prems by simp
    then show ?case using Cons by (simp add: algebra_simps)
  qed simp
  have "t - sum_list (map trunc ?exact) \<le> of_nat (length ws) * u"
    using near [of ?exact, OF e0] sum by simp
  then show ?thesis unfolding largest_remainder_def Let_def by (rule hand_out_rounds_eq [OF u])
qed

end
