(* ===== verification/Taxes.thy ===== *)
theory Taxes
  imports Go_Rat Apportion
begin

text \<open>
  The tax engine of \<^verbatim>\<open>src/internal/taxes/calculator.go\<close>, in the order of the file: the request and
  result records, \<^verbatim>\<open>Calculate\<close> with its two passes, the cascading and header discounts, the line
  calculation, component validation and the decimal text helpers.  \<^verbatim>\<open>big.Rat\<close> is \<open>rat\<close>; every
  amount that leaves the engine is a decimal text, as in the code.  Go's string types
  (\<^verbatim>\<open>TaxMode\<close>, \<^verbatim>\<open>DiscountKind\<close>, \<^verbatim>\<open>TaxCalculationType\<close>, \<^verbatim>\<open>RoundPolicy\<close>) stay strings, because the
  engine checks them itself.
\<close>

section \<open>Records\<close>

text \<open>
  \<open>NilPanic\<close> is the run-time panic of a nil \<^verbatim>\<open>*big.Rat\<close>: a parse error that the code drops.  It is proved
  unreachable.
\<close>

datatype tax_error = ErrInvalidTaxCalculation | ErrDiscountExceedsTaxBase | NilPanic

definition TaxInclusive :: string where "TaxInclusive = ''INCLUSIVE''"
definition TaxExclusive :: string where "TaxExclusive = ''EXCLUSIVE''"
definition RoundHalfUp :: string where "RoundHalfUp = ''HALF_UP''"
definition DiscountPercent :: string where "DiscountPercent = ''PERCENT''"
definition DiscountFixed :: string where "DiscountFixed = ''FIXED''"
definition TaxPercentage :: string where "TaxPercentage = ''PERCENTAGE''"
definition TaxQuantityBased :: string where "TaxQuantityBased = ''QUANTITY_BASED''"
definition TaxFixedAmount :: string where "TaxFixedAmount = ''FIXED_AMOUNT''"

lemmas tax_consts = TaxInclusive_def TaxExclusive_def RoundHalfUp_def DiscountPercent_def
  DiscountFixed_def TaxPercentage_def TaxQuantityBased_def TaxFixedAmount_def

definition maxDecimalScale :: int where
  "maxDecimalScale = 18"

record TaxDiscount =
  td_Kind :: string
  td_Amount :: string

record TaxComponent =
  tc_Code :: string
  tc_Name :: string
  tc_CalculationType :: string
  tc_Rate :: string
  tc_IncludedInBase :: bool
  tc_Primary :: bool
  tc_Withholding :: bool
  tc_WithholdingNumerator :: "int option"
  tc_WithholdingDenominator :: "int option"
  tc_Exempt :: bool

record TaxCalculationLine =
  tl_UnitPrice :: string
  tl_Quantity :: string
  tl_Discount :: TaxDiscount
  tl_Discounts :: "TaxDiscount list"
  tl_Components :: "TaxComponent list"
  tl_TaxComponents :: "TaxComponent list"

record TaxCalculationInput =
  ti_Lines :: "TaxCalculationLine list"
  ti_Components :: "TaxComponent list"
  ti_HeaderDiscounts :: "TaxDiscount list"
  ti_TaxMode :: string
  ti_RoundScale :: int
  ti_RoundPolicy :: string

record TaxCalculationComponentResult =
  cr_Code :: string
  cr_Name :: string
  cr_Primary :: bool
  cr_IncludedInBase :: bool
  cr_CalculationType :: string
  cr_Rate :: string
  cr_BaseAmount :: string
  cr_Amount :: string
  cr_Withholding :: bool
  cr_WithholdingAmount :: string
  cr_Exempt :: bool

record TaxCalculationLineResult =
  lr_GrossAmount :: string
  lr_DiscountAmount :: string
  lr_LineDiscountAmount :: string
  lr_HeaderDiscountAmount :: string
  lr_TaxableAmount :: string
  lr_TaxAmount :: string
  lr_WithholdingAmount :: string
  lr_TotalAmount :: string
  lr_PayableAmount :: string
  lr_Components :: "TaxCalculationComponentResult list"

record TaxCalculationResult =
  tr_Lines :: "TaxCalculationLineResult list"
  tr_Components :: "TaxCalculationComponentResult list"
  tr_GrossAmount :: string
  tr_DiscountAmount :: string
  tr_LineDiscountAmount :: string
  tr_HeaderDiscountAmount :: string
  tr_TaxableAmount :: string
  tr_NetAmount :: string
  tr_TaxAmount :: string
  tr_TotalTaxAmount :: string
  tr_WithholdingAmount :: string
  tr_TotalAmount :: string
  tr_PayableAmount :: string

record lineBase =
  lb_line :: TaxCalculationLine
  lb_quantity :: rat
  lb_gross :: rat
  lb_discount :: rat
  lb_base :: rat

record validatedComponent =
  vc_code :: string
  vc_name :: string
  vc_rateText :: string
  vc_kind :: string
  vc_rate :: rat
  vc_withholding :: bool
  vc_numerator :: "int option"
  vc_denominator :: "int option"
  vc_exempt :: bool
  vc_includedInBase :: bool
  vc_primary :: bool

section \<open>Decimal texts\<close>

definition parseDecimal :: "string \<Rightarrow> bool \<Rightarrow> tax_error + rat" where
  "parseDecimal value allowEmpty =
     (let raw = trim_space value in
      if raw = [] then (if allowEmpty then Inr 0 else Inl ErrInvalidTaxCalculation)
      else (case ParseDecimal raw maxDecimalScale of
              Inl _ \<Rightarrow> Inl ErrInvalidTaxCalculation
            | Inr p \<Rightarrow> (case rat_SetString (dec_String p) of
                 None \<Rightarrow> Inl ErrInvalidTaxCalculation
               | Some ratio \<Rightarrow> Inr ratio)))"

definition roundRat :: "rat \<Rightarrow> nat \<Rightarrow> rat" where
  "roundRat value scale =
     (let negative = value < 0;
          abs = \<bar>value\<bar>;
          factor = 10 ^ scale;
          numerator = rat_num abs * factor;
          quotient = numerator div rat_den abs;
          remainder = numerator mod rat_den abs;
          quotient = (if remainder * 2 \<ge> rat_den abs then quotient + 1 else quotient);
          quotient = (if negative then - quotient else quotient) in
      of_int quotient / of_int factor)"

definition truncateRat :: "rat \<Rightarrow> nat \<Rightarrow> rat" where
  "truncateRat value scale =
     (let factor = 10 ^ scale;
          numerator = rat_num value * factor;
          quotient = sgn numerator * (\<bar>numerator\<bar> div rat_den value) in
      of_int quotient / of_int factor)"

definition formatExact :: "rat \<Rightarrow> nat \<Rightarrow> string" where
  "formatExact value scale =
     (let negative = value < 0;
          abs = \<bar>value\<bar>;
          factor = 10 ^ scale;
          integer = rat_num abs div rat_den abs;
          remainder = rat_num abs mod rat_den abs in
      if scale = 0 then
        (if negative \<and> integer \<noteq> 0 then ''-'' @ dec_of_nat (nat integer) else dec_of_nat (nat integer))
      else
        let fraction = dec_of_nat (nat ((remainder * factor) div rat_den abs));
            fraction = replicate (scale - length fraction) (CHR ''0'') @ fraction;
            fraction = trim_right (CHR ''0'') fraction;
            result = dec_of_nat (nat integer);
            result = (if fraction \<noteq> [] then result @ ''.'' @ fraction else result) in
        if negative \<and> result \<noteq> ''0'' then ''-'' @ result else result)"

definition formatRounded :: "rat \<Rightarrow> nat \<Rightarrow> string" where
  "formatRounded value scale = formatExact (roundRat value scale) scale"

text \<open>The loop of \<^verbatim>\<open>decimalScale\<close>: at most \<open>maxDecimalScale + 1\<close> rounds, counted by \<open>scale\<close>.\<close>

function decimalScale_loop :: "int \<Rightarrow> nat \<Rightarrow> nat" where
  "decimalScale_loop denominator scale =
     (if denominator \<noteq> 1 \<and> int scale \<le> maxDecimalScale then
        (if denominator mod 2 = 0 then decimalScale_loop (denominator div 2) (scale + 1)
         else if denominator mod 5 = 0 then decimalScale_loop (denominator div 5) (scale + 1)
         else nat maxDecimalScale)
      else scale)"
  by pat_completeness auto
termination
  by (relation "measure (\<lambda>(d, scale). Suc (nat maxDecimalScale) - scale)") (auto simp: maxDecimalScale_def)

declare decimalScale_loop.simps [simp del]

definition decimalScale :: "rat \<Rightarrow> nat" where
  "decimalScale value = decimalScale_loop (rat_den value) 0"

definition canonicalDecimal :: "rat \<Rightarrow> string" where
  "canonicalDecimal value = formatExact value (decimalScale value)"

definition addFormatted :: "string \<Rightarrow> string \<Rightarrow> nat \<Rightarrow> tax_error + string" where
  "addFormatted left right scale =
     (case (parseDecimal left True, parseDecimal right True) of
        (Inr l, Inr r) \<Rightarrow> Inr (formatRounded (l + r) scale)
      | _ \<Rightarrow> Inl NilPanic)"

definition subtractFormatted :: "string \<Rightarrow> string \<Rightarrow> nat \<Rightarrow> tax_error + string" where
  "subtractFormatted left right scale =
     (case (parseDecimal left True, parseDecimal right True) of
        (Inr l, Inr r) \<Rightarrow> Inr (formatRounded (l - r) scale)
      | _ \<Rightarrow> Inl NilPanic)"

section \<open>Discounts\<close>

definition calculateDiscount :: "rat \<Rightarrow> TaxDiscount \<Rightarrow> tax_error + rat" where
  "calculateDiscount gross discount =
     (if trim_space (td_Amount discount) = [] \<or> trim_space (td_Amount discount) = ''0'' then Inr 0
      else (case parseDecimal (td_Amount discount) False of
          Inl _ \<Rightarrow> Inl ErrInvalidTaxCalculation
        | Inr amount \<Rightarrow>
            if amount < 0 then Inl ErrInvalidTaxCalculation
            else if td_Kind discount = DiscountPercent then
              (if amount > 100 then Inl ErrInvalidTaxCalculation else Inr (gross * (amount / 100)))
            else if td_Kind discount = DiscountFixed then
              (if amount > gross then Inl ErrDiscountExceedsTaxBase else Inr amount)
            else Inl ErrInvalidTaxCalculation))"

fun cascading_loop :: "rat \<Rightarrow> rat \<Rightarrow> TaxDiscount list \<Rightarrow> tax_error + rat" where
  "cascading_loop tot remaining [] = Inr tot"
| "cascading_loop tot remaining (discount # rest) =
     bindE (calculateDiscount remaining discount) (\<lambda>amount.
       if amount > remaining then Inl ErrDiscountExceedsTaxBase
       else cascading_loop (tot + amount) (remaining - amount) rest)"

definition cascadingDiscount :: "rat \<Rightarrow> TaxDiscount list \<Rightarrow> tax_error + rat" where
  "cascadingDiscount gross discounts = cascading_loop 0 gross discounts"

definition resolveLineBase :: "TaxCalculationLine \<Rightarrow> tax_error + lineBase" where
  "resolveLineBase line =
     (case parseDecimal (tl_UnitPrice line) False of
        Inl _ \<Rightarrow> Inl ErrInvalidTaxCalculation
      | Inr unitPrice \<Rightarrow>
          if unitPrice < 0 then Inl ErrInvalidTaxCalculation
          else (case parseDecimal (tl_Quantity line) False of
              Inl _ \<Rightarrow> Inl ErrInvalidTaxCalculation
            | Inr quantity \<Rightarrow>
                if quantity \<le> 0 then Inl ErrInvalidTaxCalculation
                else
                  let gross = unitPrice * quantity;
                      discounts = (if tl_Discounts line = [] then [tl_Discount line] else tl_Discounts line) in
                  bindE (cascadingDiscount gross discounts) (\<lambda>discount.
                    Inr \<lparr>lb_line = line, lb_quantity = quantity, lb_gross = gross,
                         lb_discount = discount, lb_base = gross - discount\<rparr>)))"

definition headerShares :: "nat \<Rightarrow> rat list \<Rightarrow> rat \<Rightarrow> rat \<Rightarrow> rat list" where
  "headerShares scale bases tot target =
     largest_remainder (\<lambda>x. truncateRat x scale) (1 / 10 ^ scale) bases tot target"

definition distributeHeaderDiscount ::
  "lineBase list \<Rightarrow> TaxDiscount list \<Rightarrow> nat \<Rightarrow> tax_error + (rat list \<times> rat)" where
  "distributeHeaderDiscount bases discounts scale =
     (let zeros = map (\<lambda>_. 0) bases in
      if discounts = [] then Inr (zeros, 0)
      else
        let tot = sum_list (map lb_base bases) in
        bindE (cascadingDiscount tot discounts) (\<lambda>headerDiscount.
          if headerDiscount = 0 then Inr (zeros, headerDiscount)
          else if tot \<le> 0 then Inl ErrDiscountExceedsTaxBase
          else
            let target = roundRat headerDiscount scale in
            Inr (headerShares scale (map lb_base bases) tot target, target)))"

section \<open>Components\<close>

definition validateComponent :: "TaxComponent \<Rightarrow> tax_error + validatedComponent" where
  "validateComponent component =
     (let kind = (if tc_CalculationType component = [] then TaxPercentage else tc_CalculationType component) in
      case parseDecimal (tc_Rate component) False of
        Inl _ \<Rightarrow> Inl ErrInvalidTaxCalculation
      | Inr rate \<Rightarrow>
          if rate < 0 then Inl ErrInvalidTaxCalculation
          else if kind = TaxPercentage \<and> rate > 100 then Inl ErrInvalidTaxCalculation
          else if kind \<noteq> TaxPercentage \<and> kind \<noteq> TaxQuantityBased \<and> kind \<noteq> TaxFixedAmount
          then Inl ErrInvalidTaxCalculation
          else
            let ok = Inr \<lparr>vc_code = tc_Code component, vc_name = tc_Name component,
                   vc_rateText = canonicalDecimal rate, vc_kind = kind, vc_rate = rate,
                   vc_withholding = tc_Withholding component,
                   vc_numerator = tc_WithholdingNumerator component,
                   vc_denominator = tc_WithholdingDenominator component,
                   vc_exempt = tc_Exempt component, vc_includedInBase = tc_IncludedInBase component,
                   vc_primary = tc_Primary component\<rparr> in
            (case (tc_WithholdingNumerator component, tc_WithholdingDenominator component) of
               (None, None) \<Rightarrow> ok
             | (Some n, Some d) \<Rightarrow>
                 if n \<le> 0 \<or> d \<le> 0 \<or> n > d then Inl ErrInvalidTaxCalculation else ok
             | _ \<Rightarrow> Inl ErrInvalidTaxCalculation))"

text \<open>
  \<^verbatim>\<open>withholdingAmountFor\<close> never returns an error; a numerator without a denominator (excluded by
  \<^verbatim>\<open>validateComponent\<close>) would dereference nil.
\<close>

definition withholdingAmountFor :: "rat \<Rightarrow> validatedComponent \<Rightarrow> tax_error + rat" where
  "withholdingAmountFor amount component =
     (if \<not> vc_withholding component \<or> amount = 0 then Inr 0
      else (case vc_numerator component of
          None \<Rightarrow> Inr amount
        | Some n \<Rightarrow> (case vc_denominator component of
              None \<Rightarrow> Inl NilPanic
            | Some d \<Rightarrow> Inr (amount * (of_int n / of_int d)))))"

section \<open>One line\<close>

text \<open>Percentage rates and fixed amounts of the inner (in the base) and outer components.\<close>

record line_rates =
  innerRate :: rat
  outerRate :: rat
  innerFixed :: rat
  outerFixed :: rat

definition accumulate :: "rat \<Rightarrow> line_rates \<Rightarrow> validatedComponent \<Rightarrow> line_rates" where
  "accumulate quantity r c =
     (if vc_exempt c then r
      else if vc_kind c = TaxPercentage then
        (if vc_includedInBase c then r\<lparr>innerRate := innerRate r + vc_rate c\<rparr>
         else r\<lparr>outerRate := outerRate r + vc_rate c\<rparr>)
      else
        let fixed = (if vc_kind c = TaxQuantityBased then quantity * vc_rate c else vc_rate c) in
        (if vc_includedInBase c then r\<lparr>innerFixed := innerFixed r + fixed\<rparr>
         else r\<lparr>outerFixed := outerFixed r + fixed\<rparr>))"

definition rates0 :: line_rates where
  "rates0 = \<lparr>innerRate = 0, outerRate = 0, innerFixed = 0, outerFixed = 0\<rparr>"

definition line_rates_of :: "rat \<Rightarrow> validatedComponent list \<Rightarrow> line_rates" where
  "line_rates_of quantity components =
     foldl (accumulate quantity) rates0 components"

definition innerMultiplier :: "line_rates \<Rightarrow> rat" where
  "innerMultiplier r = 1 + innerRate r / 100"

definition outerMultiplier :: "line_rates \<Rightarrow> rat" where
  "outerMultiplier r = 1 + outerRate r / 100"

definition line_net :: "string \<Rightarrow> rat \<Rightarrow> line_rates \<Rightarrow> tax_error + rat" where
  "line_net mode base r =
     (if mode = TaxInclusive then
        let remaining = base - innerFixed r * outerMultiplier r - outerFixed r in
        if remaining < 0 then Inl ErrInvalidTaxCalculation
        else Inr (remaining / (innerMultiplier r * outerMultiplier r))
      else Inr base)"

definition outer_base :: "rat \<Rightarrow> line_rates \<Rightarrow> rat" where
  "outer_base net r = net * innerMultiplier r + innerFixed r"

definition component_base :: "rat \<Rightarrow> rat \<Rightarrow> line_rates \<Rightarrow> validatedComponent \<Rightarrow> rat" where
  "component_base quantity net r c =
     (let componentBase = (if \<not> vc_includedInBase c then outer_base net r else net) in
      if vc_exempt c then componentBase
      else if vc_kind c = TaxQuantityBased then quantity
      else componentBase)"

definition component_amount :: "rat \<Rightarrow> rat \<Rightarrow> line_rates \<Rightarrow> validatedComponent \<Rightarrow> rat" where
  "component_amount quantity net r c =
     (if vc_exempt c then 0
      else if vc_kind c = TaxQuantityBased then quantity * vc_rate c
      else if vc_kind c = TaxFixedAmount then vc_rate c
      else component_base quantity net r c * vc_rate c / 100)"

definition component_result ::
  "nat \<Rightarrow> rat \<Rightarrow> rat \<Rightarrow> line_rates \<Rightarrow> validatedComponent \<Rightarrow> tax_error + (rat \<times> rat \<times> TaxCalculationComponentResult)" where
  "component_result scale quantity net r c =
     (let amount = component_amount quantity net r c in
      bindE (withholdingAmountFor amount c) (\<lambda>withheld.
        Inr (amount, withheld,
          \<lparr>cr_Code = vc_code c, cr_Name = vc_name c, cr_Primary = vc_primary c,
           cr_IncludedInBase = vc_includedInBase c, cr_CalculationType = vc_kind c,
           cr_Rate = vc_rateText c,
           cr_BaseAmount = formatRounded (component_base quantity net r c) scale,
           cr_Amount = formatRounded amount scale, cr_Withholding = vc_withholding c,
           cr_WithholdingAmount = formatRounded withheld scale, cr_Exempt = vc_exempt c\<rparr>)))"

definition calculateLineFrom ::
  "lineBase \<Rightarrow> rat \<Rightarrow> string \<Rightarrow> nat \<Rightarrow> tax_error + TaxCalculationLineResult" where
  "calculateLineFrom resolved headerShare mode scale =
     (let quantity = lb_quantity resolved;
          gross = lb_gross resolved;
          base = lb_base resolved - headerShare in
      if base < 0 then Inl ErrDiscountExceedsTaxBase
      else
        let discount = lb_discount resolved + headerShare in
        bindE (mapE validateComponent (tl_Components (lb_line resolved))) (\<lambda>components.
        let rates = line_rates_of quantity components in
        bindE (line_net mode base rates) (\<lambda>net.
        bindE (mapE (component_result scale quantity net rates) components) (\<lambda>results.
        let taxAmount = sum_list (map fst results);
            withholdingAmount = sum_list (map (fst \<circ> snd) results);
            taxable = formatRounded net scale;
            tax = formatRounded taxAmount scale;
            withheld = formatRounded withholdingAmount scale in
        bindE (if mode = TaxExclusive then addFormatted taxable tax scale
               else Inr (formatRounded base scale)) (\<lambda>amountTotal.
        bindE (subtractFormatted amountTotal withheld scale) (\<lambda>payable.
        bindE (if mode = TaxInclusive then subtractFormatted amountTotal tax scale else Inr taxable) (\<lambda>taxable'.
          Inr \<lparr>lr_GrossAmount = formatRounded gross scale,
               lr_DiscountAmount = formatRounded discount scale,
               lr_LineDiscountAmount = formatRounded (lb_discount resolved) scale,
               lr_HeaderDiscountAmount = formatRounded headerShare scale,
               lr_TaxableAmount = taxable', lr_TaxAmount = tax, lr_WithholdingAmount = withheld,
               lr_TotalAmount = amountTotal, lr_PayableAmount = payable,
               lr_Components = map (snd \<circ> snd) results\<rparr>)))))))"

section \<open>The document\<close>

definition effective_line :: "TaxCalculationInput \<Rightarrow> TaxCalculationLine \<Rightarrow> TaxCalculationLine" where
  "effective_line input line =
     (let line = (if tl_Components line = [] \<and> tl_TaxComponents line \<noteq> []
                  then line\<lparr>tl_Components := tl_TaxComponents line\<rparr> else line) in
      if tl_Components line = [] \<and> ti_Components input \<noteq> []
      then line\<lparr>tl_Components := ti_Components input\<rparr> else line)"

definition empty_result :: TaxCalculationResult where
  "empty_result = \<lparr>tr_Lines = [], tr_Components = [], tr_GrossAmount = [], tr_DiscountAmount = [],
     tr_LineDiscountAmount = [], tr_HeaderDiscountAmount = [], tr_TaxableAmount = [], tr_NetAmount = [],
     tr_TaxAmount = [], tr_TotalTaxAmount = [], tr_WithholdingAmount = [], tr_TotalAmount = [],
     tr_PayableAmount = []\<rparr>"

definition add_line ::
  "nat \<Rightarrow> TaxCalculationResult \<Rightarrow> TaxCalculationLineResult \<Rightarrow> tax_error + TaxCalculationResult" where
  "add_line scale result lr =
     bindE (addFormatted (tr_GrossAmount result) (lr_GrossAmount lr) scale) (\<lambda>gross.
     bindE (addFormatted (tr_DiscountAmount result) (lr_DiscountAmount lr) scale) (\<lambda>discount.
     bindE (addFormatted (tr_LineDiscountAmount result) (lr_LineDiscountAmount lr) scale) (\<lambda>lineDiscount.
     bindE (addFormatted (tr_TaxableAmount result) (lr_TaxableAmount lr) scale) (\<lambda>taxable.
     bindE (addFormatted (tr_TaxAmount result) (lr_TaxAmount lr) scale) (\<lambda>tax.
     bindE (addFormatted (tr_WithholdingAmount result) (lr_WithholdingAmount lr) scale) (\<lambda>withheld.
     bindE (addFormatted (tr_TotalAmount result) (lr_TotalAmount lr) scale) (\<lambda>amountTotal.
       Inr (result\<lparr>tr_Lines := tr_Lines result @ [lr], tr_GrossAmount := gross,
            tr_DiscountAmount := discount, tr_LineDiscountAmount := lineDiscount,
            tr_TaxableAmount := taxable, tr_TaxAmount := tax, tr_WithholdingAmount := withheld,
            tr_TotalAmount := amountTotal,
            tr_Components := tr_Components result @ lr_Components lr\<rparr>))))))))"

fun line_loop ::
  "string \<Rightarrow> nat \<Rightarrow> TaxCalculationResult \<Rightarrow> (lineBase \<times> rat) list \<Rightarrow> tax_error + TaxCalculationResult" where
  "line_loop mode scale result [] = Inr result"
| "line_loop mode scale result ((base, share) # rest) =
     bindE (calculateLineFrom base share mode scale) (\<lambda>lr.
     bindE (add_line scale result lr) (\<lambda>result'. line_loop mode scale result' rest))"

definition Calculate :: "TaxCalculationInput \<Rightarrow> tax_error + TaxCalculationResult" where
  "Calculate input =
     (if ti_RoundScale input < 0 \<or> ti_RoundScale input > maxDecimalScale
      then Inl ErrInvalidTaxCalculation
      else
        let mode = (if ti_TaxMode input = [] then TaxExclusive else ti_TaxMode input);
            policy = (if ti_RoundPolicy input = [] then RoundHalfUp else ti_RoundPolicy input);
            scale = nat (ti_RoundScale input) in
        if (mode \<noteq> TaxInclusive \<and> mode \<noteq> TaxExclusive) \<or> policy \<noteq> RoundHalfUp \<or> ti_Lines input = []
        then Inl ErrInvalidTaxCalculation
        else
          bindE (mapE (resolveLineBase \<circ> effective_line input) (ti_Lines input)) (\<lambda>bases.
          bindE (distributeHeaderDiscount bases (ti_HeaderDiscounts input) scale) (\<lambda>(shares, headerDiscount).
          bindE (line_loop mode scale empty_result (zip bases shares)) (\<lambda>result.
          bindE (subtractFormatted (tr_TotalAmount result) (tr_WithholdingAmount result) scale) (\<lambda>payable.
            Inr (result\<lparr>tr_HeaderDiscountAmount := formatRounded headerDiscount scale,
                 tr_NetAmount := tr_TaxableAmount result, tr_TotalTaxAmount := tr_TaxAmount result,
                 tr_PayableAmount := payable\<rparr>))))))"


section \<open>Rounding and decimal texts\<close>

lemma roundRat_eq: "roundRat x k = of_int (round_half_away (x * 10 ^ k)) / 10 ^ k"
proof -
  let ?a = "\<bar>x\<bar>"
  let ?n = "rat_num ?a * 10 ^ k" and ?d = "rat_den ?a"
  have q: "\<bar>x\<bar> * 10 ^ k = of_int ?n / of_int ?d"
    by (subst rat_num_den [of ?a]) simp
  have n0: "0 \<le> ?n" using rat_num_nonneg [of ?a] by simp
  have up: "\<lfloor>\<bar>x\<bar> * 10 ^ k + 1/2\<rfloor> = ?n div ?d + (if ?d \<le> 2 * (?n mod ?d) then 1 else 0)"
    unfolding q by (rule floor_half_up_div [OF n0 rat_den_pos])
  have ab: "round_half_away (x * 10 ^ k) = (if x < 0 then -1 else 1) * \<lfloor>\<bar>x\<bar> * 10 ^ k + 1/2\<rfloor>"
    by (auto simp: round_half_away_def mult_less_0_iff)
  show ?thesis unfolding ab up by (simp add: roundRat_def Let_def mult.commute)
qed

lemma roundRat_grid [simp]: "roundRat (of_int n / 10 ^ k) k = of_int n / 10 ^ k"
  by (simp add: roundRat_eq)

lemma roundRat_nonneg: "0 \<le> x \<Longrightarrow> 0 \<le> roundRat x k"
  by (simp add: roundRat_eq round_half_away_nonneg)

lemma truncateRat_eq: "0 \<le> x \<Longrightarrow> truncateRat x k = of_int \<lfloor>x * 10 ^ k\<rfloor> / 10 ^ k"
proof -
  assume "0 \<le> x"
  then have n: "0 \<le> rat_num x * 10 ^ k" by simp
  then have "sgn (rat_num x * 10 ^ k) * (\<bar>rat_num x * 10 ^ k\<bar> div rat_den x) = rat_num x * 10 ^ k div rat_den x"
    by (cases "rat_num x * 10 ^ k = 0") (simp_all add: sgn_if)
  also have "\<dots> = \<lfloor>x * 10 ^ k\<rfloor>" using num_mult_div_den [of x "10 ^ k"] by simp
  finally have q: "sgn (rat_num x * 10 ^ k) * (\<bar>rat_num x * 10 ^ k\<bar> div rat_den x) = \<lfloor>x * 10 ^ k\<rfloor>" .
  show ?thesis unfolding truncateRat_def Let_def q by simp
qed

text \<open>The text of a value with at most \<open>k\<close> decimals.\<close>

lemma formatExact_text:
  assumes x: "x = of_int n / 10 ^ k"
  obtains ip fp where "formatExact x k = (if n < 0 then ''-'' else []) @ unsigned_text ip fp"
    "all_digits ip" "ip \<noteq> []" "all_digits fp" "length fp \<le> k"
    "of_nat (nat_of_dec (ip @ fp)) / 10 ^ length fp = \<bar>x\<bar>" "fp = [] \<or> last fp \<noteq> CHR ''0''"
proof -
  let ?m = "nat \<bar>n\<bar>" and ?p = "10 ^ k :: nat"
  have ax: "\<bar>x\<bar> = of_int (int ?m) / of_int (int ?p)" using x by simp
  have int: "rat_num \<bar>x\<bar> div rat_den \<bar>x\<bar> = int (?m div ?p)"
    unfolding num_div_den unfolding ax floor_divide_of_int_eq by (simp add: zdiv_int)
  have frac: "rat_num \<bar>x\<bar> mod rat_den \<bar>x\<bar> * 10 ^ k div rat_den \<bar>x\<bar> = int (?m mod ?p)"
  proof -
    have "\<lfloor>\<bar>x\<bar>\<rfloor> = int (?m div ?p)" using int num_div_den by metis
    moreover have "\<bar>x\<bar> = of_nat (?m div ?p) + of_nat (?m mod ?p) / of_nat ?p"
      using ax of_nat_div_mod [of ?p ?m] by simp
    ultimately have "\<bar>x\<bar> - of_int \<lfloor>\<bar>x\<bar>\<rfloor> = of_nat (?m mod ?p) / of_nat ?p" by simp
    then have "(\<bar>x\<bar> - of_int \<lfloor>\<bar>x\<bar>\<rfloor>) * of_int (10 ^ k) = of_int (int (?m mod ?p))" by simp
    then show ?thesis unfolding rem_mult_div_den by (simp only: floor_of_int)
  qed
  have neg: "x < 0 \<longleftrightarrow> n < 0" using x by (simp add: divide_less_0_iff)
  let ?ip = "dec_of_nat (?m div ?p)"
  define f where "f = (if k = 0 then [] else frac_digits k (?m mod ?p))"
  define fp where "fp = trim_right (CHR ''0'') f"
  have f: "length f = k" "all_digits f" "nat_of_dec f = ?m mod ?p"
    using frac_digits_props [of k "?m mod ?p"] by (auto simp: f_def)
  have val: "of_nat (nat_of_dec (?ip @ fp)) / 10 ^ length fp = \<bar>x\<bar>"
  proof -
    have "of_nat (nat_of_dec (?ip @ fp)) / 10 ^ length fp
        = of_nat (?m div ?p) + of_nat (nat_of_dec fp) / (10 ^ length fp :: rat)"
      by (simp add: nat_of_dec_append add_divide_distrib)
    also have "\<dots> = of_nat (?m div ?p) + of_nat (?m mod ?p) / of_nat ?p"
      using trim_right_zeros [OF f(2)] f(1,3) by (simp add: fp_def)
    also have "\<dots> = of_nat ?m / of_nat ?p" using of_nat_div_mod [of ?p ?m] by simp
    finally show ?thesis using ax by simp
  qed
  have tx: "formatExact x k = (if n < 0 then ''-'' else []) @ unsigned_text ?ip fp"
  proof -
    have zero: "unsigned_text ?ip fp = ''0'' \<Longrightarrow> n = 0"
    proof -
      assume z: "unsigned_text ?ip fp = ''0''"
      then have "fp = []" by (auto simp: unsigned_text_def append_eq_Cons_conv split: if_splits)
      with z have "?ip = ''0''" by (simp add: unsigned_text_def)
      with \<open>fp = []\<close> val have "\<bar>x\<bar> = 0" by simp
      then show "n = 0" using x by simp
    qed
    show ?thesis
    proof (cases "k = 0")
      case True
      then show ?thesis using neg int by (auto simp: formatExact_def Let_def unsigned_text_def fp_def f_def trim_right_def)
    next
      case False
      let ?raw = "dec_of_nat (?m mod ?p)"
      have "replicate (k - length ?raw) (CHR ''0'') @ ?raw = f" using False by (simp add: f_def frac_digits_def)
      then have "formatExact x k = (let result = unsigned_text ?ip fp in
          if x < 0 \<and> result \<noteq> ''0'' then ''-'' @ result else result)"
        unfolding formatExact_def Let_def int frac nat_int using False
        by (simp add: fp_def unsigned_text_def)
      moreover have "n < 0 \<Longrightarrow> unsigned_text ?ip fp \<noteq> ''0''" using zero by blast
      ultimately show ?thesis unfolding Let_def neg by (cases "n < 0") (simp_all only: if_True if_False simp_thms append_Nil)
    qed
  qed
  have "all_digits fp" "length fp \<le> k" using trim_right_zeros [OF f(2)] f(1) by (simp_all add: fp_def)
  moreover have "fp = [] \<or> last fp \<noteq> CHR ''0''"
    using hd_dropWhile [of "\<lambda>x. x = CHR ''0''" "rev f"] by (auto simp: fp_def trim_right_def last_rev)
  ultimately show thesis by (intro that [OF tx all_digits_dec_of_nat dec_of_nat_nonempty _ _ val])
qed


section \<open>Amounts\<close>

lemma parseDecimal_text:
  assumes "all_digits ip" "ip \<noteq> []" "all_digits fp" "length fp \<le> 18"
  shows "parseDecimal ((if neg then ''-'' else []) @ unsigned_text ip fp) b
    = Inr ((if neg then -1 else 1) * of_nat (nat_of_dec (ip @ fp)) / 10 ^ length fp)"
proof -
  let ?t = "(if neg then ''-'' else []) @ unsigned_text ip fp"
  have ends: "is_digit (hd ip)" "is_digit (last ip)" "fp \<noteq> [] \<Longrightarrow> is_digit (last fp)"
    using assms by (auto simp: all_digits_set)
  have minus: "plain_char (CHR ''-'')" by (simp add: plain_char_def)
  have trim: "trim_space ?t = ?t"
    using ends minus assms(2)
    by (intro trim_space_plain) (auto simp: unsigned_text_def hd_append last_append)
  have ne: "?t \<noteq> []" using assms(2) by (simp add: unsigned_text_def)
  have P: "ParseDecimal ?t maxDecimalScale = Inr (parsed neg ip fp)"
    using ParseDecimal_parts [of ?t "if neg then ''-'' else []" ip fp maxDecimalScale] trim assms
    by (auto simp: maxDecimalScale_def)
  have "rat_SetString (dec_String (parsed neg ip fp)) = Some (decimal_rat (parsed neg ip fp))"
    by (rule rat_SetString_decimal) simp
  moreover have "decimal_rat (parsed neg ip fp) = (if neg then -1 else 1) * of_nat (nat_of_dec (ip @ fp)) / 10 ^ length fp"
    by (simp add: parsed_def)
  ultimately show ?thesis unfolding parseDecimal_def Let_def trim using ne P by simp
qed

lemma parseDecimal_formatExact:
  assumes "x = of_int n / 10 ^ k" "k \<le> 18" shows "parseDecimal (formatExact x k) b = Inr x"
proof -
  obtain ip fp where t: "formatExact x k = (if n < 0 then ''-'' else []) @ unsigned_text ip fp"
    "all_digits ip" "ip \<noteq> []" "all_digits fp" "length fp \<le> k"
    "of_nat (nat_of_dec (ip @ fp)) / 10 ^ length fp = \<bar>x\<bar>"
    using assms(1) by (rule formatExact_text) blast
  have "parseDecimal (formatExact x k) b = Inr ((if n < 0 then -1 else 1) * \<bar>x\<bar>)"
    unfolding t(1) using parseDecimal_text [OF t(2-4), of "n < 0" b] t(5) assms(2) by (simp add: t(6) [symmetric])
  moreover have "(if n < 0 then -1 else 1) * \<bar>x\<bar> = x" using assms(1) by (auto simp: abs_if divide_less_0_iff)
  ultimately show ?thesis by simp
qed

text \<open>\<open>amount k s v\<close>: the text \<open>s\<close> reads as \<open>v\<close>, a value with at most \<open>k\<close> decimals.\<close>

definition amount :: "nat \<Rightarrow> string \<Rightarrow> rat \<Rightarrow> bool" where
  "amount k s v = (parseDecimal s True = Inr v \<and> (\<exists>n. v = of_int n / 10 ^ k))"

lemma amount_unique: "amount k s v \<Longrightarrow> amount k s w \<Longrightarrow> v = w"
  by (simp add: amount_def)

lemma amount_empty [simp]: "amount k [] 0"
  unfolding amount_def by (simp add: parseDecimal_def trim_space_def)

lemma amount_formatRounded: "k \<le> 18 \<Longrightarrow> amount k (formatRounded x k) (roundRat x k)"
  unfolding amount_def formatRounded_def roundRat_eq using parseDecimal_formatExact by blast

lemma amount_add:
  assumes "amount k l a" "amount k r b" "k \<le> 18"
  shows "\<exists>s. addFormatted l r k = Inr s \<and> amount k s (a + b)"
proof -
  obtain m n where g: "a = of_int m / 10 ^ k" "b = of_int n / 10 ^ k" using assms by (auto simp: amount_def)
  then have "a + b = of_int (m + n) / 10 ^ k" by (simp add: add_divide_distrib)
  then have "roundRat (a + b) k = a + b" using roundRat_grid by metis
  then show ?thesis
    using assms amount_formatRounded [OF assms(3), of "a + b"] by (simp add: addFormatted_def amount_def)
qed

lemma amount_sub:
  assumes "amount k l a" "amount k r b" "k \<le> 18"
  shows "\<exists>s. subtractFormatted l r k = Inr s \<and> amount k s (a - b)"
proof -
  obtain m n where g: "a = of_int m / 10 ^ k" "b = of_int n / 10 ^ k" using assms by (auto simp: amount_def)
  then have "a - b = of_int (m - n) / 10 ^ k" by (simp add: diff_divide_distrib)
  then have "roundRat (a - b) k = a - b" using roundRat_grid by metis
  then show ?thesis
    using assms amount_formatRounded [OF assms(3), of "a - b"] by (simp add: subtractFormatted_def amount_def)
qed

section \<open>Discounts stay within the base\<close>

lemma calculateDiscount_bounds:
  assumes "calculateDiscount g d = Inr a" "0 \<le> g" shows "0 \<le> a \<and> a \<le> g"
proof -
  have "a = 0 \<or> (\<exists>p. 0 \<le> p \<and> p \<le> 100 \<and> g * p = a * 100) \<or> 0 \<le> a \<and> a \<le> g"
    using assms by (auto simp: calculateDiscount_def not_less split: if_splits sum.splits)
  moreover have "0 \<le> a \<and> a \<le> g" if "0 \<le> p" "p \<le> 100" "g * p = a * 100" for p
    using mult_nonneg_nonneg [OF assms(2) that(1)] mult_left_mono [OF that(2) assms(2)] that(3) by linarith
  ultimately show ?thesis using assms(2) by blast
qed

lemma cascading_loop_bounds:
  "cascading_loop t r ds = Inr a \<Longrightarrow> 0 \<le> r \<Longrightarrow> t \<le> a \<and> a \<le> t + r"
proof (induction ds arbitrary: t r)
  case (Cons d ds)
  then obtain x where x: "calculateDiscount r d = Inr x" "\<not> x > r" "cascading_loop (t + x) (r - x) ds = Inr a"
    by (auto split: if_splits)
  then have "0 \<le> x" using calculateDiscount_bounds Cons.prems by blast
  then show ?case using Cons.IH [OF x(3)] x(2) by simp
qed simp

lemma cascadingDiscount_bounds:
  "cascadingDiscount g ds = Inr a \<Longrightarrow> 0 \<le> g \<Longrightarrow> 0 \<le> a \<and> a \<le> g"
  using cascading_loop_bounds [of 0 g ds a] by (simp add: cascadingDiscount_def)

lemma resolveLineBase_ok:
  assumes "resolveLineBase line = Inr b"
  shows "0 \<le> lb_base b \<and> 0 < lb_quantity b \<and> 0 \<le> lb_gross b \<and> 0 \<le> lb_discount b
    \<and> lb_base b = lb_gross b - lb_discount b \<and> lb_line b = line"
proof -
  obtain p q d where d: "\<not> p < 0" "\<not> q \<le> 0"
      "cascadingDiscount (p * q) (if tl_Discounts line = [] then [tl_Discount line] else tl_Discounts line) = Inr d"
      "b = \<lparr>lb_line = line, lb_quantity = q, lb_gross = p * q, lb_discount = d, lb_base = p * q - d\<rparr>"
    using assms unfolding resolveLineBase_def Let_def bindE_def
    by (auto split: sum.splits if_splits)
  then have "0 \<le> p * q" by simp
  from cascadingDiscount_bounds [OF d(3) this] show ?thesis using d by simp
qed


section \<open>The header discount is split exactly\<close>

interpretation ts: exact_split "1 / 10 ^ k" "\<lambda>ws t. headerShares k ws (sum_list ws) t" for k :: nat
  unfolding headerShares_def by (rule exact_split_largest) (simp_all add: truncateRat_eq)

lemma distributeHeaderDiscount_exact:
  assumes "distributeHeaderDiscount bases ds k = Inr (shares, t)"
    and "\<And>b. b \<in> set bases \<Longrightarrow> 0 \<le> lb_base b"
  shows "length shares = length bases \<and> sum_list shares = t \<and> 0 \<le> t
    \<and> (\<forall>i < length bases. 0 \<le> shares ! i \<and> (\<exists>n. shares ! i = of_int n / 10 ^ k))
    \<and> (\<exists>n. t = of_int n / 10 ^ k)"
proof -
  let ?ws = "map lb_base bases"
  have zeros: "sum_list (map (\<lambda>_. 0 :: rat) bases) = 0" by (simp add: map_replicate_const sum_list_replicate)
  consider "shares = map (\<lambda>_. 0) bases" "t = 0"
    | h where "cascadingDiscount (sum_list ?ws) ds = Inr h" "0 < sum_list ?ws" "t = roundRat h k"
        "shares = headerShares k ?ws (sum_list ?ws) t"
    using assms(1) by (auto simp: distributeHeaderDiscount_def Let_def not_le elim!: bindE_InrE split: if_splits)
  then show ?thesis
  proof cases
    case 1
    then show ?thesis using zeros by (auto intro: exI [of _ 0])
  next
    case 2
    have "0 \<le> h" using cascadingDiscount_bounds [OF 2(1)] 2(2) by simp
    then have t: "0 \<le> t" "\<exists>n. t = of_int n / 10 ^ k"
      using 2(3) roundRat_nonneg by (auto simp: roundRat_eq)
    then have sp: "splittable (1 / 10 ^ k) ?ws t" using assms(2) 2(2) by (auto simp: splittable_def)
    show ?thesis
      using ts.split_sum [OF sp] ts.split_length [OF sp] ts.share_nonneg [OF sp] ts.share_grid [OF sp] t 2(4) by simp
  qed
qed

section \<open>Net, taxes and base of a line\<close>

definition valid_vc :: "validatedComponent \<Rightarrow> bool" where
  "valid_vc c = (vc_kind c \<in> {TaxPercentage, TaxQuantityBased, TaxFixedAmount} \<and> 0 \<le> vc_rate c
     \<and> (vc_numerator c = None \<longleftrightarrow> vc_denominator c = None))"

lemma validateComponent_valid: "validateComponent c = Inr v \<Longrightarrow> valid_vc v"
  by (auto simp: validateComponent_def valid_vc_def Let_def not_less split: sum.splits if_splits option.splits)

lemma validated_all: "mapE validateComponent cs = Inr vs \<Longrightarrow> list_all valid_vc vs"
  by (auto simp: mapE_Inr_iff list_all_length list_all2_conv_all_nth) (metis validateComponent_valid)

lemma accumulate_step:
  "innerRate (accumulate q r c) = innerRate r + innerRate (accumulate q rates0 c)"
  "outerRate (accumulate q r c) = outerRate r + outerRate (accumulate q rates0 c)"
  "innerFixed (accumulate q r c) = innerFixed r + innerFixed (accumulate q rates0 c)"
  "outerFixed (accumulate q r c) = outerFixed r + outerFixed (accumulate q rates0 c)"
  by (simp_all add: accumulate_def rates0_def Let_def)

lemma accumulate_rates:
  "innerRate (foldl (accumulate q) r cs) = innerRate r + innerRate (line_rates_of q cs)
   \<and> outerRate (foldl (accumulate q) r cs) = outerRate r + outerRate (line_rates_of q cs)
   \<and> innerFixed (foldl (accumulate q) r cs) = innerFixed r + innerFixed (line_rates_of q cs)
   \<and> outerFixed (foldl (accumulate q) r cs) = outerFixed r + outerFixed (line_rates_of q cs)"
proof (induction cs arbitrary: r)
  case (Cons c cs)
  have "line_rates_of q (c # cs) = foldl (accumulate q) (accumulate q rates0 c) cs"
    by (simp add: line_rates_of_def)
  then show ?case
    using Cons [of "accumulate q r c"] Cons [of "accumulate q rates0 c"] accumulate_step [of q r c] by simp
qed (simp add: line_rates_of_def rates0_def)

lemma line_rates_Cons:
  "innerRate (line_rates_of q (c # cs)) = innerRate (accumulate q rates0 c) + innerRate (line_rates_of q cs)"
  "outerRate (line_rates_of q (c # cs)) = outerRate (accumulate q rates0 c) + outerRate (line_rates_of q cs)"
  "innerFixed (line_rates_of q (c # cs)) = innerFixed (accumulate q rates0 c) + innerFixed (line_rates_of q cs)"
  "outerFixed (line_rates_of q (c # cs)) = outerFixed (accumulate q rates0 c) + outerFixed (line_rates_of q cs)"
  using accumulate_rates [of q "accumulate q rates0 c" cs] by (simp_all add: line_rates_of_def)

lemma line_rates_Nil: "line_rates_of q [] = rates0"
  by (simp add: line_rates_of_def)

lemma line_rates_nonneg:
  "list_all valid_vc cs \<Longrightarrow> 0 \<le> innerRate (line_rates_of q cs) \<and> 0 \<le> outerRate (line_rates_of q cs)"
  by (induction cs)
     (auto simp: line_rates_Cons line_rates_Nil accumulate_def rates0_def valid_vc_def Let_def)

lemma component_amounts_sum:
  assumes "list_all valid_vc cs"
  shows "sum_list (map (component_amount q net r) cs) =
    net * innerRate (line_rates_of q cs) / 100 + innerFixed (line_rates_of q cs)
    + outer_base net r * outerRate (line_rates_of q cs) / 100 + outerFixed (line_rates_of q cs)"
  using assms
proof (induction cs)
  case (Cons c cs)
  have kind: "vc_kind c = TaxPercentage \<or> vc_kind c = TaxQuantityBased \<or> vc_kind c = TaxFixedAmount"
    using Cons.prems by (auto simp: valid_vc_def)
  have distinct: "TaxPercentage \<noteq> TaxQuantityBased" "TaxPercentage \<noteq> TaxFixedAmount" "TaxQuantityBased \<noteq> TaxFixedAmount"
    by (simp_all add: tax_consts)
  have one: "component_amount q net r c = net * innerRate (accumulate q rates0 c) / 100
      + innerFixed (accumulate q rates0 c) + outer_base net r * outerRate (accumulate q rates0 c) / 100
      + outerFixed (accumulate q rates0 c)"
    using kind distinct
    by (auto simp: accumulate_def rates0_def component_amount_def component_base_def Let_def)
  have IH: "sum_list (map (component_amount q net r) cs) =
      net * innerRate (line_rates_of q cs) / 100 + innerFixed (line_rates_of q cs)
      + outer_base net r * outerRate (line_rates_of q cs) / 100 + outerFixed (line_rates_of q cs)"
    using Cons by simp
  show ?case unfolding line_rates_Cons
    by (simp add: one IH distrib_left add_divide_distrib)
qed (simp add: line_rates_Nil rates0_def)

lemma line_net_plus_tax:
  assumes "list_all valid_vc cs" "line_net mode base (line_rates_of q cs) = Inr net"
  shows "mode = TaxInclusive \<Longrightarrow>
      net + sum_list (map (component_amount q net (line_rates_of q cs)) cs) = base"
    and "mode \<noteq> TaxInclusive \<Longrightarrow> net = base"
proof -
  let ?r = "line_rates_of q cs"
  have all: "net + sum_list (map (component_amount q net ?r) cs)
      = (net * innerMultiplier ?r + innerFixed ?r) * outerMultiplier ?r + outerFixed ?r"
    unfolding component_amounts_sum [OF assms(1)] outer_base_def innerMultiplier_def outerMultiplier_def
    by (simp add: field_simps)
  have pos: "0 < innerMultiplier ?r" "0 < outerMultiplier ?r"
    using line_rates_nonneg [OF assms(1)] by (simp_all add: innerMultiplier_def outerMultiplier_def add_pos_nonneg)
  show "mode \<noteq> TaxInclusive \<Longrightarrow> net = base" using assms(2) by (simp add: line_net_def)
  assume "mode = TaxInclusive"
  then have "net * (innerMultiplier ?r * outerMultiplier ?r) = base - innerFixed ?r * outerMultiplier ?r - outerFixed ?r"
    using assms(2) pos by (auto simp: line_net_def Let_def split: if_splits)
  then show "net + sum_list (map (component_amount q net ?r) cs) = base"
    unfolding all by (simp add: algebra_simps)
qed


section \<open>Line and document amounts\<close>

definition amt :: "string \<Rightarrow> rat" where
  "amt s = (case parseDecimal s True of Inr v \<Rightarrow> v | Inl _ \<Rightarrow> 0)"

definition is_amount :: "nat \<Rightarrow> string \<Rightarrow> bool" where
  "is_amount k s = amount k s (amt s)"

lemma amount_amt: "amount k s v \<Longrightarrow> amt s = v \<and> is_amount k s"
  by (auto simp: amount_def amt_def is_amount_def)

lemma is_amount_Nil [simp]: "is_amount k []" "amt [] = 0"
  using amount_amt [OF amount_empty] by auto

lemma is_amount_rounded: "k \<le> 18 \<Longrightarrow> is_amount k (formatRounded x k) \<and> amt (formatRounded x k) = roundRat x k"
  using amount_amt [OF amount_formatRounded] by blast

lemma add_amounts:
  assumes "is_amount k l" "is_amount k r" "k \<le> 18"
  shows "\<exists>s. addFormatted l r k = Inr s \<and> is_amount k s \<and> amt s = amt l + amt r"
  using amount_add [OF assms [unfolded is_amount_def]] amount_amt by blast

lemma sub_amounts:
  assumes "is_amount k l" "is_amount k r" "k \<le> 18"
  shows "\<exists>s. subtractFormatted l r k = Inr s \<and> is_amount k s \<and> amt s = amt l - amt r"
  using amount_sub [OF assms [unfolded is_amount_def]] amount_amt by blast

text \<open>A component row as it is printed: its base, its amount and its withheld share lie on the grid.\<close>

definition component_ok :: "nat \<Rightarrow> TaxCalculationComponentResult \<Rightarrow> bool" where
  "component_ok k c = (is_amount k (cr_BaseAmount c) \<and> is_amount k (cr_Amount c)
     \<and> is_amount k (cr_WithholdingAmount c))"

definition line_ok :: "nat \<Rightarrow> TaxCalculationLineResult \<Rightarrow> bool" where
  "line_ok k lr = (list_all (component_ok k) (lr_Components lr)
     \<and> is_amount k (lr_GrossAmount lr) \<and> is_amount k (lr_DiscountAmount lr)
     \<and> is_amount k (lr_LineDiscountAmount lr) \<and> is_amount k (lr_HeaderDiscountAmount lr)
     \<and> is_amount k (lr_TaxableAmount lr) \<and> is_amount k (lr_TaxAmount lr)
     \<and> is_amount k (lr_WithholdingAmount lr) \<and> is_amount k (lr_TotalAmount lr)
     \<and> is_amount k (lr_PayableAmount lr)
     \<and> amt (lr_TaxableAmount lr) + amt (lr_TaxAmount lr) = amt (lr_TotalAmount lr)
     \<and> amt (lr_PayableAmount lr) = amt (lr_TotalAmount lr) - amt (lr_WithholdingAmount lr))"

lemma mapE_total: "list_all P xs \<Longrightarrow> (\<And>x. P x \<Longrightarrow> \<exists>y. f x = Inr y) \<Longrightarrow> \<exists>ys. mapE f xs = Inr ys"
proof (induction xs)
  case (Cons x xs)
  then have "P x" "list_all P xs" by simp_all
  then obtain y ys where "f x = Inr y" "mapE f xs = Inr ys" using Cons by blast
  then show ?case by simp
qed simp

lemma component_result_total: "valid_vc c \<Longrightarrow> \<exists>x. component_result k q net r c = Inr x"
  by (auto simp: component_result_def withholdingAmountFor_def valid_vc_def Let_def split: option.splits)

lemma component_result_amount: "component_result k q net r c = Inr x \<Longrightarrow> fst x = component_amount q net r c"
  by (auto simp: component_result_def Let_def elim!: bindE_InrE)

lemma component_result_ok: "component_result k q net r c = Inr x \<Longrightarrow> k \<le> 18 \<Longrightarrow> component_ok k (snd (snd x))"
  using is_amount_rounded by (auto simp: component_result_def component_ok_def Let_def elim!: bindE_InrE)

lemma component_results_ok:
  "mapE (component_result k q net r) cs = Inr xs \<Longrightarrow> k \<le> 18 \<Longrightarrow> list_all (component_ok k) (map (snd \<circ> snd) xs)"
  by (auto simp: mapE_Inr_iff list_all2_conv_all_nth list_all_length component_result_ok)

lemma component_results_sum:
  "mapE (component_result k q net r) cs = Inr xs \<Longrightarrow>
   sum_list (map fst xs) = sum_list (map (component_amount q net r) cs)"
  by (rule arg_cong [of _ _ sum_list], rule nth_equalityI)
     (auto simp: mapE_Inr_iff list_all2_conv_all_nth component_result_amount)

text \<open>The tail of the line calculation: formatting cannot fail and the texts reconcile.\<close>

lemma line_texts:
  assumes k: "k \<le> 18" and mode: "mode = TaxInclusive \<or> mode = TaxExclusive"
  shows "\<exists>tot pay tx. (if mode = TaxExclusive then addFormatted (formatRounded net k) (formatRounded tax k) k
            else Inr (formatRounded base k)) = Inr tot
     \<and> subtractFormatted tot (formatRounded wh k) k = Inr pay
     \<and> (if mode = TaxInclusive then subtractFormatted tot (formatRounded tax k) k
        else Inr (formatRounded net k)) = Inr tx
     \<and> is_amount k tot \<and> is_amount k pay \<and> is_amount k tx
     \<and> amt tx + amt (formatRounded tax k) = amt tot
     \<and> amt pay = amt tot - amt (formatRounded wh k)"
proof -
  note r = is_amount_rounded [OF k]
  have ne: "TaxInclusive \<noteq> TaxExclusive" by (simp add: tax_consts)
  obtain a where a: "addFormatted (formatRounded net k) (formatRounded tax k) k = Inr a" "is_amount k a"
      "amt a = amt (formatRounded net k) + amt (formatRounded tax k)"
    using add_amounts r k by blast
  define tot where "tot = (if mode = TaxExclusive then a else formatRounded base k)"
  have tot: "is_amount k tot" using a r by (simp add: tot_def)
  obtain pay where pay: "subtractFormatted tot (formatRounded wh k) k = Inr pay" "is_amount k pay"
      "amt pay = amt tot - amt (formatRounded wh k)"
    using sub_amounts tot r k by blast
  obtain i where i: "subtractFormatted tot (formatRounded tax k) k = Inr i" "is_amount k i"
      "amt i = amt tot - amt (formatRounded tax k)"
    using sub_amounts tot r k by blast
  show ?thesis using mode
  proof
    assume "mode = TaxInclusive"
    then show ?thesis using tot pay i ne by (intro exI [of _ tot] exI [of _ pay] exI [of _ i]) (simp add: tot_def)
  next
    assume "mode = TaxExclusive"
    then show ?thesis using tot pay a r ne
      by (intro exI [of _ tot] exI [of _ pay] exI [of _ "formatRounded net k"]) (simp add: tot_def)
  qed
qed

lemma calculateLineFrom_cases:
  assumes k: "k \<le> 18" and mode: "mode = TaxInclusive \<or> mode = TaxExclusive"
  shows "(\<exists>lr. calculateLineFrom b h mode k = Inr lr \<and> line_ok k lr
            \<and> amt (lr_HeaderDiscountAmount lr) = roundRat h k)
       \<or> calculateLineFrom b h mode k = Inl ErrInvalidTaxCalculation
       \<or> calculateLineFrom b h mode k = Inl ErrDiscountExceedsTaxBase"
proof -
  have comp_err: "validateComponent c = Inl e \<Longrightarrow> e = ErrInvalidTaxCalculation" for c e
    by (auto simp: validateComponent_def Let_def split: sum.splits if_splits option.splits)
  have map_err: "mapE validateComponent cs = Inl e \<Longrightarrow> e = ErrInvalidTaxCalculation" for cs e
    by (induction cs) (auto simp: bindE_def comp_err split: sum.splits)
  show ?thesis
  proof (cases "lb_base b - h < 0")
    case False
    show ?thesis
    proof (cases "mapE validateComponent (tl_Components (lb_line b))")
      case (Inl e)
      then show ?thesis using False map_err [OF Inl] by (simp add: calculateLineFrom_def Let_def)
    next
      case (Inr cs)
      let ?r = "line_rates_of (lb_quantity b) cs"
      show ?thesis
      proof (cases "line_net mode (lb_base b - h) ?r")
        case (Inl e)
        then show ?thesis using False \<open>mapE _ _ = Inr cs\<close>
          by (auto simp: calculateLineFrom_def Let_def line_net_def split: if_splits)
      next
        case net: (Inr net)
        obtain xs where xs: "mapE (component_result k (lb_quantity b) net ?r) cs = Inr xs"
          using mapE_total [OF validated_all [OF Inr], of "component_result k (lb_quantity b) net ?r"]
            component_result_total by blast
        from line_texts [OF k mode, of net "sum_list (map fst xs)" "lb_base b - h" "sum_list (map (fst \<circ> snd) xs)"]
        show ?thesis using False Inr net xs is_amount_rounded [OF k] component_results_ok [OF xs k]
          by (auto simp: calculateLineFrom_def Let_def line_ok_def simp del: not_less)
      qed
    qed
  qed (simp add: calculateLineFrom_def)
qed


definition line_sum :: "(TaxCalculationLineResult \<Rightarrow> string) \<Rightarrow> TaxCalculationResult \<Rightarrow> rat" where
  "line_sum f r = sum_list (map (amt \<circ> f) (tr_Lines r))"

definition sums_to :: "nat \<Rightarrow> string \<Rightarrow> rat \<Rightarrow> bool" where
  "sums_to k s v = (is_amount k s \<and> amt s = v)"

definition doc_inv :: "nat \<Rightarrow> TaxCalculationResult \<Rightarrow> bool" where
  "doc_inv k r = (list_all (line_ok k) (tr_Lines r)
     \<and> sums_to k (tr_GrossAmount r) (line_sum lr_GrossAmount r)
     \<and> sums_to k (tr_DiscountAmount r) (line_sum lr_DiscountAmount r)
     \<and> sums_to k (tr_LineDiscountAmount r) (line_sum lr_LineDiscountAmount r)
     \<and> sums_to k (tr_TaxableAmount r) (line_sum lr_TaxableAmount r)
     \<and> sums_to k (tr_TaxAmount r) (line_sum lr_TaxAmount r)
     \<and> sums_to k (tr_WithholdingAmount r) (line_sum lr_WithholdingAmount r)
     \<and> sums_to k (tr_TotalAmount r) (line_sum lr_TotalAmount r)
     \<and> tr_Components r = concat (map lr_Components (tr_Lines r)))"

lemma doc_inv_empty: "doc_inv k empty_result"
  by (simp add: doc_inv_def empty_result_def line_sum_def sums_to_def)

lemma add_to_sum:
  assumes "sums_to k s v" "is_amount k l" "k \<le> 18"
  shows "\<exists>t. addFormatted s l k = Inr t \<and> sums_to k t (v + amt l)"
  using add_amounts [of k s l] assms by (auto simp: sums_to_def)

lemma add_line_inv:
  assumes "doc_inv k r" "line_ok k lr" "k \<le> 18"
  shows "\<exists>r'. add_line k r lr = Inr r' \<and> doc_inv k r' \<and> tr_Lines r' = tr_Lines r @ [lr]"
proof -
  note d = assms(1) [unfolded doc_inv_def] and l = assms(2) [unfolded line_ok_def]
  have f: "\<exists>t. addFormatted (tr_GrossAmount r) (lr_GrossAmount lr) k = Inr t \<and> sums_to k t (line_sum lr_GrossAmount r + amt (lr_GrossAmount lr))"
    "\<exists>t. addFormatted (tr_DiscountAmount r) (lr_DiscountAmount lr) k = Inr t \<and> sums_to k t (line_sum lr_DiscountAmount r + amt (lr_DiscountAmount lr))"
    "\<exists>t. addFormatted (tr_LineDiscountAmount r) (lr_LineDiscountAmount lr) k = Inr t \<and> sums_to k t (line_sum lr_LineDiscountAmount r + amt (lr_LineDiscountAmount lr))"
    "\<exists>t. addFormatted (tr_TaxableAmount r) (lr_TaxableAmount lr) k = Inr t \<and> sums_to k t (line_sum lr_TaxableAmount r + amt (lr_TaxableAmount lr))"
    "\<exists>t. addFormatted (tr_TaxAmount r) (lr_TaxAmount lr) k = Inr t \<and> sums_to k t (line_sum lr_TaxAmount r + amt (lr_TaxAmount lr))"
    "\<exists>t. addFormatted (tr_WithholdingAmount r) (lr_WithholdingAmount lr) k = Inr t \<and> sums_to k t (line_sum lr_WithholdingAmount r + amt (lr_WithholdingAmount lr))"
    "\<exists>t. addFormatted (tr_TotalAmount r) (lr_TotalAmount lr) k = Inr t \<and> sums_to k t (line_sum lr_TotalAmount r + amt (lr_TotalAmount lr))"
    using add_to_sum d l assms(3) by blast+
  then show ?thesis
    using d assms(2) by (elim exE conjE) (simp add: add_line_def doc_inv_def line_sum_def)
qed

lemma line_loop_cases:
  assumes k: "k \<le> 18" and mode: "mode = TaxInclusive \<or> mode = TaxExclusive"
  shows "doc_inv k r \<Longrightarrow>
    (\<exists>r' ls. line_loop mode k r bs = Inr r' \<and> doc_inv k r' \<and> tr_Lines r' = tr_Lines r @ ls
       \<and> map (amt \<circ> lr_HeaderDiscountAmount) ls = map (\<lambda>(b, h). roundRat h k) bs)
    \<or> line_loop mode k r bs = Inl ErrInvalidTaxCalculation
    \<or> line_loop mode k r bs = Inl ErrDiscountExceedsTaxBase"
proof (induction bs arbitrary: r)
  case (Cons bh bs)
  obtain b h where bh: "bh = (b, h)" by (cases bh)
  consider lr where "calculateLineFrom b h mode k = Inr lr" "line_ok k lr" "amt (lr_HeaderDiscountAmount lr) = roundRat h k"
    | "calculateLineFrom b h mode k = Inl ErrInvalidTaxCalculation"
    | "calculateLineFrom b h mode k = Inl ErrDiscountExceedsTaxBase"
    using calculateLineFrom_cases [OF k mode, of b h] by blast
  then show ?case
  proof cases
    case (1 lr)
    obtain r1 where r1: "add_line k r lr = Inr r1" "doc_inv k r1" "tr_Lines r1 = tr_Lines r @ [lr]"
      using add_line_inv [OF Cons.prems 1(2) k] by blast
    then have eq: "line_loop mode k r (bh # bs) = line_loop mode k r1 bs" using 1 bh by simp
    from Cons.IH [OF r1(2)] show ?thesis
    proof (elim disjE exE conjE)
      fix r' ls
      assume A: "line_loop mode k r1 bs = Inr r'" "doc_inv k r'" "tr_Lines r' = tr_Lines r1 @ ls"
        "map (amt \<circ> lr_HeaderDiscountAmount) ls = map (\<lambda>(b, h). roundRat h k) bs"
      have "line_loop mode k r (bh # bs) = Inr r' \<and> doc_inv k r' \<and> tr_Lines r' = tr_Lines r @ lr # ls
         \<and> map (amt \<circ> lr_HeaderDiscountAmount) (lr # ls) = map (\<lambda>(b, h). roundRat h k) (bh # bs)"
        unfolding eq using A r1(3) 1(3) bh by simp
      then show ?thesis by blast
    qed (unfold eq, simp_all)
  qed (simp_all add: bh)
qed simp

text \<open>Errors of the first pass.\<close>

lemma discount_errors:
  "calculateDiscount g d = Inl e \<Longrightarrow> e \<noteq> NilPanic"
  "cascading_loop t r ds = Inl e \<Longrightarrow> e \<noteq> NilPanic"
  by (auto simp: calculateDiscount_def split: sum.splits if_splits)
     (induction ds arbitrary: t r; auto simp: bindE_def calculateDiscount_def split: sum.splits if_splits)

lemma resolve_errors: "resolveLineBase l = Inl e \<Longrightarrow> e \<noteq> NilPanic"
  using discount_errors(2)
  by (auto simp: resolveLineBase_def Let_def bindE_def cascadingDiscount_def split: sum.splits if_splits)

lemma mapE_error: "mapE f xs = Inl e \<Longrightarrow> \<exists>x \<in> set xs. f x = Inl e"
  by (induction xs) (auto simp: bindE_def split: sum.splits)


section \<open>Canonical texts\<close>

lemma decimalScale_loop_dvd:
  assumes "(d::int) dvd 10 ^ j" "0 < d" "s \<le> 19"
  shows "s \<le> decimalScale_loop d s \<and> decimalScale_loop d s \<le> 19
    \<and> (decimalScale_loop d s = 19 \<or> d dvd 10 ^ (decimalScale_loop d s - s))"
  using assms
proof (induction d s arbitrary: j rule: decimalScale_loop.induct)
  case (1 d s)
  show ?case
  proof (cases "d \<noteq> 1 \<and> int s \<le> maxDecimalScale")
    case False
    then show ?thesis using 1 by (subst (1 2 3 4) decimalScale_loop.simps) (auto simp: maxDecimalScale_def)
  next
    case True
    then have s: "s \<le> 18" by (simp add: maxDecimalScale_def)
    have factor: "d mod 2 = 0 \<or> d mod 5 = 0"
    proof (rule ccontr)
      assume n: "\<not> ?thesis"
      have "coprime d 2" using n by (simp add: coprime_right_2_iff_odd even_iff_mod_2_eq_zero)
      moreover have "coprime d 5"
      proof -
        have "d mod 5 = 1 \<or> d mod 5 = 2 \<or> d mod 5 = 3 \<or> d mod 5 = 4" using n by presburger
        moreover have "gcd (5::int) 3 = 1" "gcd (5::int) 4 = 1" by code_simp+
        ultimately have "gcd 5 (d mod 5) = 1" by auto
        then show ?thesis using gcd_red_int [of d 5] by (simp add: coprime_iff_gcd_eq_1)
      qed
      ultimately
      have "coprime d (2 * 5)" by (rule coprime_mult_right_iff [THEN iffD2, OF conjI])
      then have "coprime d (10 ^ j)" by simp
      then show False using "1.prems"(1,2) True coprime_common_divisor [of d "10 ^ j" d] by auto
    qed
    define p :: int where "p = (if d mod 2 = 0 then 2 else 5)"
    have p: "p dvd d" "p dvd 10" "0 < p" using factor by (auto simp: p_def dvd_eq_mod_eq_0)
    have step: "decimalScale_loop d s = decimalScale_loop (d div p) (s + 1)"
      using True factor by (subst decimalScale_loop.simps) (auto simp: p_def)
    have dp: "d = p * (d div p)" "0 < d div p"
      using p "1.prems" by (auto simp: pos_imp_zdiv_pos_iff zdvd_imp_le)
    moreover have "d div p dvd 10 ^ j" using dp(1) "1.prems"(1) by (metis dvd_mult_right)
    ultimately have dp: "d = p * (d div p)" "0 < d div p" "d div p dvd 10 ^ j" by blast+
    have IH: "s + 1 \<le> decimalScale_loop (d div p) (s + 1) \<and> decimalScale_loop (d div p) (s + 1) \<le> 19
      \<and> (decimalScale_loop (d div p) (s + 1) = 19 \<or> d div p dvd 10 ^ (decimalScale_loop (d div p) (s + 1) - (s + 1)))"
      using "1.IH" True dp s factor by (auto simp: p_def split: if_splits)
    define K where "K = decimalScale_loop (d div p) (s + 1)"
    have "d dvd 10 ^ (K - s)" if "d div p dvd 10 ^ (K - (s + 1))"
    proof -
      have "K - s = Suc (K - (s + 1))" using IH unfolding K_def by linarith
      then show ?thesis using mult_dvd_mono [OF p(2) that] dp(1) by simp
    qed
    then show ?thesis using IH unfolding step K_def [symmetric] by auto
  qed
qed

lemma short_fraction:
  assumes "of_nat (nat_of_dec (ip @ fp)) / 10 ^ length fp = (of_int m / 10 ^ j :: rat)"
    "all_digits fp" "fp = [] \<or> last fp \<noteq> CHR ''0''"
  shows "length fp \<le> j"
proof (rule ccontr)
  assume "\<not> ?thesis"
  then obtain i where i: "length fp = j + Suc i" by (metis add_Suc_right less_imp_Suc_add linorder_not_le)
  then have ne: "fp \<noteq> []" by auto
  have "(of_nat (nat_of_dec (ip @ fp)) :: rat) = of_int (m * 10 ^ Suc i)"
    using assms(1) by (simp add: i power_add field_simps)
  then have "int (nat_of_dec (ip @ fp)) = m * 10 ^ Suc i" by (metis of_int_eq_iff of_int_of_nat_eq)
  then have "int (nat_of_dec (ip @ fp)) mod 10 = 0" by simp
  moreover have "nat_of_dec (ip @ fp) = 10 * nat_of_dec (ip @ butlast fp) + digit_val (last fp)"
    by (metis append_assoc append_butlast_last_id nat_of_dec_snoc ne)
  moreover have "is_digit (last fp)" using assms(2) ne by (simp add: all_digits_set)
  ultimately have "digit_val (last fp) = 0" by (simp add: zmod_int [symmetric] mod_add_eq)
  then show False using assms(3) ne \<open>is_digit (last fp)\<close> digit_char_0 digit_char_val by metis
qed

lemma parseDecimal_range:
  assumes "parseDecimal s b = Inr r" obtains n j where "r = of_int n / 10 ^ j" "j \<le> 18"
proof (cases "trim_space s = []")
  case True
  then show thesis using assms that [of 0 0] by (auto simp: parseDecimal_def split: if_splits)
next
  case False
  then obtain d where d: "ParseDecimal (trim_space s) maxDecimalScale = Inr d" "rat_SetString (dec_String d) = Some r"
    using assms by (auto simp: parseDecimal_def Let_def split: sum.splits option.splits)
  have "decimal_ok d" "int (dscale d) \<le> 18"
    using ParseDecimal_ok [OF d(1)] by (simp_all add: maxDecimalScale_def)
  then show thesis using that [of "dvalue d" "dscale d"] rat_SetString_decimal d(2) by (auto simp: decimal_rat_def)
qed

lemma rat_num_less: "rat_num r < 0 \<longleftrightarrow> r < 0"
  using rat_num_nonneg [of r] by linarith

lemma canonical_parse:
  assumes "parseDecimal s b = Inr r" shows "parseDecimal (canonicalDecimal r) c = Inr r"
proof -
  obtain n j where r: "r = of_int n / 10 ^ j" "j \<le> 18" using assms by (rule parseDecimal_range)
  let ?K = "decimalScale r"
  have den: "rat_den r dvd 10 ^ j"
  proof -
    have "of_int (rat_num r) * 10 ^ j = of_int n * (of_int (rat_den r) :: rat)"
    proof -
      define N D :: rat where "N = of_int (rat_num r)" and "D = of_int (rat_den r)"
      have "r = N / D" unfolding N_def D_def by (rule rat_num_den)
      moreover have "D \<noteq> 0" by (simp add: D_def less_imp_neq [OF rat_den_pos, symmetric])
      ultimately have "N / D = of_int n / 10 ^ j" "D \<noteq> 0" using r(1) by metis+
      then have "N * 10 ^ j = of_int n * D" by (simp add: field_simps)
      then show ?thesis by (simp add: N_def D_def)
    qed
    then have "rat_num r * 10 ^ j = n * rat_den r"
      by (metis (mono_tags, lifting) of_int_eq_iff of_int_mult of_int_numeral of_int_power)
    then have "rat_den r dvd rat_num r * 10 ^ j" by simp
    moreover have "coprime (rat_num r) (rat_den r)"
      unfolding rat_num_def rat_den_def by (metis prod.collapse quotient_of_coprime)
    ultimately show ?thesis by (metis coprime_commute coprime_dvd_mult_right_iff)
  qed
  have "?K = 19 \<or> rat_den r dvd 10 ^ ?K"
    using decimalScale_loop_dvd [OF den rat_den_pos, of 0] by (simp add: decimalScale_def)
  then have "rat_den r dvd 10 ^ ?K"
  proof
    assume "?K = 19"
    then have "(10::int) ^ j dvd 10 ^ ?K" using r(2) by (intro le_imp_power_dvd) simp
    then show ?thesis by (rule dvd_trans [OF den])
  qed
  then obtain q where q: "10 ^ ?K = rat_den r * q" by (elim dvdE)
  have grid: "r = of_int (rat_num r * q) / 10 ^ ?K"
  proof -
    have "(10 :: rat) ^ ?K = of_int (rat_den r) * of_int q"
      using q by (metis of_int_mult of_int_numeral of_int_power)
    moreover have "q \<noteq> 0" using q by auto
    ultimately show ?thesis by (subst rat_num_den) (simp add: less_imp_neq [OF rat_den_pos, symmetric])
  qed
  obtain ip fp where t: "formatExact r ?K = (if rat_num r * q < 0 then ''-'' else []) @ unsigned_text ip fp"
    "all_digits ip" "ip \<noteq> []" "all_digits fp" "length fp \<le> ?K"
    "of_nat (nat_of_dec (ip @ fp)) / 10 ^ length fp = \<bar>r\<bar>" "fp = [] \<or> last fp \<noteq> CHR ''0''"
    using grid by (rule formatExact_text)
  have "\<bar>r\<bar> = of_int \<bar>n\<bar> / 10 ^ j" using r(1) by simp
  then have "length fp \<le> 18" using short_fraction [of ip fp "\<bar>n\<bar>" j] t r(2) by simp
  from parseDecimal_text [OF t(2-4) this] have
    "parseDecimal (canonicalDecimal r) c = Inr ((if rat_num r * q < 0 then -1 else 1) * \<bar>r\<bar>)"
    unfolding canonicalDecimal_def t(1) by (simp add: t(6) [symmetric])
  moreover have "(if rat_num r * q < 0 then -1 else 1) * \<bar>r\<bar> = r"
  proof -
    have "0 < q" using q by (metis rat_den_pos zero_less_mult_pos zero_less_numeral zero_less_power)
    then have "rat_num r * q < 0 \<longleftrightarrow> r < 0" using rat_num_less [of r] by (simp add: mult_less_0_iff)
    then show ?thesis by auto
  qed
  ultimately show ?thesis by simp
qed


section \<open>The document calculation\<close>

lemma Calculate_InrD:
  assumes "Calculate input = Inr r"
  obtains mode k bases shares h r1 pay where
    "k = nat (ti_RoundScale input)" "k \<le> 18" "mode = TaxInclusive \<or> mode = TaxExclusive"
    "mapE (resolveLineBase \<circ> effective_line input) (ti_Lines input) = Inr bases"
    "distributeHeaderDiscount bases (ti_HeaderDiscounts input) k = Inr (shares, h)"
    "line_loop mode k empty_result (zip bases shares) = Inr r1"
    "subtractFormatted (tr_TotalAmount r1) (tr_WithholdingAmount r1) k = Inr pay"
    "r = r1\<lparr>tr_HeaderDiscountAmount := formatRounded h k, tr_NetAmount := tr_TaxableAmount r1,
        tr_TotalTaxAmount := tr_TaxAmount r1, tr_PayableAmount := pay\<rparr>"
proof -
  let ?m = "if ti_TaxMode input = [] then TaxExclusive else ti_TaxMode input"
  let ?k = "nat (ti_RoundScale input)"
  have g: "\<not> (ti_RoundScale input < 0 \<or> ti_RoundScale input > maxDecimalScale)"
    "?m = TaxInclusive \<or> ?m = TaxExclusive"
    using assms by (auto simp: Calculate_def Let_def split: if_splits)
  then have "?k \<le> 18" by (simp add: maxDecimalScale_def nat_le_iff)
  moreover obtain bases shares h r1 pay where
    "mapE (resolveLineBase \<circ> effective_line input) (ti_Lines input) = Inr bases"
    "distributeHeaderDiscount bases (ti_HeaderDiscounts input) ?k = Inr (shares, h)"
    "line_loop ?m ?k empty_result (zip bases shares) = Inr r1"
    "subtractFormatted (tr_TotalAmount r1) (tr_WithholdingAmount r1) ?k = Inr pay"
    "r = r1\<lparr>tr_HeaderDiscountAmount := formatRounded h ?k, tr_NetAmount := tr_TaxableAmount r1,
        tr_TotalTaxAmount := tr_TaxAmount r1, tr_PayableAmount := pay\<rparr>"
    using assms unfolding Calculate_def Let_def
    by (auto elim!: bindE_InrE simp del: not_less split: if_split_asm)
  ultimately show thesis using g(2) by (intro that [OF refl])
qed

lemma resolved_nonneg:
  assumes "mapE (resolveLineBase \<circ> f) ls = Inr bs" "b \<in> set bs" shows "0 \<le> lb_base b"
  using assms resolveLineBase_ok by (fastforce simp: mapE_Inr_iff list_all2_conv_all_nth in_set_conv_nth)

lemma rounded_shares_sum:
  assumes "list_all (\<lambda>h. \<exists>n. h = of_int n / 10 ^ k) hs"
  shows "sum_list (map (\<lambda>h. roundRat h k) hs) = sum_list hs"
  using assms by (induction hs) auto

end
