(* ===== verification/Tax_Document.thy ===== *)
theory Tax_Document
  imports Taxes
begin

text \<open>
  The promises of the tax engine as a whole: a calculated document reconciles to the last decimal, the
  header discount is split without loss, line nets and component amounts rebuild the base, the engine
  only fails with its two documented errors, and rates survive their canonical text.
\<close>

section \<open>The document reconciles\<close>

lemma header_sum:
  assumes "distributeHeaderDiscount bases ds k = Inr (shares, h)"
    and "\<And>b. b \<in> set bases \<Longrightarrow> 0 \<le> lb_base b"
  shows "sum_list (map (\<lambda>(b, s). roundRat s k) (zip bases shares)) = roundRat h k \<and> length shares = length bases"
proof -
  note d = distributeHeaderDiscount_exact [OF assms]
  have z: "map (\<lambda>(b, s). roundRat s k) (zip bases shares) = map (\<lambda>s. roundRat s k) shares"
    using d by (intro nth_equalityI) auto
  have g: "list_all (\<lambda>s. \<exists>n. s = of_int n / 10 ^ k) shares" using d by (simp add: list_all_length)
  show ?thesis unfolding z rounded_shares_sum [OF g] using d by auto
qed

lemma line_sum_reconciles:
  assumes "list_all (line_ok k) (tr_Lines r)"
  shows "line_sum lr_TaxableAmount r + line_sum lr_TaxAmount r = line_sum lr_TotalAmount r"
proof -
  have "sum_list (map (amt \<circ> lr_TaxableAmount) ls) + sum_list (map (amt \<circ> lr_TaxAmount) ls)
      = sum_list (map (amt \<circ> lr_TotalAmount) ls)" if "list_all (line_ok k) ls" for ls
    using that by (induction ls) (auto simp: line_ok_def)
  then show ?thesis using assms by (simp add: line_sum_def)
qed

text \<open>
  Claim C1.  A document that \<^verbatim>\<open>Calculate\<close> accepts reconciles exactly.  With scale = the requested rounding
  scale: it has one result line per input line; every amount it prints (the nine amounts of each line, the
  base, amount and withheld share of each component of each line, and the eleven amounts of the document)
  parses back to a multiple of 10 to the power -scale, the empty text of a document without lines standing
  for 0; on every line taxable + tax = total and payable = total - withholding; the gross, discount, line
  discount, taxable, tax, withholding and total amounts of the document are the exact sums of its lines, its
  components are those of its lines, in order; the header discount is the exact sum of the header shares of
  the lines; and net + total tax = total, payable = total - withholding for the document too.
\<close>

theorem tax_document_reconciles:
  assumes "Calculate input = Inr r"
  shows "doc_inv (nat (ti_RoundScale input)) r \<and> length (tr_Lines r) = length (ti_Lines input)
    \<and> list_all (is_amount (nat (ti_RoundScale input)))
        [tr_HeaderDiscountAmount r, tr_NetAmount r, tr_TotalTaxAmount r, tr_PayableAmount r]
    \<and> list_all (component_ok (nat (ti_RoundScale input))) (tr_Components r)
    \<and> amt (tr_HeaderDiscountAmount r) = line_sum lr_HeaderDiscountAmount r
    \<and> amt (tr_NetAmount r) + amt (tr_TotalTaxAmount r) = amt (tr_TotalAmount r)
    \<and> amt (tr_PayableAmount r) = amt (tr_TotalAmount r) - amt (tr_WithholdingAmount r)"
proof -
  obtain mode k bases shares h r1 pay where c:
    "k = nat (ti_RoundScale input)" "k \<le> 18" "mode = TaxInclusive \<or> mode = TaxExclusive"
    "mapE (resolveLineBase \<circ> effective_line input) (ti_Lines input) = Inr bases"
    "distributeHeaderDiscount bases (ti_HeaderDiscounts input) k = Inr (shares, h)"
    "line_loop mode k empty_result (zip bases shares) = Inr r1"
    "subtractFormatted (tr_TotalAmount r1) (tr_WithholdingAmount r1) k = Inr pay"
    "r = r1\<lparr>tr_HeaderDiscountAmount := formatRounded h k, tr_NetAmount := tr_TaxableAmount r1,
        tr_TotalTaxAmount := tr_TaxAmount r1, tr_PayableAmount := pay\<rparr>"
    using assms by (rule Calculate_InrD)
  have head: "sum_list (map (\<lambda>(b, s). roundRat s k) (zip bases shares)) = roundRat h k" "length shares = length bases"
    using header_sum [OF c(5)] resolved_nonneg [OF c(4)] by blast+
  have r1: "doc_inv k r1" "map (amt \<circ> lr_HeaderDiscountAmount) (tr_Lines r1) = map (\<lambda>(b, s). roundRat s k) (zip bases shares)"
    using line_loop_cases [OF c(2,3) doc_inv_empty, of "zip bases shares"] c(6) by (auto simp: empty_result_def)
  have len: "length (tr_Lines r1) = length (ti_Lines input)"
    using arg_cong [OF r1(2), of length] head(2) mapE_length [OF c(4)] by simp
  have pay: "is_amount k pay \<and> amt pay = amt (tr_TotalAmount r1) - amt (tr_WithholdingAmount r1)"
    using sub_amounts [OF _ _ c(2), of "tr_TotalAmount r1" "tr_WithholdingAmount r1"] r1(1) c(7)
    by (auto simp: doc_inv_def sums_to_def)
  have "amt (tr_TaxableAmount r1) + amt (tr_TaxAmount r1) = amt (tr_TotalAmount r1)"
    using line_sum_reconciles [of k r1] r1(1) by (simp add: doc_inv_def sums_to_def)
  moreover have "amt (formatRounded h k) = line_sum lr_HeaderDiscountAmount r1"
    using is_amount_rounded [OF c(2), of h] head(1) r1(2) by (simp add: line_sum_def)
  moreover have "doc_inv k r" using r1(1) unfolding c(8) by (simp add: doc_inv_def line_sum_def)
  moreover have "list_all (component_ok k) (tr_Components r1)"
    using r1(1) by (auto simp: doc_inv_def line_ok_def list_all_iff)
  moreover have "list_all (is_amount k) [formatRounded h k, tr_TaxableAmount r1, tr_TaxAmount r1, pay]"
    using is_amount_rounded [OF c(2)] r1(1) pay by (simp add: doc_inv_def sums_to_def)
  ultimately show ?thesis using len pay unfolding c(8) c(1) [symmetric] by (simp add: line_sum_def)
qed

definition sample_kdv :: TaxComponent where
  "sample_kdv = \<lparr>tc_Code = ''KDV'', tc_Name = ''KDV'', tc_CalculationType = [], tc_Rate = ''20'',
     tc_IncludedInBase = False, tc_Primary = True, tc_Withholding = True,
     tc_WithholdingNumerator = Some 5, tc_WithholdingDenominator = Some 10, tc_Exempt = False\<rparr>"

definition sample_input :: TaxCalculationInput where
  "sample_input = \<lparr>ti_Lines = [\<lparr>tl_UnitPrice = ''7'', tl_Quantity = ''2'',
       tl_Discount = \<lparr>td_Kind = [], td_Amount = []\<rparr>, tl_Discounts = [],
       tl_Components = [sample_kdv], tl_TaxComponents = []\<rparr>],
     ti_Components = [], ti_HeaderDiscounts = [\<lparr>td_Kind = ''FIXED'', td_Amount = ''4''\<rparr>],
     ti_TaxMode = [], ti_RoundScale = 1, ti_RoundPolicy = []\<rparr>"

lemma sample_total:
  "(case Calculate sample_input of Inr r \<Rightarrow> tr_TotalAmount r = ''12'' \<and> tr_PayableAmount r = ''11''
      | Inl _ \<Rightarrow> False)"
  by code_simp

lemma sample_ok: obtains r where "Calculate sample_input = Inr r" "tr_TotalAmount r = ''12''" "tr_PayableAmount r = ''11''"
  using sample_total by (auto split: sum.splits)

theorem tax_document_reconciles_witness:
  "\<exists>r. Calculate sample_input = Inr r \<and> tr_TotalAmount r = ''12'' \<and> doc_inv 1 r
     \<and> list_all (component_ok 1) (tr_Components r)
     \<and> amt (tr_PayableAmount r) = amt (tr_TotalAmount r) - amt (tr_WithholdingAmount r)"
proof -
  obtain r where r: "Calculate sample_input = Inr r" "tr_TotalAmount r = ''12''" by (rule sample_ok)
  moreover have "nat (ti_RoundScale sample_input) = 1" by (simp add: sample_input_def)
  ultimately show ?thesis using tax_document_reconciles [OF r(1)] by metis
qed

section \<open>Errors\<close>

text \<open>
  \<^verbatim>\<open>Calculate\<close> fails only with \<^verbatim>\<open>ErrInvalidTaxCalculation\<close> or \<^verbatim>\<open>ErrDiscountExceedsTaxBase\<close>.  In
  particular the parse errors that \<^verbatim>\<open>addFormatted\<close> and \<^verbatim>\<open>subtractFormatted\<close> drop never occur, so the nil
  \<^verbatim>\<open>*big.Rat\<close> they would dereference is never reached.
\<close>

theorem Calculate_never_panics: "Calculate input \<noteq> Inl NilPanic"
proof
  assume e: "Calculate input = Inl NilPanic"
  define k where "k = nat (ti_RoundScale input)"
  define m where "m = (if ti_TaxMode input = [] then TaxExclusive else ti_TaxMode input)"
  have k: "k \<le> 18" and m: "m = TaxInclusive \<or> m = TaxExclusive"
    using e by (auto simp: Calculate_def Let_def maxDecimalScale_def k_def m_def split: if_splits)
  have first: "mapE (resolveLineBase \<circ> effective_line input) (ti_Lines input) \<noteq> Inl NilPanic"
    using mapE_error resolve_errors by fastforce
  have second: "distributeHeaderDiscount bs ds k \<noteq> Inl NilPanic" for bs ds
    using discount_errors(2) [of 0 _ ds]
    by (auto simp: distributeHeaderDiscount_def Let_def bindE_def cascadingDiscount_def split: sum.splits if_splits)
  have "\<exists>pay. subtractFormatted (tr_TotalAmount r) (tr_WithholdingAmount r) k = Inr pay" if "doc_inv k r" for r
    using that sub_amounts [OF _ _ k] unfolding doc_inv_def sums_to_def by blast
  note pay = this
  have third: "bindE (line_loop m k empty_result bs) (\<lambda>result.
      bindE (subtractFormatted (tr_TotalAmount result) (tr_WithholdingAmount result) k) (\<lambda>payable.
        Inr (result\<lparr>tr_HeaderDiscountAmount := formatRounded h k,
                 tr_NetAmount := tr_TaxableAmount result, tr_TotalTaxAmount := tr_TaxAmount result,
                 tr_PayableAmount := payable\<rparr>))) \<noteq> Inl NilPanic" for bs h
    using line_loop_cases [OF k m doc_inv_empty, of bs] by (auto dest!: pay)
  have "bindE (mapE (resolveLineBase \<circ> effective_line input) (ti_Lines input)) (\<lambda>bases.
      bindE (distributeHeaderDiscount bases (ti_HeaderDiscounts input) k) (\<lambda>(shares, headerDiscount).
      bindE (line_loop m k empty_result (zip bases shares)) (\<lambda>result.
      bindE (subtractFormatted (tr_TotalAmount result) (tr_WithholdingAmount result) k) (\<lambda>payable.
        Inr (result\<lparr>tr_HeaderDiscountAmount := formatRounded headerDiscount k,
                 tr_NetAmount := tr_TaxableAmount result, tr_TotalTaxAmount := tr_TaxAmount result,
                 tr_PayableAmount := payable\<rparr>))))) = Inl NilPanic"
    using e by (simp add: Calculate_def Let_def k_def m_def split: if_split_asm)
  then show False using first second third by (auto simp: bindE_def [of "mapE _ _"] bindE_def [of "distributeHeaderDiscount _ _ _"] split: sum.splits)
qed


section \<open>Lines\<close>

lemma line_net_nonneg:
  assumes "list_all valid_vc vs" "line_net mode base (line_rates_of q vs) = Inr net" "0 \<le> base" shows "0 \<le> net"
proof -
  have "0 \<le> innerMultiplier (line_rates_of q vs)" "0 \<le> outerMultiplier (line_rates_of q vs)"
    using line_rates_nonneg [OF assms(1)] by (simp_all add: innerMultiplier_def outerMultiplier_def)
  then show ?thesis using assms(2,3) by (auto simp: line_net_def Let_def split: if_splits)
qed

lemma line_fixed_nonneg:
  "list_all valid_vc vs \<Longrightarrow> 0 \<le> q \<Longrightarrow> 0 \<le> innerFixed (line_rates_of q vs)"
  by (induction vs) (auto simp: line_rates_Cons line_rates_Nil accumulate_def rates0_def valid_vc_def Let_def)

lemma component_amount_nonneg:
  assumes "list_all valid_vc vs" "0 \<le> net" "0 \<le> q" "v \<in> set vs"
  shows "0 \<le> component_amount q net (line_rates_of q vs) v"
proof -
  have v: "0 \<le> vc_rate v" using assms(1,4) by (auto simp: list_all_iff valid_vc_def)
  have "0 \<le> innerMultiplier (line_rates_of q vs)" "0 \<le> innerFixed (line_rates_of q vs)"
    using line_rates_nonneg [OF assms(1)] line_fixed_nonneg [OF assms(1,3)] by (simp_all add: innerMultiplier_def)
  then have "0 \<le> component_base q net (line_rates_of q vs) v"
    using assms(2,3) by (simp add: component_base_def outer_base_def Let_def)
  then show ?thesis using v assms(3) by (simp add: component_amount_def)
qed

text \<open>
  The net of a line and the amounts of its components rebuild the base the line was priced at:
  with tax-inclusive prices the net plus all component amounts (percentages, per-quantity and fixed taxes,
  inside and outside the tax base) is exactly the base, with tax-exclusive prices the net is the base, and
  neither a component amount nor the net is ever negative.
\<close>

theorem line_net_rebuilds_base:
  assumes "mapE validateComponent cs = Inr vs" "0 \<le> base" "0 \<le> q"
    and "line_net mode base (line_rates_of q vs) = Inr net"
  shows "net + (if mode = TaxInclusive then sum_list (map (component_amount q net (line_rates_of q vs)) vs) else 0) = base
    \<and> 0 \<le> net \<and> (\<forall>v \<in> set vs. 0 \<le> component_amount q net (line_rates_of q vs) v)"
proof -
  note valid = validated_all [OF assms(1)]
  have n: "0 \<le> net" using line_net_nonneg [OF valid assms(4) assms(2)] .
  show ?thesis
    using line_net_plus_tax [OF valid assms(4)] n component_amount_nonneg [OF valid n assms(3)] by auto
qed

theorem line_net_rebuilds_base_witness:
  "\<exists>vs net. mapE validateComponent [sample_kdv] = Inr vs \<and> line_net TaxInclusive 12 (line_rates_of 1 vs) = Inr net
     \<and> net + sum_list (map (component_amount 1 net (line_rates_of 1 vs)) vs) = 12"
proof -
  have "(case mapE validateComponent [sample_kdv] of Inr vs \<Rightarrow>
      (case line_net TaxInclusive 12 (line_rates_of 1 vs) of Inr _ \<Rightarrow> True | _ \<Rightarrow> False) | _ \<Rightarrow> False)"
    by code_simp
  then obtain vs net where r: "mapE validateComponent [sample_kdv] = Inr vs" "line_net TaxInclusive 12 (line_rates_of 1 vs) = Inr net"
    by (auto split: sum.splits)
  then show ?thesis using line_net_rebuilds_base [OF r(1) _ _ r(2)] by simp
qed

text \<open>
  Cascading discounts of a non-negative amount never turn it negative and never exceed it, and a
  line that resolves has a positive quantity and base = gross - discount with 0 \<open>\<le>\<close> base \<open>\<le>\<close> gross.
\<close>

theorem discounts_within_base:
  assumes "resolveLineBase line = Inr b"
  shows "lb_base b = lb_gross b - lb_discount b \<and> 0 \<le> lb_base b \<and> lb_base b \<le> lb_gross b \<and> 0 < lb_quantity b
    \<and> (\<forall>ds h. cascadingDiscount (lb_base b) ds = Inr h \<longrightarrow> 0 \<le> h \<and> h \<le> lb_base b)"
  using resolveLineBase_ok [OF assms] cascadingDiscount_bounds by auto

definition sample_line :: TaxCalculationLine where
  "sample_line = \<lparr>tl_UnitPrice = ''10'', tl_Quantity = ''2'', tl_Discount = \<lparr>td_Kind = [], td_Amount = []\<rparr>,
     tl_Discounts = [\<lparr>td_Kind = ''PERCENT'', td_Amount = ''10''\<rparr>, \<lparr>td_Kind = ''FIXED'', td_Amount = ''3''\<rparr>],
     tl_Components = [], tl_TaxComponents = []\<rparr>"

theorem discounts_within_base_witness:
  "\<exists>b. resolveLineBase sample_line = Inr b \<and> lb_base b = lb_gross b - lb_discount b \<and> 0 \<le> lb_base b"
proof -
  have "(case resolveLineBase sample_line of Inr _ \<Rightarrow> True | _ \<Rightarrow> False)" by code_simp
  then obtain b where "resolveLineBase sample_line = Inr b" by (auto split: sum.splits)
  then show ?thesis using discounts_within_base by blast
qed

section \<open>The header discount\<close>

text \<open>
  Claim C12.  The header discount is split over the lines without loss: the shares add up exactly to the
  rounded discount, there is one per line, none is negative, a line with no base gets nothing, and each share
  differs from the exact proportional share by less than one unit of the rounding scale.
\<close>

theorem header_discount_split:
  assumes "distributeHeaderDiscount bases ds k = Inr (shares, t)" "ds \<noteq> []" "t \<noteq> 0"
    and "list_all (\<lambda>b. 0 \<le> lb_base b) bases"
  shows "sum_list shares = t \<and> length shares = length bases
    \<and> (\<forall>i < length bases. 0 \<le> shares ! i \<and> (lb_base (bases ! i) = 0 \<longrightarrow> shares ! i = 0)
        \<and> \<bar>shares ! i - t * lb_base (bases ! i) / sum_list (map lb_base bases)\<bar> < 1 / 10 ^ k)"
proof -
  let ?ws = "map lb_base bases"
  have nn: "\<And>b. b \<in> set bases \<Longrightarrow> 0 \<le> lb_base b" using assms(4) by (simp add: list_all_iff)
  note d = distributeHeaderDiscount_exact [OF assms(1) nn]
  have s: "0 < sum_list ?ws" "shares = headerShares k ?ws (sum_list ?ws) t"
    using assms(1-3) by (auto simp: distributeHeaderDiscount_def Let_def not_le elim!: bindE_InrE split: if_splits)
  have sp: "splittable (1 / 10 ^ k) ?ws t" using d s(1) nn by (auto simp: splittable_def)
  show ?thesis
    using d ts.share_near [OF sp] ts.share_zero [OF sp] s(2) by simp
qed

definition sample_bases :: "lineBase list" where
  "sample_bases = map (\<lambda>x. \<lparr>lb_line = sample_line, lb_quantity = 1, lb_gross = x, lb_discount = 0, lb_base = x\<rparr>) [1, 1, 1]"

theorem header_discount_split_witness:
  "\<exists>shares t. distributeHeaderDiscount sample_bases [\<lparr>td_Kind = ''FIXED'', td_Amount = ''1''\<rparr>] 1 = Inr (shares, t)
     \<and> t \<noteq> 0 \<and> sum_list shares = t \<and> length shares = 3"
proof -
  have "(case distributeHeaderDiscount sample_bases [\<lparr>td_Kind = ''FIXED'', td_Amount = ''1''\<rparr>] 1 of
      Inr (shares, t) \<Rightarrow> t \<noteq> 0 | _ \<Rightarrow> False)" by code_simp
  then obtain shares t where r: "distributeHeaderDiscount sample_bases [\<lparr>td_Kind = ''FIXED'', td_Amount = ''1''\<rparr>] 1 = Inr (shares, t)" "t \<noteq> 0"
    by (auto split: sum.splits)
  moreover have "length sample_bases = 3" "list_all (\<lambda>b. 0 \<le> lb_base b) sample_bases" by (simp_all add: sample_bases_def)
  ultimately show ?thesis using header_discount_split [OF r(1) _ r(2)] by auto
qed

section \<open>Decimal texts\<close>

text \<open>
  A rate survives its canonical text: whatever text the engine accepts, \<^verbatim>\<open>canonicalDecimal\<close> prints a
  text that reads back as the same number, although \<^verbatim>\<open>decimalScale\<close> over-counts the decimals a denominator
  with both factors 2 and 5 needs and its loop can leave at 19, beyond the accepted 18.
\<close>

theorem canonical_decimal_roundtrip:
  assumes "parseDecimal s allowEmpty = Inr r" shows "parseDecimal (canonicalDecimal r) c = Inr r"
  using assms by (rule canonical_parse)

theorem canonical_decimal_roundtrip_witness:
  "\<exists>r. parseDecimal ''12.50'' False = Inr r \<and> parseDecimal (canonicalDecimal r) False = Inr r"
proof -
  have "(case parseDecimal ''12.50'' False of Inr _ \<Rightarrow> True | _ \<Rightarrow> False)" by code_simp
  then obtain r where "parseDecimal ''12.50'' False = Inr r" by (auto split: sum.splits)
  then show ?thesis using canonical_decimal_roundtrip by blast
qed

end
