(* ===== verification/Payroll_Proofs.thy ===== *)
theory Payroll_Proofs
  imports Payroll
begin

text \<open>
  The payroll engine over the values of its decimals: no helper panics, the payslip reconciles to the
  last cent, the social security base stays within its limits, the progressive tax agrees with the sum
  over tax segments, and the gross search never undershoots its target.
\<close>

section \<open>Values of the helpers\<close>

named_theorems pay_val

abbreviation cents :: "decimal \<Rightarrow> bool" where
  "cents \<equiv> md.on_grid 2"

lemma q_no_panic: "dec_Quantize v 2 HalfUp = Inr (q v)"
  using md.quantize_val [of 2 v] by (auto simp: q_def)

lemma q_rat [pay_val]: "decimal_rat (q v) = of_int (round_half_away (decimal_rat v * 100)) / 100"
  using md.quantize_val [of 2 v] by (auto simp: q_no_panic)

lemma q_cents [simp]: "cents (q v)"
  using md.quantize_on_grid [OF _ q_no_panic] by simp

lemma q_fixed: "cents v \<Longrightarrow> decimal_rat (q v) = decimal_rat v"
  using md.quantize_fixed [OF _ _ q_no_panic] by simp

lemma q_mono: "decimal_rat v \<le> decimal_rat w \<Longrightarrow> decimal_rat (q v) \<le> decimal_rat (q w)"
  using md.quantize_mono [OF _ _ q_no_panic q_no_panic] by simp

lemma q_nonneg: "0 \<le> decimal_rat v \<Longrightarrow> 0 \<le> decimal_rat (q v)"
  using md.quantize_nonneg [OF _ _ q_no_panic] by simp

lemma literal_rat:
  assumes "ParseDecimal t 12 = Inr d" shows "decimal_lit t = d"
  using assms by (simp add: decimal_lit_def)

lemma literals [pay_val]: "decimal_rat zero = 0" "decimal_rat one = 1" "decimal_rat (decimal_lit ''0.01'') = 1 / 100"
  "decimal_rat (decimal_lit ''2'') = 2" "decimal_rat (decimal_lit ''1'') = 1"
proof -
  have l: "zero = fromScaledInt 0 0" "one = fromScaledInt 1 0" "decimal_lit ''0.01'' = fromScaledInt 1 2"
    "decimal_lit ''2'' = fromScaledInt 2 0" "decimal_lit ''1'' = fromScaledInt 1 0"
    by code_simp+
  show "decimal_rat zero = 0" "decimal_rat one = 1" "decimal_rat (decimal_lit ''0.01'') = 1 / 100"
    "decimal_rat (decimal_lit ''2'') = 2" "decimal_rat (decimal_lit ''1'') = 1"
    unfolding l by simp_all
qed

lemma integer_parse: "ParseDecimal (int_String n) 12 = Inr (integer n) \<and> decimal_rat (integer n) = of_int n"
proof -
  have u: "int_String n = (if n < 0 then ''-'' else []) @ unsigned_text (dec_of_nat (nat \<bar>n\<bar>)) []"
    by (simp add: int_String_def unsigned_text_def)
  have "trim_space (int_String n) = int_String n"
    unfolding u unsigned_text_def using dec_of_nat_digit [of "nat \<bar>n\<bar>"]
    by (intro trim_space_plain) (auto simp: plain_char_def [of "CHR ''-''"])
  then have "ParseDecimal (int_String n) 12 = Inr (parsed (n < 0) (dec_of_nat (nat \<bar>n\<bar>)) [])"
    using ParseDecimal_parts [of "int_String n" "if n < 0 then ''-'' else []" "dec_of_nat (nat \<bar>n\<bar>)" "[]" 12] u
    by auto
  then show ?thesis by (simp add: integer_def decimal_lit_def parsed_def)
qed

lemma integer_rat [pay_val]: "decimal_rat (integer n) = of_int n"
  using integer_parse by blast

lemma div_no_panic: "n \<noteq> 0 \<Longrightarrow> 0 \<le> k \<Longrightarrow> dec_Div d (integer n) k = Inr (div_dec d (integer n) k)"
  using dec_Div_total [of k "integer n" d] by (auto simp: integer_rat div_dec_def)

lemma select_rat [pay_val]:
  "decimal_rat (min_dec a b) = min (decimal_rat a) (decimal_rat b)"
  "decimal_rat (maximum a b) = max (decimal_rat a) (decimal_rat b)"
  "decimal_rat (nonNegative a) = max (decimal_rat a) 0"
  "decimal_rat (clamp a l u) = min (max (decimal_rat a) (decimal_rat l)) (decimal_rat u)"
  "decimal_rat (difference a b) = \<bar>decimal_rat a - decimal_rat b\<bar>"
  "decimal_rat (mul a b) = decimal_rat a * decimal_rat b"
  by (simp_all add: min_dec_def maximum_def nonNegative_def clamp_def difference_def mul_def md.smaller_val
      md.larger_val literals dec_Sign_rat Let_def)

lemma cents_select: "cents a \<Longrightarrow> cents b \<Longrightarrow> cents (min_dec a b)" "cents zero"
  by (auto simp: min_dec_def) (simp add: md.on_grid_def literals exI [of _ 0])

section \<open>The payslip reconciles\<close>

definition kind_total :: "string \<Rightarrow> Component list \<Rightarrow> rat" where
  "kind_total kind cs = sum_list (map (decimal_rat \<circ> cp_Amount) (filter (\<lambda>c. cp_Kind c = kind) cs))"

lemma kind_total_simps [simp]:
  "kind_total k [] = 0"
  "kind_total k (cs @ [c]) = kind_total k cs + (if cp_Kind c = k then decimal_rat (cp_Amount c) else 0)"
  by (simp_all add: kind_total_def)

lemma kind_sum_rat [pay_val]: "decimal_rat (kind_sum k cs) = kind_total k cs"
  by (induction cs rule: rev_induct) (simp_all add: kind_sum_def literals)

definition wage_sums_inv :: "wage_sums \<Rightarrow> bool" where
  "wage_sums_inv s = (cents (sm_gross s) \<and> cents (sm_deductions s)
     \<and> decimal_rat (sm_gross s) = kind_total ''EARNING'' (sm_components s)
     \<and> decimal_rat (sm_deductions s) = kind_total ''DEDUCTION'' (sm_components s))"

lemma add_component_inv:
  "wage_sums_inv s \<Longrightarrow> ic_Kind c = ''EARNING'' \<or> ic_Kind c = ''DEDUCTION'' \<Longrightarrow> wage_sums_inv (add_component s c)"
  by (auto simp: wage_sums_inv_def add_component_def Let_def md.on_grid_add)

lemma base_wage_cents [simp]: "cents (base_wage ctx)"
  by (simp add: base_wage_def)

lemma component_sums_inv:
  assumes "list_all (\<lambda>c. ic_Kind c = ''EARNING'' \<or> ic_Kind c = ''DEDUCTION'') (cx_Components ctx)"
  shows "wage_sums_inv (component_sums ctx)"
proof -
  have "wage_sums_inv (foldl add_component s cs)"
    if "wage_sums_inv s" "list_all (\<lambda>c. ic_Kind c = ''EARNING'' \<or> ic_Kind c = ''DEDUCTION'') cs" for s cs
    using that by (induction cs arbitrary: s) (auto intro: add_component_inv)
  moreover have "kind_total k [base_row w] = (if k = ''EARNING'' then decimal_rat w else 0)" for k w
    by (auto simp: kind_total_def base_row_def)
  ultimately show ?thesis using assms
    by (simp add: component_sums_def Let_def wage_sums_inv_def cents_select literals)
qed

lemma validateContext_components:
  assumes "validateContext ctx = Inr u"
  shows "list_all (\<lambda>c. (ic_Kind c = ''EARNING'' \<or> ic_Kind c = ''DEDUCTION'') \<and> 0 \<le> decimal_rat (ic_Amount c)) (cx_Components ctx)"
proof -
  obtain us where "mapE validComponent (cx_Components ctx) = Inr us"
    using assms by (auto simp: validateContext_def elim!: bindE_InrE split: if_splits)
  then have "\<exists>u. validComponent c = Inr u" if "c \<in> set (cx_Components ctx)" for c
    using that by (auto simp: mapE_Inr_iff list_all2_conv_all_nth in_set_conv_nth)
  moreover have "validComponent c = Inr u \<Longrightarrow> (ic_Kind c = ''EARNING'' \<or> ic_Kind c = ''DEDUCTION'') \<and> 0 \<le> decimal_rat (ic_Amount c)" for c u
    by (auto simp: validComponent_def dec_Sign_rat split: if_splits)
  ultimately show ?thesis unfolding list_all_iff by blast
qed

text \<open>The minimum wage of the month and its taxable part, as the exemptions use them.\<close>

definition minimum_gross :: "Context \<Rightarrow> Pack \<Rightarrow> decimal" where
  "minimum_gross ctx pack = q (mul (pk_MinimumMonthlyGross pack) (dayRatioOf ctx))"

definition minimum_taxable :: "Context \<Rightarrow> Pack \<Rightarrow> ContributionScheme \<Rightarrow> decimal" where
  "minimum_taxable ctx pack scheme = (let g = minimum_gross ctx pack in
     q (nonNegative (dec_Sub (dec_Sub g (q (mul g (cs_EmployeeSGKRate scheme))))
       (q (mul g (cs_EmployeeUnemploymentRate scheme))))))"

lemma compute_fields:
  fixes ctx pack scheme defines "r \<equiv> compute ctx pack scheme"
  shows "rs_Gross r = q (sm_gross (component_sums ctx))"
    and "rs_ApprovedDeductions r = q (sm_deductions (component_sums ctx))"
    and "rs_Components r = sm_components (component_sums ctx)"
    and "rs_SGKBase r = sgk_base ctx pack (sm_sgk (component_sums ctx))"
    and "rs_EmployeeSGK r = q (mul (rs_SGKBase r) (fst (effectiveContributionRates ctx scheme)))"
    and "rs_EmployeeUnemployment r = q (mul (rs_SGKBase r) (fst (snd (effectiveContributionRates ctx scheme))))"
    and "rs_IncomeTaxBase r = q (nonNegative (dec_Sub (dec_Sub (sm_tax (component_sums ctx)) (rs_EmployeeSGK r)) (rs_EmployeeUnemployment r)))"
    and "rs_IncomeTaxBeforeExempt r = q (progressiveDelta (cx_PriorCumulativeTaxBase ctx) (rs_IncomeTaxBase r) (pk_IncomeTaxBrackets pack))"
    and "rs_IncomeTax r = q (dec_Sub (rs_IncomeTaxBeforeExempt r) (rs_IncomeTaxExemption r))"
    and "rs_StampTaxBeforeExempt r = q (mul (sm_stamp (component_sums ctx)) (pk_StampTaxRate pack))"
    and "rs_StampTax r = q (dec_Sub (rs_StampTaxBeforeExempt r) (rs_StampTaxExemption r))"
    and "rs_TotalDeductions r = q (dec_Add (dec_Add (dec_Add (dec_Add (rs_EmployeeSGK r) (rs_EmployeeUnemployment r))
           (rs_IncomeTax r)) (rs_StampTax r)) (rs_ApprovedDeductions r))"
    and "rs_Net r = q (dec_Sub (rs_Gross r) (rs_TotalDeductions r))"
    and "rs_EmployerContributions r = q (dec_Add (rs_EmployerSGK r) (rs_EmployerUnemployment r))"
    and "rs_EmployerSGK r = q (mul (rs_SGKBase r) (fst (snd (snd (effectiveContributionRates ctx scheme)))))"
    and "rs_EmployerUnemployment r = q (mul (rs_SGKBase r) (snd (snd (snd (effectiveContributionRates ctx scheme)))))"
    and "rs_EmployerCost r = q (dec_Add (rs_Gross r) (rs_EmployerContributions r))"
    and "rs_IncomeTaxExemption r = min_dec (rs_IncomeTaxBeforeExempt r)
           (q (progressiveDelta (cx_MinimumWagePriorBase ctx) (minimum_taxable ctx pack scheme) (pk_IncomeTaxBrackets pack)))"
    and "rs_StampTaxExemption r = min_dec (rs_StampTaxBeforeExempt r)
           (q (mul (min_dec (base_wage ctx) (minimum_gross ctx pack)) (pk_StampTaxRate pack)))"
  unfolding r_def compute_def Let_def minimum_taxable_def minimum_gross_def by (simp_all split: prod.split)


definition payslip_exact :: "Result \<Rightarrow> bool" where
  "payslip_exact r =
     (decimal_rat (rs_Gross r) = kind_total ''EARNING'' (rs_Components r)
      \<and> decimal_rat (rs_ApprovedDeductions r) = kind_total ''DEDUCTION'' (rs_Components r)
      \<and> decimal_rat (rs_TotalDeductions r) = decimal_rat (rs_EmployeeSGK r) + decimal_rat (rs_EmployeeUnemployment r)
          + decimal_rat (rs_IncomeTax r) + decimal_rat (rs_StampTax r) + decimal_rat (rs_ApprovedDeductions r)
      \<and> decimal_rat (rs_Net r) = decimal_rat (rs_Gross r) - decimal_rat (rs_TotalDeductions r)
      \<and> decimal_rat (rs_EmployerCost r) = decimal_rat (rs_Gross r) + decimal_rat (rs_EmployerSGK r)
          + decimal_rat (rs_EmployerUnemployment r))"

lemma compute_exact:
  assumes "validateContext ctx = Inr u" shows "payslip_exact (compute ctx pack scheme)"
proof -
  note f = compute_fields [of ctx pack scheme]
  have "list_all (\<lambda>c. ic_Kind c = ''EARNING'' \<or> ic_Kind c = ''DEDUCTION'') (cx_Components ctx)"
    using validateContext_components [OF assms] by (auto simp: list_all_iff)
  from component_sums_inv [OF this] have inv: "wage_sums_inv (component_sums ctx)" .
  let ?r = "compute ctx pack scheme"
  have c: "cents (rs_Gross ?r)" "cents (rs_ApprovedDeductions ?r)" "cents (rs_EmployeeSGK ?r)"
    "cents (rs_EmployeeUnemployment ?r)" "cents (rs_IncomeTax ?r)" "cents (rs_StampTax ?r)" "cents (rs_TotalDeductions ?r)"
    "cents (rs_EmployerSGK ?r)" "cents (rs_EmployerUnemployment ?r)" "cents (rs_EmployerContributions ?r)"
    unfolding f by (rule q_cents)+
  have "decimal_rat (rs_Gross ?r) = kind_total ''EARNING'' (rs_Components ?r)"
    "decimal_rat (rs_ApprovedDeductions ?r) = kind_total ''DEDUCTION'' (rs_Components ?r)"
    using inv unfolding f(1-3) by (simp_all add: q_fixed wage_sums_inv_def)
  moreover have "decimal_rat (rs_TotalDeductions ?r) = decimal_rat (rs_EmployeeSGK ?r) + decimal_rat (rs_EmployeeUnemployment ?r)
      + decimal_rat (rs_IncomeTax ?r) + decimal_rat (rs_StampTax ?r) + decimal_rat (rs_ApprovedDeductions ?r)"
    using c by (subst f(12)) (simp add: q_fixed md.on_grid_add)
  moreover have "decimal_rat (rs_Net ?r) = decimal_rat (rs_Gross ?r) - decimal_rat (rs_TotalDeductions ?r)"
    using c by (subst f(13)) (simp add: q_fixed md.on_grid_sub)
  moreover have "decimal_rat (rs_EmployerContributions ?r) = decimal_rat (rs_EmployerSGK ?r) + decimal_rat (rs_EmployerUnemployment ?r)"
    using c by (subst f(14)) (simp add: q_fixed md.on_grid_add)
  then have "decimal_rat (rs_EmployerCost ?r) = decimal_rat (rs_Gross ?r) + decimal_rat (rs_EmployerSGK ?r)
      + decimal_rat (rs_EmployerUnemployment ?r)"
    using c by (subst f(17)) (simp add: q_fixed md.on_grid_add)
  ultimately show ?thesis by (simp add: payslip_exact_def)
qed

lemma exact_reconciled: "payslip_exact r \<Longrightarrow> reconciled r"
  by (simp add: payslip_exact_def reconciled_def Let_def md.cmp_gt pay_val not_less)

lemma validateContext_pointers:
  "validateContext ctx = Inr u \<Longrightarrow> \<exists>p s. cx_Pack ctx = Some p \<and> cx_ContributionScheme ctx = Some s"
  by (auto simp: validateContext_def split: if_splits option.splits)

lemma Calculate_payroll_eq:
  "Calculate_payroll ctx = bindE (validateContext ctx) (\<lambda>_.
     let r = compute ctx (the (cx_Pack ctx)) (the (cx_ContributionScheme ctx)) in
     if decimal_rat (rs_Net r) < 0 then Inl (CalculationError ErrNegativeNet ''components'' []) else Inr r)"
proof (cases "validateContext ctx")
  case (Inr u)
  obtain p s where ps: "cx_Pack ctx = Some p" "cx_ContributionScheme ctx = Some s"
    using validateContext_pointers [OF Inr] by blast
  have "reconciled (compute ctx p s)" using compute_exact [OF Inr] exact_reconciled by blast
  then show ?thesis using Inr ps by (simp add: Calculate_payroll_def Let_def dec_Sign_rat)
qed (simp add: Calculate_payroll_def)

lemma Calculate_payroll_InrD:
  assumes "Calculate_payroll ctx = Inr r"
  obtains p s u where "validateContext ctx = Inr u" "cx_Pack ctx = Some p" "cx_ContributionScheme ctx = Some s"
    "r = compute ctx p s" "0 \<le> decimal_rat (rs_Net r)"
proof -
  obtain u where u: "validateContext ctx = Inr u" using assms by (auto simp: Calculate_payroll_eq elim!: bindE_InrE)
  then obtain p s where ps: "cx_Pack ctx = Some p" "cx_ContributionScheme ctx = Some s"
    using validateContext_pointers by blast
  show thesis using assms u ps
    by (intro that [OF u ps]) (auto simp: Calculate_payroll_eq Let_def not_less split: if_splits)
qed

text \<open>
  Claim C2.  A payslip reconciles exactly: gross is the sum of its earning rows, the approved deductions are
  the sum of its deduction rows, total deductions are those plus social security, unemployment, income tax and
  stamp tax, net = gross - total deductions and is not negative, and the employer's cost is gross plus the two
  employer contributions.
\<close>

theorem payslip_reconciles:
  assumes "Calculate_payroll ctx = Inr r"
  shows "payslip_exact r \<and> 0 \<le> decimal_rat (rs_Net r)"
  using assms compute_exact by (auto elim!: Calculate_payroll_InrD)

text \<open>
  Claim C17.  \<^verbatim>\<open>Calculate\<close> fails exactly when the context is invalid, with the validation error, or when the
  deductions exceed the gross, with \<^verbatim>\<open>PAYROLL_NEGATIVE_NET\<close>: its reconciliation error and the dereference of
  a missing pack or scheme never happen.
\<close>

theorem payroll_errors:
  "Calculate_payroll ctx = Inl e \<longleftrightarrow>
     validateContext ctx = Inl e
     \<or> (validateContext ctx = Inr () \<and> e = CalculationError ErrNegativeNet ''components'' []
        \<and> (let r = compute ctx (the (cx_Pack ctx)) (the (cx_ContributionScheme ctx)) in
            decimal_rat (rs_Gross r) < decimal_rat (rs_TotalDeductions r)))"
proof (cases "validateContext ctx")
  case (Inr u)
  have "decimal_rat (rs_Net (compute ctx p s)) < 0 \<longleftrightarrow>
      decimal_rat (rs_Gross (compute ctx p s)) < decimal_rat (rs_TotalDeductions (compute ctx p s))" for p s
    using compute_exact [OF Inr, of p s] by (simp add: payslip_exact_def)
  then show ?thesis using Inr by (auto simp: Calculate_payroll_eq Let_def)
qed (auto simp: Calculate_payroll_eq)


section \<open>The progressive tax\<close>

text \<open>
  The reference: every bracket taxes the part of the base between the previous bound and its own.
  \<open>brackets_ok\<close> is the shape of a published tariff: rising bounds, rates between 0 and \<open>R\<close>, an unbounded last bracket.
\<close>

fun segment_tax :: "rat \<Rightarrow> rat \<Rightarrow> IncomeTaxBracket list \<Rightarrow> rat" where
  "segment_tax base lower [] = 0"
| "segment_tax base lower (b # bs) =
     (case itb_UpperBound b of
        None \<Rightarrow> max 0 (base - lower) * decimal_rat (itb_Rate b)
      | Some u \<Rightarrow> max 0 (min base (decimal_rat u) - lower) * decimal_rat (itb_Rate b) + segment_tax base (decimal_rat u) bs)"

fun brackets_ok :: "rat \<Rightarrow> rat \<Rightarrow> IncomeTaxBracket list \<Rightarrow> bool" where
  "brackets_ok R lower [] = True"
| "brackets_ok R lower (b # bs) =
     (0 \<le> decimal_rat (itb_Rate b) \<and> decimal_rat (itb_Rate b) \<le> R \<and>
      (case itb_UpperBound b of None \<Rightarrow> True
       | Some u \<Rightarrow> lower < decimal_rat u \<and> brackets_ok R (decimal_rat u) bs))"

lemma segment_tax_below: "brackets_ok R lower bs \<Longrightarrow> base \<le> lower \<Longrightarrow> segment_tax base lower bs = 0"
  by (induction bs arbitrary: lower) (auto simp: min_def max_def split: option.splits)

lemma progressive_loop_rat:
  "brackets_ok R (decimal_rat lower) bs \<Longrightarrow>
   decimal_rat (progressive_loop base tax lower bs) = decimal_rat tax + segment_tax (decimal_rat base) (decimal_rat lower) bs"
proof (induction bs arbitrary: tax lower)
  case (Cons b bs)
  show ?case
  proof (cases "decimal_rat base \<le> decimal_rat lower")
    case True
    then show ?thesis
      using segment_tax_below [OF Cons.prems True] by (simp add: dec_Sign_rat Let_def)
  next
    case False
    then show ?thesis
      using Cons.prems Cons.IH segment_tax_below [where base = "decimal_rat base" and bs = bs and R = R]
      by (auto simp: dec_Sign_rat Let_def pay_val md.cmp_le max_def min_def split: option.splits)
  qed
qed simp

lemma segment_tax_step:
  assumes "brackets_ok R lower bs" "a \<le> b" "0 \<le> R"
  shows "0 \<le> segment_tax b lower bs - segment_tax a lower bs
    \<and> segment_tax b lower bs - segment_tax a lower bs \<le> R * (max b lower - max a lower)"
  using assms
proof (induction bs arbitrary: lower)
  case (Cons x bs)
  let ?t = "decimal_rat (itb_Rate x)"
  have t: "0 \<le> ?t" "?t \<le> R" using Cons.prems by auto
  show ?case
  proof (cases "itb_UpperBound x")
    case None
    have "max 0 (b - lower) - max 0 (a - lower) = max b lower - max a lower" by (auto simp: max_def)
    moreover have "0 \<le> max b lower - max a lower" using Cons.prems(2) by (simp add: max_def)
    ultimately show ?thesis using t None mult_right_mono [OF t(2), of "max b lower - max a lower"]
      by (simp flip: left_diff_distrib) (simp add: mult.commute)
  next
    case (Some u)
    let ?u = "decimal_rat u"
    define w where "w = max 0 (min b ?u - lower) - max 0 (min a ?u - lower)"
    have u: "lower < ?u" "brackets_ok R ?u bs" using Cons.prems Some by auto
    have w: "0 \<le> w" "w + (max b ?u - max a ?u) = max b lower - max a lower"
      using Cons.prems(2) u(1) by (auto simp: w_def max_def min_def)
    have "w * ?t \<le> R * w" "0 \<le> w * ?t" using t w(1) mult_right_mono [OF t(2) w(1)] by (simp_all add: mult.commute)
    moreover have "segment_tax b lower (x # bs) - segment_tax a lower (x # bs)
        = w * ?t + (segment_tax b ?u bs - segment_tax a ?u bs)"
      using Some by (simp add: w_def left_diff_distrib)
    moreover have "R * (max b lower - max a lower) = R * w + R * (max b ?u - max a ?u)"
      unfolding w(2) [symmetric] by (simp add: distrib_left)
    ultimately show ?thesis using Cons.IH [OF u(2) Cons.prems(2,3)] by linarith
  qed
qed (simp add: max_def)

lemma progressiveTax_rat:
  "brackets_ok R 0 bs \<Longrightarrow> decimal_rat (progressiveTax base bs) = segment_tax (max (decimal_rat base) 0) 0 bs"
  using progressive_loop_rat [of R zero bs "nonNegative base" zero] by (simp add: progressiveTax_def pay_val)

lemma progressiveDelta_bounds:
  assumes "brackets_ok R 0 bs" "0 \<le> R" "0 \<le> decimal_rat current"
  shows "0 \<le> decimal_rat (progressiveDelta prior current bs)
    \<and> decimal_rat (progressiveDelta prior current bs) \<le> R * decimal_rat current"
proof -
  let ?p = "max (decimal_rat prior) 0" and ?n = "max (decimal_rat prior + decimal_rat current) 0"
  have le: "?p \<le> ?n" using assms(3) by (simp add: max_def)
  have "R * (max ?n 0 - max ?p 0) \<le> R * decimal_rat current"
    using assms(2,3) by (intro mult_left_mono) (auto simp: max_def)
  then show ?thesis
    using segment_tax_step [OF assms(1) le assms(2)]
    by (simp add: progressiveDelta_def progressiveTax_rat [OF assms(1)])
qed

text \<open>
  Claim C13.  For a tariff with rising bounds and rates between 0 and \<open>R\<close>, \<^verbatim>\<open>progressiveTax\<close> is the sum over
  brackets of rate times the part of the base inside the bracket, so its early exits lose nothing; the tax of
  one more month is between 0 and \<open>R\<close> times that month's base; and the tax of two months in sequence is the tax
  of both together, so splitting a year into months never changes the yearly tax.
\<close>

theorem progressive_tax_correct:
  assumes "brackets_ok R 0 brackets" "0 \<le> R" "0 \<le> decimal_rat current"
  shows "decimal_rat (progressiveTax base brackets) = segment_tax (max (decimal_rat base) 0) 0 brackets
    \<and> 0 \<le> decimal_rat (progressiveDelta prior current brackets)
    \<and> decimal_rat (progressiveDelta prior current brackets) \<le> R * decimal_rat current
    \<and> decimal_rat (progressiveDelta prior current brackets)
        + decimal_rat (progressiveDelta (dec_Add prior current) next brackets)
      = decimal_rat (progressiveDelta prior (dec_Add current next) brackets)"
  using progressiveTax_rat [OF assms(1)] progressiveDelta_bounds [OF assms]
  by (simp add: progressiveDelta_def progressiveTax_rat [OF assms(1)] add.assoc)

definition sample_brackets :: "IncomeTaxBracket list" where
  "sample_brackets = [\<lparr>itb_UpperBound = Some (integer 1000), itb_Rate = decimal_lit ''0.15''\<rparr>,
     \<lparr>itb_UpperBound = None, itb_Rate = decimal_lit ''0.2''\<rparr>]"

lemma sample_rates: "decimal_rat (decimal_lit ''0.15'') = 3 / 20" "decimal_rat (decimal_lit ''0.2'') = 1 / 5"
proof -
  have l: "decimal_lit ''0.15'' = fromScaledInt 15 2" "decimal_lit ''0.2'' = fromScaledInt 2 1" by code_simp+
  show "decimal_rat (decimal_lit ''0.15'') = 3 / 20" "decimal_rat (decimal_lit ''0.2'') = 1 / 5"
    unfolding l by simp_all
qed

lemma sample_brackets_ok: "brackets_ok (1/5) 0 sample_brackets"
  by (simp add: sample_brackets_def integer_rat sample_rates)

theorem progressive_tax_correct_witness:
  "brackets_ok (1/5) 0 sample_brackets \<and> decimal_rat (progressiveTax (integer 1500) sample_brackets) = 250"
proof -
  note ok = sample_brackets_ok
  have "segment_tax 1500 0 sample_brackets = 250" by (simp add: sample_brackets_def integer_rat sample_rates)
  then show ?thesis
    using progressive_tax_correct [OF ok, of zero "integer 1500" zero zero] ok by (simp add: pay_val)
qed


section \<open>Levies\<close>

definition pack_ok :: "rat \<Rightarrow> Pack \<Rightarrow> bool" where
  "pack_ok R p = (0 \<le> decimal_rat (pk_SGKDailyFloor p)
     \<and> decimal_rat (pk_SGKDailyFloor p) \<le> decimal_rat (pk_SGKDailyCeiling p)
     \<and> 0 \<le> R \<and> brackets_ok R 0 (pk_IncomeTaxBrackets p))"

definition scheme_ok :: "ContributionScheme \<Rightarrow> bool" where
  "scheme_ok s = (0 \<le> decimal_rat (cs_EmployeeSGKRate s) \<and> 0 \<le> decimal_rat (cs_EmployeeUnemploymentRate s)
     \<and> 0 \<le> decimal_rat (cs_EmployerSGKRate s) \<and> 0 \<le> decimal_rat (cs_EmployerUnemploymentRate s)
     \<and> 0 \<le> decimal_rat (cs_SGDPEmployeeRate s) \<and> 0 \<le> decimal_rat (cs_SGDPEmployerRate s))"

lemma sgk_base_bounds:
  assumes "pack_ok R p" "0 \<le> cx_SGKDays ctx"
  shows "0 \<le> decimal_rat (sgk_base ctx p v)
    \<and> decimal_rat (sgk_base ctx p v) \<le> decimal_rat (q (mul (pk_SGKDailyCeiling p) (integer (cx_SGKDays ctx))))
    \<and> (cx_SGKDays ctx \<noteq> 0 \<and> decimal_rat v \<noteq> 0 \<longrightarrow>
        decimal_rat (q (mul (pk_SGKDailyFloor p) (integer (cx_SGKDays ctx)))) \<le> decimal_rat (sgk_base ctx p v))"
proof -
  let ?f = "mul (pk_SGKDailyFloor p) (integer (cx_SGKDays ctx))"
  let ?c = "mul (pk_SGKDailyCeiling p) (integer (cx_SGKDays ctx))"
  have fc: "0 \<le> decimal_rat ?f" "decimal_rat ?f \<le> decimal_rat ?c"
    using assms by (simp_all add: pack_ok_def select_rat(6) integer_rat mult_right_mono)
  have cl: "decimal_rat ?f \<le> decimal_rat (clamp v ?f ?c)" "decimal_rat (clamp v ?f ?c) \<le> decimal_rat ?c"
    using fc by (simp_all add: select_rat(4))
  have "0 \<le> decimal_rat (q ?c)" using fc by (intro q_nonneg) linarith
  moreover have "0 \<le> decimal_rat (q (clamp v ?f ?c))" using fc cl by (intro q_nonneg) linarith
  ultimately show ?thesis using q_mono [OF cl(1)] q_mono [OF cl(2)]
    by (auto simp: sgk_base_def Let_def literals dec_Sign_rat)
qed

lemma rates_nonneg:
  assumes "scheme_ok s"
  shows "0 \<le> decimal_rat (fst (effectiveContributionRates ctx s))"
    "0 \<le> decimal_rat (fst (snd (effectiveContributionRates ctx s)))"
  using assms by (auto simp: effectiveContributionRates_def scheme_ok_def literals)

lemma kind_total_nonneg: "list_all (\<lambda>c. 0 \<le> decimal_rat (cp_Amount c)) cs \<Longrightarrow> 0 \<le> kind_total k cs"
  by (auto simp: kind_total_def list_all_iff intro!: sum_list_nonneg)

lemma rows_nonneg:
  assumes "validateContext ctx = Inr u"
  shows "0 \<le> kind_total ''DEDUCTION'' (sm_components (component_sums ctx))"
proof -
  let ?P = "\<lambda>cs. 0 \<le> kind_total ''DEDUCTION'' cs"
  have "?P (sm_components (foldl add_component s cs))"
    if "?P (sm_components s)" "list_all (\<lambda>c. 0 \<le> decimal_rat (ic_Amount c)) cs" for s cs
    using that by (induction cs arbitrary: s) (auto simp: add_component_def Let_def q_nonneg)
  moreover have "list_all (\<lambda>c. 0 \<le> decimal_rat (ic_Amount c)) (cx_Components ctx)"
    using validateContext_components [OF assms] by (auto simp: list_all_iff)
  ultimately show ?thesis by (simp add: component_sums_def Let_def base_row_def kind_total_def)
qed

lemma exempt_tax:
  assumes "cents before" "cents ex"
  shows "decimal_rat (q (dec_Sub before (min_dec before ex))) = decimal_rat before - min (decimal_rat before) (decimal_rat ex)"
  using assms by (simp add: q_fixed md.on_grid_sub cents_select select_rat)

lemma minimum_exemption_nonneg:
  assumes "pack_ok R p"
  shows "0 \<le> decimal_rat (q (progressiveDelta b (minimum_taxable ctx p s) (pk_IncomeTaxBrackets p)))"
proof -
  have "0 \<le> decimal_rat (minimum_taxable ctx p s)"
    unfolding minimum_taxable_def Let_def by (rule q_nonneg) (simp add: select_rat)
  then show ?thesis using progressiveDelta_bounds assms by (auto simp: pack_ok_def intro!: q_nonneg)
qed

definition levies_ok :: "Context \<Rightarrow> Pack \<Rightarrow> Result \<Rightarrow> bool" where
  "levies_ok ctx p r =
     (0 \<le> decimal_rat (rs_SGKBase r)
      \<and> decimal_rat (rs_SGKBase r) \<le> decimal_rat (q (mul (pk_SGKDailyCeiling p) (integer (cx_SGKDays ctx))))
      \<and> 0 \<le> decimal_rat (rs_EmployeeSGK r) \<and> 0 \<le> decimal_rat (rs_EmployeeUnemployment r)
      \<and> 0 \<le> decimal_rat (rs_IncomeTax r) \<and> decimal_rat (rs_IncomeTax r) \<le> decimal_rat (rs_IncomeTaxBeforeExempt r)
      \<and> 0 \<le> decimal_rat (rs_StampTax r) \<and> 0 \<le> decimal_rat (rs_ApprovedDeductions r)
      \<and> decimal_rat (rs_Net r) \<le> decimal_rat (rs_Gross r))"

lemma compute_levies:
  assumes "validateContext ctx = Inr u" "pack_ok R p" "scheme_ok s"
  shows "levies_ok ctx p (compute ctx p s)"
proof -
  let ?r = "compute ctx p s"
  note f = compute_fields [of ctx p s]
  have days: "0 \<le> cx_SGKDays ctx" using assms(1) by (auto simp: validateContext_def split: if_splits)
  have base: "0 \<le> decimal_rat (rs_SGKBase ?r)"
    "decimal_rat (rs_SGKBase ?r) \<le> decimal_rat (q (mul (pk_SGKDailyCeiling p) (integer (cx_SGKDays ctx))))"
    unfolding f(4) using sgk_base_bounds [OF assms(2) days] by blast+
  have "0 \<le> decimal_rat (rs_EmployeeSGK ?r)" "0 \<le> decimal_rat (rs_EmployeeUnemployment ?r)"
    using base(1) rates_nonneg [OF assms(3)] unfolding f(5,6) by (auto intro!: q_nonneg simp: select_rat)
  note sgk = this
  have before: "cents (rs_IncomeTaxBeforeExempt ?r)" "cents (rs_StampTaxBeforeExempt ?r)" "0 \<le> decimal_rat (rs_IncomeTaxBase ?r)"
    unfolding f(7,8,10) by (simp_all add: q_nonneg select_rat)
  have nn: "0 \<le> decimal_rat (rs_IncomeTaxBeforeExempt ?r)"
    unfolding f(8) using progressiveDelta_bounds assms(2) before(3) by (intro q_nonneg) (auto simp: pack_ok_def)
  have "0 \<le> decimal_rat (rs_IncomeTax ?r)" "decimal_rat (rs_IncomeTax ?r) \<le> decimal_rat (rs_IncomeTaxBeforeExempt ?r)"
    unfolding f(9,18) exempt_tax [OF before(1) q_cents] using nn minimum_exemption_nonneg [OF assms(2)] by simp_all
  moreover have "0 \<le> decimal_rat (rs_StampTax ?r)"
    unfolding f(11,19) exempt_tax [OF before(2) q_cents] by simp
  moreover have "0 \<le> decimal_rat (rs_ApprovedDeductions ?r)"
    using rows_nonneg [OF assms(1)] compute_exact [OF assms(1), of p s] by (simp add: payslip_exact_def f(3))
  ultimately show ?thesis
    using base sgk compute_exact [OF assms(1), of p s] by (simp add: levies_ok_def payslip_exact_def)
qed

text \<open>
  Under a legislation pack whose floor is not above its ceiling and whose rates are not negative, the
  social security base of a payslip is between 0 and the rounded ceiling for the days, no levy or deduction is
  negative, the income tax never exceeds its amount before the minimum-wage exemption, and so net is at most gross.
\<close>

theorem payroll_levies_bounded:
  assumes "Calculate_payroll ctx = Inr r" "cx_Pack ctx = Some p" "cx_ContributionScheme ctx = Some s"
    and "pack_ok R p" "scheme_ok s"
  shows "levies_ok ctx p r"
  using assms compute_levies by (elim Calculate_payroll_InrD) auto


section \<open>The gross search\<close>

text \<open>Only the value of the gross matters, not the number of decimals it is written with.\<close>

lemma q_canonical: "decimal_rat v = decimal_rat w \<Longrightarrow> q v = q w"
proof -
  assume eq: "decimal_rat v = decimal_rat w"
  have ok: "decimal_ok (q x)" "dscale (q x) = 2" for x
    using dec_Quantize_rat(2,3) [OF q_no_panic] by simp_all
  have "decimal_rat (q v) = decimal_rat (q w)" unfolding q_rat eq ..
  then have "dvalue (q v) = dvalue (q w)" by (simp add: decimal_rat_def ok)
  then show "q v = q w" using decimal_ok_unique [OF ok(1), of v] decimal_ok_unique [OF ok(1), of w] by (metis ok(2))
qed

lemma Calculate_gross_cong:
  assumes "decimal_rat v = decimal_rat w" "cx_FullMonth ctx"
  shows "Calculate_payroll (ctx\<lparr>cx_MonthlyGross := v\<rparr>) = Calculate_payroll (ctx\<lparr>cx_MonthlyGross := w\<rparr>)"
proof -
  have b: "base_wage (ctx\<lparr>cx_MonthlyGross := v\<rparr>) = base_wage (ctx\<lparr>cx_MonthlyGross := w\<rparr>)"
    using assms(2) q_canonical [OF assms(1)] by (simp add: base_wage_def)
  then have "component_sums (ctx\<lparr>cx_MonthlyGross := v\<rparr>) = component_sums (ctx\<lparr>cx_MonthlyGross := w\<rparr>)"
    by (simp add: component_sums_def)
  moreover have "validateContext (ctx\<lparr>cx_MonthlyGross := v\<rparr>) = validateContext (ctx\<lparr>cx_MonthlyGross := w\<rparr>)"
  proof -
    have "dec_Sign v = dec_Sign w" by (simp only: dec_Sign_rat assms(1))
    then show ?thesis
      by (cases ctx) (simp only: validateContext_def Context.select_convs Context.update_convs)
  qed
  moreover have
    "sgk_base (ctx\<lparr>cx_MonthlyGross := v\<rparr>) p x = sgk_base (ctx\<lparr>cx_MonthlyGross := w\<rparr>) p x"
    "effectiveContributionRates (ctx\<lparr>cx_MonthlyGross := v\<rparr>) s = effectiveContributionRates (ctx\<lparr>cx_MonthlyGross := w\<rparr>) s"
    "dayRatioOf (ctx\<lparr>cx_MonthlyGross := v\<rparr>) = dayRatioOf (ctx\<lparr>cx_MonthlyGross := w\<rparr>)"
    "cx_PriorCumulativeTaxBase (ctx\<lparr>cx_MonthlyGross := v\<rparr>) = cx_PriorCumulativeTaxBase (ctx\<lparr>cx_MonthlyGross := w\<rparr>)"
    "cx_MinimumWagePriorBase (ctx\<lparr>cx_MonthlyGross := v\<rparr>) = cx_MinimumWagePriorBase (ctx\<lparr>cx_MonthlyGross := w\<rparr>)"
    "cx_Pack (ctx\<lparr>cx_MonthlyGross := v\<rparr>) = cx_Pack (ctx\<lparr>cx_MonthlyGross := w\<rparr>)"
    "cx_ContributionScheme (ctx\<lparr>cx_MonthlyGross := v\<rparr>) = cx_ContributionScheme (ctx\<lparr>cx_MonthlyGross := w\<rparr>)" for p x s
    by (simp_all add: sgk_base_def effectiveContributionRates_def dayRatioOf_def)
  ultimately show ?thesis by (simp only: Calculate_payroll_def compute_def b)
qed

text \<open>A bound that is known to reach the target.\<close>

definition reaches :: "Context \<Rightarrow> decimal \<Rightarrow> decimal \<Rightarrow> bool" where
  "reaches ctx target g =
     (\<exists>r. Calculate_payroll (ctx\<lparr>cx_MonthlyGross := g\<rparr>) = Inr r \<and> decimal_rat target \<le> decimal_rat (rs_Net r))"

lemma double_bound_reaches:
  assumes "double_bound n ctx target hi probe = Inr (probe', hi')" "cents hi" "0 < decimal_rat hi"
    "\<And>r. probe = Some r \<Longrightarrow> decimal_rat (rs_Net r) < decimal_rat target"
  shows "cents hi' \<and> 0 < decimal_rat hi' \<and> (probe' = None \<longrightarrow> n = 0 \<and> probe = None)
    \<and> (\<forall>r. probe' = Some r \<longrightarrow> decimal_rat (rs_Net r) < decimal_rat target \<or> reaches ctx target hi')"
  using assms
proof (induction n arbitrary: hi probe)
  case (Suc n)
  then obtain r where r: "Calculate_payroll (ctx\<lparr>cx_MonthlyGross := hi\<rparr>) = Inr r" by auto
  show ?case
  proof (cases "decimal_rat target \<le> decimal_rat (rs_Net r)")
    case True
    then show ?thesis using Suc.prems r by (auto simp: md.cmp_ge reaches_def)
  next
    case False
    let ?d = "q (mul hi (decimal_lit ''2''))"
    have "cents (mul hi (decimal_lit ''2''))" using Suc.prems(2) md.on_grid_add [of 2 hi hi]
      by (simp add: md.on_grid_def select_rat literals mult.commute)
    then have "0 < decimal_rat ?d" using Suc.prems(3) by (simp add: q_fixed select_rat literals)
    then show ?thesis using Suc.IH [of ?d "Some r"] Suc.prems(1) r False by (auto simp: md.cmp_ge)
  qed
qed auto

text \<open>The midpoint of two cent values: strictly between them, or the upper one when they are a cent apart.\<close>

lemma midpoint:
  assumes "cents lo" "cents hi" "0 \<le> decimal_rat lo" "decimal_rat lo < decimal_rat hi"
  defines "mid \<equiv> q (div_dec (dec_Add lo hi) (integer 2) 12)"
  shows "cents mid \<and> decimal_rat lo < decimal_rat mid \<and> decimal_rat mid \<le> decimal_rat hi
    \<and> (decimal_rat hi - decimal_rat lo \<le> 1 / 100 \<longrightarrow> decimal_rat mid = decimal_rat hi)
    \<and> (decimal_rat hi - decimal_rat lo > 1 / 100 \<longrightarrow> decimal_rat mid < decimal_rat hi)"
proof -
  obtain a b where ab: "decimal_rat lo = of_int a / 100" "decimal_rat hi = of_int b / 100"
    using assms(1,2) by (auto simp: md.on_grid_def)
  have lt: "0 \<le> a" "a < b" using assms(3,4) by (simp_all add: ab)
  have half: "decimal_rat (div_dec (dec_Add lo hi) (integer 2) 12) = (of_int (a + b) / 2) / 100"
  proof -
    have "decimal_rat (div_dec (dec_Add lo hi) (integer 2) 12)
        = of_int (round_half_away ((of_int a / 100 + of_int b / 100) / 2 * 10 ^ 12)) / 10 ^ 12"
      using dec_Div_rat(1) [OF div_no_panic [of 2 12 "dec_Add lo hi"]] by (simp add: ab integer_rat)
    moreover have "(of_int a / 100 + of_int b / 100) / 2 * 10 ^ 12 = (of_int ((a + b) * 5000000000) :: rat)" by simp
    ultimately show ?thesis by (simp only: round_half_away_of_int) simp
  qed
  have "of_int (a + b) / 2 / 100 * 100 = (of_int (a + b) / 2 :: rat)" by simp
  then have mid: "decimal_rat mid = of_int (round_half_away (of_int (a + b) / 2)) / 100"
    unfolding mid_def q_rat half by metis
  have "round_half_away (of_int (a + b) / 2) = (if even (a + b) then (a + b) div 2 else (a + b) div 2 + 1)"
  proof (cases "even (a + b)")
    case True
    then have "of_int (a + b) / 2 = (of_int ((a + b) div 2) :: rat)" by (metis of_int_div of_int_numeral)
    then show ?thesis using True by simp
  next
    case False
    then have "of_int (a + b) / 2 = (of_int ((a + b) div 2) + 1/2 :: rat)"
      by (metis (no_types, opaque_lifting) odd_two_times_div_two_succ add_divide_distrib nonzero_mult_div_cancel_left of_int_1 of_int_add of_int_mult of_int_numeral zero_neq_numeral)
    moreover have "0 \<le> (a + b) div 2" using lt by simp
    ultimately show ?thesis using False by (simp only: round_half_away_tie if_False)
  qed
  moreover define m where "m = (if even (a + b) then (a + b) div 2 else (a + b) div 2 + 1)"
  ultimately have mid: "decimal_rat mid = of_int m / 100" using mid by simp
  have m: "a < m" "m \<le> b" "b - a \<le> 1 \<Longrightarrow> m = b" "b - a > 1 \<Longrightarrow> m < b"
    using lt unfolding m_def by presburger+
  have d: "decimal_rat hi - decimal_rat lo \<le> 1 / 100 \<longleftrightarrow> b - a \<le> 1"
    by (simp add: ab field_simps) linarith
  have "cents mid" by (simp add: mid_def)
  then show ?thesis unfolding mid d not_le [symmetric] using m by (auto simp: ab)
qed

lemma two_exits:
  "(if A \<or> B then Inr x else if C then E else F) = Inr r \<Longrightarrow>
   A \<and> r = x \<or> B \<and> r = x \<or> \<not> B \<and> C \<and> E = Inr r \<or> \<not> B \<and> \<not> C \<and> F = Inr r"
  by (auto split: if_splits)

lemma bisect_reaches:
  assumes "bisect n ctx target lo hi = Inr r" "cx_FullMonth ctx" "cents lo" "cents hi" "0 \<le> decimal_rat lo"
    "decimal_rat lo < decimal_rat hi" "reaches ctx target hi"
  shows "decimal_rat target \<le> decimal_rat (rs_Net r) \<and> (\<exists>g. Calculate_payroll (ctx\<lparr>cx_MonthlyGross := g\<rparr>) = Inr r)"
  using assms
proof (induction n arbitrary: lo hi)
  case 0
  then show ?case by (auto simp: reaches_def)
next
  case (Suc n)
  let ?mid = "q (div_dec (dec_Add lo hi) (integer 2) 12)"
  note m = midpoint [OF Suc.prems(3-6)]
  obtain x where x: "Calculate_payroll (ctx\<lparr>cx_MonthlyGross := ?mid\<rparr>) = Inr x"
    using Suc.prems(1) by (auto simp: Let_def)
  consider "dec_Cmp (rs_Net x) target = 0" "r = x"
    | "decimal_rat hi - decimal_rat lo \<le> 1 / 100" "r = x"
    | "decimal_rat hi - decimal_rat lo > 1 / 100" "decimal_rat (rs_Net x) < decimal_rat target" "bisect n ctx target ?mid hi = Inr r"
    | "decimal_rat hi - decimal_rat lo > 1 / 100" "decimal_rat target \<le> decimal_rat (rs_Net x)" "bisect n ctx target lo ?mid = Inr r"
  proof -
    have "(if dec_Cmp (rs_Net x) target = 0 \<or> decimal_rat hi - decimal_rat lo \<le> 1 / 100 then Inr x
        else if decimal_rat (rs_Net x) < decimal_rat target then bisect n ctx target ?mid hi
        else bisect n ctx target lo ?mid) = Inr r"
      using Suc.prems(1) x unfolding md.cmp_less [symmetric] by (simp add: Let_def md.cmp_le literals)
    from two_exits [OF this] show thesis using that unfolding not_le not_less by blast
  qed
  then show ?case
  proof cases
    case 1
    then show ?thesis using x by (auto simp: md.cmp_eq)
  next
    case 2
    then have "decimal_rat ?mid = decimal_rat hi" using m by blast
    then show ?thesis using Calculate_gross_cong [OF _ Suc.prems(2), of ?mid hi] Suc.prems(7) x 2
      by (auto simp: reaches_def)
  next
    case 3
    then show ?thesis using m Suc.prems by (intro Suc.IH [OF 3(3)]) auto
  next
    case 4
    then show ?thesis using m x Suc.prems by (intro Suc.IH [OF 4(3)]) (auto simp: reaches_def)
  qed
qed

text \<open>
  Claim C18.  The net preview never undershoots: for a target net of at most two decimals (a hypothesis: the
  request accepts more), a payslip that \<^verbatim>\<open>Preview\<close> returns in mode NET is the one \<^verbatim>\<open>Calculate\<close> gives for some monthly
  gross in the preview context, and its net is at least the target, although the rounded net is not monotone in
  the gross.
\<close>

theorem preview_net_reaches_target:
  assumes "Preview ctx ''NET'' target = Inr r" "cents target"
  shows "decimal_rat target \<le> decimal_rat (rs_Net r)
    \<and> (\<exists>g. Calculate_payroll ((preview_context ctx)\<lparr>cx_MonthlyGross := g\<rparr>) = Inr r)"
proof -
  let ?c = "preview_context ctx" and ?hi = "dec_Add target (decimal_lit ''1'')"
  have full: "cx_FullMonth ?c" by (simp add: preview_context_def)
  have t: "calculateForTargetNet ?c target = Inr r" using assms(1) by (simp add: Preview_def Let_def)
  then have pos: "0 \<le> decimal_rat target" by (auto simp: calculateForTargetNet_def dec_Sign_rat split: if_splits)
  obtain probe hi where d: "double_bound 40 ?c target ?hi None = Inr (probe, hi)"
    "\<not> dec_Cmp (case probe of Some r \<Rightarrow> rs_Net r | None \<Rightarrow> zero_decimal) target < 0"
    "bisect 60 ?c target zero hi = Inr r"
    using t by (auto simp: calculateForTargetNet_def elim!: bindE_InrE split: if_splits)
  have "cents (decimal_lit ''1'')" by (auto simp: md.on_grid_def literals intro!: exI [of _ 100])
  then have hi: "cents ?hi" "0 < decimal_rat ?hi" using assms(2) pos by (simp_all add: md.on_grid_add literals)
  note D = double_bound_reaches [OF d(1) hi]
  then have "reaches ?c target hi" using d(2) by (cases probe) (auto simp: md.cmp_less)
  then show ?thesis
    using bisect_reaches [OF d(3) full cents_select(2) _ _ _ \<open>reaches ?c target hi\<close>] D by (simp add: literals)
qed


section \<open>A sample month\<close>

definition sample_pack :: Pack where
  "sample_pack = \<lparr>pk_ID = ''p1'', pk_Code = ''TR'', pk_Version = 1, pk_EffectiveFrom = 1, pk_EffectiveTo = 9,
     pk_MinimumMonthlyGross = integer 30, pk_SGKDailyFloor = integer 1, pk_SGKDailyCeiling = integer 50,
     pk_StampTaxRate = decimal_lit ''0.01'', pk_IncomeTaxBrackets = sample_brackets\<rparr>"

definition sample_scheme :: ContributionScheme where
  "sample_scheme = \<lparr>cs_Code = ''GENEL'', cs_EmployeeSGKRate = decimal_lit ''0.15'',
     cs_EmployeeUnemploymentRate = decimal_lit ''0.01'', cs_EmployerSGKRate = decimal_lit ''0.2'',
     cs_EmployerUnemploymentRate = decimal_lit ''0.01'', cs_SGDPEmployeeRate = zero, cs_SGDPEmployerRate = zero\<rparr>"

definition sample_context :: Context where
  "sample_context = \<lparr>cx_PeriodDate = 5, cx_RunType = ''REGULAR'', cx_WageType = ''GROSS'', cx_WagePeriod = ''MONTHLY'',
     cx_Currency = ''TRY'', cx_WorkType = ''FULL_TIME'', cx_SGKStatus = ''4A'', cx_MonthlyGross = integer 100,
     cx_PaidDays = integer 30, cx_SGKDays = 30, cx_FullMonth = True, cx_PriorEmployerTaxPolicy = ''SEPARATE'',
     cx_PriorCumulativeTaxBase = zero, cx_HasCarryOpening = False, cx_HasPriorCompanyMonths = False,
     cx_HasCompanyOpening = False, cx_HasUnresolvedSickLeave = False, cx_HasLegalDeduction = False,
     cx_Pack = Some sample_pack, cx_ContributionScheme = Some sample_scheme, cx_MinimumWagePriorBase = zero,
     cx_Components = []\<rparr>"


lemma sample_tax:
  assumes "0 \<le> decimal_rat x" "decimal_rat x \<le> 1000"
  shows "decimal_rat (progressiveTax x sample_brackets) = decimal_rat x * 3 / 20"
  using assms by (simp add: progressiveTax_rat [OF sample_brackets_ok])
    (simp add: sample_brackets_def integer_rat sample_rates)

lemma sample_fields: "pk_IncomeTaxBrackets sample_pack = sample_brackets" "cx_PriorCumulativeTaxBase sample_context = zero"
  "cx_MinimumWagePriorBase sample_context = zero" "pk_StampTaxRate sample_pack = decimal_lit ''0.01''"
  "base_wage sample_context = q (integer 100)"
  by (simp_all add: sample_pack_def sample_context_def base_wage_def)

lemma sample_valid: "validateContext sample_context = Inr ()"
  by (simp add: validateContext_def sample_context_def sample_pack_def sample_scheme_def dec_Sign_rat pay_val)

lemma sample_net: "decimal_rat (rs_Net (compute sample_context sample_pack sample_scheme)) = 1862 / 25"
proof -
  let ?r = "compute sample_context sample_pack sample_scheme"
  note f = compute_fields [of sample_context sample_pack sample_scheme]
  have sums: "component_sums sample_context = \<lparr>sm_gross = q (integer 100), sm_sgk = q (integer 100), sm_tax = q (integer 100),
      sm_stamp = q (integer 100), sm_deductions = zero, sm_components = [base_row (q (integer 100))]\<rparr>"
    by (simp add: component_sums_def base_wage_def sample_context_def Let_def)
  have base: "decimal_rat (rs_SGKBase ?r) = 100"
    unfolding f sums by (simp add: sgk_base_def sample_context_def sample_pack_def pay_val dec_Sign_rat)
  have "effectiveContributionRates sample_context sample_scheme = (decimal_lit ''0.15'', decimal_lit ''0.01'', decimal_lit ''0.2'', decimal_lit ''0.01'')"
    by (simp add: effectiveContributionRates_def sample_context_def sample_scheme_def)
  then have sgk: "decimal_rat (rs_EmployeeSGK ?r) = 15" "decimal_rat (rs_EmployeeUnemployment ?r) = 1"
    unfolding f(5,6) by (simp_all add: pay_val base sample_rates)
  have gross: "decimal_rat (rs_Gross ?r) = 100" "decimal_rat (rs_ApprovedDeductions ?r) = 0"
    unfolding f sums by (simp_all add: pay_val)
  have taxbase: "decimal_rat (rs_IncomeTaxBase ?r) = 84"
    unfolding f(7) sums by (simp add: pay_val sgk)
  have before: "decimal_rat (rs_IncomeTaxBeforeExempt ?r) = 63 / 5"
    unfolding f(8) sample_fields by (simp add: q_rat progressiveDelta_def sample_tax literals taxbase)
  have mg: "decimal_rat (minimum_gross sample_context sample_pack) = 30"
    by (simp add: minimum_gross_def dayRatioOf_def sample_context_def sample_pack_def pay_val)
  have mt: "decimal_rat (minimum_taxable sample_context sample_pack sample_scheme) = 126 / 5"
    by (simp add: minimum_taxable_def Let_def mg sample_scheme_def pay_val sample_rates)
  have tax: "decimal_rat (rs_IncomeTax ?r) = 441 / 50"
    unfolding f(9,18) sample_fields by (simp add: q_rat select_rat before progressiveDelta_def sample_tax literals mt)
  have stamp: "decimal_rat (rs_StampTax ?r) = 7 / 10"
    unfolding f(11,19,10) sums sample_fields by (simp add: pay_val mg)
  show ?thesis
    using compute_exact [OF sample_valid, of sample_pack sample_scheme] gross sgk tax stamp by (simp add: payslip_exact_def)
qed

lemma sample_result: "Calculate_payroll sample_context = Inr (compute sample_context sample_pack sample_scheme)"
  using sample_valid sample_net by (simp add: Calculate_payroll_eq sample_context_def)

lemma sample_legislation: "cx_Pack sample_context = Some sample_pack" "cx_ContributionScheme sample_context = Some sample_scheme"
  "pack_ok (1/5) sample_pack" "scheme_ok sample_scheme"
  using sample_brackets_ok
  by (simp_all add: sample_context_def pack_ok_def scheme_ok_def sample_pack_def sample_scheme_def pay_val sample_rates)

theorem payslip_reconciles_witness:
  "\<exists>r. Calculate_payroll sample_context = Inr r \<and> decimal_rat (rs_Net r) = 1862 / 25 \<and> payslip_exact r"
  using payslip_reconciles [OF sample_result] sample_result sample_net by blast

theorem payroll_levies_bounded_witness:
  "\<exists>r. Calculate_payroll sample_context = Inr r \<and> levies_ok sample_context sample_pack r"
  using payroll_levies_bounded [OF sample_result sample_legislation] sample_result by blast

text \<open>A month without taxes, whose only levies are the two social security rates.\<close>

definition plain_pack :: Pack where
  "plain_pack = sample_pack\<lparr>pk_MinimumMonthlyGross := zero, pk_SGKDailyFloor := zero, pk_StampTaxRate := zero,
     pk_IncomeTaxBrackets := []\<rparr>"

definition plain_context :: "decimal \<Rightarrow> decimal \<Rightarrow> Context" where
  "plain_context e u = sample_context\<lparr>cx_Pack := Some plain_pack,
     cx_ContributionScheme := Some (sample_scheme\<lparr>cs_EmployeeSGKRate := e, cs_EmployeeUnemploymentRate := u\<rparr>)\<rparr>"

lemma plain_net:
  assumes "cents g" "0 < decimal_rat g" "decimal_rat g \<le> 1500"
    and "decimal_rat (q (mul g e)) + decimal_rat (q (mul g u)) \<le> decimal_rat g"
  shows "\<exists>r. Calculate_payroll ((plain_context e u)\<lparr>cx_MonthlyGross := g\<rparr>) = Inr r
    \<and> decimal_rat (rs_Net r) = decimal_rat g - decimal_rat (q (mul g e)) - decimal_rat (q (mul g u))"
proof -
  define c where "c = (plain_context e u)\<lparr>cx_MonthlyGross := g\<rparr>"
  define s where "s = sample_scheme\<lparr>cs_EmployeeSGKRate := e, cs_EmployeeUnemploymentRate := u\<rparr>"
  note f = compute_fields [of c plain_pack s]
  let ?r = "compute c plain_pack s"
  have c: "cx_Pack c = Some plain_pack" "cx_ContributionScheme c = Some s"
    "pk_IncomeTaxBrackets plain_pack = []" "pk_StampTaxRate plain_pack = zero"
    by (simp_all add: c_def s_def plain_context_def plain_pack_def)
  have val: "validateContext c = Inr ()" using assms(2)
    by (simp add: c_def plain_context_def validateContext_def sample_context_def sample_pack_def sample_scheme_def
        plain_pack_def dec_Sign_rat pay_val)
  have sums: "component_sums c = \<lparr>sm_gross = q g, sm_sgk = q g, sm_tax = q g, sm_stamp = q g, sm_deductions = zero,
      sm_components = [base_row (q g)]\<rparr>"
    by (simp add: component_sums_def base_wage_def sample_context_def Let_def c_def plain_context_def)
  have base: "decimal_rat (rs_SGKBase ?r) = decimal_rat g"
    unfolding f sums using assms(1-3) q_fixed [OF assms(1)]
    by (auto simp: sgk_base_def c_def plain_context_def sample_context_def plain_pack_def sample_pack_def Let_def
        select_rat integer_rat literals dec_Sign_rat q_canonical [of "clamp _ _ _" g])
  have rates: "effectiveContributionRates c s = (e, u, cs_EmployerSGKRate s, cs_EmployerUnemploymentRate s)"
    by (simp add: effectiveContributionRates_def c_def s_def plain_context_def sample_context_def)
  have sgk: "rs_EmployeeSGK ?r = q (mul g e)" "rs_EmployeeUnemployment ?r = q (mul g u)"
    unfolding f(5,6) rates by (rule q_canonical, simp add: select_rat base)+
  have tax: "decimal_rat (rs_IncomeTax ?r) = 0" "decimal_rat (rs_StampTax ?r) = 0"
    unfolding f(8-11,18,19) c by (simp_all add: pay_val progressiveDelta_def progressiveTax_def)
  have "decimal_rat (rs_Gross ?r) = decimal_rat g" "decimal_rat (rs_ApprovedDeductions ?r) = 0"
    unfolding f sums by (simp_all add: q_fixed assms(1) cents_select literals)
  then have "decimal_rat (rs_Net ?r) = decimal_rat g - decimal_rat (q (mul g e)) - decimal_rat (q (mul g u))"
    using compute_exact [OF val, of plain_pack s] sgk tax by (simp add: payslip_exact_def)
  then show ?thesis unfolding c_def [symmetric] using assms(4) by (simp add: Calculate_payroll_eq val c)
qed

text \<open>
  The comment on \<^verbatim>\<open>calculateForTargetNet\<close> says that net never decreases in gross.  It can: when two levies round
  up at the same cent, 10 cents of gross pay 7 cents net and 9 cents pay 8.
\<close>

lemma net_not_monotone:
  "\<exists>ctx g h r t. decimal_rat g < decimal_rat h \<and> Calculate_payroll (ctx\<lparr>cx_MonthlyGross := g\<rparr>) = Inr r
     \<and> Calculate_payroll (ctx\<lparr>cx_MonthlyGross := h\<rparr>) = Inr t \<and> decimal_rat (rs_Net t) < decimal_rat (rs_Net r)"
proof -
  let ?e = "fromScaledInt 15 2" and ?u = "fromScaledInt 5 2" and ?g = "fromScaledInt 9 2" and ?h = "fromScaledInt 10 2"
  have r: "round_half_away (27 / 20) = 1" "round_half_away (9 / 20) = 0" "round_half_away (3 / 2) = 2" "round_half_away (1 / 2) = 1"
    by (simp_all add: round_half_away_def floor_eq_iff)
  have c: "cents ?g" "cents ?h" by (auto simp: md.on_grid_def)
  show ?thesis
    using plain_net [OF c(1), of ?e ?u] plain_net [OF c(2), of ?e ?u]
    by (simp add: q_rat select_rat r) force
qed

text \<open>
  The doubling loop gives up at its first probe when the target is small: with a net target of 1 the probe of 2 is
  charged on the social security floor of 30 days, its net is negative and the preview fails, although a gross of
  100 pays far more than the target.
\<close>

lemma preview_net_low_target:
  "Preview sample_context ''NET'' one = Inl (CalculationError ErrNegativeNet ''components'' [])"
proof -
  define g where "g = dec_Add one (decimal_lit ''1'')"
  define c where "c = (preview_context sample_context)\<lparr>cx_MonthlyGross := g\<rparr>"
  have g: "decimal_rat g = 2" by (simp add: g_def literals)
  note f = compute_fields [of c sample_pack sample_scheme]
  let ?r = "compute c sample_pack sample_scheme"
  have c: "cx_Pack c = Some sample_pack" "cx_ContributionScheme c = Some sample_scheme" "cx_SGKDays c = 30"
    by (simp_all add: c_def preview_context_def sample_context_def)
  have val: "validateContext c = Inr ()"
    by (simp add: c_def preview_context_def validateContext_def sample_context_def sample_pack_def sample_scheme_def
        dec_Sign_rat pay_val g)
  have sums: "component_sums c = \<lparr>sm_gross = q g, sm_sgk = q g, sm_tax = q g, sm_stamp = q g, sm_deductions = zero,
      sm_components = [base_row (q g)]\<rparr>"
    by (simp add: component_sums_def base_wage_def Let_def c_def preview_context_def)
  have base: "decimal_rat (rs_SGKBase ?r) = 30"
    unfolding f sums by (simp add: sgk_base_def c sample_pack_def Let_def pay_val dec_Sign_rat g)
  have "effectiveContributionRates c sample_scheme = (decimal_lit ''0.15'', decimal_lit ''0.01'', decimal_lit ''0.2'', decimal_lit ''0.01'')"
    by (simp add: effectiveContributionRates_def c_def preview_context_def sample_context_def sample_scheme_def)
  then have "decimal_rat (rs_EmployeeSGK ?r) = 9 / 2" unfolding f(5) by (simp add: pay_val base sample_rates)
  moreover have "decimal_rat (rs_Gross ?r) = 2" unfolding f(1) sums by (simp add: pay_val g)
  ultimately have "decimal_rat (rs_Net ?r) < 0"
    using compute_exact [OF val, of sample_pack sample_scheme] compute_levies [OF val sample_legislation(3,4)]
    by (simp add: payslip_exact_def levies_ok_def)
  then have "Calculate_payroll c = Inl (CalculationError ErrNegativeNet ''components'' [])"
    by (simp add: Calculate_payroll_eq val c)
  then show ?thesis unfolding c_def g_def
    by (simp add: Preview_def calculateForTargetNet_def dec_Sign_rat literals numeral_eq_Suc)
qed

theorem preview_net_reaches_target_witness:
  "\<exists>r. Preview (plain_context zero zero) ''NET'' one = Inr r \<and> cents one \<and> 1 \<le> decimal_rat (rs_Net r)"
proof -
  let ?c = "preview_context (plain_context zero zero)"
  have one: "cents one" by (auto simp: md.on_grid_def literals intro!: exI [of _ 100])
  have pc: "?c = plain_context zero zero"
    by (simp add: preview_context_def plain_context_def sample_context_def plain_pack_def sample_pack_def)
  have net: "\<exists>r. Calculate_payroll (?c\<lparr>cx_MonthlyGross := g\<rparr>) = Inr r \<and> decimal_rat (rs_Net r) = decimal_rat g"
    if "cents g" "0 < decimal_rat g" "decimal_rat g \<le> 1500" for g
    unfolding pc using plain_net [OF that, of zero zero] that by (simp add: q_rat select_rat literals)
  let ?hi = "dec_Add one (decimal_lit ''1'')" and ?mid = "q (div_dec (dec_Add zero (dec_Add one (decimal_lit ''1''))) (integer 2) 12)"
  have hi: "cents ?hi" "decimal_rat ?hi = 2" using one by (simp_all add: md.on_grid_add literals one_def)
  obtain a where a: "Calculate_payroll (?c\<lparr>cx_MonthlyGross := ?hi\<rparr>) = Inr a" "decimal_rat (rs_Net a) = 2"
    using net [OF hi(1)] hi(2) by auto
  have mid: "decimal_rat ?mid = 1"
    using dec_Div_rat(1) [OF div_no_panic [of 2 12 "dec_Add zero ?hi"]] by (simp add: q_rat integer_rat literals hi)
  obtain b where b: "Calculate_payroll (?c\<lparr>cx_MonthlyGross := ?mid\<rparr>) = Inr b" "decimal_rat (rs_Net b) = 1"
    using net [OF q_cents, of "div_dec (dec_Add zero (dec_Add one (decimal_lit ''1''))) (integer 2) 12"] mid by auto
  have D: "double_bound 40 ?c one ?hi None = Inr (Some a, ?hi)"
    using a by (simp add: numeral_eq_Suc md.cmp_ge literals)
  have B: "bisect 60 ?c one zero ?hi = Inr b"
    using b by (simp add: numeral_eq_Suc Let_def md.cmp_eq literals)
  have "Preview (plain_context zero zero) ''NET'' one = Inr b"
    using D B a by (simp add: Preview_def Let_def calculateForTargetNet_def dec_Sign_rat literals md.cmp_less)
  then show ?thesis using preview_net_reaches_target [OF _ one] one by (metis literals(2))
qed

end
