(* ===== verification/Idempotency.thy ===== *)
theory Idempotency
  imports Prelude
begin

text \<open>
  The command replay contract of \<^verbatim>\<open>src/internal/platform/idempotency\<close>: the SQL store (\<^verbatim>\<open>Store\<close>), its
  transaction-local form (\<^verbatim>\<open>ReserveTx\<close>, \<^verbatim>\<open>CompleteTx\<close>) and the in-memory \<^verbatim>\<open>MemoryStore\<close>.  A table is a map
  from (company, key) to rows; \<^verbatim>\<open>INSERT ... ON CONFLICT DO NOTHING\<close> followed by \<^verbatim>\<open>SELECT ... FOR UPDATE\<close>
  runs as one step, because the row lock serialises the reservations of a key.  SHA-256 and UUID
  parsing are parameters \<open>digest\<close> and \<open>parse_uuid\<close>; \<open>encoded\<close> is the result of marshalling the response
  body, \<open>None\<close> when that fails; \<open>now\<close> is the clock.  Errors of the database connection are not modelled.

  The locale \<open>replay_store\<close> is the contract; the SQL table and the memory store both interpret it.
\<close>

section \<open>Types\<close>

datatype idem_error = ErrKeyRequired | ErrPayloadConflict | ErrCommandInProgress
  | ErrInvalidCompany | ErrEncoding

record idem_result =
  ir_CompanyID :: string
  ir_Key :: string
  ir_Command :: string
  ir_PayloadSHA256 :: string
  ir_Status :: string
  ir_ResponseStatus :: int
  ir_ResponseBody :: string
  ir_CompletedAt :: "int option"

definition empty_result_row :: idem_result where
  "empty_result_row = \<lparr>ir_CompanyID = [], ir_Key = [], ir_Command = [], ir_PayloadSHA256 = [], ir_Status = [],
     ir_ResponseStatus = 0, ir_ResponseBody = [], ir_CompletedAt = None\<rparr>"

record idem_row =
  rw_command :: string
  rw_hash :: string
  rw_status :: string
  rw_response_status :: "int option"
  rw_response_body :: "string option"
  rw_completed_at :: "int option"

type_synonym idem_table = "string \<times> string \<rightharpoonup> idem_row"

record TxReservation =
  tx_Inserted :: bool
  tx_Completed :: bool
  tx_ResponseStatus :: int
  tx_ResponseBody :: string

definition empty_reservation :: TxReservation where
  "empty_reservation = \<lparr>tx_Inserted = False, tx_Completed = False, tx_ResponseStatus = 0, tx_ResponseBody = []\<rparr>"

definition IN_PROGRESS :: string where "IN_PROGRESS = ''IN_PROGRESS''"
definition COMPLETED :: string where "COMPLETED = ''COMPLETED''"

lemma status_distinct [simp]: "IN_PROGRESS \<noteq> COMPLETED" "COMPLETED \<noteq> IN_PROGRESS"
  by (simp_all add: IN_PROGRESS_def COMPLETED_def)

definition NormalizeKey :: "string \<Rightarrow> idem_error + string" where
  "NormalizeKey key =
     (let key = trim_space key in
      if key = [] \<or> length key > 255 then Inl ErrKeyRequired else Inr key)"

section \<open>The SQL store\<close>

definition new_row :: "string \<Rightarrow> string \<Rightarrow> idem_row" where \<comment> \<open>the column defaults of the table\<close>
  "new_row command hash = \<lparr>rw_command = command, rw_hash = hash, rw_status = IN_PROGRESS,
     rw_response_status = None, rw_response_body = None, rw_completed_at = None\<rparr>"

definition insert_ignore :: "idem_table \<Rightarrow> string \<times> string \<Rightarrow> string \<Rightarrow> string \<Rightarrow> idem_table \<times> bool" where
  "insert_ignore t ck command hash =
     (case t ck of Some _ \<Rightarrow> (t, False) | None \<Rightarrow> (t(ck \<mapsto> new_row command hash), True))"

definition nullable :: "'a \<Rightarrow> 'a option \<Rightarrow> 'a" where
  "nullable d x = (case x of None \<Rightarrow> d | Some v \<Rightarrow> v)"

text \<open>\<^verbatim>\<open>Reserve\<close> after its checks: insert, read the winning row, compare, classify.\<close>

definition reserve_row ::
  "idem_table \<Rightarrow> string \<Rightarrow> string \<times> string \<Rightarrow> string \<Rightarrow> string \<Rightarrow>
   idem_table \<times> idem_result \<times> bool \<times> idem_error option" where
  "reserve_row t companyID ck command hash =
     (let (t', inserted) = insert_ignore t ck command hash in
      case t' ck of
        None \<Rightarrow> (t', empty_result_row, False, Some ErrCommandInProgress)
      | Some row \<Rightarrow>
          let result = empty_result_row\<lparr>ir_Command := rw_command row, ir_PayloadSHA256 := rw_hash row,
                ir_Status := rw_status row, ir_ResponseStatus := nullable 0 (rw_response_status row)\<rparr> in
          if rw_command row \<noteq> command \<or> rw_hash row \<noteq> hash
          then (t', result, False, Some ErrPayloadConflict)
          else
            let result = result\<lparr>ir_CompanyID := companyID, ir_Key := snd ck,
                  ir_ResponseBody := nullable [] (rw_response_body row), ir_CompletedAt := rw_completed_at row\<rparr> in
            if \<not> inserted \<and> rw_status row = IN_PROGRESS then (t', result, False, Some ErrCommandInProgress)
            else (t', result, \<not> inserted \<and> rw_status row = COMPLETED, None))"

definition Store_Reserve ::
  "(string \<Rightarrow> string option) \<Rightarrow> (string \<Rightarrow> string) \<Rightarrow> idem_table \<Rightarrow> string \<Rightarrow> string \<Rightarrow> string \<Rightarrow> string \<Rightarrow>
   idem_table \<times> idem_result \<times> bool \<times> idem_error option" where
  "Store_Reserve parse_uuid digest t companyID key command payload =
     (case NormalizeKey key of
        Inl e \<Rightarrow> (t, empty_result_row, False, Some e)
      | Inr key \<Rightarrow>
          if trim_space command = [] then (t, empty_result_row, False, Some ErrKeyRequired)
          else (case parse_uuid companyID of
              None \<Rightarrow> (t, empty_result_row, False, Some ErrInvalidCompany)
            | Some company \<Rightarrow> reserve_row t companyID (company, key) command (digest payload)))"

text \<open>The guarded \<^verbatim>\<open>UPDATE\<close> of \<^verbatim>\<open>Complete\<close>; it affects at most one row.\<close>

definition complete_row :: "idem_table \<Rightarrow> string \<times> string \<Rightarrow> int \<Rightarrow> string \<Rightarrow> int \<Rightarrow> idem_table \<times> bool" where
  "complete_row t ck st body now =
     (case t ck of
        Some row \<Rightarrow>
          if rw_status row = IN_PROGRESS
          then (t(ck \<mapsto> row\<lparr>rw_status := COMPLETED, rw_response_status := Some st,
                  rw_response_body := Some body, rw_completed_at := Some now\<rparr>), True)
          else (t, False)
      | None \<Rightarrow> (t, False))"

definition Store_Complete ::
  "(string \<Rightarrow> string option) \<Rightarrow> idem_table \<Rightarrow> string \<Rightarrow> string \<Rightarrow> int \<Rightarrow> string option \<Rightarrow> int \<Rightarrow>
   idem_table \<times> idem_error option" where
  "Store_Complete parse_uuid t companyID key st encoded now =
     (case NormalizeKey key of
        Inl e \<Rightarrow> (t, Some e)
      | Inr key \<Rightarrow> (case encoded of
          None \<Rightarrow> (t, Some ErrEncoding)
        | Some body \<Rightarrow> (case parse_uuid companyID of
            None \<Rightarrow> (t, Some ErrInvalidCompany)
          | Some company \<Rightarrow>
              let (t', affected) = complete_row t (company, key) st body now in
              (t', if affected then None else Some ErrCommandInProgress))))"

section \<open>Inside a transaction\<close>

definition ReserveTx ::
  "(string \<Rightarrow> string option) \<Rightarrow> (string \<Rightarrow> string) \<Rightarrow> idem_table \<Rightarrow> string \<Rightarrow> string \<Rightarrow> string \<Rightarrow> string \<Rightarrow>
   idem_table \<times> (idem_error + TxReservation)" where
  "ReserveTx parse_uuid digest t companyID key command payload =
     (case NormalizeKey key of
        Inl e \<Rightarrow> (t, Inl e)
      | Inr key \<Rightarrow>
          if command = [] then (t, Inl ErrKeyRequired)
          else (case parse_uuid companyID of
              None \<Rightarrow> (t, Inl ErrInvalidCompany)
            | Some company \<Rightarrow>
                let hash = digest payload;
                    (t', inserted) = insert_ignore t (company, key) command hash in
                (case t' (company, key) of
                   None \<Rightarrow> (t', Inl ErrCommandInProgress)
                 | Some row \<Rightarrow>
                     if rw_command row \<noteq> command \<or> rw_hash row \<noteq> hash then (t', Inl ErrPayloadConflict)
                     else
                       let reservation = empty_reservation\<lparr>tx_Inserted := inserted,
                             tx_ResponseBody := nullable [] (rw_response_body row),
                             tx_ResponseStatus := nullable 0 (rw_response_status row)\<rparr> in
                       if \<not> inserted then
                         (if rw_status row = IN_PROGRESS then (t', Inl ErrCommandInProgress)
                          else (t', Inr (reservation\<lparr>tx_Completed := (rw_status row = COMPLETED)\<rparr>)))
                       else (t', Inr reservation))))"

definition CompleteTx ::
  "(string \<Rightarrow> string option) \<Rightarrow> idem_table \<Rightarrow> string \<Rightarrow> string \<Rightarrow> int \<Rightarrow> string option \<Rightarrow> int \<Rightarrow>
   idem_table \<times> idem_error option" where
  "CompleteTx parse_uuid t companyID key st encoded now =
     (case NormalizeKey key of
        Inl e \<Rightarrow> (t, Some e)
      | Inr key \<Rightarrow> (case encoded of
          None \<Rightarrow> (t, Some ErrEncoding)
        | Some body \<Rightarrow> (case parse_uuid companyID of
            None \<Rightarrow> (t, Some ErrInvalidCompany)
          | Some company \<Rightarrow>
              let (t', affected) = complete_row t (company, key) st body now in
              (t', if affected then None else Some ErrCommandInProgress))))"

section \<open>The memory store\<close>

type_synonym mem_records = "string \<rightharpoonup> idem_result"

definition mem_lookup :: "string \<Rightarrow> string \<Rightarrow> string" where
  "mem_lookup companyID key = companyID @ [CHR 0x00] @ key"

definition mem_reserve :: "mem_records \<Rightarrow> string \<Rightarrow> string \<Rightarrow> string \<Rightarrow> string \<Rightarrow> mem_records \<times> idem_result \<times> bool \<times> idem_error option" where
  "mem_reserve m companyID key command hash =
     (case m (mem_lookup companyID key) of
        Some current \<Rightarrow>
          if ir_Command current \<noteq> command \<or> ir_PayloadSHA256 current \<noteq> hash
          then (m, current, False, Some ErrPayloadConflict)
          else if ir_Status current = IN_PROGRESS then (m, current, False, Some ErrCommandInProgress)
          else (m, current, True, None)
      | None \<Rightarrow>
          let result = empty_result_row\<lparr>ir_CompanyID := companyID, ir_Key := key, ir_Command := command,
                ir_PayloadSHA256 := hash, ir_Status := IN_PROGRESS\<rparr> in
          (m(mem_lookup companyID key \<mapsto> result), result, False, None))"

definition MemoryStore_Reserve ::
  "(string \<Rightarrow> string) \<Rightarrow> mem_records \<Rightarrow> string \<Rightarrow> string \<Rightarrow> string \<Rightarrow> string \<Rightarrow>
   mem_records \<times> idem_result \<times> bool \<times> idem_error option" where
  "MemoryStore_Reserve digest m companyID key command payload =
     (case NormalizeKey key of
        Inl e \<Rightarrow> (m, empty_result_row, False, Some e)
      | Inr key \<Rightarrow> mem_reserve m companyID key command (digest payload))"

definition mem_complete :: "mem_records \<Rightarrow> string \<Rightarrow> string \<Rightarrow> int \<Rightarrow> string \<Rightarrow> int \<Rightarrow> mem_records \<times> bool" where
  "mem_complete m companyID key st body now =
     (case m (mem_lookup companyID key) of
        None \<Rightarrow> (m, False)
      | Some current \<Rightarrow>
          if ir_Status current \<noteq> IN_PROGRESS then (m, False)
          else (m(mem_lookup companyID key \<mapsto> current\<lparr>ir_Status := COMPLETED, ir_ResponseStatus := st,
                  ir_ResponseBody := body, ir_CompletedAt := Some now\<rparr>), True))"

definition MemoryStore_Complete ::
  "mem_records \<Rightarrow> string \<Rightarrow> string \<Rightarrow> int \<Rightarrow> string option \<Rightarrow> int \<Rightarrow> mem_records \<times> idem_error option" where
  "MemoryStore_Complete m companyID key st encoded now =
     (case NormalizeKey key of
        Inl e \<Rightarrow> (m, Some e)
      | Inr key \<Rightarrow> (case encoded of
          None \<Rightarrow> (m, Some ErrEncoding)
        | Some body \<Rightarrow>
            let (m', changed) = mem_complete m companyID key st body now in
            (m', if changed then None else Some ErrCommandInProgress)))"


section \<open>The contract\<close>

text \<open>
  What callers rely on, over the identities they can see: for every key the command and payload digest that own it
  and, once completed, the stored response.
\<close>

datatype reply = Fresh | Replay int string | Conflict | Busy

type_synonym idem_entry = "(string \<times> string) \<times> (int \<times> string) option"

definition spec_reserve :: "('k \<rightharpoonup> idem_entry) \<Rightarrow> 'k \<Rightarrow> string \<Rightarrow> string \<Rightarrow> ('k \<rightharpoonup> idem_entry) \<times> reply" where
  "spec_reserve m k c h =
     (case m k of
        None \<Rightarrow> (m(k \<mapsto> ((c, h), None)), Fresh)
      | Some (owner, response) \<Rightarrow>
          (m, if owner \<noteq> (c, h) then Conflict
              else case response of None \<Rightarrow> Busy | Some (st, b) \<Rightarrow> Replay st b))"

definition spec_complete :: "('k \<rightharpoonup> idem_entry) \<Rightarrow> 'k \<Rightarrow> int \<Rightarrow> string \<Rightarrow> ('k \<rightharpoonup> idem_entry) \<times> bool" where
  "spec_complete m k st b =
     (case m k of
        Some (owner, None) \<Rightarrow> (m(k \<mapsto> (owner, Some (st, b))), True)
      | _ \<Rightarrow> (m, False))"

datatype 'k op = Reserve 'k string string | Complete 'k int string int

datatype answer = Reply reply | Done bool

fun spec_step :: "('k \<rightharpoonup> idem_entry) \<Rightarrow> 'k op \<Rightarrow> ('k \<rightharpoonup> idem_entry) \<times> answer" where
  "spec_step m (Reserve k c h) = (let (m', r) = spec_reserve m k c h in (m', Reply r))"
| "spec_step m (Complete k st b now) = (let (m', d) = spec_complete m k st b in (m', Done d))"

fun op_key :: "'k op \<Rightarrow> 'k" where
  "op_key (Reserve k c h) = k"
| "op_key (Complete k st b now) = k"

fun spec_run :: "('k \<rightharpoonup> idem_entry) \<Rightarrow> 'k op list \<Rightarrow> ('k \<rightharpoonup> idem_entry) \<times> answer list" where
  "spec_run m [] = (m, [])"
| "spec_run m (x # xs) =
     (let (m1, a) = spec_step m x; (m2, as) = spec_run m1 xs in (m2, a # as))"

definition fresh_replies :: "'k \<Rightarrow> 'k op list \<Rightarrow> answer list \<Rightarrow> nat" where
  "fresh_replies k xs as = length (filter (\<lambda>(x, a). op_key x = k \<and> a = Reply Fresh) (zip xs as))"

text \<open>Ownership of a key and a stored response are permanent.\<close>

lemma spec_step_other: "op_key x \<noteq> k \<Longrightarrow> fst (spec_step m x) k = m k"
  by (cases x) (auto simp: spec_reserve_def spec_complete_def Let_def split: option.splits prod.splits)

lemma spec_step_owner:
  "m k = Some (owner, r) \<Longrightarrow> \<exists>r'. fst (spec_step m x) k = Some (owner, r') \<and> (r \<noteq> None \<longrightarrow> r' = r)"
  by (cases x; cases r) (auto simp: spec_reserve_def spec_complete_def Let_def split: option.splits prod.splits)

lemma spec_run_owner:
  "m k = Some (owner, r) \<Longrightarrow> \<exists>r'. fst (spec_run m xs) k = Some (owner, r') \<and> (r \<noteq> None \<longrightarrow> r' = r)"
proof (induction xs arbitrary: m r)
  case (Cons x xs)
  obtain r1 where r1: "fst (spec_step m x) k = Some (owner, r1)" "r \<noteq> None \<longrightarrow> r1 = r"
    using spec_step_owner [of m k owner r x] Cons.prems by blast
  from Cons.IH [of "fst (spec_step m x)" r1] r1 show ?case by (auto simp: Let_def split: prod.splits)
qed simp

lemma spec_step_fresh:
  "snd (spec_step m x) = Reply Fresh \<Longrightarrow> m (op_key x) = None \<and> fst (spec_step m x) (op_key x) \<noteq> None"
  by (cases x) (auto simp: spec_reserve_def spec_complete_def Let_def split: option.splits prod.splits if_splits)

lemma spec_fresh_count:
  "fresh_replies k xs (snd (spec_run m xs)) \<le> (if m k = None then 1 else 0)"
proof (induction xs arbitrary: m)
  case Nil
  then show ?case by (simp add: fresh_replies_def)
next
  case (Cons x xs)
  let ?m1 = "fst (spec_step m x)" and ?a = "snd (spec_step m x)"
  have rest: "fresh_replies k (x # xs) (snd (spec_run m (x # xs)))
      = (if op_key x = k \<and> ?a = Reply Fresh then 1 else 0) + fresh_replies k xs (snd (spec_run ?m1 xs))"
    by (simp add: fresh_replies_def Let_def split: prod.splits)
  have "m k \<noteq> None \<Longrightarrow> ?m1 k \<noteq> None" using spec_step_owner [of m k _ _ x] by fastforce
  then show ?case using rest Cons.IH [of ?m1] spec_step_fresh [of m x] by (auto split: if_splits)
qed

section \<open>Stores that keep the contract\<close>

locale replay_store =
  fixes inv :: "'s \<Rightarrow> bool"
    and valid :: "'k \<Rightarrow> bool"
    and entries :: "'s \<Rightarrow> 'k \<rightharpoonup> idem_entry"
    and reserve :: "'s \<Rightarrow> 'k \<Rightarrow> string \<Rightarrow> string \<Rightarrow> 's \<times> reply"
    and complete :: "'s \<Rightarrow> 'k \<Rightarrow> int \<Rightarrow> string \<Rightarrow> int \<Rightarrow> 's \<times> bool"
  assumes reserve_inv: "inv s \<Longrightarrow> valid k \<Longrightarrow> inv (fst (reserve s k c h))"
    and complete_inv: "inv s \<Longrightarrow> valid k \<Longrightarrow> inv (fst (complete s k st b now))"
    and reserve_spec: "inv s \<Longrightarrow> valid k \<Longrightarrow>
      spec_reserve (entries s) k c h = (entries (fst (reserve s k c h)), snd (reserve s k c h))"
    and complete_spec: "inv s \<Longrightarrow> valid k \<Longrightarrow>
      spec_complete (entries s) k st b = (entries (fst (complete s k st b now)), snd (complete s k st b now))"
begin

fun step :: "'s \<Rightarrow> 'k op \<Rightarrow> 's \<times> answer" where
  "step s (Reserve k c h) = (let (s', r) = reserve s k c h in (s', Reply r))"
| "step s (Complete k st b now) = (let (s', d) = complete s k st b now in (s', Done d))"

fun run :: "'s \<Rightarrow> 'k op list \<Rightarrow> 's \<times> answer list" where
  "run s [] = (s, [])"
| "run s (x # xs) = (let (s1, a) = step s x; (s2, as) = run s1 xs in (s2, a # as))"

lemma step_refines:
  assumes "inv s" "valid (op_key x)"
  shows "inv (fst (step s x)) \<and> spec_step (entries s) x = (entries (fst (step s x)), snd (step s x))"
proof (cases x)
  case (Reserve k c h)
  then show ?thesis using assms reserve_inv [of s k c h] reserve_spec [of s k c h]
    by (simp add: Let_def case_prod_unfold)
next
  case (Complete k st b now)
  then show ?thesis using assms complete_inv [of s k st b now] complete_spec [of s k st b now]
    by (simp add: Let_def case_prod_unfold)
qed

lemma run_refines:
  "inv s \<Longrightarrow> list_all (valid \<circ> op_key) xs \<Longrightarrow>
   inv (fst (run s xs)) \<and> spec_run (entries s) xs = (entries (fst (run s xs)), snd (run s xs))"
proof (induction xs arbitrary: s)
  case (Cons x xs)
  then have x: "inv (fst (step s x))" "spec_step (entries s) x = (entries (fst (step s x)), snd (step s x))"
    using step_refines [of s x] by auto
  from Cons.IH [OF x(1)] Cons.prems x(2) show ?case by (auto simp: Let_def split: prod.splits)
qed simp

lemma fresh_at_most_once:
  assumes "inv s" "list_all (valid \<circ> op_key) xs"
  shows "fresh_replies k xs (snd (run s xs)) \<le> (if entries s k = None then 1 else 0)"
  using spec_fresh_count [of k xs "entries s"] run_refines [OF assms] by simp

lemma response_permanent:
  assumes "inv s" "list_all (valid \<circ> op_key) xs" "valid k" "entries s k = Some ((c, h), Some (st, b))"
  shows "snd (reserve (fst (run s xs)) k c h) = Replay st b
    \<and> ((c', h') \<noteq> (c, h) \<longrightarrow> snd (reserve (fst (run s xs)) k c' h') = Conflict)"
proof -
  note R = run_refines [OF assms(1,2)]
  have "entries (fst (run s xs)) k = Some ((c, h), Some (st, b))"
    using spec_run_owner [of "entries s" k "(c, h)" "Some (st, b)" xs] R assms(4) by auto
  then show ?thesis
    using reserve_spec [of "fst (run s xs)" k c h] reserve_spec [of "fst (run s xs)" k c' h'] R assms(3)
    by (auto simp: spec_reserve_def)
qed

end

text \<open>Two stores that keep the contract cannot be told apart by their answers.\<close>

locale two_stores =
  a: replay_store inv1 valid entries1 reserve1 complete1 + b: replay_store inv2 valid entries2 reserve2 complete2
  for inv1 :: "'s \<Rightarrow> bool" and valid :: "'k \<Rightarrow> bool" and entries1 reserve1 complete1
    and inv2 :: "'t \<Rightarrow> bool" and entries2 reserve2 complete2
begin

lemma same_answers:
  assumes "inv1 s" "inv2 t" "list_all (valid \<circ> op_key) xs" "entries1 s = entries2 t"
  shows "snd (a.run s xs) = snd (b.run t xs) \<and> entries1 (fst (a.run s xs)) = entries2 (fst (b.run t xs))"
  using a.run_refines [OF assms(1,3)] b.run_refines [OF assms(2,3)] assms(4) by simp

end


section \<open>The SQL table keeps the contract\<close>

definition row_ok :: "idem_row \<Rightarrow> bool" where
  "row_ok row = ((rw_status row = IN_PROGRESS \<and> rw_response_status row = None \<and> rw_response_body row = None)
     \<or> (rw_status row = COMPLETED \<and> rw_response_status row \<noteq> None \<and> rw_response_body row \<noteq> None))"

definition table_ok :: "idem_table \<Rightarrow> bool" where
  "table_ok t = (\<forall>row \<in> ran t. row_ok row)"

definition row_entry :: "idem_row \<Rightarrow> idem_entry" where
  "row_entry row = ((rw_command row, rw_hash row),
     if rw_status row = COMPLETED then Some (nullable 0 (rw_response_status row), nullable [] (rw_response_body row)) else None)"

definition table_entries :: "idem_table \<Rightarrow> string \<times> string \<rightharpoonup> idem_entry" where
  "table_entries t = map_option row_entry \<circ> t"

definition reply_of :: "idem_result \<times> bool \<times> idem_error option \<Rightarrow> reply" where
  "reply_of out = (case out of (result, replay, err) \<Rightarrow>
     (case err of
        Some ErrPayloadConflict \<Rightarrow> Conflict
      | Some _ \<Rightarrow> Busy
      | None \<Rightarrow> if replay then Replay (ir_ResponseStatus result) (ir_ResponseBody result) else Fresh))"

definition table_reserve :: "idem_table \<Rightarrow> string \<times> string \<Rightarrow> string \<Rightarrow> string \<Rightarrow> idem_table \<times> reply" where
  "table_reserve t ck c h = (let (t', out) = reserve_row t (fst ck) ck c h in (t', reply_of out))"

lemma table_ok_row: "table_ok t \<Longrightarrow> t ck = Some row \<Longrightarrow> row_ok row"
  by (auto simp: table_ok_def intro: ranI)

lemma table_ok_upd: "table_ok t \<Longrightarrow> row_ok row \<Longrightarrow> table_ok (t(ck \<mapsto> row))"
  by (auto simp: table_ok_def ran_def split: if_splits)

lemma table_entries_upd: "table_entries (t(ck \<mapsto> row)) = (table_entries t)(ck \<mapsto> row_entry row)"
  by (auto simp: table_entries_def)

lemma reserve_row_new:
  "t ck = None \<Longrightarrow> reserve_row t c ck command hash =
   (t(ck \<mapsto> new_row command hash), empty_result_row\<lparr>ir_Command := command, ir_PayloadSHA256 := hash,
      ir_Status := IN_PROGRESS, ir_CompanyID := c, ir_Key := snd ck\<rparr>, False, None)"
  by (simp add: reserve_row_def insert_ignore_def new_row_def Let_def nullable_def empty_result_row_def)

lemma reserve_row_old:
  assumes "t ck = Some row" "row_ok row"
  shows "fst (reserve_row t c ck command hash) = t
    \<and> reply_of (snd (reserve_row t c ck command hash))
      = snd (spec_reserve (table_entries t) ck command hash)"
  using assms by (auto simp: reserve_row_def insert_ignore_def row_ok_def Let_def reply_of_def spec_reserve_def
      table_entries_def row_entry_def nullable_def)

interpretation sql: replay_store table_ok "\<lambda>_. True" table_entries table_reserve complete_row
proof unfold_locales
  fix s :: idem_table and k c h
  assume ok: "table_ok s"
  have new: "row_ok (new_row c h)" by (simp add: row_ok_def new_row_def)
  have entry: "row_entry (new_row c h) = ((c, h), None)" by (simp add: row_entry_def new_row_def)
  have r: "table_ok (fst (table_reserve s k c h)) \<and>
      spec_reserve (table_entries s) k c h = (table_entries (fst (table_reserve s k c h)), snd (table_reserve s k c h))"
  proof (cases "s k")
    case None
    then show ?thesis using ok new
      by (simp add: table_reserve_def reserve_row_new reply_of_def spec_reserve_def table_ok_upd table_entries_upd entry)
         (simp add: table_entries_def)
  next
    case (Some row)
    have old: "fst (reserve_row s (fst k) k c h) = s"
      "reply_of (snd (reserve_row s (fst k) k c h)) = snd (spec_reserve (table_entries s) k c h)"
      using reserve_row_old [of s k row "fst k" c h] Some table_ok_row [OF ok, of k row] by blast+
    have "fst (spec_reserve (table_entries s) k c h) = table_entries s"
      using Some by (simp add: spec_reserve_def table_entries_def split: prod.split)
    then show ?thesis using old ok by (simp add: table_reserve_def case_prod_unfold prod_eq_iff)
  qed
  then show "table_ok (fst (table_reserve s k c h))"
    "spec_reserve (table_entries s) k c h = (table_entries (fst (table_reserve s k c h)), snd (table_reserve s k c h))"
    by blast+
next
  fix s :: idem_table and k st b now
  assume ok: "table_ok s"
  show "table_ok (fst (complete_row s k st b now))"
    using ok by (auto simp: complete_row_def row_ok_def intro!: table_ok_upd split: option.splits)
  show "spec_complete (table_entries s) k st b = (table_entries (fst (complete_row s k st b now)), snd (complete_row s k st b now))"
    using ok table_ok_row [OF ok, of k]
    by (cases "s k") (auto simp: complete_row_def spec_complete_def row_ok_def table_entries_upd
        row_entry_def nullable_def, auto simp: table_entries_def row_entry_def)
qed

section \<open>The memory store keeps it too\<close>

definition result_entry :: "idem_result \<Rightarrow> idem_entry" where
  "result_entry r = ((ir_Command r, ir_PayloadSHA256 r),
     if ir_Status r = COMPLETED then Some (ir_ResponseStatus r, ir_ResponseBody r) else None)"

definition mem_ok :: "mem_records \<Rightarrow> bool" where
  "mem_ok m = (\<forall>r \<in> ran m. ir_Status r = IN_PROGRESS \<or> ir_Status r = COMPLETED)"

text \<open>Company ids without a NUL byte: the lookup text joins company and key with one.\<close>

definition mem_key :: "string \<times> string \<Rightarrow> bool" where
  "mem_key ck = (CHR 0x00 \<notin> set (fst ck))"

definition mem_entries :: "mem_records \<Rightarrow> string \<times> string \<rightharpoonup> idem_entry" where
  "mem_entries m ck = (if mem_key ck then map_option result_entry (m (mem_lookup (fst ck) (snd ck))) else None)"

definition memory_reserve :: "mem_records \<Rightarrow> string \<times> string \<Rightarrow> string \<Rightarrow> string \<Rightarrow> mem_records \<times> reply" where
  "memory_reserve m ck c h = (let (m', out) = mem_reserve m (fst ck) (snd ck) c h in (m', reply_of out))"

definition memory_complete :: "mem_records \<Rightarrow> string \<times> string \<Rightarrow> int \<Rightarrow> string \<Rightarrow> int \<Rightarrow> mem_records \<times> bool" where
  "memory_complete m ck st b now = mem_complete m (fst ck) (snd ck) st b now"

lemma mem_lookup_inj:
  "CHR 0x00 \<notin> set c \<Longrightarrow> CHR 0x00 \<notin> set d \<Longrightarrow> mem_lookup c k = mem_lookup d l \<Longrightarrow> c = d \<and> k = l"
  unfolding mem_lookup_def by (induction c arbitrary: d) (case_tac d, auto)+

lemma mem_lookup_iff:
  "mem_key a \<Longrightarrow> mem_key b \<Longrightarrow> mem_lookup (fst a) (snd a) = mem_lookup (fst b) (snd b) \<longleftrightarrow> a = b"
  using mem_lookup_inj [of "fst a" "fst b" "snd a" "snd b"] by (auto simp: mem_key_def prod_eq_iff)

lemma mem_entries_upd:
  "mem_key ck \<Longrightarrow> mem_entries (m(mem_lookup (fst ck) (snd ck) \<mapsto> r)) = (mem_entries m)(ck \<mapsto> result_entry r)"
  by (rule ext) (auto simp: mem_entries_def mem_lookup_iff)

lemma mem_ok_upd:
  "mem_ok m \<Longrightarrow> ir_Status r = IN_PROGRESS \<or> ir_Status r = COMPLETED \<Longrightarrow> mem_ok (m(x \<mapsto> r))"
  by (auto simp: mem_ok_def ran_def split: if_splits)

lemma mem_ok_row: "mem_ok m \<Longrightarrow> m x = Some r \<Longrightarrow> ir_Status r = IN_PROGRESS \<or> ir_Status r = COMPLETED"
  by (auto simp: mem_ok_def intro: ranI)

interpretation mem: replay_store mem_ok mem_key mem_entries memory_reserve memory_complete
proof unfold_locales
  fix s :: mem_records and ck c h
  assume ok: "mem_ok s" and k: "mem_key ck"
  let ?x = "mem_lookup (fst ck) (snd ck)"
  have look: "mem_entries s ck = map_option result_entry (s ?x)" using k by (simp add: mem_entries_def)
  show "mem_ok (fst (memory_reserve s ck c h))"
    using ok by (cases "s ?x") (simp_all add: memory_reserve_def mem_reserve_def Let_def mem_ok_upd)
  show "spec_reserve (mem_entries s) ck c h = (mem_entries (fst (memory_reserve s ck c h)), snd (memory_reserve s ck c h))"
    using mem_ok_row [OF ok, of ?x] k
    by (cases "s ?x") (auto simp: memory_reserve_def mem_reserve_def Let_def spec_reserve_def look mem_entries_upd
        reply_of_def result_entry_def empty_result_row_def)
next
  fix s :: mem_records and ck st b now
  assume ok: "mem_ok s" and k: "mem_key ck"
  let ?x = "mem_lookup (fst ck) (snd ck)"
  have look: "mem_entries s ck = map_option result_entry (s ?x)" using k by (simp add: mem_entries_def)
  show "mem_ok (fst (memory_complete s ck st b now))"
    using ok by (cases "s ?x") (simp_all add: memory_complete_def mem_complete_def Let_def mem_ok_upd)
  show "spec_complete (mem_entries s) ck st b = (mem_entries (fst (memory_complete s ck st b now)), snd (memory_complete s ck st b now))"
    using mem_ok_row [OF ok, of ?x] k
    by (cases "s ?x") (auto simp: memory_complete_def mem_complete_def spec_complete_def look mem_entries_upd result_entry_def)
qed


lemma sql_mem_key: "replay_store table_ok mem_key table_entries table_reserve complete_row"
  using sql.reserve_inv sql.complete_inv sql.reserve_spec sql.complete_spec by unfold_locales blast+

interpretation both: two_stores table_ok mem_key table_entries table_reserve complete_row
  mem_ok mem_entries memory_reserve memory_complete
  using sql_mem_key mem.replay_store_axioms by (rule two_stores.intro)

section \<open>The handlers\<close>

text \<open>One call of a command handler to the SQL store; rejected calls have no operation.\<close>

datatype call = CallReserve string string string string | CallComplete string string int "string option" int

fun call_op :: "(string \<Rightarrow> string option) \<Rightarrow> (string \<Rightarrow> string) \<Rightarrow> call \<Rightarrow> (string \<times> string) op option" where
  "call_op parse_uuid digest (CallReserve companyID key command payload) =
     (case (NormalizeKey key, parse_uuid companyID) of
        (Inr k, Some c) \<Rightarrow> if trim_space command = [] then None else Some (Reserve (c, k) command (digest payload))
      | _ \<Rightarrow> None)"
| "call_op parse_uuid digest (CallComplete companyID key st encoded now) =
     (case (NormalizeKey key, parse_uuid companyID, encoded) of
        (Inr k, Some c, Some body) \<Rightarrow> Some (Complete (c, k) st body now)
      | _ \<Rightarrow> None)"

fun store_call :: "(string \<Rightarrow> string option) \<Rightarrow> (string \<Rightarrow> string) \<Rightarrow> idem_table \<Rightarrow> call \<Rightarrow> idem_table \<times> answer" where
  "store_call parse_uuid digest t (CallReserve companyID key command payload) =
     (let (t', out) = Store_Reserve parse_uuid digest t companyID key command payload in (t', Reply (reply_of out)))"
| "store_call parse_uuid digest t (CallComplete companyID key st encoded now) =
     (let (t', err) = Store_Complete parse_uuid t companyID key st encoded now in (t', Done (err = None)))"

fun store_run :: "(string \<Rightarrow> string option) \<Rightarrow> (string \<Rightarrow> string) \<Rightarrow> idem_table \<Rightarrow> call list \<Rightarrow> idem_table \<times> answer list" where
  "store_run parse_uuid digest t [] = (t, [])"
| "store_run parse_uuid digest t (c # cs) =
     (let (t1, a) = store_call parse_uuid digest t c; (t2, as) = store_run parse_uuid digest t1 cs in (t2, a # as))"

definition fresh_calls ::
  "(string \<Rightarrow> string option) \<Rightarrow> (string \<Rightarrow> string) \<Rightarrow> string \<times> string \<Rightarrow> call list \<Rightarrow> answer list \<Rightarrow> nat" where
  "fresh_calls parse_uuid digest ck cs as =
     length (filter (\<lambda>(c, a). map_option op_key (call_op parse_uuid digest c) = Some ck \<and> a = Reply Fresh) (zip cs as))"

lemma reply_of_company: "reply_of (snd (reserve_row t c ck command hash)) = reply_of (snd (reserve_row t d ck command hash))"
  "fst (reserve_row t c ck command hash) = fst (reserve_row t d ck command hash)"
  by (auto simp: reserve_row_def reply_of_def Let_def split: prod.splits option.splits)

lemma store_call_op:
  "store_call parse digest t c =
     (case call_op parse digest c of None \<Rightarrow> (t, snd (store_call parse digest t c)) | Some x \<Rightarrow> sql.step t x)"
  "call_op parse digest c = None \<Longrightarrow> snd (store_call parse digest t c) \<in> {Reply Busy, Done False}"
proof -
  show "store_call parse digest t c =
     (case call_op parse digest c of None \<Rightarrow> (t, snd (store_call parse digest t c)) | Some x \<Rightarrow> sql.step t x)"
  proof (cases c)
    case (CallReserve co k cmd p)
    then show ?thesis
      using reply_of_company [of t co "(_, _)" cmd "digest p"]
      by (auto simp: Store_Reserve_def Let_def case_prod_unfold table_reserve_def prod_eq_iff split: sum.splits option.splits)
  next
    case (CallComplete co k st e now)
    then show ?thesis
      by (auto simp: Store_Complete_def Let_def case_prod_unfold prod_eq_iff split: sum.splits option.splits)
  qed
  show "call_op parse digest c = None \<Longrightarrow> snd (store_call parse digest t c) \<in> {Reply Busy, Done False}"
    by (cases c) (auto simp: Store_Reserve_def Store_Complete_def NormalizeKey_def reply_of_def Let_def
        split: sum.splits option.splits if_splits)
qed

lemma store_run_ops:
  "fst (store_run parse digest t cs) = fst (sql.run t (List.map_filter (call_op parse digest) cs))
   \<and> fresh_calls parse digest ck cs (snd (store_run parse digest t cs))
     = fresh_replies ck (List.map_filter (call_op parse digest) cs) (snd (sql.run t (List.map_filter (call_op parse digest) cs)))"
proof (induction cs arbitrary: t)
  case Nil
  then show ?case by (simp add: fresh_calls_def fresh_replies_def)
next
  case (Cons c cs)
  show ?case
  proof (cases "call_op parse digest c")
    case None
    then have "fst (store_call parse digest t c) = t" using store_call_op(1) [of parse digest t c] by simp (metis fst_conv)
    then show ?thesis using Cons.IH [of t] None
      by (simp add: fresh_calls_def case_prod_unfold Let_def map_filter_simps)
  next
    case (Some x)
    then have "store_call parse digest t c = sql.step t x" using store_call_op(1) [of parse digest t c] by simp
    then show ?thesis using Cons.IH [of "fst (sql.step t x)"] Some
      by (simp add: fresh_calls_def fresh_replies_def case_prod_unfold Let_def map_filter_simps)
  qed
qed

text \<open>
  Claim C10.  Whatever commands the handlers send to the SQL store, in any order, at most one reservation of a key
  is answered as new, and none when the key already has a record: the business effect that follows a new
  reservation runs at most once per company and key.
\<close>

theorem reservation_at_most_once:
  assumes "table_ok t"
  shows "fresh_calls parse_uuid digest ck cs (snd (store_run parse_uuid digest t cs)) \<le> (if t ck = None then 1 else 0)"
proof -
  have "table_entries t ck = None \<longleftrightarrow> t ck = None" by (simp add: table_entries_def)
  then show ?thesis
    using store_run_ops [of parse_uuid digest t cs ck] sql.fresh_at_most_once [OF assms, of _ ck]
    by (simp add: list_all_iff)
qed

definition sample_calls :: "call list" where
  "sample_calls = [CallReserve ''c1'' '' k1 '' ''invoice.post'' ''{a}'', CallReserve ''c1'' ''k1'' ''invoice.post'' ''{a}'',
     CallComplete ''c1'' ''k1'' 201 (Some ''ok'') 7, CallReserve ''c1'' ''k1'' ''invoice.post'' ''{a}'',
     CallReserve ''c1'' ''k1'' ''invoice.post'' ''{b}'']"

lemma sample_answers:
  "snd (store_run Some id Map.empty sample_calls) =
     [Reply Fresh, Reply Busy, Done True, Reply (Replay 201 ''ok''), Reply Conflict]"
  by code_simp

theorem reservation_at_most_once_witness:
  "table_ok Map.empty \<and> fresh_calls Some id (''c1'', ''k1'') sample_calls
     [Reply Fresh, Reply Busy, Done True, Reply (Replay 201 ''ok''), Reply Conflict] \<le> 1"
  using reservation_at_most_once [of Map.empty Some id "(''c1'', ''k1'')" sample_calls]
  by (simp add: table_ok_def sample_answers)

text \<open>
  Claim C19.  A stored response is permanent: once the record of a key is completed, every later reservation with the
  same command and payload digest, after any other commands, is reported as a replay with the stored status and
  body and without an error, and one with another command or digest is rejected as a payload conflict.
\<close>

theorem response_replayed:
  assumes "table_ok t" "parse_uuid companyID = Some c" "NormalizeKey key = Inr k" "trim_space command \<noteq> []"
    and "table_entries t (c, k) = Some ((command, digest payload), Some (st, body))"
  shows "let t' = fst (store_run parse_uuid digest t cs) in
    reply_of (snd (Store_Reserve parse_uuid digest t' companyID key command payload)) = Replay st body
    \<and> (trim_space command' \<noteq> [] \<and> (command', digest payload') \<noteq> (command, digest payload) \<longrightarrow>
        reply_of (snd (Store_Reserve parse_uuid digest t' companyID key command' payload')) = Conflict)"
proof -
  let ?t = "fst (store_run parse_uuid digest t cs)"
  have "?t = fst (sql.run t (List.map_filter (call_op parse_uuid digest) cs))" using store_run_ops by blast
  then have P: "snd (table_reserve ?t (c, k) command (digest payload)) = Replay st body"
    "(command', digest payload') \<noteq> (command, digest payload) \<Longrightarrow> snd (table_reserve ?t (c, k) command' (digest payload')) = Conflict"
    using sql.response_permanent [OF assms(1) _ _ assms(5)] by (simp_all add: list_all_iff)
  have S: "reply_of (snd (Store_Reserve parse_uuid digest ?t companyID key x p)) = snd (table_reserve ?t (c, k) x (digest p))"
    if "trim_space x \<noteq> []" for x p
    using that assms(2,3) reply_of_company(1) [of ?t companyID "(c, k)" x "digest p" c]
    by (simp add: Store_Reserve_def table_reserve_def case_prod_unfold Let_def)
  show ?thesis unfolding Let_def S [OF assms(4)] using P S by auto
qed

definition sample_table :: idem_table where
  "sample_table = [(''c1'', ''k1'') \<mapsto> \<lparr>rw_command = ''invoice.post'', rw_hash = ''{a}'', rw_status = COMPLETED,
     rw_response_status = Some 201, rw_response_body = Some ''ok'', rw_completed_at = Some 7\<rparr>]"

theorem response_replayed_witness:
  "reply_of (snd (Store_Reserve Some id (fst (store_run Some id sample_table [])) ''c1'' ''k1'' ''invoice.post'' ''{a}''))
     = Replay 201 ''ok''"
proof -
  have "table_ok sample_table" by (simp add: table_ok_def row_ok_def sample_table_def)
  moreover have "NormalizeKey ''k1'' = Inr ''k1''" "trim_space ''invoice.post'' \<noteq> []" by code_simp+
  moreover have "table_entries sample_table (''c1'', ''k1'') = Some ((''invoice.post'', id ''{a}''), Some (201, ''ok''))"
    by (simp add: table_entries_def sample_table_def row_entry_def nullable_def)
  ultimately show ?thesis
    using response_replayed [of sample_table Some "''c1''" "''c1''" "''k1''" "''k1''" "''invoice.post''" id "''{a}''" 201 "''ok''" "[]" "[]" "[]"]
    by (simp add: Let_def)
qed

text \<open>
  \<^verbatim>\<open>MemoryStore\<close> is a faithful stand-in for the SQL store: from empty stores, and for company ids without a
  NUL byte, every sequence of reservations and completions gets the same answers from both.
\<close>

theorem memory_store_equivalent:
  assumes "list_all (mem_key \<circ> op_key) xs"
  shows "snd (replay_store.run table_reserve complete_row Map.empty xs)
    = snd (replay_store.run memory_reserve memory_complete Map.empty xs)"
proof -
  have "table_entries Map.empty = mem_entries Map.empty" by (rule ext) (simp add: table_entries_def mem_entries_def)
  moreover have "table_ok Map.empty" "mem_ok Map.empty" by (simp_all add: table_ok_def mem_ok_def)
  ultimately show ?thesis using both.same_answers [OF _ _ assms] by simp
qed

theorem memory_store_equivalent_witness:
  "snd (replay_store.run table_reserve complete_row Map.empty [Reserve (''c1'', ''k1'') ''x'' ''h'', Complete (''c1'', ''k1'') 200 ''ok'' 1])
   = snd (replay_store.run memory_reserve memory_complete Map.empty [Reserve (''c1'', ''k1'') ''x'' ''h'', Complete (''c1'', ''k1'') 200 ''ok'' 1])"
  by (rule memory_store_equivalent) (simp add: mem_key_def)

text \<open>
  \<^verbatim>\<open>ReserveTx\<close> inside a business transaction and \<^verbatim>\<open>Store.Reserve\<close> are the same command: for a command
  that is not blank they leave the same table and reach the same verdict (error, new, or replay with the same
  response).
\<close>

theorem reserve_tx_equivalent:
  assumes "trim_space command \<noteq> []" "table_ok t"
  shows "let (t1, result, replay, err) = Store_Reserve parse_uuid digest t companyID key command payload;
             (t2, r) = ReserveTx parse_uuid digest t companyID key command payload in
    t1 = t2 \<and> (case r of
       Inl e \<Rightarrow> err = Some e
     | Inr res \<Rightarrow> err = None \<and> tx_Completed res = replay \<and> tx_Inserted res = (\<not> replay)
         \<and> tx_ResponseStatus res = ir_ResponseStatus result \<and> tx_ResponseBody res = ir_ResponseBody result)"
proof -
  have ne: "command \<noteq> []" using assms(1) by (auto simp: trim_space_def)
  show ?thesis using assms(1) ne table_ok_row [OF assms(2)]
    by (auto simp: Store_Reserve_def ReserveTx_def reserve_row_def insert_ignore_def new_row_def row_ok_def Let_def
        nullable_def empty_result_row_def empty_reservation_def split: sum.splits option.splits)
qed


theorem reserve_tx_equivalent_witness:
  "fst (Store_Reserve Some id sample_table ''c1'' ''k1'' ''x'' []) = fst (ReserveTx Some id sample_table ''c1'' ''k1'' ''x'' [])"
proof -
  have "trim_space ''x'' \<noteq> []" by code_simp
  moreover have "table_ok sample_table" by (simp add: table_ok_def row_ok_def sample_table_def)
  ultimately show ?thesis
    using reserve_tx_equivalent [of "''x''" sample_table Some id "''c1''" "''k1''" "[]"] by (simp add: case_prod_unfold Let_def)
qed

end
