(* ===== verification/Outbox.thy ===== *)
theory Outbox
  imports Prelude
begin

text \<open>
  The outbox worker of \<^verbatim>\<open>src/internal/platform/outbox/worker.go\<close>: claiming the oldest due event under a lock token,
  dispatching it, and acknowledging, dead-lettering or rescheduling it, each by an \<^verbatim>\<open>UPDATE\<close> guarded by the token.
  The table is a list of (event id, row); a UUID is its 128-bit number, which is how PostgreSQL orders it.  Times are
  microseconds.  \<open>held\<close> are the rows that concurrent transactions hold, which \<^verbatim>\<open>SKIP LOCKED\<close> passes over; \<open>clock\<close> is
  \<^verbatim>\<open>clock_timestamp()\<close>, \<open>now\<close> the transaction time.  Handlers are parameters that return one of three outcomes.
  The step relation at the end interleaves any number of workers, producers and crashes.
\<close>

section \<open>Rows and events\<close>

definition maxAttempts :: int where "maxAttempts = 10"
definition supportedSchemaVersion :: int where "supportedSchemaVersion = 1"

definition second :: int where "second = 1000000"
definition lock_timeout :: int where "lock_timeout = 300 * second" \<comment> \<open>\<^verbatim>\<open>interval '5 minutes'\<close>\<close>

record outbox_row =
  ob_type :: string
  ob_schema_version :: int
  ob_company_id :: "string option"
  ob_trace_id :: "string option"
  ob_payload :: string
  ob_attempts :: int
  ob_occurred_at :: int
  ob_available_at :: int
  ob_locked_at :: "int option"
  ob_processed_at :: "int option"
  ob_dead_lettered_at :: "int option"
  ob_last_error_class :: "string option"

type_synonym outbox = "(nat \<times> outbox_row) list"

record Event =
  ev_ID :: nat
  ev_Type :: string
  ev_SchemaVersion :: int
  ev_CompanyID :: string
  ev_TraceID :: string
  ev_Payload :: string
  ev_Attempts :: int
  ev_lockToken :: int

datatype outcome = HandlerOk | HandlerRetryable | HandlerPermanent

type_synonym handlers = "string \<rightharpoonup> (Event \<Rightarrow> outcome)"

definition is_open :: "outbox_row \<Rightarrow> bool" where
  "is_open row = (ob_processed_at row = None \<and> ob_dead_lettered_at row = None)"

section \<open>Claiming\<close>

definition due :: "int \<Rightarrow> outbox_row \<Rightarrow> bool" where
  "due now row = (is_open row \<and> ob_available_at row \<le> now
     \<and> (case ob_locked_at row of None \<Rightarrow> True | Some l \<Rightarrow> l < now - lock_timeout))"

definition before :: "nat \<times> outbox_row \<Rightarrow> nat \<times> outbox_row \<Rightarrow> bool" where \<comment> \<open>\<^verbatim>\<open>ORDER BY occurred_at, event_id\<close>\<close>
  "before x y = (ob_occurred_at (snd x) < ob_occurred_at (snd y)
     \<or> (ob_occurred_at (snd x) = ob_occurred_at (snd y) \<and> fst x < fst y))"

definition first_due :: "nat list \<Rightarrow> int \<Rightarrow> outbox \<Rightarrow> (nat \<times> outbox_row) option" where
  "first_due held now t =
     foldl (\<lambda>best x. case best of None \<Rightarrow> Some x | Some b \<Rightarrow> if before x b then Some x else Some b) None
       (filter (\<lambda>(i, row). due now row \<and> i \<notin> set held) t)"

definition update_row :: "nat \<Rightarrow> (outbox_row \<Rightarrow> bool) \<Rightarrow> (outbox_row \<Rightarrow> outbox_row) \<Rightarrow> outbox \<Rightarrow> outbox" where
  "update_row i guard f t = map (\<lambda>(j, row). if j = i \<and> guard row then (j, f row) else (j, row)) t"

definition coalesce :: "string option \<Rightarrow> string" where
  "coalesce x = (case x of None \<Rightarrow> [] | Some v \<Rightarrow> v)"

definition claim :: "nat list \<Rightarrow> int \<Rightarrow> int \<Rightarrow> outbox \<Rightarrow> outbox \<times> Event option" where
  "claim held now clock t =
     (case first_due held now t of
        None \<Rightarrow> (t, None)
      | Some (i, row) \<Rightarrow>
          let event = \<lparr>ev_ID = i, ev_Type = ob_type row, ev_SchemaVersion = ob_schema_version row,
                ev_CompanyID = coalesce (ob_company_id row), ev_TraceID = coalesce (ob_trace_id row),
                ev_Payload = ob_payload row, ev_Attempts = ob_attempts row + 1, ev_lockToken = clock\<rparr> in
          (update_row i is_open (\<lambda>r. r\<lparr>ob_locked_at := Some clock, ob_attempts := ob_attempts row + 1\<rparr>) t, Some event))"

section \<open>Settling\<close>

definition owns :: "Event \<Rightarrow> outbox_row \<Rightarrow> bool" where \<comment> \<open>the guard of the three updates\<close>
  "owns event row = (is_open row \<and> ob_locked_at row = Some (ev_lockToken event))"

definition ack :: "int \<Rightarrow> Event \<Rightarrow> outbox \<Rightarrow> outbox" where
  "ack now event = update_row (ev_ID event) (owns event)
     (\<lambda>r. r\<lparr>ob_processed_at := Some now, ob_locked_at := None, ob_last_error_class := None\<rparr>)"

definition deadLetter :: "int \<Rightarrow> Event \<Rightarrow> string \<Rightarrow> outbox \<Rightarrow> outbox" where
  "deadLetter now event cls = update_row (ev_ID event) (owns event)
     (\<lambda>r. r\<lparr>ob_dead_lettered_at := Some now, ob_locked_at := None, ob_last_error_class := Some cls\<rparr>)"

definition retryDelay :: "int \<Rightarrow> int" where
  "retryDelay attempt =
     (let attempt = (if attempt < 1 then 1 else attempt);
          attempt = (if attempt > 8 then 8 else attempt) in
      2 ^ nat (attempt - 1) * second)"

definition retry :: "int \<Rightarrow> Event \<Rightarrow> outbox \<Rightarrow> outbox" where
  "retry now event = update_row (ev_ID event) (owns event)
     (\<lambda>r. r\<lparr>ob_locked_at := None, ob_available_at := now + retryDelay (ev_Attempts event),
           ob_last_error_class := Some ''retryable''\<rparr>)"

definition knownAuditEvents :: "string list" where
  "knownAuditEvents = [
    ''identity.setup.completed'', ''document.created'', ''document.updated'', ''document.posted'',
    ''document.reversed'', ''finance.account.created'', ''finance.manual_entry.posted'',
    ''finance.payment.allocated'', ''finance.payment.posted'', ''finance.payment.reversed'',
    ''finance.period.locked'', ''finance.transfer.posted'', ''party.created'', ''party.activated'',
    ''party.custom_field.created'', ''party.deactivated'', ''party.group.created'', ''party.group.deactivated'',
    ''party.group.activated'', ''party.group.updated'', ''party.ledger.posted'', ''party.payment_term.created'',
    ''party.updated'', ''pricing.currency.created'', ''pricing.currency.updated'', ''pricing.entry.created'',
    ''pricing.entry.updated'', ''pricing.price_list.activated'', ''pricing.price_list.created'',
    ''pricing.price_list.deactivated'', ''pricing.price_list.updated'', ''product.attachment.archived'',
    ''product.attachment.uploaded'', ''product.brand.created'', ''product.category.created'',
    ''product.code_sequence.updated'', ''product.created'', ''product.deactivated'',
    ''product.image.presentation.updated'', ''product.image.uploaded'', ''product.reference.active'',
    ''product.updated'', ''product.variant.created'', ''product.variant.deactivated'', ''product.variant.updated'',
    ''product.variant_barcodes.replaced'', ''product.variant_config.updated'',
    ''product.variant_definition.active_changed'', ''product.variant_definition.created'',
    ''product.variant_option.active_changed'', ''product.variant_option.created'',
    ''product.variant_option.updated'', ''product.variants.generated'', ''tax.definition.created'',
    ''tax.definition.deactivated'', ''tax.definition.updated'', ''tax.rate.created'', ''purchase.order.created'',
    ''purchase.order.confirmed'', ''purchase.receipt.posted'', ''purchase.invoice.posted'',
    ''purchase.return.posted'', ''purchase.landed_cost.created'', ''purchase.landed_cost.posted'',
    ''commercial.sales_quote.created'', ''commercial.sales_quote.updated'', ''commercial.sales_quote.send'',
    ''commercial.sales_quote.accept'', ''commercial.sales_quote.reject'', ''commercial.sales_quote.cancelled'',
    ''commercial.sales_order.created'', ''commercial.sales_order.updated'', ''commercial.sales_order.cancelled'',
    ''commercial.sales_dispatch.created'', ''commercial.sales_dispatch.updated'',
    ''commercial.sales_dispatch.cancelled'', ''commercial.sales_invoice.created'',
    ''commercial.sales_invoice.updated'', ''commercial.sales_invoice.cancelled'',
    ''commercial.sales_return.created'', ''commercial.sales_return.updated'', ''commercial.sales_return.cancelled'',
    ''sales.order.confirmed'', ''sales.sales_dispatch.posted'', ''sales.sales_invoice.posted'',
    ''sales.sales_return.posted'', ''commercial_document.create.completed'',
    ''commercial.sales_quote.send.completed'', ''commercial.sales_quote.accept.completed'',
    ''commercial.sales_quote.reject.completed'', ''commercial.sales_order.confirm.completed'',
    ''commercial.sales_dispatch.post.completed'', ''commercial.sales_invoice.post.completed'',
    ''commercial.sales_return.post.completed'', ''commercial.sales_order.cancel.completed'',
    ''commercial.sales_dispatch.cancel.completed'', ''commercial.sales_invoice.cancel.completed'',
    ''commercial.sales_return.cancel.completed'', ''supplier.product_reference.created'',
    ''inventory.movement.posted'', ''inventory.movement.reversed'', ''inventory.transfer.created'',
    ''inventory.transfer.requested'', ''inventory.transfer.approved'', ''inventory.transfer.in_transit'',
    ''inventory.transfer.partially_received'', ''inventory.transfer.received'', ''inventory.transfer.cancelled'',
    ''inventory.count.started'', ''inventory.count.posted'', ''settings.email.updated'', ''hr.employee.created'',
    ''hr.employee.updated'', ''hr.employee.private_profile.updated'']"

text \<open>What \<^verbatim>\<open>runOne\<close> does with a claimed event.\<close>

definition dispatch :: "handlers \<Rightarrow> int \<Rightarrow> Event \<Rightarrow> outbox \<Rightarrow> outbox" where
  "dispatch hs now event t =
     (if ev_SchemaVersion event \<noteq> supportedSchemaVersion then deadLetter now event ''unknown_event'' t
      else (case hs (ev_Type event) of
          Some handler \<Rightarrow> (case handler event of
              HandlerOk \<Rightarrow> ack now event t
            | HandlerPermanent \<Rightarrow> deadLetter now event ''permanent'' t
            | HandlerRetryable \<Rightarrow>
                if ev_Attempts event \<ge> maxAttempts then deadLetter now event ''permanent'' t
                else retry now event t)
        | None \<Rightarrow>
            if ev_Type event \<in> set knownAuditEvents then ack now event t
            else deadLetter now event ''unknown_event'' t))"

definition runOne :: "handlers \<Rightarrow> bool \<Rightarrow> nat list \<Rightarrow> int \<Rightarrow> int \<Rightarrow> int \<Rightarrow> outbox \<Rightarrow> outbox \<times> bool" where
  "runOne hs barrier held now clock later t =
     (if \<not> barrier then (t, False)
      else (case claim held now clock t of
          (t', None) \<Rightarrow> (t', False)
        | (t', Some event) \<Rightarrow> (dispatch hs later event t', True)))"


section \<open>Workers, producers and crashes\<close>

text \<open>
  The events that workers have claimed and not yet settled, with the last lock token handed out.  A worker may crash
  at any time; its event is then claimed again after the lock timeout.
\<close>

record world =
  w_table :: outbox
  w_flight :: "Event list"
  w_clock :: int

inductive outbox_step :: "handlers \<Rightarrow> world \<Rightarrow> world \<Rightarrow> bool" for hs :: handlers where
  produce: "i \<notin> fst ` set (w_table w) \<Longrightarrow> is_open row \<Longrightarrow> ob_locked_at row = None \<Longrightarrow> 0 \<le> ob_attempts row \<Longrightarrow>
    outbox_step hs w (w\<lparr>w_table := w_table w @ [(i, row)]\<rparr>)"
| take: "w_clock w < clock \<Longrightarrow> claim held now clock (w_table w) = (t, Some event) \<Longrightarrow>
    outbox_step hs w (w\<lparr>w_table := t, w_flight := event # w_flight w, w_clock := clock\<rparr>)"
| settle: "event \<in> set (w_flight w) \<Longrightarrow>
    outbox_step hs w (w\<lparr>w_table := dispatch hs now event (w_table w), w_flight := removeAll event (w_flight w)\<rparr>)"
| crash: "event \<in> set (w_flight w) \<Longrightarrow> outbox_step hs w (w\<lparr>w_flight := removeAll event (w_flight w)\<rparr>)"

inductive_cases outbox_stepE: "outbox_step hs w w'"

definition row_of :: "outbox \<Rightarrow> nat \<Rightarrow> outbox_row option" where
  "row_of t i = map_of t i"

definition row_inv :: "int \<Rightarrow> outbox_row \<Rightarrow> bool" where
  "row_inv c row = ((ob_processed_at row = None \<or> ob_dead_lettered_at row = None)
     \<and> (\<not> is_open row \<longrightarrow> ob_locked_at row = None)
     \<and> (case ob_locked_at row of None \<Rightarrow> True | Some l \<Rightarrow> l \<le> c))"

definition world_inv :: "world \<Rightarrow> bool" where
  "world_inv w = (distinct (map fst (w_table w)) \<and> (\<forall>(i, row) \<in> set (w_table w). row_inv (w_clock w) row)
     \<and> (\<forall>e \<in> set (w_flight w). ev_lockToken e \<le> w_clock w)
     \<and> distinct (map ev_lockToken (w_flight w)))"

lemma update_row_ids [simp]: "map fst (update_row i g f t) = map fst t"
  by (induction t) (auto simp: update_row_def)

lemma row_of_update:
  "distinct (map fst t) \<Longrightarrow> row_of (update_row i g f t) j =
     (case row_of t j of None \<Rightarrow> None | Some row \<Rightarrow> Some (if j = i \<and> g row then f row else row))"
  by (induction t) (auto simp: update_row_def row_of_def)

lemma update_row_all:
  assumes "\<forall>(i, row) \<in> set t. P row" "\<And>row. P row \<Longrightarrow> g row \<Longrightarrow> Q (f row)" "\<And>row. P row \<Longrightarrow> Q row"
  shows "\<forall>(i, row) \<in> set (update_row i g f t). Q row"
proof -
  have "Q row" if j: "(j, row) \<in> set (update_row i g f t)" for j row
  proof -
    obtain r where r: "(j, r) \<in> set t" "row = (if j = i \<and> g r then f r else r)"
      using j by (auto simp: update_row_def split: if_splits)
    then show ?thesis using assms by auto
  qed
  then show ?thesis by auto
qed

text \<open>Every branch of the dispatch is one update guarded by the lock token.\<close>

definition verdict :: "handlers \<Rightarrow> int \<Rightarrow> Event \<Rightarrow> outbox_row \<Rightarrow> outbox_row" where
  "verdict hs now event =
     (if ev_SchemaVersion event \<noteq> supportedSchemaVersion
        \<or> (hs (ev_Type event) = None \<and> ev_Type event \<notin> set knownAuditEvents)
      then (\<lambda>r. r\<lparr>ob_dead_lettered_at := Some now, ob_locked_at := None, ob_last_error_class := Some ''unknown_event''\<rparr>)
      else case map_option (\<lambda>h. h event) (hs (ev_Type event)) of
        Some HandlerPermanent \<Rightarrow> (\<lambda>r. r\<lparr>ob_dead_lettered_at := Some now, ob_locked_at := None, ob_last_error_class := Some ''permanent''\<rparr>)
      | Some HandlerRetryable \<Rightarrow>
          if ev_Attempts event \<ge> maxAttempts
          then (\<lambda>r. r\<lparr>ob_dead_lettered_at := Some now, ob_locked_at := None, ob_last_error_class := Some ''permanent''\<rparr>)
          else (\<lambda>r. r\<lparr>ob_locked_at := None, ob_available_at := now + retryDelay (ev_Attempts event),
                  ob_last_error_class := Some ''retryable''\<rparr>)
      | _ \<Rightarrow> (\<lambda>r. r\<lparr>ob_processed_at := Some now, ob_locked_at := None, ob_last_error_class := None\<rparr>))"

lemma dispatch_update: "dispatch hs now event t = update_row (ev_ID event) (owns event) (verdict hs now event) t"
  by (auto simp: dispatch_def verdict_def ack_def deadLetter_def retry_def split: option.splits outcome.splits)

lemma verdict_inv: "row_inv c row \<Longrightarrow> owns event row \<Longrightarrow> row_inv c (verdict hs now event row)"
  by (auto simp: verdict_def owns_def row_inv_def is_open_def split: option.splits outcome.splits)

lemma first_due_Some:
  assumes "first_due held now t = Some (i, row)"
  shows "(i, row) \<in> set t \<and> due now row \<and> i \<notin> set held"
proof -
  have "\<forall>x. foldl (\<lambda>best x. case best of None \<Rightarrow> Some x | Some b \<Rightarrow> if before x b then Some x else Some b) a xs = Some x
      \<longrightarrow> x \<in> set xs \<or> a = Some x" for a xs
    by (induction xs arbitrary: a) (auto split: option.splits if_splits)
  then show ?thesis using assms unfolding first_due_def by fastforce
qed

lemma claim_Some:
  assumes "claim held now clock t = (t', Some event)"
  obtains row where "(ev_ID event, row) \<in> set t" "due now row" "ev_lockToken event = clock"
    "ev_Attempts event = ob_attempts row + 1" "ev_Type event = ob_type row" "ev_SchemaVersion event = ob_schema_version row"
    "t' = update_row (ev_ID event) is_open (\<lambda>r. r\<lparr>ob_locked_at := Some clock, ob_attempts := ob_attempts row + 1\<rparr>) t"
  using assms first_due_Some by (fastforce simp: claim_def Let_def split: option.splits)

lemma row_inv_mono: "row_inv c row \<Longrightarrow> c \<le> d \<Longrightarrow> row_inv d row"
  by (auto simp: row_inv_def split: option.splits)

lemma distinct_removeAll_map: "distinct (map f xs) \<Longrightarrow> distinct (map f (removeAll x xs))"
  by (induction xs) (auto)

lemma outbox_step_inv: "outbox_step hs w w' \<Longrightarrow> world_inv w \<Longrightarrow> world_inv w'"
proof (induction rule: outbox_step.induct)
  case (produce i w row)
  then show ?case by (auto simp: world_inv_def row_inv_def is_open_def)
next
  case (take w clock held now t event)
  from take(2) obtain row where r: "(ev_ID event, row) \<in> set (w_table w)" "due now row" "ev_lockToken event = clock"
    "t = update_row (ev_ID event) is_open (\<lambda>r. r\<lparr>ob_locked_at := Some clock, ob_attempts := ob_attempts row + 1\<rparr>) (w_table w)"
    by (rule claim_Some)
  have "\<forall>(i, r) \<in> set t. row_inv clock r" unfolding r(4)
    by (rule update_row_all [where P = "row_inv (w_clock w)"])
       (use take in \<open>auto simp: world_inv_def row_inv_def is_open_def split: option.splits\<close>)
  then show ?case using take r by (fastforce simp: world_inv_def)
next
  case (settle event w now)
  have "\<forall>(i, r) \<in> set (dispatch hs now event (w_table w)). row_inv (w_clock w) r" unfolding dispatch_update
    by (rule update_row_all [where P = "row_inv (w_clock w)"]) (use settle verdict_inv in \<open>auto simp: world_inv_def\<close>)
  then show ?case using settle by (auto simp: world_inv_def dispatch_update distinct_removeAll_map)
next
  case (crash event w)
  then show ?case by (auto simp: world_inv_def distinct_removeAll_map)
qed

lemma outbox_reach_inv: "(outbox_step hs)\<^sup>*\<^sup>* w w' \<Longrightarrow> world_inv w \<Longrightarrow> world_inv w'"
  by (induction rule: rtranclp_induct) (auto intro: outbox_step_inv)

text \<open>A closed row never changes.\<close>

lemma closed_row_step:
  assumes "outbox_step hs w w'" "world_inv w" "row_of (w_table w) i = Some row" "\<not> is_open row"
  shows "row_of (w_table w') i = Some row"
  using assms(1)
proof cases
  case (produce j r)
  then show ?thesis using assms(3) by (simp add: row_of_def map_add_Some_iff)
next
  case (take clock held now t event)
  from take(3) obtain r :: outbox_row where "t = update_row (ev_ID event) is_open (\<lambda>x. x\<lparr>ob_locked_at := Some clock, ob_attempts := ob_attempts r + 1\<rparr>) (w_table w)"
    by (rule claim_Some) blast
  then show ?thesis using take assms by (simp add: row_of_update world_inv_def)
next
  case (settle event now)
  then show ?thesis using assms by (simp add: dispatch_update row_of_update world_inv_def owns_def)
qed (use assms in simp)

lemma closed_row_reach:
  assumes "(outbox_step hs)\<^sup>*\<^sup>* w w'" "world_inv w" "row_of (w_table w) i = Some row" "\<not> is_open row"
  shows "row_of (w_table w') i = Some row"
  using assms by (induction rule: rtranclp_induct) (auto intro: closed_row_step outbox_reach_inv)

text \<open>
  Claim C11.  Under any interleaving of producers, workers and crashes no event is both processed and dead-lettered,
  and an event that reached either verdict is never changed again.
\<close>

theorem outbox_single_verdict:
  assumes "world_inv w" "(outbox_step hs)\<^sup>*\<^sup>* w w'" "row_of (w_table w') i = Some row"
  shows "(ob_processed_at row = None \<or> ob_dead_lettered_at row = None)
    \<and> (\<forall>w''. \<not> is_open row \<longrightarrow> (outbox_step hs)\<^sup>*\<^sup>* w' w'' \<longrightarrow> row_of (w_table w'') i = Some row)"
proof -
  have inv: "world_inv w'" using outbox_reach_inv assms(1,2) by blast
  moreover have "(i, row) \<in> set (w_table w')" using assms(3) by (auto simp: row_of_def dest: map_of_SomeD)
  ultimately have "row_inv (w_clock w') row" by (auto simp: world_inv_def)
  then show ?thesis using closed_row_reach inv assms(3) by (auto simp: row_inv_def)
qed

text \<open>
  Claim C20.  A lock token is an exclusive lease: of the claimed events in flight at most one can still settle a given
  row, and an event that lost its token (because it was claimed again after the timeout, or settled) changes nothing.
\<close>

theorem outbox_lease_exclusive:
  assumes "world_inv w" "(outbox_step hs)\<^sup>*\<^sup>* w w'" "row_of (w_table w') i = Some row"
    and "e1 \<in> set (w_flight w')" "e2 \<in> set (w_flight w')" "owns e1 row" "e2 \<noteq> e1" "ev_ID e2 = i"
  shows "\<not> owns e2 row \<and> dispatch hs now e2 (w_table w') = w_table w'"
proof -
  have inv: "world_inv w'" using outbox_reach_inv assms(1,2) by blast
  have "ev_lockToken e1 \<noteq> ev_lockToken e2"
    using inv assms(4,5,7) by (auto simp: world_inv_def distinct_map inj_on_def)
  then have no: "\<not> owns e2 row" using assms(6) by (simp add: owns_def)
  have "\<not> (j = i \<and> owns e2 r)" if "(j, r) \<in> set (w_table w')" for j r
  proof
    assume j: "j = i \<and> owns e2 r"
    have "map_of (w_table w') j = Some r" using map_of_is_SomeI that inv by (auto simp: world_inv_def)
    then show False using j assms(3) no by (simp add: row_of_def)
  qed
  then have "dispatch hs now e2 (w_table w') = w_table w'"
    unfolding dispatch_update update_row_def assms(8) by (intro map_idI) (auto split: prod.splits)
  then show ?thesis using no by blast
qed

lemma retryDelay_bounds: "second \<le> retryDelay n \<and> retryDelay n \<le> 128 * second"
proof -
  define m where "m = (let a = (if n < 1 then 1 else n) in nat ((if a > 8 then 8 else a) - 1))"
  have "m \<le> 7" by (auto simp: m_def Let_def)
  then have "(1::int) \<le> 2 ^ m" "(2::int) ^ m \<le> 2 ^ 7" using power_increasing [of m 7 "2::int"] by simp_all
  then show ?thesis by (simp add: retryDelay_def Let_def m_def second_def)
qed

lemma first_due_least:
  assumes "first_due held now t = Some x" "y \<in> set t" "due now (snd y)" "fst y \<notin> set held"
  shows "\<not> before y x"
proof -
  have lin: "before z b \<Longrightarrow> \<not> before z w \<Longrightarrow> \<not> before b w" "\<not> before z b \<Longrightarrow> \<not> before b w \<Longrightarrow> \<not> before z w" for z b w
    unfolding before_def by linarith+
  have "\<forall>y \<in> set xs \<union> set_option a. \<not> before y x"
    if "foldl (\<lambda>best x. case best of None \<Rightarrow> Some x | Some b \<Rightarrow> if before x b then Some x else Some b) a xs = Some x" for a xs
    using that
  proof (induction xs arbitrary: a)
    case (Cons z xs)
    let ?a = "case a of None \<Rightarrow> Some z | Some b \<Rightarrow> if before z b then Some z else Some b"
    have IH: "\<forall>y \<in> set xs \<union> set_option ?a. \<not> before y x" using Cons by simp
    show ?case
    proof (cases a)
      case None
      then show ?thesis using IH by auto
    next
      case (Some b)
      then show ?thesis using IH lin [of z b x] by (cases "before z b") auto
    qed
  qed (auto simp: before_def)
  then show ?thesis using assms unfolding first_due_def by fastforce
qed

lemma runOne_settles:
  assumes "distinct (map fst t)" "runOne hs True held now clock later t = (t', True)"
  shows "\<exists>i row row'. row_of t i = Some row \<and> due now row \<and> i \<notin> set held
    \<and> (\<forall>y \<in> set t. due now (snd y) \<and> fst y \<notin> set held \<longrightarrow> \<not> before y (i, row))
    \<and> row_of t' i = Some row' \<and> ob_attempts row' = ob_attempts row + 1 \<and> ob_locked_at row' = None
    \<and> ((ob_processed_at row' = Some later \<and> ob_dead_lettered_at row' = None)
       \<or> (ob_dead_lettered_at row' = Some later \<and> ob_processed_at row' = None)
       \<or> (is_open row' \<and> ob_attempts row' < maxAttempts \<and> hs (ob_type row) \<noteq> None
          \<and> later + second \<le> ob_available_at row' \<and> ob_available_at row' \<le> later + 128 * second))
    \<and> (\<forall>j. j \<noteq> i \<longrightarrow> row_of t' j = row_of t j)"
proof -
  obtain t1 event where c: "claim held now clock t = (t1, Some event)" "t' = dispatch hs later event t1"
    using assms(2) by (auto simp: runOne_def split: prod.splits option.splits)
  obtain row where f: "first_due held now t = Some (ev_ID event, row)" "ev_lockToken event = clock"
    "ev_Attempts event = ob_attempts row + 1" "ev_Type event = ob_type row"
    "t1 = update_row (ev_ID event) is_open (\<lambda>r. r\<lparr>ob_locked_at := Some clock, ob_attempts := ob_attempts row + 1\<rparr>) t"
    using c(1) by (auto simp: claim_def Let_def split: option.splits)
  let ?i = "ev_ID event" and ?r1 = "row\<lparr>ob_locked_at := Some clock, ob_attempts := ob_attempts row + 1\<rparr>"
  have row: "row_of t ?i = Some row" "due now row" "?i \<notin> set held"
    using first_due_Some [OF f(1)] assms(1) by (auto simp: row_of_def)
  have op: "is_open row" using row(2) by (simp add: due_def)
  have d1: "distinct (map fst t1)" using assms(1) f(5) by simp
  have r1: "row_of t1 j = (if j = ?i then Some ?r1 else row_of t j)" for j
    unfolding f(5) row_of_update [OF assms(1)] using row(1) op by (auto split: option.splits)
  have owns: "owns event ?r1" using op f(2) by (simp add: owns_def is_open_def)
  have r2: "row_of t' j = (if j = ?i then Some (verdict hs later event ?r1) else row_of t j)" for j
    unfolding c(2) dispatch_update row_of_update [OF d1] r1 using owns by (auto split: option.splits)
  have v: "ob_attempts (verdict hs later event ?r1) = ob_attempts row + 1" "ob_locked_at (verdict hs later event ?r1) = None"
    by (auto simp: verdict_def split: option.splits outcome.splits)
  have "(ob_processed_at (verdict hs later event ?r1) = Some later \<and> ob_dead_lettered_at (verdict hs later event ?r1) = None)
       \<or> (ob_dead_lettered_at (verdict hs later event ?r1) = Some later \<and> ob_processed_at (verdict hs later event ?r1) = None)
       \<or> (is_open (verdict hs later event ?r1) \<and> ob_attempts row + 1 < maxAttempts \<and> hs (ob_type row) \<noteq> None
          \<and> later + second \<le> ob_available_at (verdict hs later event ?r1)
          \<and> ob_available_at (verdict hs later event ?r1) \<le> later + 128 * second)"
    using op f(3,4) retryDelay_bounds [of "ob_attempts row + 1"]
    by (auto simp: verdict_def is_open_def split: option.splits outcome.splits)
  then show ?thesis using row r2 v first_due_least [OF f(1)]
    by (intro exI [of _ ?i] exI [of _ row] exI [of _ "verdict hs later event ?r1"]) auto
qed

text \<open>What a settled row looks like: processed, dead-lettered with an error class, or open again.\<close>

definition processed :: "int \<Rightarrow> outbox_row \<Rightarrow> bool" where
  "processed moment row = (ob_processed_at row = Some moment \<and> ob_dead_lettered_at row = None \<and> ob_last_error_class row = None)"

definition dead_lettered :: "string \<Rightarrow> int \<Rightarrow> outbox_row \<Rightarrow> bool" where
  "dead_lettered cls moment row = (ob_dead_lettered_at row = Some moment \<and> ob_processed_at row = None \<and> ob_last_error_class row = Some cls)"

definition rescheduled :: "int \<Rightarrow> outbox_row \<Rightarrow> bool" where
  "rescheduled moment row = (is_open row \<and> ob_available_at row = moment \<and> ob_last_error_class row = Some ''retryable'')"

lemma retryDelay_power: "retryDelay n = 2 ^ nat (min 8 (max 1 n) - 1) * second"
proof -
  have "(let a = if n < 1 then 1 else n in if 8 < a then 8 else a) = min 8 (max 1 n)" by (simp add: min_def max_def)
  then show ?thesis unfolding retryDelay_def Let_def by presburger
qed

lemma claim_event:
  assumes "claim held now clock t = (t', Some event)"
  obtains row where "first_due held now t = Some (ev_ID event, row)" "ev_lockToken event = clock"
    "ev_Attempts event = ob_attempts row + 1" "ev_Type event = ob_type row" "ev_SchemaVersion event = ob_schema_version row"
    "ev_Payload event = ob_payload row"
    "t' = update_row (ev_ID event) is_open (\<lambda>r. r\<lparr>ob_locked_at := Some clock, ob_attempts := ob_attempts row + 1\<rparr>) t"
  using assms by (auto simp: claim_def Let_def split: option.splits)

text \<open>What \<^verbatim>\<open>runOne\<close> makes of a claimed row, by the answer of the handler.\<close>

lemma verdict_answer:
  assumes "is_open row" "ev_Attempts event = ob_attempts row + 1" "ev_Type event = ob_type row" "ev_SchemaVersion event = ob_schema_version row"
    and row': "row' = verdict hs later event (row\<lparr>ob_locked_at := Some clock, ob_attempts := ob_attempts row + 1\<rparr>)"
  shows "if ob_schema_version row \<noteq> 1 then dead_lettered ''unknown_event'' later row'
       else case hs (ob_type row) of
         None \<Rightarrow> if ob_type row \<in> set knownAuditEvents then processed later row' else dead_lettered ''unknown_event'' later row'
       | Some handler \<Rightarrow> (case handler event of
           HandlerOk \<Rightarrow> processed later row'
         | HandlerPermanent \<Rightarrow> dead_lettered ''permanent'' later row'
         | HandlerRetryable \<Rightarrow>
             if 10 \<le> ob_attempts row + 1 then dead_lettered ''permanent'' later row'
             else rescheduled (later + 2 ^ nat (min 8 (max 1 (ob_attempts row + 1)) - 1) * second) row')"
  using assms(1-4) retryDelay_power [of "ob_attempts row + 1"]
  by (auto simp: row' verdict_def is_open_def processed_def dead_lettered_def rescheduled_def supportedSchemaVersion_def maxAttempts_def
      split: option.splits outcome.splits)

text \<open>
  Claim C21.  One worker cycle that finds an event settles it by what its handler says.  When a cycle that got the write barrier
  reports work on a table with distinct ids: it claimed the due row with the smallest occurrence time (then id) that no other
  worker holds; the event handed out carries its id, type and payload; its attempts go up by one, its lock is released and no other
  row changes.  Afterwards: an unsupported schema version is dead-lettered as \<open>unknown_event\<close>; an event without a handler is
  processed if its type is a known audit event, otherwise dead-lettered as \<open>unknown_event\<close>; an event whose handler succeeds is
  processed; one whose handler fails permanently, or fails otherwise on the tenth attempt or later, is dead-lettered as
  \<open>permanent\<close>; and one whose handler fails otherwise on attempt n below ten is open again, available 2 to the power
  (the smaller of n and 8, minus 1) seconds after the cycle.
\<close>

theorem outbox_cycle:
  assumes "distinct (map fst t)" "runOne hs True held now clock later t = (t', True)"
  shows "\<exists>event row row'. let i = ev_ID event in
    row_of t i = Some row \<and> due now row \<and> i \<notin> set held
    \<and> list_all (\<lambda>y. \<not> (due now (snd y) \<and> fst y \<notin> set held \<and> before y (i, row))) t
    \<and> ev_Type event = ob_type row \<and> ev_Payload event = ob_payload row \<and> ev_Attempts event = ob_attempts row + 1
    \<and> row_of t' i = Some row' \<and> ob_attempts row' = ob_attempts row + 1 \<and> ob_locked_at row' = None
    \<and> (if ob_schema_version row \<noteq> 1 then dead_lettered ''unknown_event'' later row'
       else case hs (ob_type row) of
         None \<Rightarrow> if ob_type row \<in> set knownAuditEvents then processed later row' else dead_lettered ''unknown_event'' later row'
       | Some handler \<Rightarrow> (case handler event of
           HandlerOk \<Rightarrow> processed later row'
         | HandlerPermanent \<Rightarrow> dead_lettered ''permanent'' later row'
         | HandlerRetryable \<Rightarrow>
             if 10 \<le> ob_attempts row + 1 then dead_lettered ''permanent'' later row'
             else rescheduled (later + 2 ^ nat (min 8 (max 1 (ob_attempts row + 1)) - 1) * second) row'))
    \<and> list_all (\<lambda>(j, x). j = i \<or> row_of t' j = Some x) t"
proof -
  obtain t1 event where c: "claim held now clock t = (t1, Some event)" "t' = dispatch hs later event t1"
    using assms(2) by (auto simp: runOne_def split: prod.splits option.splits)
  from c(1) obtain row where f: "first_due held now t = Some (ev_ID event, row)" "ev_lockToken event = clock"
    "ev_Attempts event = ob_attempts row + 1" "ev_Type event = ob_type row" "ev_SchemaVersion event = ob_schema_version row"
    "ev_Payload event = ob_payload row"
    "t1 = update_row (ev_ID event) is_open (\<lambda>r. r\<lparr>ob_locked_at := Some clock, ob_attempts := ob_attempts row + 1\<rparr>) t"
    by (rule claim_event)
  let ?i = "ev_ID event" and ?r1 = "row\<lparr>ob_locked_at := Some clock, ob_attempts := ob_attempts row + 1\<rparr>"
  let ?r2 = "verdict hs later event ?r1"
  have row: "row_of t ?i = Some row" "due now row" "?i \<notin> set held"
    using first_due_Some [OF f(1)] assms(1) by (auto simp: row_of_def)
  have op: "is_open row" using row(2) by (simp add: due_def)
  have d1: "distinct (map fst t1)" using assms(1) f(7) by simp
  have r1: "row_of t1 j = (if j = ?i then Some ?r1 else row_of t j)" for j
    unfolding f(7) row_of_update [OF assms(1)] using row(1) op by (auto split: option.splits)
  have owns: "owns event ?r1" using op f(2) by (simp add: owns_def is_open_def)
  have r2: "row_of t' j = (if j = ?i then Some ?r2 else row_of t j)" for j
    unfolding c(2) dispatch_update row_of_update [OF d1] r1 using owns by (auto split: option.splits)
  have "list_all (\<lambda>(j, x). j = ?i \<or> row_of t' j = Some x) t"
    using assms(1) unfolding r2 by (auto simp: list_all_iff row_of_def split: if_splits)
  moreover have "list_all (\<lambda>y. \<not> (due now (snd y) \<and> fst y \<notin> set held \<and> before y (?i, row))) t"
    using first_due_least [OF f(1)] by (auto simp: list_all_iff)
  moreover have "ob_attempts ?r2 = ob_attempts row + 1" "ob_locked_at ?r2 = None"
    by (auto simp: verdict_def split: option.splits outcome.splits)
  moreover note verdict_answer [where hs = hs and later = later and clock = clock, OF op f(3-5) refl]
  ultimately show ?thesis using row f(3,4,6) r2 [of ?i]
    by (intro exI [of _ event] exI [of _ row] exI [of _ ?r2]) (simp add: Let_def)
qed

section \<open>A sample\<close>

definition sample_row :: outbox_row where
  "sample_row = \<lparr>ob_type = ''mail.send'', ob_schema_version = 1, ob_company_id = None, ob_trace_id = None, ob_payload = [],
     ob_attempts = 0, ob_occurred_at = 5, ob_available_at = 5, ob_locked_at = None, ob_processed_at = None,
     ob_dead_lettered_at = None, ob_last_error_class = None\<rparr>"

definition flaky :: handlers where
  "flaky = [''mail.send'' \<mapsto> (\<lambda>_. HandlerRetryable)]"

lemma sample_claim:
  "claim [] 6 7 [(3, sample_row)] = ([(3, sample_row\<lparr>ob_locked_at := Some 7, ob_attempts := 1\<rparr>)],
     Some \<lparr>ev_ID = 3, ev_Type = ''mail.send'', ev_SchemaVersion = 1, ev_CompanyID = [], ev_TraceID = [], ev_Payload = [],
       ev_Attempts = 1, ev_lockToken = 7\<rparr>)"
  by (simp add: claim_def first_due_def due_def is_open_def sample_row_def update_row_def coalesce_def Let_def)

text \<open>A handler that fails in a retryable way on the first attempt: the event is due again one second later.\<close>

theorem outbox_cycle_witness:
  "\<exists>t' row'. runOne flaky True [] 6 7 8 [(3, sample_row)] = (t', True) \<and> row_of t' 3 = Some row'
     \<and> ob_attempts row' = 1 \<and> rescheduled (8 + second) row'"
proof -
  obtain t' where r: "runOne flaky True [] 6 7 8 [(3, sample_row)] = (t', True)"
    using that by (simp add: runOne_def sample_claim)
  from outbox_cycle [OF _ r] show ?thesis using r
    by (auto simp: row_of_def sample_row_def flaky_def Let_def split: if_splits)
qed

definition sample_world :: world where
  "sample_world = \<lparr>w_table = [(3, sample_row)], w_flight = [], w_clock = 0\<rparr>"

lemma sample_world_inv: "world_inv sample_world"
  by (simp add: world_inv_def sample_world_def row_inv_def sample_row_def is_open_def)

text \<open>
  A handler that fails for good: the event is claimed and dead-lettered.  Afterwards a second event arrives, is claimed and
  dead-lettered too, and the first row is what it was.
\<close>

definition broken :: handlers where
  "broken = [''mail.send'' \<mapsto> (\<lambda>_. HandlerPermanent)]"

definition dead_row :: outbox_row where
  "dead_row = sample_row\<lparr>ob_attempts := 1, ob_dead_lettered_at := Some 9, ob_last_error_class := Some ''permanent''\<rparr>"

definition sample_event :: "nat \<Rightarrow> int \<Rightarrow> Event" where
  "sample_event i tok = \<lparr>ev_ID = i, ev_Type = ''mail.send'', ev_SchemaVersion = 1, ev_CompanyID = [], ev_TraceID = [], ev_Payload = [],
     ev_Attempts = 1, ev_lockToken = tok\<rparr>"

definition dead_world :: world where
  "dead_world = \<lparr>w_table = [(3, dead_row)], w_flight = [], w_clock = 7\<rparr>"

definition later_world :: world where
  "later_world = \<lparr>w_table = [(3, dead_row), (4, dead_row\<lparr>ob_dead_lettered_at := Some 12\<rparr>)], w_flight = [], w_clock = 11\<rparr>"

lemma steps_to_dead: "(outbox_step broken)\<^sup>*\<^sup>* sample_world dead_world"
proof -
  let ?w1 = "\<lparr>w_table = [(3, sample_row\<lparr>ob_locked_at := Some 7, ob_attempts := 1\<rparr>)], w_flight = [sample_event 3 7], w_clock = 7\<rparr>"
  have "outbox_step broken sample_world ?w1"
    using outbox_step.take [of sample_world 7 "[]" 6 _ _ broken] sample_claim by (simp add: sample_world_def sample_event_def)
  moreover have "outbox_step broken ?w1 dead_world"
    using outbox_step.settle [of "sample_event 3 7" ?w1 broken 9]
    by (simp add: dead_world_def dead_row_def sample_event_def dispatch_def broken_def deadLetter_def update_row_def owns_def
        is_open_def sample_row_def supportedSchemaVersion_def)
  ultimately show ?thesis by (meson converse_rtranclp_into_rtranclp rtranclp.rtrancl_refl)
qed

lemma steps_after_dead: "(outbox_step broken)\<^sup>*\<^sup>* dead_world later_world"
proof -
  let ?w1 = "dead_world\<lparr>w_table := [(3, dead_row), (4, sample_row)]\<rparr>"
  let ?w2 = "\<lparr>w_table = [(3, dead_row), (4, sample_row\<lparr>ob_locked_at := Some 11, ob_attempts := 1\<rparr>)], w_flight = [sample_event 4 11], w_clock = 11\<rparr>"
  have "outbox_step broken dead_world ?w1"
    using outbox_step.produce [of 4 dead_world sample_row broken] by (simp add: dead_world_def sample_row_def is_open_def)
  moreover have "claim [] 10 11 [(3, dead_row), (4, sample_row)] =
      ([(3, dead_row), (4, sample_row\<lparr>ob_locked_at := Some 11, ob_attempts := 1\<rparr>)], Some (sample_event 4 11))"
    by (simp add: claim_def first_due_def due_def is_open_def sample_row_def dead_row_def update_row_def coalesce_def Let_def sample_event_def)
  then have "outbox_step broken ?w1 ?w2"
    using outbox_step.take [of ?w1 11 "[]" 10 _ _ broken] by (simp add: dead_world_def)
  moreover have "outbox_step broken ?w2 later_world"
    using outbox_step.settle [of "sample_event 4 11" ?w2 broken 12]
    by (simp add: later_world_def dead_row_def sample_event_def dispatch_def broken_def deadLetter_def update_row_def owns_def
        is_open_def sample_row_def supportedSchemaVersion_def)
  ultimately show ?thesis by (meson converse_rtranclp_into_rtranclp rtranclp.rtrancl_refl)
qed

theorem outbox_single_verdict_witness:
  "(outbox_step broken)\<^sup>*\<^sup>* sample_world dead_world \<and> (outbox_step broken)\<^sup>*\<^sup>* dead_world later_world
   \<and> (\<exists>row. row_of (w_table dead_world) 3 = Some row \<and> ob_dead_lettered_at row = Some 9 \<and> ob_processed_at row = None
        \<and> row_of (w_table later_world) 3 = Some row)"
proof -
  have row: "row_of (w_table dead_world) 3 = Some dead_row" by (simp add: dead_world_def row_of_def)
  have dead: "ob_dead_lettered_at dead_row = Some 9" "\<not> is_open dead_row" by (simp_all add: dead_row_def is_open_def)
  from outbox_single_verdict [OF sample_world_inv steps_to_dead row] show ?thesis
    using steps_to_dead steps_after_dead row dead by auto
qed

text \<open>Two workers on one row: the second claims after the first has held the lock for more than five minutes.\<close>

definition late :: int where "late = 7 + lock_timeout + 1"

lemma second_claim:
  "claim [] late late [(3, sample_row\<lparr>ob_locked_at := Some 7, ob_attempts := 1\<rparr>)] =
    ([(3, sample_row\<lparr>ob_locked_at := Some late, ob_attempts := 2\<rparr>)],
     Some \<lparr>ev_ID = 3, ev_Type = ''mail.send'', ev_SchemaVersion = 1, ev_CompanyID = [], ev_TraceID = [], ev_Payload = [],
       ev_Attempts = 2, ev_lockToken = late\<rparr>)"
  by (simp add: claim_def first_due_def due_def is_open_def sample_row_def update_row_def coalesce_def Let_def late_def
      lock_timeout_def second_def)

theorem outbox_lease_exclusive_witness:
  "\<exists>w' e1 e2. (outbox_step flaky)\<^sup>*\<^sup>* sample_world w' \<and> e1 \<in> set (w_flight w') \<and> e2 \<in> set (w_flight w') \<and> e1 \<noteq> e2
     \<and> dispatch flaky 0 e2 (w_table w') = w_table w'"
proof -
  let ?e = "\<lambda>n tok. \<lparr>ev_ID = 3, ev_Type = ''mail.send'', ev_SchemaVersion = 1, ev_CompanyID = [], ev_TraceID = [], ev_Payload = [],
      ev_Attempts = n, ev_lockToken = tok\<rparr>"
  let ?w1 = "\<lparr>w_table = [(3, sample_row\<lparr>ob_locked_at := Some 7, ob_attempts := 1\<rparr>)], w_flight = [?e 1 7], w_clock = 7\<rparr>"
  let ?w2 = "\<lparr>w_table = [(3, sample_row\<lparr>ob_locked_at := Some late, ob_attempts := 2\<rparr>)], w_flight = [?e 2 late, ?e 1 7], w_clock = late\<rparr>"
  have "outbox_step flaky sample_world ?w1"
    using outbox_step.take [of sample_world 7 "[]" 6 _ _ flaky] sample_claim by (simp add: sample_world_def)
  moreover have "outbox_step flaky ?w1 ?w2"
    using outbox_step.take [of ?w1 late "[]" late _ _ flaky] second_claim by (simp add: late_def lock_timeout_def second_def)
  ultimately have R: "(outbox_step flaky)\<^sup>*\<^sup>* sample_world ?w2" by (meson converse_rtranclp_into_rtranclp rtranclp.rtrancl_refl)
  have "dispatch flaky 0 (?e 1 7) (w_table ?w2) = w_table ?w2"
    using outbox_lease_exclusive [OF sample_world_inv R, of 3 "sample_row\<lparr>ob_locked_at := Some late, ob_attempts := 2\<rparr>" "?e 2 late" "?e 1 7" 0]
    by (simp add: row_of_def owns_def is_open_def sample_row_def)
  then show ?thesis using R by (intro exI [of _ ?w2] exI [of _ "?e 2 late"] exI [of _ "?e 1 7"]) simp
qed

end
