(* ===== verification/Opctl.thy ===== *)
theory Opctl
  imports Prelude
begin

text \<open>
  The operation controller of \<^verbatim>\<open>src/internal/platform/opctl\<close> (\<^verbatim>\<open>opctl.go\<close>, \<^verbatim>\<open>lease.go\<close>, \<^verbatim>\<open>external.go\<close>,
  \<^verbatim>\<open>idempotency.go\<close>): the lease on the installation, the journal, the startup gate and the operations driven from
  outside.  The control directory is a value: the state file and the journal lines of every operation.  An
  operation is the list of disk effects it performs in order; \<open>io n\<close> says whether its \<open>n\<close>-th effect succeeds, so every
  write failure, and with it every crash between two writes, is a run of the model.  The kernel lock is the flag
  \<open>locked\<close>; the clock is read once per call; random ids and tokens are arguments; a journal entry's free-form fields are texts.
  The wait of \<^verbatim>\<open>Acquire\<close> for a busy lock is not modelled: \<open>locked\<close> is the answer after it.  JSON encoding and torn
  journal lines are not modelled either.
\<close>

section \<open>Phases and records\<close>

datatype Phase = PhaseValidating | PhasePrepared | PhaseQuiescing | PhaseSafetyVerified | PhaseCandidateReady
  | PhaseSwitching | PhaseChecking | PhaseCommitted | PhaseFailedUnchanged | PhaseRollingBack | PhaseRolledBack
  | PhaseRecoveryRequired

definition destructive :: "Phase \<Rightarrow> bool" where
  "destructive p = (p \<in> {PhaseSwitching, PhaseChecking, PhaseRollingBack, PhaseRecoveryRequired})"

definition terminal :: "Phase \<Rightarrow> bool" where
  "terminal p = (p \<in> {PhaseCommitted, PhaseFailedUnchanged, PhaseRolledBack})"

definition resolved :: "Phase \<Rightarrow> bool" where
  "resolved p = terminal p"

lemma destructive_not_resolved [simp]: "destructive p \<Longrightarrow> \<not> resolved p"
  by (auto simp: destructive_def resolved_def terminal_def)

record OpRecord =
  or_ID :: string
  or_Kind :: string
  or_Phase :: Phase
  or_StartedAt :: int
  or_UpdatedAt :: int
  or_Token :: string
  or_Actor :: string
  or_Error :: string
  or_ResolvedBy :: string
  or_External :: bool
  or_ExpiresAt :: int \<comment> \<open>0 is Go's zero time\<close>

type_synonym fields = "(string \<times> string) list"

record Entry =
  en_At :: int
  en_OpID :: string
  en_Kind :: string
  en_Phase :: Phase
  en_Intent :: bool
  en_Error :: string
  en_Fields :: fields

datatype ctl_error = ErrBusy | ErrFenced | ErrRecoveryRequired | ErrUnreadable | ErrIO | ErrNotRegistered
  | ErrNotExternal | ErrAlreadyClosed | ErrPhaseNotAllowed | ErrReasonRequired | ErrNoOperation | ErrNotExist | ErrExist
  | ErrKeyMissing

definition active :: "OpRecord \<Rightarrow> int \<Rightarrow> bool" where
  "active r now = (or_External r \<and> \<not> resolved (or_Phase r) \<and> or_ExpiresAt r \<noteq> 0 \<and> now < or_ExpiresAt r)"

section \<open>The control directory\<close>

datatype state_file = NoState | Unreadable | State OpRecord

record disk =
  dk_state :: state_file
  dk_journal :: "string \<rightharpoonup> Entry list"

datatype effect = Append bool string Entry \<comment> \<open>the flag: a failure is ignored\<close> | WriteState OpRecord

fun apply_effect :: "effect \<Rightarrow> disk \<Rightarrow> disk" where
  "apply_effect (Append opt i e) d =
     d\<lparr>dk_journal := (dk_journal d)(i \<mapsto> (case dk_journal d i of None \<Rightarrow> [] | Some es \<Rightarrow> es) @ [e])\<rparr>"
| "apply_effect (WriteState r) d = d\<lparr>dk_state := State r\<rparr>"

fun optional :: "effect \<Rightarrow> bool" where
  "optional (Append opt i e) = opt"
| "optional (WriteState r) = False"

text \<open>Effects in order; the first failure that is not ignored stops the call.\<close>

fun run_effects :: "(nat \<Rightarrow> bool) \<Rightarrow> nat \<Rightarrow> effect list \<Rightarrow> disk \<Rightarrow> disk \<times> bool" where
  "run_effects io n [] d = (d, True)"
| "run_effects io n (e # es) d =
     (if io n then run_effects io (Suc n) es (apply_effect e d)
      else if optional e then run_effects io (Suc n) es d
      else (d, False))"

definition readState :: "disk \<Rightarrow> ctl_error + OpRecord option" where
  "readState d = (case dk_state d of NoState \<Rightarrow> Inr None | Unreadable \<Rightarrow> Inl ErrUnreadable | State r \<Rightarrow> Inr (Some r))"

section \<open>The lease\<close>

record Lease =
  ls_record :: OpRecord
  ls_released :: bool

definition interrupted_text :: string where \<comment> \<open>UTF-8 text of the source\<close>
  "interrupted_text = ''i'' @ [CHR 0xC5, CHR 0x9F] @ ''lem kesildi; canl'' @ [CHR 0xC4, CHR 0xB1] @ '' sistem de''
     @ [CHR 0xC4, CHR 0x9F] @ ''i'' @ [CHR 0xC5, CHR 0x9F] @ ''memi'' @ [CHR 0xC5, CHR 0x9F] @ ''ti''"

definition no_result_text :: string where
  "no_result_text = ''i'' @ [CHR 0xC5, CHR 0x9F] @ ''lem sonu'' @ [CHR 0xC3, CHR 0xA7] @ '' yazmadan sona erdi''"

text \<open>What \<^verbatim>\<open>Acquire\<close> and \<^verbatim>\<open>Begin\<close> do with the previous operation before they declare a new one.\<close>

definition settle_previous :: "int \<Rightarrow> fields \<Rightarrow> OpRecord option \<Rightarrow> ctl_error + effect list" where
  "settle_previous now fs previous =
     (case previous of
        None \<Rightarrow> Inr []
      | Some p \<Rightarrow>
          if resolved (or_Phase p) then Inr []
          else if destructive (or_Phase p) \<or> or_Phase p = PhaseRecoveryRequired then Inl ErrRecoveryRequired
          else if active p now then Inl ErrBusy
          else
            let p' = p\<lparr>or_Phase := PhaseFailedUnchanged, or_UpdatedAt := now, or_Error := interrupted_text\<rparr> in
            Inr [Append True (or_ID p) \<lparr>en_At = now, en_OpID = or_ID p, en_Kind = or_Kind p,
                   en_Phase = PhaseFailedUnchanged, en_Intent = False, en_Error = interrupted_text, en_Fields = fs\<rparr>,
                 WriteState p'])"

definition Acquire ::
  "(nat \<Rightarrow> bool) \<Rightarrow> bool \<Rightarrow> int \<Rightarrow> string \<Rightarrow> string \<Rightarrow> string \<Rightarrow> string \<Rightarrow> string \<Rightarrow> disk \<Rightarrow> disk \<times> (ctl_error + Lease)" where
  "Acquire io locked now pid newID newToken kind actor d =
     (if locked then (d, Inl ErrBusy)
      else (case readState d of
          Inl e \<Rightarrow> (d, Inl e)
        | Inr previous \<Rightarrow> (case settle_previous now [(''recovered_at_startup'', ''true'')] previous of
            Inl e \<Rightarrow> (d, Inl e)
          | Inr settle \<Rightarrow>
              let record = \<lparr>or_ID = newID, or_Kind = kind, or_Phase = PhaseValidating, or_StartedAt = now,
                    or_UpdatedAt = now, or_Token = newToken, or_Actor = actor, or_Error = [], or_ResolvedBy = [],
                    or_External = False, or_ExpiresAt = 0\<rparr>;
                  (d', ok) = run_effects io 0 (settle @
                    [Append False newID \<lparr>en_At = now, en_OpID = newID, en_Kind = kind, en_Phase = PhaseValidating,
                       en_Intent = False, en_Error = [], en_Fields = [(''actor'', actor), (''pid'', pid)]\<rparr>,
                     WriteState record]) d in
              (d', if ok then Inr \<lparr>ls_record = record, ls_released = False\<rparr> else Inl ErrIO))))"

definition check :: "Lease \<Rightarrow> disk \<Rightarrow> ctl_error option" where
  "check l d =
     (if ls_released l then Some ErrFenced
      else (case readState d of
          Inl e \<Rightarrow> Some e
        | Inr None \<Rightarrow> Some ErrFenced
        | Inr (Some current) \<Rightarrow>
            if or_ID current \<noteq> or_ID (ls_record l) \<or> or_Token current \<noteq> or_Token (ls_record l) then Some ErrFenced
            else None))"

text \<open>
  The common body of \<^verbatim>\<open>Intent\<close>, \<^verbatim>\<open>Result\<close> and \<^verbatim>\<open>Fail\<close>: fence, journal, then the in-memory record and the state file.  The
  in-memory record has moved on even when the state file could not be written.
\<close>

definition lease_write ::
  "(nat \<Rightarrow> bool) \<Rightarrow> int \<Rightarrow> bool \<Rightarrow> Phase \<Rightarrow> string option \<Rightarrow> fields \<Rightarrow> Lease \<Rightarrow> disk \<Rightarrow> Lease \<times> disk \<times> ctl_error option" where
  "lease_write io now intent phase message fs l d =
     (case check l d of
        Some e \<Rightarrow> (l, d, Some e)
      | None \<Rightarrow>
          let r = ls_record l;
              entry = \<lparr>en_At = now, en_OpID = or_ID r, en_Kind = or_Kind r, en_Phase = phase, en_Intent = intent,
                en_Error = (case message of None \<Rightarrow> [] | Some m \<Rightarrow> m), en_Fields = fs\<rparr> in
          if \<not> io 0 then (l, d, Some ErrIO)
          else
            let d1 = apply_effect (Append False (or_ID r) entry) d;
                r' = r\<lparr>or_Phase := phase, or_UpdatedAt := now\<rparr>;
                r' = (case message of None \<Rightarrow> r' | Some m \<Rightarrow> r'\<lparr>or_Error := m\<rparr>);
                l' = l\<lparr>ls_record := r'\<rparr> in
            if \<not> io 1 then (l', d1, Some ErrIO) else (l', apply_effect (WriteState r') d1, None))"

definition Intent :: "(nat \<Rightarrow> bool) \<Rightarrow> int \<Rightarrow> Phase \<Rightarrow> fields \<Rightarrow> Lease \<Rightarrow> disk \<Rightarrow> Lease \<times> disk \<times> ctl_error option" where
  "Intent io now phase fs l d = lease_write io now True phase None fs l d"

definition Result_op :: "(nat \<Rightarrow> bool) \<Rightarrow> int \<Rightarrow> Phase \<Rightarrow> fields \<Rightarrow> Lease \<Rightarrow> disk \<Rightarrow> Lease \<times> disk \<times> ctl_error option" where
  "Result_op io now phase fs l d = lease_write io now False phase None fs l d"

definition Fail :: "(nat \<Rightarrow> bool) \<Rightarrow> int \<Rightarrow> Phase \<Rightarrow> string option \<Rightarrow> Lease \<Rightarrow> disk \<Rightarrow> Lease \<times> disk \<times> ctl_error option" where
  "Fail io now phase cause l d =
     lease_write io now False phase (Some (case cause of None \<Rightarrow> [] | Some m \<Rightarrow> m)) [] l d"

definition Prepared :: "(nat \<Rightarrow> bool) \<Rightarrow> int \<Rightarrow> fields \<Rightarrow> Lease \<Rightarrow> disk \<Rightarrow> Lease \<times> disk \<times> ctl_error option" where
  "Prepared io now fs l d = Result_op io now PhaseCandidateReady fs l d"
definition Switching :: "(nat \<Rightarrow> bool) \<Rightarrow> int \<Rightarrow> fields \<Rightarrow> Lease \<Rightarrow> disk \<Rightarrow> Lease \<times> disk \<times> ctl_error option" where
  "Switching io now fs l d = Intent io now PhaseSwitching fs l d"
definition Switched :: "(nat \<Rightarrow> bool) \<Rightarrow> int \<Rightarrow> fields \<Rightarrow> Lease \<Rightarrow> disk \<Rightarrow> Lease \<times> disk \<times> ctl_error option" where
  "Switched io now fs l d = Result_op io now PhaseChecking fs l d"
definition Committed :: "(nat \<Rightarrow> bool) \<Rightarrow> int \<Rightarrow> fields \<Rightarrow> Lease \<Rightarrow> disk \<Rightarrow> Lease \<times> disk \<times> ctl_error option" where
  "Committed io now fs l d = Result_op io now PhaseCommitted fs l d"

definition Release :: "(nat \<Rightarrow> bool) \<Rightarrow> int \<Rightarrow> Lease \<Rightarrow> disk \<Rightarrow> Lease \<times> disk \<times> ctl_error option" where
  "Release io now l d =
     (if ls_released l then (l, d, None)
      else
        let (l', d', err) =
          (if \<not> resolved (or_Phase (ls_record l)) then
             Fail io now (if destructive (or_Phase (ls_record l)) then PhaseRecoveryRequired else PhaseFailedUnchanged)
               (Some no_result_text) l d
           else (l, d, None)) in
        (l'\<lparr>ls_released := True\<rparr>, d', err))"

section \<open>Status and the startup gate\<close>

datatype reason = NoReason | AwaitsRecovery | InProgress | InterruptedDestructive | InterruptedUnchanged

record Status =
  st_Operation :: "OpRecord option"
  st_Running :: bool
  st_Serviceable :: bool
  st_Reason :: reason

definition Status_of :: "bool \<Rightarrow> int \<Rightarrow> disk \<Rightarrow> ctl_error + Status" where
  "Status_of locked now d =
     (case readState d of
        Inl e \<Rightarrow> Inl e
      | Inr None \<Rightarrow> Inr \<lparr>st_Operation = None, st_Running = False, st_Serviceable = True, st_Reason = NoReason\<rparr>
      | Inr (Some r) \<Rightarrow>
          let running = (if \<not> locked then active r now else True);
              status = \<lparr>st_Operation = Some r, st_Running = running, st_Serviceable = False, st_Reason = NoReason\<rparr> in
          Inr (if resolved (or_Phase r) then status\<lparr>st_Serviceable := True\<rparr>
               else if or_Phase r = PhaseRecoveryRequired then status\<lparr>st_Reason := AwaitsRecovery\<rparr>
               else if running then status\<lparr>st_Reason := InProgress\<rparr>
               else if destructive (or_Phase r) then status\<lparr>st_Reason := InterruptedDestructive\<rparr>
               else status\<lparr>st_Serviceable := True, st_Reason := InterruptedUnchanged\<rparr>))"

definition GateStartup :: "bool \<Rightarrow> int \<Rightarrow> disk \<Rightarrow> ctl_error option" where
  "GateStartup locked now d =
     (case Status_of locked now d of
        Inl e \<Rightarrow> Some e
      | Inr status \<Rightarrow> if \<not> st_Serviceable status then Some ErrRecoveryRequired else None)"

definition GateStartupFor :: "string \<Rightarrow> bool \<Rightarrow> int \<Rightarrow> disk \<Rightarrow> ctl_error option" where
  "GateStartupFor opID locked now d =
     (let opID = trim_space opID in
      if opID = [] then GateStartup locked now d
      else (case Status_of locked now d of
          Inl e \<Rightarrow> Some e
        | Inr status \<Rightarrow>
            if st_Serviceable status then None
            else (case st_Operation status of
                None \<Rightarrow> Some ErrRecoveryRequired
              | Some r \<Rightarrow>
                  if or_ID r = opID \<and> or_External r \<and> or_Phase r \<noteq> PhaseRecoveryRequired \<and> active r now then None
                  else Some ErrRecoveryRequired)))"

definition Resolve :: "(nat \<Rightarrow> bool) \<Rightarrow> bool \<Rightarrow> int \<Rightarrow> string \<Rightarrow> disk \<Rightarrow> disk \<times> ctl_error option" where
  "Resolve io locked now note_text d =
     (case readState d of
        Inl e \<Rightarrow> (d, Some e)
      | Inr None \<Rightarrow> (d, Some ErrNoOperation)
      | Inr (Some r) \<Rightarrow>
          if resolved (or_Phase r) then (d, None)
          else if locked then (d, Some ErrBusy)
          else
            let r' = r\<lparr>or_Phase := PhaseRolledBack, or_ResolvedBy := trim_space note_text, or_UpdatedAt := now\<rparr>;
                (d', ok) = run_effects io 0
                  [Append False (or_ID r) \<lparr>en_At = now, en_OpID = or_ID r, en_Kind = or_Kind r, en_Phase = PhaseRolledBack,
                     en_Intent = False, en_Error = [], en_Fields = [(''resolved_by'', or_ResolvedBy r'), (''manual'', ''true'')]\<rparr>,
                   WriteState r'] d in
            (d', if ok then None else Some ErrIO))"

section \<open>Operations driven from outside\<close>

definition DefaultExternalLifetime :: int where
  "DefaultExternalLifetime = 2 * 3600 * 1000000000" \<comment> \<open>two hours in nanoseconds\<close>

definition externalPhaseAllowed :: "Phase \<Rightarrow> bool" where
  "externalPhaseAllowed p = (p \<in> {PhaseSwitching, PhaseChecking, PhaseCommitted, PhaseFailedUnchanged, PhaseRolledBack,
     PhaseRecoveryRequired})"

definition Begin ::
  "(nat \<Rightarrow> bool) \<Rightarrow> bool \<Rightarrow> int \<Rightarrow> string \<Rightarrow> string \<Rightarrow> string \<Rightarrow> string \<Rightarrow> int \<Rightarrow> fields \<Rightarrow> disk \<Rightarrow> disk \<times> (ctl_error + OpRecord)" where
  "Begin io locked now newID newToken kind actor lifetime fs d =
     (let lifetime = (if lifetime \<le> 0 then DefaultExternalLifetime else lifetime) in
      if locked then (d, Inl ErrBusy)
      else (case readState d of
          Inl e \<Rightarrow> (d, Inl e)
        | Inr previous \<Rightarrow> (case settle_previous now [(''expired'', ''true'')] previous of
            Inl e \<Rightarrow> (d, Inl e)
          | Inr settle \<Rightarrow>
              let record = \<lparr>or_ID = newID, or_Kind = kind, or_Phase = PhasePrepared, or_StartedAt = now,
                    or_UpdatedAt = now, or_Token = newToken, or_Actor = actor, or_Error = [], or_ResolvedBy = [],
                    or_External = True, or_ExpiresAt = now + lifetime\<rparr>;
                  (d', ok) = run_effects io 0 (settle @
                    [Append False newID \<lparr>en_At = now, en_OpID = newID, en_Kind = kind, en_Phase = PhasePrepared,
                       en_Intent = True, en_Error = [], en_Fields = fs\<rparr>,
                     WriteState record]) d in
              (d', if ok then Inr record else Inl ErrIO))))"

definition Advance ::
  "(nat \<Rightarrow> bool) \<Rightarrow> bool \<Rightarrow> int \<Rightarrow> string \<Rightarrow> Phase \<Rightarrow> int \<Rightarrow> string \<Rightarrow> fields \<Rightarrow> disk \<Rightarrow> disk \<times> ctl_error option" where
  "Advance io locked now i phase lifetime message fs d =
     (if \<not> externalPhaseAllowed phase then (d, Some ErrPhaseNotAllowed)
      else
        let lifetime = (if lifetime \<le> 0 then DefaultExternalLifetime else lifetime) in
        if locked then (d, Some ErrBusy)
        else (case readState d of
            Inl e \<Rightarrow> (d, Some e)
          | Inr None \<Rightarrow> (d, Some ErrNotRegistered)
          | Inr (Some r) \<Rightarrow>
              if or_ID r \<noteq> i then (d, Some ErrNotRegistered)
              else if \<not> or_External r then (d, Some ErrNotExternal)
              else if resolved (or_Phase r) then (d, Some ErrAlreadyClosed)
              else
                let note_text = trim_space message;
                    failed = (phase = PhaseRecoveryRequired \<or> phase = PhaseFailedUnchanged);
                    err = (if failed then note_text else []);
                    kept = (if failed then [] else note_text);
                    r' = r\<lparr>or_Phase := phase, or_UpdatedAt := now, or_Error := err,
                          or_ExpiresAt := (if resolved phase then 0 else now + lifetime)\<rparr>;
                    fs' = (if kept \<noteq> [] then filter (\<lambda>f. fst f \<noteq> ''note'') fs @ [(''note'', kept)] else fs);
                    (d', ok) = run_effects io 0
                      [Append False i \<lparr>en_At = now, en_OpID = i, en_Kind = or_Kind r, en_Phase = phase,
                         en_Intent = (phase = PhaseSwitching), en_Error = err, en_Fields = fs'\<rparr>,
                       WriteState r'] d in
                (d', if ok then None else Some ErrIO)))"

definition Hold ::
  "(nat \<Rightarrow> bool) \<Rightarrow> bool \<Rightarrow> int \<Rightarrow> string \<Rightarrow> string \<Rightarrow> string \<Rightarrow> string \<Rightarrow> string \<Rightarrow> disk \<Rightarrow> disk \<times> (ctl_error + OpRecord)" where
  "Hold io locked now newID newToken kind actor why d =
     (let why = trim_space why in
      if why = [] then (d, Inl ErrReasonRequired)
      else if locked then (d, Inl ErrBusy)
      else
        let previous = (case readState d of Inl _ \<Rightarrow> None | Inr p \<Rightarrow> p);
            fresh = \<lparr>or_ID = newID, or_Kind = kind, or_Phase = PhaseRecoveryRequired, or_StartedAt = now, or_UpdatedAt = 0,
              or_Token = newToken, or_Actor = [], or_Error = why, or_ResolvedBy = [], or_External = True, or_ExpiresAt = 0\<rparr>;
            record = (case previous of
                Some p \<Rightarrow> if \<not> resolved (or_Phase p)
                          then (if or_Error p = [] then p\<lparr>or_Error := why\<rparr> else p) else fresh
              | None \<Rightarrow> fresh);
            record = record\<lparr>or_Phase := PhaseRecoveryRequired, or_Actor := actor, or_UpdatedAt := now,
              or_ExpiresAt := 0, or_External := True\<rparr>;
            (d', ok) = run_effects io 0
              [Append False (or_ID record) \<lparr>en_At = now, en_OpID = or_ID record, en_Kind = or_Kind record,
                 en_Phase = PhaseRecoveryRequired, en_Intent = False, en_Error = why,
                 en_Fields = [(''actor'', actor), (''held'', ''true'')]\<rparr>,
               WriteState record] d in
        (d', if ok then Inr record else Inl ErrIO))"

section \<open>Looking operations up\<close>

definition History :: "disk \<Rightarrow> string \<Rightarrow> ctl_error + Entry list" where
  "History d i = (case dk_journal d i of None \<Rightarrow> Inl ErrNotExist | Some es \<Rightarrow> Inr es)"

definition find_in_journal :: "disk \<Rightarrow> string \<Rightarrow> ctl_error + OpRecord" where
  "find_in_journal d i =
     bindE (History d i) (\<lambda>entries.
       if entries = [] then Inl ErrNotExist
       else Inr \<lparr>or_ID = i, or_Kind = en_Kind (hd entries), or_Phase = en_Phase (last entries),
              or_StartedAt = en_At (hd entries), or_UpdatedAt = en_At (last entries), or_Token = [], or_Actor = [],
              or_Error = en_Error (last entries), or_ResolvedBy = [], or_External = False, or_ExpiresAt = 0\<rparr>)"

definition FindRecord :: "disk \<Rightarrow> string \<Rightarrow> ctl_error + OpRecord" where
  "FindRecord d i =
     bindE (readState d) (\<lambda>current.
       case current of
         Some r \<Rightarrow> if or_ID r = i then Inr r else find_in_journal d i
       | None \<Rightarrow> find_in_journal d i)"

text \<open>The key directory: one file per hashed key, created exclusively.\<close>

type_synonym key_dir = "string \<rightharpoonup> string"

definition keyPath :: "(string \<Rightarrow> string) \<Rightarrow> string \<Rightarrow> ctl_error + string" where
  "keyPath digest key =
     (let key = trim_space key in if key = [] then Inl ErrKeyMissing else Inr (digest key))"

definition RememberKey :: "(string \<Rightarrow> string) \<Rightarrow> key_dir \<Rightarrow> string \<Rightarrow> string \<Rightarrow> key_dir \<times> ctl_error option" where
  "RememberKey digest ks key operationID =
     (case keyPath digest key of
        Inl e \<Rightarrow> (ks, Some e)
      | Inr path \<Rightarrow> (case ks path of
          Some _ \<Rightarrow> (ks, Some ErrExist)
        | None \<Rightarrow> (ks(path \<mapsto> operationID), None)))"

definition LookupKey :: "(string \<Rightarrow> string) \<Rightarrow> key_dir \<Rightarrow> string \<Rightarrow> ctl_error + string option" where
  "LookupKey digest ks key =
     (case keyPath digest key of
        Inl e \<Rightarrow> Inl e
      | Inr path \<Rightarrow> Inr (map_option trim_space (ks path)))"

end
