(* ===== verification/Opctl_Safety.thy ===== *)
theory Opctl_Safety
  imports Opctl
begin

text \<open>
  Crash safety of the operation controller.  The step relation interleaves the in-process holder of the lease, the
  outside driver, the operator and crashes, with any pattern of write failures.  The ghost flag \<open>in_dirty\<close> says that the
  live installation has been changed by an operation whose outcome nobody has asserted yet.
\<close>

section \<open>The installation\<close>

record installation =
  in_disk :: disk
  in_lease :: "Lease option"
  in_dirty :: bool

definition locked :: "installation \<Rightarrow> bool" where
  "locked w = (case in_lease w of None \<Rightarrow> False | Some l \<Rightarrow> \<not> ls_released l)"

text \<open>
  The rule for callers of the lease, which the lease itself does not enforce: once the installation has been touched, the
  holder writes only destructive or closing phases.  The step relation takes such a rule as its parameter \<open>allowed\<close>.
  \<open>touch\<close> and \<open>touch_external\<close> are the irreversible changes of the live installation; they happen only after a
  destructive phase has reached the state file.
\<close>

definition honest :: "bool \<Rightarrow> Phase \<Rightarrow> bool" where
  "honest dirty p = (dirty \<longrightarrow> destructive p \<or> resolved p)"

definition asserted :: "bool \<Rightarrow> Phase \<Rightarrow> ctl_error option \<Rightarrow> bool" where
  "asserted dirty p err = (dirty \<and> \<not> (err = None \<and> resolved p))"

definition on_disk :: "Lease \<Rightarrow> disk \<Rightarrow> bool" where
  "on_disk l d = (\<exists>r. dk_state d = State r \<and> or_ID r = or_ID (ls_record l) \<and> or_Token r = or_Token (ls_record l)
     \<and> destructive (or_Phase r))"

inductive op_step :: "(bool \<Rightarrow> Phase \<Rightarrow> bool) \<Rightarrow> installation \<Rightarrow> installation \<Rightarrow> bool" for allowed where
  acquire: "Acquire io (locked w) now pid i tok kind actor (in_disk w) = (d, res) \<Longrightarrow>
    op_step allowed w (w\<lparr>in_disk := d, in_lease := (case res of Inl _ \<Rightarrow> in_lease w | Inr l \<Rightarrow> Some l)\<rparr>)"
| intent: "in_lease w = Some l \<Longrightarrow> allowed (in_dirty w) p \<Longrightarrow> Intent io now p fs l (in_disk w) = (l', d, err) \<Longrightarrow>
    op_step allowed w (w\<lparr>in_disk := d, in_lease := Some l', in_dirty := asserted (in_dirty w) p err\<rparr>)"
| result: "in_lease w = Some l \<Longrightarrow> allowed (in_dirty w) p \<Longrightarrow> Result_op io now p fs l (in_disk w) = (l', d, err) \<Longrightarrow>
    op_step allowed w (w\<lparr>in_disk := d, in_lease := Some l', in_dirty := asserted (in_dirty w) p err\<rparr>)"
| fail: "in_lease w = Some l \<Longrightarrow> allowed (in_dirty w) p \<Longrightarrow> Fail io now p cause l (in_disk w) = (l', d, err) \<Longrightarrow>
    op_step allowed w (w\<lparr>in_disk := d, in_lease := Some l', in_dirty := asserted (in_dirty w) p err\<rparr>)"
| release: "in_lease w = Some l \<Longrightarrow> Release io now l (in_disk w) = (l', d, err) \<Longrightarrow>
    op_step allowed w (w\<lparr>in_disk := d, in_lease := Some l'\<rparr>)"
| crash: "op_step allowed w (w\<lparr>in_lease := None\<rparr>)"
| touch: "in_lease w = Some l \<Longrightarrow> \<not> ls_released l \<Longrightarrow> destructive (or_Phase (ls_record l)) \<Longrightarrow> on_disk l (in_disk w) \<Longrightarrow>
    op_step allowed w (w\<lparr>in_dirty := True\<rparr>)"
| touch_external: "dk_state (in_disk w) = State r \<Longrightarrow> or_External r \<Longrightarrow> \<not> locked w \<Longrightarrow> destructive (or_Phase r) \<Longrightarrow>
    op_step allowed w (w\<lparr>in_dirty := True\<rparr>)"
| begin_external: "Begin io (locked w) now i tok kind actor lifetime fs (in_disk w) = (d, res) \<Longrightarrow>
    op_step allowed w (w\<lparr>in_disk := d\<rparr>)"
| advance: "Advance io (locked w) now i p lifetime message fs (in_disk w) = (d, err) \<Longrightarrow>
    op_step allowed w (w\<lparr>in_disk := d, in_dirty := asserted (in_dirty w) p err\<rparr>)"
| hold: "Hold io (locked w) now i tok kind actor why (in_disk w) = (d, res) \<Longrightarrow> op_step allowed w (w\<lparr>in_disk := d\<rparr>)"
| resolve: "Resolve io (locked w) now note_text (in_disk w) = (d, err) \<Longrightarrow>
    op_step allowed w (w\<lparr>in_disk := d, in_dirty := asserted (in_dirty w) PhaseRolledBack err\<rparr>)"

text \<open>
  The steps that assert an outcome: a successful call that writes a resolved phase, made by the holder of the lease (by
  \<^verbatim>\<open>Intent\<close>, \<^verbatim>\<open>Result\<close> or \<^verbatim>\<open>Fail\<close>), by the outside driver (\<^verbatim>\<open>Advance\<close>) or by the operator (\<^verbatim>\<open>Resolve\<close>).
\<close>

definition outcome_asserted :: "installation \<Rightarrow> installation \<Rightarrow> bool" where
  "outcome_asserted w w' =
     ((\<exists>l l' io now p fs cause. in_lease w = Some l \<and> resolved p \<and>
         (Intent io now p fs l (in_disk w) = (l', in_disk w', None) \<or> Result_op io now p fs l (in_disk w) = (l', in_disk w', None)
          \<or> Fail io now p cause l (in_disk w) = (l', in_disk w', None)))
      \<or> (\<exists>io now i p lifetime m fs. resolved p \<and> Advance io (locked w) now i p lifetime m fs (in_disk w) = (in_disk w', None))
      \<or> (\<exists>io now note_text. Resolve io (locked w) now note_text (in_disk w) = (in_disk w', None)))"

lemma op_step_clears: "op_step allowed w w' \<Longrightarrow> in_dirty w \<Longrightarrow> in_dirty w' \<or> outcome_asserted w w'"
  by (induction rule: op_step.induct) (auto simp: asserted_def outcome_asserted_def)

section \<open>Which states an operation can leave\<close>

lemma run_effects_state:
  "dk_state (fst (run_effects io n es d)) = dk_state d
   \<or> (\<exists>r. WriteState r \<in> set es \<and> dk_state (fst (run_effects io n es d)) = State r)"
proof (induction es arbitrary: n d)
  case (Cons e es)
  have a: "dk_state (apply_effect e d) = dk_state d \<or> (\<exists>r. e = WriteState r \<and> dk_state (apply_effect e d) = State r)"
    by (cases e) auto
  show ?case using Cons.IH [of "Suc n" "apply_effect e d"] Cons.IH [of "Suc n" d] a by (auto split: if_splits)
qed simp

lemma last_write: "run_effects io n (es @ [WriteState r]) d = (d', True) \<Longrightarrow> dk_state d' = State r"
  by (induction es arbitrary: n d) (auto split: if_splits)

lemma settle_safe:
  assumes "settle_previous now fs previous = Inr es" "previous = Some p" "destructive (or_Phase p)"
  shows "False"
  using assms by (auto simp: settle_previous_def split: if_splits)

definition disk_dirty :: "disk \<Rightarrow> bool" where
  "disk_dirty d = (\<exists>r. dk_state d = State r \<and> destructive (or_Phase r))"

lemma Acquire_dirty: "Acquire io lk now pid i tok kind actor d = (d', res) \<Longrightarrow> disk_dirty d \<Longrightarrow> d' = d \<and> (\<exists>e. res = Inl e)"
  by (auto simp: Acquire_def disk_dirty_def readState_def settle_previous_def Let_def split: if_splits)

lemma Begin_dirty: "Begin io lk now i tok kind actor lt fs d = (d', res) \<Longrightarrow> disk_dirty d \<Longrightarrow> d' = d"
  by (auto simp: Begin_def disk_dirty_def readState_def settle_previous_def Let_def split: if_splits)

lemma lease_write_cases:
  assumes "lease_write io now b p m fs l d = (l', d', err)"
  shows "(l' = l \<and> d' = d \<and> err \<noteq> None) \<or>
    (check l d = None \<and> or_Phase (ls_record l') = p \<and> ls_released l' = ls_released l
     \<and> or_ID (ls_record l') = or_ID (ls_record l) \<and> or_Token (ls_record l') = or_Token (ls_record l)
     \<and> (if err = None then dk_state d' = State (ls_record l') else dk_state d' = dk_state d))"
  using assms by (auto simp: lease_write_def Let_def split: if_splits option.splits)

lemma check_None:
  "check l d = None \<longleftrightarrow> \<not> ls_released l \<and> (\<exists>r. dk_state d = State r \<and> or_ID r = or_ID (ls_record l) \<and> or_Token r = or_Token (ls_record l))"
  by (auto simp: check_def readState_def split: state_file.splits if_splits)

section \<open>The invariant\<close>

definition inst_inv :: "installation \<Rightarrow> bool" where
  "inst_inv w = (in_dirty w \<longrightarrow> disk_dirty (in_disk w)
     \<and> (\<forall>l. in_lease w = Some l \<and> check l (in_disk w) = None \<longrightarrow>
          destructive (or_Phase (ls_record l)) \<or> resolved (or_Phase (ls_record l))))"

lemma lease_step_inv:
  assumes "inst_inv w" "in_lease w = Some l" "honest (in_dirty w) p" "lease_write io now b p m fs l (in_disk w) = (l', d, err)"
  shows "inst_inv (w\<lparr>in_disk := d, in_lease := Some l', in_dirty := asserted (in_dirty w) p err\<rparr>)"
  using lease_write_cases [OF assms(4)] assms(1-3)
  by (auto simp: inst_inv_def asserted_def honest_def disk_dirty_def split: if_splits)

lemma Release_dirty:
  assumes "inst_inv w" "in_lease w = Some l" "in_dirty w" "Release io now l (in_disk w) = (l', d, err)"
  shows "disk_dirty d \<and> check l' d \<noteq> None"
proof -
  have dirty: "disk_dirty (in_disk w)" using assms by (simp add: inst_inv_def)
  show ?thesis
  proof (cases "ls_released l")
    case True
    then show ?thesis using assms dirty by (simp add: Release_def check_None)
  next
    case rel: False
    show ?thesis
    proof (cases "resolved (or_Phase (ls_record l))")
      case True
      then show ?thesis using assms dirty rel by (auto simp: Release_def check_None)
    next
      case False
      let ?p = "if destructive (or_Phase (ls_record l)) then PhaseRecoveryRequired else PhaseFailedUnchanged"
      obtain l1 d1 e1 where f: "Fail io now ?p (Some no_result_text) l (in_disk w) = (l1, d1, e1)"
        by (metis prod_cases3)
      then have eq: "d = d1" "l' = l1\<lparr>ls_released := True\<rparr>" using assms(4) rel False by (auto simp: Release_def Let_def)
      have "check l (in_disk w) = None \<Longrightarrow> ?p = PhaseRecoveryRequired"
        using assms(1-3) False by (auto simp: inst_inv_def)
      then have "disk_dirty d1"
        using lease_write_cases [OF f [unfolded Fail_def]] dirty
        by (auto simp: disk_dirty_def destructive_def split: if_splits)
      then show ?thesis by (simp add: eq check_None)
    qed
  qed
qed

text \<open>
  The outside calls: either nothing changes and there is no success to assert, or the lock was free and the state file
  carries the written phase.
\<close>

definition outside :: "bool \<Rightarrow> Phase \<Rightarrow> disk \<Rightarrow> disk \<Rightarrow> ctl_error option \<Rightarrow> bool" where
  "outside lk p d d' err =
     ((dk_state d' = dk_state d \<and> (err = None \<longrightarrow> \<not> resolved p \<or> \<not> disk_dirty d))
      \<or> (\<not> lk \<and> err = None \<and> (\<exists>r. dk_state d' = State r \<and> or_Phase r = p)))"

lemma outside_effects:
  assumes "run_effects io 0 [Append False i e, WriteState r] d = (d', ok)" "or_Phase r = p" "\<not> lk" "err = (if ok then None else Some ErrIO)"
  shows "outside lk p d d' err"
  using assms by (auto simp: outside_def split: if_splits)

lemma Advance_cases:
  "Advance io lk now i p lt m fs d = (d', err) \<Longrightarrow> outside lk p d d' err \<and> (err = None \<longrightarrow> destructive p \<or> resolved p)"
  by (auto simp: Advance_def Let_def outside_def externalPhaseAllowed_def destructive_def resolved_def terminal_def
      split: sum.splits option.splits if_splits prod.splits)

lemma Hold_cases:
  "Hold io lk now i tok kind actor why d = (d', res) \<Longrightarrow> outside lk PhaseRecoveryRequired d d' None \<or> d' = d"
  by (auto simp: Hold_def Let_def outside_def resolved_def terminal_def split: if_splits prod.splits)

lemma Resolve_cases:
  "Resolve io lk now n d = (d', err) \<Longrightarrow> outside lk PhaseRolledBack d d' err"
  by (auto simp: Resolve_def readState_def Let_def outside_def disk_dirty_def split: sum.splits option.splits if_splits prod.splits state_file.splits)

lemma outside_inv:
  assumes "inst_inv w" "outside (locked w) p (in_disk w) d err" "err = None \<longrightarrow> destructive p \<or> resolved p"
  shows "inst_inv (w\<lparr>in_disk := d, in_dirty := asserted (in_dirty w) p err\<rparr>)"
proof -
  have free: "\<not> locked w \<Longrightarrow> in_lease w = Some l \<Longrightarrow> check l d \<noteq> None" for l by (simp add: locked_def check_None)
  show ?thesis using assms free
    by (auto simp: inst_inv_def asserted_def outside_def disk_dirty_def check_None)
qed

lemma op_step_inv: "op_step honest w w' \<Longrightarrow> inst_inv w \<Longrightarrow> inst_inv w'"
proof (induction rule: op_step.induct)
  case (acquire io w now pid i tok kind actor d res)
  show ?case
  proof (cases "in_dirty w")
    case True
    then have "d = in_disk w" "\<exists>e. res = Inl e"
      using Acquire_dirty [OF acquire(1)] acquire(2) unfolding inst_inv_def by blast+
    then show ?thesis using acquire(2) by (auto simp: inst_inv_def)
  qed (simp add: inst_inv_def)
next
  case (intent w l p io now fs l' d err)
  then show ?case by (metis Intent_def lease_step_inv)
next
  case (result w l p io now fs l' d err)
  then show ?case by (metis Result_op_def lease_step_inv)
next
  case (fail w l p io now cause l' d err)
  then show ?case by (metis Fail_def lease_step_inv)
next
  case (release w l io now l' d err)
  show ?case
  proof (cases "in_dirty w")
    case True
    then show ?thesis using Release_dirty [OF release(3,1) True release(2)] by (auto simp: inst_inv_def)
  qed (simp add: inst_inv_def)
next
  case (crash w)
  then show ?case by (simp add: inst_inv_def)
next
  case (touch w l)
  then show ?case by (auto simp: inst_inv_def on_disk_def disk_dirty_def)
next
  case (touch_external w r)
  then show ?case by (auto simp: inst_inv_def disk_dirty_def locked_def check_None)
next
  case (begin_external io w now i tok kind actor lifetime fs d res)
  show ?case
  proof (cases "in_dirty w")
    case True
    then have "d = in_disk w" using Begin_dirty [OF begin_external(1)] begin_external(2) unfolding inst_inv_def by blast
    then show ?thesis using begin_external(2) by (simp add: inst_inv_def)
  qed (simp add: inst_inv_def)
next
  case (advance io w now i p lifetime message fs d err)
  then show ?case using outside_inv [of w p d err] Advance_cases [OF advance(1)] by simp
next
  case (hold io w now i tok kind actor why d res)
  have same: "asserted (in_dirty w) PhaseRecoveryRequired None = in_dirty w"
    by (simp add: asserted_def resolved_def terminal_def)
  have des: "destructive PhaseRecoveryRequired" by (simp add: destructive_def)
  from Hold_cases [OF hold(1)] show ?case
  proof
    assume "outside (locked w) PhaseRecoveryRequired (in_disk w) d None"
    from outside_inv [OF hold(2) this] des show ?thesis unfolding same by simp
  next
    assume "d = in_disk w"
    then show ?thesis using hold(2) by simp
  qed
next
  case (resolve io w now note_text d err)
  then show ?case using outside_inv [of w PhaseRolledBack d err] Resolve_cases [OF resolve(1)]
    by (simp add: resolved_def terminal_def)
qed


lemma op_reach_inv: "(op_step honest)\<^sup>*\<^sup>* w w' \<Longrightarrow> inst_inv w \<Longrightarrow> inst_inv w'"
  by (induction rule: rtranclp_induct) (auto intro: op_step_inv)

lemma gate_refuses: "disk_dirty d \<Longrightarrow> GateStartup lk now d = Some ErrRecoveryRequired"
  by (auto simp: GateStartup_def Status_of_def readState_def disk_dirty_def Let_def)

text \<open>
  Claim C9.  An interrupted operation never comes back into service unnoticed.  Start from an installation that no
  unasserted operation has changed, and let lease holders, outside drivers, operators, changes of the live installation and
  crashes interleave in any way, with any write failing, under two rules for the callers: the live installation is changed
  only once a destructive phase is in the state file, and after that the holder of a lease writes only destructive or
  resolved phases (\<open>honest\<close>).  Then, while the live installation has been changed and nobody has asserted the outcome, the
  startup gate refuses, whoever holds the lock and whatever the time; and every further step leaves it so, except a
  successful call that writes a resolved phase: by the lease holder (\<^verbatim>\<open>Intent\<close>, \<^verbatim>\<open>Result\<close>, \<^verbatim>\<open>Fail\<close>), by the outside driver
  (\<^verbatim>\<open>Advance\<close>) or by the operator (\<^verbatim>\<open>Resolve\<close>).
\<close>

theorem interrupted_operation_gated:
  assumes "\<not> in_dirty w" "(op_step honest)\<^sup>*\<^sup>* w w'" "in_dirty w'" "op_step honest w' w''"
  shows "GateStartup lk now (in_disk w') = Some ErrRecoveryRequired
    \<and> (outcome_asserted w' w'' \<or> in_dirty w'' \<and> GateStartup lk later (in_disk w'') = Some ErrRecoveryRequired)"
proof -
  have "inst_inv w" using assms(1) by (simp add: inst_inv_def)
  then have inv: "inst_inv w'" using op_reach_inv [OF assms(2)] by blast
  then have "GateStartup lk now (in_disk w') = Some ErrRecoveryRequired"
    using assms(3) by (intro gate_refuses) (simp add: inst_inv_def)
  moreover have "GateStartup lk later (in_disk w'') = Some ErrRecoveryRequired" if "in_dirty w''"
    using op_step_inv [OF assms(4) inv] that by (intro gate_refuses) (simp add: inst_inv_def)
  ultimately show ?thesis using op_step_clears [OF assms(4,3)] by blast
qed

lemma run_effects_success:
  "run_effects io n (es @ [Append False i e, WriteState r]) d = (d', True) \<Longrightarrow>
   dk_state d' = State r \<and> (\<exists>xs. dk_journal d' i = Some (xs @ [e]))"
  by (induction es arbitrary: n d) (auto split: if_splits)

lemma settle_previous_ok:
  "settle_previous now fs (Some p) = Inr es \<Longrightarrow> resolved (or_Phase p) \<or> (\<not> destructive (or_Phase p) \<and> \<not> active p now)"
  by (auto simp: settle_previous_def split: if_splits)

definition may_start :: "bool \<Rightarrow> int \<Rightarrow> disk \<Rightarrow> bool" where
  "may_start lk now d = (\<not> lk \<and> dk_state d \<noteq> Unreadable
     \<and> (\<forall>p. dk_state d = State p \<longrightarrow> resolved (or_Phase p) \<or> (\<not> destructive (or_Phase p) \<and> \<not> active p now)))"

definition started :: "string \<Rightarrow> string \<Rightarrow> Phase \<Rightarrow> disk \<Rightarrow> bool" where
  "started i tok p d = (\<exists>r xs e. dk_state d = State r \<and> or_ID r = i \<and> or_Token r = tok \<and> or_Phase r = p
     \<and> dk_journal d i = Some (xs @ [e]) \<and> en_Phase e = p)"

lemma Acquire_started:
  assumes "Acquire io lk now pid i tok kind actor d = (d', Inr l)"
  shows "may_start lk now d \<and> started i tok PhaseValidating d' \<and> check l d' = None"
proof -
  from assms obtain previous es where e: "\<not> lk" "readState d = Inr previous" "settle_previous now [(''recovered_at_startup'', ''true'')] previous = Inr es"
    by (auto simp: Acquire_def split: if_splits sum.splits)
  have "may_start lk now d" using e settle_previous_ok
    by (auto simp: may_start_def readState_def split: state_file.splits)
  moreover have "started i tok PhaseValidating d' \<and> check l d' = None"
    using assms e by (auto simp: Acquire_def Let_def started_def check_None dest!: run_effects_success split: if_splits prod.splits)
  ultimately show ?thesis by blast
qed

lemma Begin_started:
  assumes "Begin io lk now i tok kind actor lt fs d = (d', Inr r)"
  shows "may_start lk now d \<and> started i tok PhasePrepared d' \<and> (0 \<le> now \<longrightarrow> active r now)"
proof -
  from assms obtain previous es where e: "\<not> lk" "readState d = Inr previous" "settle_previous now [(''expired'', ''true'')] previous = Inr es"
    by (auto simp: Begin_def Let_def split: if_splits sum.splits)
  have "may_start lk now d" using e settle_previous_ok
    by (auto simp: may_start_def readState_def split: state_file.splits)
  moreover have "started i tok PhasePrepared d' \<and> (0 \<le> now \<longrightarrow> active r now)"
    using assms e by (auto simp: Begin_def Let_def started_def active_def resolved_def terminal_def DefaultExternalLifetime_def dest!: run_effects_success split: if_splits prod.splits)
  ultimately show ?thesis by blast
qed

text \<open>
  Claim C22.  Starting an operation is exclusive: \<^verbatim>\<open>Acquire\<close> and \<^verbatim>\<open>Begin\<close> succeed only when the lock is free and the previous
  operation is closed, or died during preparation and is no longer claimed from outside; on success the state file names
  the new operation, whose journal already has its first entry.
\<close>

theorem start_exclusive:
  "(Acquire io lk now pid i tok kind actor d = (d', Inr l) \<longrightarrow>
      may_start lk now d \<and> started i tok PhaseValidating d' \<and> check l d' = None)
   \<and> (Begin io lk now i tok kind actor lt fs d = (d', Inr r) \<longrightarrow>
      may_start lk now d \<and> started i tok PhasePrepared d' \<and> (0 \<le> now \<longrightarrow> active r now))"
  by (rule conjI; rule impI) (erule Acquire_started, erule Begin_started)

text \<open>
  A lease that lost the installation is fenced: when it was released, or the state file names another operation
  or token, none of \<^verbatim>\<open>Intent\<close>, \<^verbatim>\<open>Result\<close> and \<^verbatim>\<open>Fail\<close> changes the control directory, and all report an error.
\<close>

theorem fenced_lease_writes_nothing:
  assumes "ls_released l \<or> \<not> (\<exists>r. dk_state d = State r \<and> or_ID r = or_ID (ls_record l) \<and> or_Token r = or_Token (ls_record l))"
  shows "\<exists>e. Intent io now p fs l d = (l, d, Some e) \<and> Result_op io now p fs l d = (l, d, Some e)
    \<and> Fail io now p cause l d = (l, d, Some e)"
proof -
  have "check l d \<noteq> None" using assms by (auto simp: check_None)
  then obtain e where "check l d = Some e" by blast
  then show ?thesis by (simp add: Intent_def Result_op_def Fail_def lease_write_def)
qed

section \<open>Write-ahead\<close>









definition writes_pair :: "disk \<Rightarrow> disk \<Rightarrow> bool" where
  "writes_pair d d' = (d' = d \<or> (\<exists>io e r. en_Phase e = or_Phase r
     \<and> d' = fst (run_effects io 0 [Append False (or_ID r) e, WriteState r] d)))"

lemma writes_pair_refl [simp]: "writes_pair d d"
  by (simp add: writes_pair_def)







text \<open>
  An operation key is permanent: \<^verbatim>\<open>RememberKey\<close> never replaces the operation a key names, so after any later
  attempt \<^verbatim>\<open>LookupKey\<close> still returns the operation that claimed the key first.
\<close>

theorem operation_key_permanent:
  assumes "LookupKey digest ks key = Inr (Some i)"
  shows "LookupKey digest (fst (RememberKey digest ks key' j)) key = Inr (Some i)
    \<and> (trim_space key' = trim_space key \<longrightarrow> RememberKey digest ks key' j = (ks, Some ErrExist))"
  using assms by (auto simp: LookupKey_def RememberKey_def keyPath_def Let_def split: sum.splits if_splits option.splits)

section \<open>Findings\<close>

text \<open>
  \<^verbatim>\<open>Release\<close> treats \<open>RECOVERY_REQUIRED\<close> as unfinished: a caller that records why it failed and then releases loses the cause,
  because the record's error is replaced by the generic text.
\<close>

lemma release_overwrites_cause:
  assumes "Fail io now PhaseRecoveryRequired (Some cause) l d = (l1, d1, None)" "io' 0" "io' 1"
  shows "\<exists>l2 d2 r. Release io' later l1 d1 = (l2, d2, None) \<and> dk_state d2 = State r \<and> or_Error r = no_result_text"
proof -
  have c: "check l d = None" using assms(1) by (auto simp: Fail_def lease_write_def split: option.splits)
  have w: "dk_state d1 = State (ls_record l1)" "or_Phase (ls_record l1) = PhaseRecoveryRequired" "\<not> ls_released l1"
    using lease_write_cases [OF assms(1) [unfolded Fail_def]] c by (auto simp: check_None)
  then have "check l1 d1 = None" by (simp add: check_None)
  then show ?thesis using w assms(2,3)
    by (auto simp: Release_def Fail_def lease_write_def Let_def resolved_def terminal_def destructive_def)
qed

text \<open>
  \<^verbatim>\<open>Resolve\<close> asks only for the lock, which an outside operation does not hold: it closes a deploy that is still inside its
  claim, although the message of its refusal says that a running operation cannot be resolved by hand.
\<close>

lemma resolve_closes_live_external:
  assumes "dk_state d = State r" "active r now" "io 0" "io 1"
  shows "\<exists>d' r'. Resolve io False now note_text d = (d', None) \<and> dk_state d' = State r' \<and> or_Phase r' = PhaseRolledBack"
  using assms by (auto simp: Resolve_def readState_def active_def Let_def)


section \<open>A restore that dies after its switch\<close>

definition fresh_disk :: disk where
  "fresh_disk = \<lparr>dk_state = NoState, dk_journal = Map.empty\<rparr>"

definition all_ok :: "nat \<Rightarrow> bool" where
  "all_ok n = True"

definition idle :: installation where
  "idle = \<lparr>in_disk = fresh_disk, in_lease = None, in_dirty = False\<rparr>"

definition acquired :: "disk \<times> (ctl_error + Lease)" where
  "acquired = Acquire all_ok False 1 ''9'' ''op1'' ''t1'' ''restore'' ''cli'' fresh_disk"

definition lease1 :: Lease where
  "lease1 = (case snd acquired of Inr l \<Rightarrow> l | Inl _ \<Rightarrow> undefined)"

definition switching1 :: "Lease \<times> disk \<times> ctl_error option" where
  "switching1 = Intent all_ok 2 PhaseSwitching [] lease1 (fst acquired)"

lemma acquired_ok: "acquired = (fst acquired, Inr lease1)"
  by (simp add: lease1_def acquired_def Acquire_def fresh_disk_def readState_def settle_previous_def all_ok_def Let_def)

lemma switching1_ok: "switching1 = (fst switching1, fst (snd switching1), None)"
  "\<not> ls_released (fst switching1)" "or_Phase (ls_record (fst switching1)) = PhaseSwitching"
  "on_disk (fst switching1) (fst (snd switching1))"
  by (simp_all add: switching1_def Intent_def lease_write_def check_def lease1_def acquired_def Acquire_def fresh_disk_def
      readState_def settle_previous_def all_ok_def Let_def on_disk_def destructive_def)

definition died :: installation where
  "died = \<lparr>in_disk = fst (snd switching1), in_lease = None, in_dirty = True\<rparr>"

lemma died_reachable: "(op_step honest)\<^sup>*\<^sup>* idle died"
proof -
  let ?w1 = "\<lparr>in_disk = fst acquired, in_lease = Some lease1, in_dirty = False\<rparr>"
  let ?w2 = "\<lparr>in_disk = fst (snd switching1), in_lease = Some (fst switching1), in_dirty = False\<rparr>"
  have "op_step honest idle ?w1"
    using op_step.acquire [of all_ok idle 1 "''9''" "''op1''" "''t1''" "''restore''" "''cli''" "fst acquired" "Inr lease1"] acquired_ok
    by (simp add: idle_def locked_def acquired_def)
  moreover have "op_step honest ?w1 ?w2"
    using op_step.intent [of ?w1 lease1 honest PhaseSwitching all_ok 2 "[]" "fst switching1" "fst (snd switching1)" None] switching1_ok(1)
    by (simp add: honest_def asserted_def switching1_def)
  moreover have "op_step honest ?w2 (?w2\<lparr>in_dirty := True\<rparr>)"
    using op_step.touch [of ?w2 "fst switching1"] switching1_ok by (simp add: destructive_def)
  moreover have "op_step honest (?w2\<lparr>in_dirty := True\<rparr>) died"
    using op_step.crash [of honest "?w2\<lparr>in_dirty := True\<rparr>"] by (simp add: died_def)
  ultimately show ?thesis by (meson converse_rtranclp_into_rtranclp rtranclp.rtrancl_refl)
qed

text \<open>The restore died after its switch: the gate refuses, and the operator's verdict is what opens it.\<close>

definition settled :: "disk \<times> ctl_error option" where
  "settled = Resolve all_ok False 100 ''restored by hand'' (in_disk died)"

lemma settled_ok: "settled = (fst settled, None)"
  by (simp add: settled_def died_def switching1_def Intent_def lease_write_def check_def lease1_def acquired_def Acquire_def fresh_disk_def
      readState_def settle_previous_def all_ok_def Let_def Resolve_def resolved_def terminal_def)

theorem interrupted_operation_gated_witness:
  "(op_step honest)\<^sup>*\<^sup>* idle died \<and> in_dirty died \<and> GateStartup False 99 (in_disk died) = Some ErrRecoveryRequired
   \<and> (outcome_asserted died (died\<lparr>in_disk := fst settled, in_dirty := False\<rparr>))"
proof -
  have "op_step honest died (died\<lparr>in_disk := fst settled, in_dirty := False\<rparr>)"
    using op_step.resolve [of all_ok died 100 "''restored by hand''" "fst settled" None honest] settled_ok
    by (simp add: settled_def locked_def died_def asserted_def resolved_def terminal_def)
  from interrupted_operation_gated [OF _ died_reachable _ this, of False 99 99] show ?thesis
    using died_reachable by (simp add: idle_def died_def)
qed

theorem start_exclusive_witness:
  "may_start False 1 fresh_disk \<and> started ''op1'' ''t1'' PhaseValidating (fst acquired) \<and> check lease1 (fst acquired) = None"
  using start_exclusive [of all_ok False 1 "''9''" "''op1''" "''t1''" "''restore''" "''cli''" fresh_disk "fst acquired" lease1] acquired_ok
  by (simp add: acquired_def)

theorem fenced_lease_writes_nothing_witness:
  "\<exists>e. Intent all_ok 5 PhaseSwitching [] (lease1\<lparr>ls_released := True\<rparr>) fresh_disk = (lease1\<lparr>ls_released := True\<rparr>, fresh_disk, Some e)"
  using fenced_lease_writes_nothing [of "lease1\<lparr>ls_released := True\<rparr>" fresh_disk all_ok 5 PhaseSwitching "[]" None] by auto


theorem operation_key_permanent_witness:
  "LookupKey id (fst (RememberKey id [''k'' \<mapsto> ''op1''] ''k'' ''op2'')) ''k'' = Inr (Some ''op1'')"
proof -
  have "LookupKey id [''k'' \<mapsto> ''op1''] ''k'' = Inr (Some ''op1'')" by code_simp
  then show ?thesis using operation_key_permanent [of id "[''k'' \<mapsto> ''op1'']" "''k''" "''op1''"] by blast
qed

end
