(* ===== verification/Settlement.thy ===== *)
theory Settlement
  imports Go_Rat
begin

text \<open>
  The settlement of invoices: \<^verbatim>\<open>src/internal/finance/settlement.go\<close> with the text helpers of
  \<^verbatim>\<open>src/internal/finance/service.go\<close>, and the payment status of \<^verbatim>\<open>src/internal/sales/status.go\<close> and
  \<^verbatim>\<open>src/internal/purchasing/status.go\<close>.  Amount columns are \<^verbatim>\<open>numeric(20,4)\<close>: an integer number of ten-thousandths
  whose \<^verbatim>\<open>::text\<close> has four decimals.  An open item carries its reversal and its allocations, a reversed
  allocation counting negative; a query is its value on these rows, and a filter predicate is the set of rows it selects.
\<close>

section \<open>Amount texts\<close>

definition settlementRat :: "string \<Rightarrow> rat" where
  "settlementRat value = (case rat_SetString (trim_space value) of None \<Rightarrow> 0 | Some r \<Rightarrow> r)"

definition amountString :: "rat \<Rightarrow> nat \<Rightarrow> string" where
  "amountString value scale =
     (let negative = value < 0;
          numerator = \<bar>rat_num value\<bar> * 10 ^ scale;
          denominator = rat_den value;
          quotient = numerator div denominator;
          remainder = numerator mod denominator;
          quotient = (if 2 * remainder \<ge> denominator then quotient + 1 else quotient);
          digits = dec_of_nat (nat quotient);
          digits = (if 0 < scale then
             let digits = (if length digits \<le> scale then replicate (scale + 1 - length digits) (CHR ''0'') @ digits else digits) in
             take (length digits - scale) digits @ ''.'' @ drop (length digits - scale) digits
           else digits) in
      if negative \<and> quotient \<noteq> 0 then ''-'' @ digits else digits)"

definition settlementAmount :: "rat \<Rightarrow> string" where
  "settlementAmount value = amountString value 4"

definition equal_fold :: "string \<Rightarrow> string \<Rightarrow> bool" where \<comment> \<open>for a text without K and S, which fold beyond ASCII\<close>
  "equal_fold s t = (map upper_ascii s = map upper_ascii t)"

section \<open>The settlement of a document\<close>

record DocumentSettlement =
  ds_InvoiceTotal :: string
  ds_ReturnedTotal :: string
  ds_EffectiveInvoiceTotal :: string
  ds_CollectedTotal :: string
  ds_PaidTotal :: string
  ds_AmountDue :: string
  ds_AmountPayable :: string
  ds_CustomerCredit :: string
  ds_SupplierCredit :: string
  ds_PaymentStatus :: string
  ds_ReturnStatus :: string

definition deriveDocumentSettlement :: "string \<Rightarrow> string \<Rightarrow> string \<Rightarrow> string \<Rightarrow> string \<Rightarrow> DocumentSettlement" where
  "deriveDocumentSettlement invoiceAmount reversedAmount returnedAmount allocatedAmount side =
     (let original = settlementRat invoiceAmount;
          reversed = settlementRat reversedAmount;
          returned = settlementRat returnedAmount;
          allocated = settlementRat allocatedAmount;
          postedTotal = (if original - reversed < 0 then 0 else original - reversed);
          effective = (if postedTotal - returned < 0 then 0 else postedTotal - returned);
          owed = (if effective - allocated < 0 then 0 else effective - allocated);
          credit = (if allocated - effective < 0 then 0 else allocated - effective);
          paymentStatus = (if allocated \<ge> postedTotal \<or> (effective > 0 \<and> allocated \<ge> effective) then ''PAID''
                           else if allocated > 0 then ''PARTIALLY_PAID'' else ''UNPAID'');
          returnStatus = (if returned > 0 then (if returned \<ge> postedTotal \<and> postedTotal > 0 then ''FULL'' else ''PARTIAL'')
                          else ''NONE'');
          result = \<lparr>ds_InvoiceTotal = settlementAmount original, ds_ReturnedTotal = settlementAmount returned,
            ds_EffectiveInvoiceTotal = settlementAmount effective, ds_CollectedTotal = [], ds_PaidTotal = [],
            ds_AmountDue = [], ds_AmountPayable = [], ds_CustomerCredit = [], ds_SupplierCredit = [],
            ds_PaymentStatus = paymentStatus, ds_ReturnStatus = returnStatus\<rparr> in
      if equal_fold (trim_space side) ''PAYABLE'' then
        result\<lparr>ds_PaidTotal := settlementAmount allocated, ds_AmountPayable := settlementAmount owed,
               ds_SupplierCredit := settlementAmount credit\<rparr>
      else
        result\<lparr>ds_CollectedTotal := settlementAmount allocated, ds_AmountDue := settlementAmount owed,
               ds_CustomerCredit := settlementAmount credit\<rparr>)"

definition OutstandingAmount :: "DocumentSettlement \<Rightarrow> string" where
  "OutstandingAmount s =
     (let value = trim_space (ds_AmountDue s);
          value = (if value = [] then trim_space (ds_AmountPayable s) else value) in
      if value = [] then ''0.0000'' else value)"

section \<open>Rows\<close>

record open_item =
  oi_id :: nat
  oi_document :: nat
  oi_original :: int
  oi_side :: string
  oi_created_at :: int
  oi_reversal :: "int option"
  oi_allocations :: "(int \<times> bool) list" \<comment> \<open>amount, and whether the row reverses an allocation\<close>

record finance_db =
  fd_items :: "open_item list"
  fd_returns :: "(nat \<times> int) list" \<comment> \<open>\<^verbatim>\<open>finance_invoice_return_attributions\<close>: document and amount\<close>

definition numeric_text :: "int \<Rightarrow> string" where
  "numeric_text n = formatScaled n 4"

definition reversed_amount :: "open_item \<Rightarrow> int" where
  "reversed_amount oi = (case oi_reversal oi of None \<Rightarrow> 0 | Some a \<Rightarrow> a)"

definition allocated_amount :: "open_item \<Rightarrow> int" where
  "allocated_amount oi = sum_list (map (\<lambda>(a, rev). if rev then - a else a) (oi_allocations oi))"

definition returned_amount :: "finance_db \<Rightarrow> nat \<Rightarrow> int" where
  "returned_amount db doc = sum_list (map snd (filter (\<lambda>(d, _). d = doc) (fd_returns db)))"

definition newer :: "open_item \<Rightarrow> open_item \<Rightarrow> bool" where \<comment> \<open>\<^verbatim>\<open>ORDER BY created_at DESC, id DESC\<close>\<close>
  "newer x y = (oi_created_at y < oi_created_at x \<or> (oi_created_at y = oi_created_at x \<and> oi_id y < oi_id x))"

definition latest_item :: "finance_db \<Rightarrow> nat \<Rightarrow> open_item option" where
  "latest_item db doc =
     foldl (\<lambda>best x. case best of None \<Rightarrow> Some x | Some b \<Rightarrow> if newer x b then Some x else Some b) None
       (filter (\<lambda>x. oi_document x = doc) (fd_items db))"

text \<open>The texts of \<^verbatim>\<open>ReadDocumentSettlement\<close>'s query: a missing open item, reversal or allocation reads as \<^verbatim>\<open>'0'\<close>.\<close>

definition ReadDocumentSettlement :: "finance_db \<Rightarrow> nat \<Rightarrow> DocumentSettlement" where
  "ReadDocumentSettlement db doc =
     (let returned = (if \<exists>(d, _) \<in> set (fd_returns db). d = doc then numeric_text (returned_amount db doc) else ''0'') in
      case latest_item db doc of
        None \<Rightarrow> deriveDocumentSettlement ''0'' ''0'' returned ''0'' []
      | Some oi \<Rightarrow> deriveDocumentSettlement (numeric_text (oi_original oi))
          (case oi_reversal oi of None \<Rightarrow> ''0'' | Some a \<Rightarrow> numeric_text a)
          returned
          (if oi_allocations oi = [] then ''0'' else numeric_text (allocated_amount oi))
          (oi_side oi))"

section \<open>Payment status of lists and filters\<close>

text \<open>\<^verbatim>\<open>commercialPaymentStatus\<close> and \<^verbatim>\<open>purchasePaymentStatus\<close>: the same query on both sides.\<close>

definition commercialPaymentStatus :: "finance_db \<Rightarrow> nat \<Rightarrow> string" where
  "commercialPaymentStatus db doc =
     (case latest_item db doc of
        None \<Rightarrow> ''UNPAID''
      | Some oi \<Rightarrow>
          if oi_original oi - reversed_amount oi - allocated_amount oi \<le> 0 then ''PAID''
          else if allocated_amount oi > 0 then ''PARTIALLY_PAID''
          else ''UNPAID'')"

definition purchasePaymentStatus :: "finance_db \<Rightarrow> nat \<Rightarrow> string" where
  "purchasePaymentStatus db doc =
     (case latest_item db doc of
        None \<Rightarrow> ''UNPAID''
      | Some oi \<Rightarrow>
          if oi_original oi - reversed_amount oi - allocated_amount oi \<le> 0 then ''PAID''
          else if allocated_amount oi > 0 then ''PARTIALLY_PAID''
          else ''UNPAID'')"

text \<open>
  \<^verbatim>\<open>commercialPaymentPredicate\<close> and \<^verbatim>\<open>purchasePaymentPredicate\<close> build the same SQL: \<open>None\<close> when the request is no payment
  status, otherwise whether the predicate holds of a document row with status \<open>status\<close>.
\<close>

definition payment_case :: "finance_db \<Rightarrow> nat \<Rightarrow> string" where
  "payment_case db doc =
     (case latest_item db doc of
        None \<Rightarrow> ''UNPAID''
      | Some oi \<Rightarrow>
          let postedAmount = oi_original oi - reversed_amount oi;
              effectiveAmount = postedAmount - returned_amount db doc;
              allocated = allocated_amount oi in
          if allocated \<ge> postedAmount \<or> (effectiveAmount > 0 \<and> allocated \<ge> effectiveAmount) then ''PAID''
          else if allocated > 0 then ''PARTIALLY_PAID''
          else ''UNPAID'')"

definition commercialPaymentPredicate :: "string \<Rightarrow> finance_db \<Rightarrow> nat \<Rightarrow> string \<Rightarrow> bool option" where
  "commercialPaymentPredicate requested db doc status =
     (let requested = to_upper (trim_space requested) in
      if requested \<notin> {''UNPAID'', ''PARTIALLY_PAID'', ''PAID''} then None
      else Some (status = ''POSTED'' \<and> payment_case db doc = requested))"

definition purchasePaymentPredicate :: "string \<Rightarrow> finance_db \<Rightarrow> nat \<Rightarrow> string \<Rightarrow> bool option" where
  "purchasePaymentPredicate requested db doc status =
     (let requested = to_upper (trim_space requested) in
      if requested \<notin> {''UNPAID'', ''PARTIALLY_PAID'', ''PAID''} then None
      else Some (status = ''POSTED'' \<and> payment_case db doc = requested))"

section \<open>Amount texts denote rounded amounts\<close>

lemma amountString_eq: "amountString v k = formatScaled (round_half_away (v * 10 ^ k)) k"
proof -
  let ?a = "\<bar>rat_num v\<bar> * 10 ^ k"
  define Q where "Q = (if 2 * (?a mod rat_den v) \<ge> rat_den v then ?a div rat_den v + 1 else ?a div rat_den v)"
  have "\<bar>of_int (rat_den v)\<bar> = (of_int (rat_den v) :: rat)" by (rule abs_of_pos) simp
  then have "\<bar>v\<bar> * 10 ^ k = of_int ?a / of_int (rat_den v)"
    by (subst (1) rat_num_den [of v]) (simp add: abs_mult)
  then have fl: "\<lfloor>\<bar>v\<bar> * 10 ^ k + 1/2\<rfloor> = Q"
    using floor_half_up_div [of ?a "rat_den v"] by (simp add: Q_def)
  have Q0: "0 \<le> Q" by (simp add: Q_def pos_imp_zdiv_nonneg_iff add_nonneg_nonneg)
  have r: "round_half_away (v * 10 ^ k) = (if v < 0 then - Q else Q)"
    using fl by (auto simp: round_half_away_def mult_less_0_iff)
  have nat: "nat \<bar>round_half_away (v * 10 ^ k)\<bar> = nat Q" "round_half_away (v * 10 ^ k) < 0 \<longleftrightarrow> v < 0 \<and> Q \<noteq> 0"
    using Q0 by (auto simp: r)
  show ?thesis
    unfolding amountString_def formatScaled_def Let_def nat Q_def [symmetric]
    by (simp add: Suc_diff_le)
qed

lemma settlementRat_format: "settlementRat (formatScaled n k) = of_int n / 10 ^ k"
proof -
  have ok: "decimal_ok (fromScaledInt n k)" by simp
  have "dec_String (fromScaledInt n k) = formatScaled n k" "dtext (fromScaledInt n k) = formatScaled n k"
    by (simp_all add: fromScaledInt_def dec_String_def formatScaled_def Let_def)
  then show ?thesis
    using rat_SetString_decimal [OF ok] trim_space_decimal_text [OF ok] by (simp add: settlementRat_def)
qed

lemma settlementAmount_read: "settlementRat (settlementAmount v) = of_int (round_half_away (v * 10000)) / 10000"
  using settlementRat_format [of _ 4] by (simp add: settlementAmount_def amountString_eq)

lemma settlementRat_zero [simp]: "settlementRat ''0'' = 0"
proof -
  have "formatScaled 0 0 = ''0''" by code_simp
  then show ?thesis using settlementRat_format [of 0 0] by simp
qed

lemma settlementAmount_exact: "v = of_int n / 10000 \<Longrightarrow> settlementRat (settlementAmount v) = v"
  by (simp add: settlementAmount_read)


section \<open>What a settlement says\<close>

text \<open>The five amounts of the derivation, on values.\<close>

definition posted_total :: "rat \<Rightarrow> rat \<Rightarrow> rat" where
  "posted_total original reversed = max 0 (original - reversed)"

definition effective_total :: "rat \<Rightarrow> rat \<Rightarrow> rat \<Rightarrow> rat" where
  "effective_total original reversed returned = max 0 (posted_total original reversed - returned)"

definition settled_amount :: "DocumentSettlement \<Rightarrow> string" where
  "settled_amount s = (if ds_PaidTotal s = [] then ds_CollectedTotal s else ds_PaidTotal s)"

definition credit_amount :: "DocumentSettlement \<Rightarrow> string" where
  "credit_amount s = (if ds_SupplierCredit s = [] then ds_CustomerCredit s else ds_SupplierCredit s)"

lemma amount_text_trim: "trim_space (settlementAmount v) = settlementAmount v" "settlementAmount v \<noteq> []"
proof -
  let ?d = "fromScaledInt (round_half_away (v * 10 ^ 4)) 4"
  have "dtext ?d = settlementAmount v" by (simp add: fromScaledInt_def settlementAmount_def amountString_eq)
  then show "trim_space (settlementAmount v) = settlementAmount v" using trim_space_decimal_text [of ?d] by simp
  show "settlementAmount v \<noteq> []" by (simp add: settlementAmount_def amountString_def Let_def)
qed

lemma derive_amounts:
  fixes o_text r_text ret_text a_text side
  defines "s \<equiv> deriveDocumentSettlement o_text r_text ret_text a_text side"
    and "eff \<equiv> effective_total (settlementRat o_text) (settlementRat r_text) (settlementRat ret_text)"
    and "alloc \<equiv> settlementRat a_text"
  shows "OutstandingAmount s = settlementAmount (max 0 (eff - alloc))"
    and "credit_amount s = settlementAmount (max 0 (alloc - eff))"
    and "settled_amount s = settlementAmount alloc"
    and "ds_EffectiveInvoiceTotal s = settlementAmount eff"
    and "ds_PaymentStatus s = (if alloc \<ge> posted_total (settlementRat o_text) (settlementRat r_text) \<or> (eff > 0 \<and> alloc \<ge> eff)
         then ''PAID'' else if alloc > 0 then ''PARTIALLY_PAID'' else ''UNPAID'')"
proof -
  have p: "(if x - y < 0 then 0 else x - y) = max 0 (x - y)" for x y :: rat by (simp add: max_def)
  have nil: "trim_space [] = []" by (simp add: trim_space_def)
  note defs = s_def eff_def alloc_def deriveDocumentSettlement_def Let_def p effective_total_def posted_total_def
  show "OutstandingAmount s = settlementAmount (max 0 (eff - alloc))"
    unfolding defs OutstandingAmount_def by (simp add: amount_text_trim nil)
  show "credit_amount s = settlementAmount (max 0 (alloc - eff))"
    unfolding defs credit_amount_def by (simp add: amount_text_trim)
  show "settled_amount s = settlementAmount alloc"
    unfolding defs settled_amount_def by (simp add: amount_text_trim)
  show "ds_EffectiveInvoiceTotal s = settlementAmount eff" unfolding defs by simp
  show "ds_PaymentStatus s = (if alloc \<ge> posted_total (settlementRat o_text) (settlementRat r_text) \<or> (eff > 0 \<and> alloc \<ge> eff)
         then ''PAID'' else if alloc > 0 then ''PARTIALLY_PAID'' else ''UNPAID'')"
    unfolding defs by simp
qed

lemma grid_max: "x = of_int m / 10000 \<Longrightarrow> y = of_int n / 10000 \<Longrightarrow> \<exists>k. max 0 (x - y) = (of_int k / 10000 :: rat)"
  by (intro exI [of _ "max 0 (m - n)"]) (auto simp: max_def field_simps)

text \<open>
  Claim C24.  For amounts with at most four decimals a settlement loses nothing: read back from their texts, the
  outstanding amount and the credit are non-negative, never both positive, and outstanding - credit = effective total -
  settled total; \<^verbatim>\<open>OutstandingAmount\<close> finds the open amount on either side of the ledger.
\<close>

theorem settlement_balances:
  assumes "settlementRat o_text = of_int a / 10000" "settlementRat r_text = of_int b / 10000"
    and "settlementRat ret_text = of_int c / 10000" "settlementRat a_text = of_int d / 10000"
  shows "let s = deriveDocumentSettlement o_text r_text ret_text a_text side;
             outstanding = settlementRat (OutstandingAmount s); credit = settlementRat (credit_amount s) in
    0 \<le> outstanding \<and> 0 \<le> credit \<and> (outstanding = 0 \<or> credit = 0)
    \<and> outstanding - credit = settlementRat (ds_EffectiveInvoiceTotal s) - settlementRat (settled_amount s)
    \<and> settlementRat (ds_EffectiveInvoiceTotal s) = max 0 (max 0 (settlementRat o_text - settlementRat r_text) - settlementRat ret_text)"
proof -
  let ?eff = "effective_total (settlementRat o_text) (settlementRat r_text) (settlementRat ret_text)"
  let ?al = "settlementRat a_text"
  obtain p where p: "posted_total (settlementRat o_text) (settlementRat r_text) = of_int p / 10000"
    using grid_max [OF assms(1,2)] by (auto simp: posted_total_def)
  obtain e where e: "?eff = of_int e / 10000"
    using grid_max [OF p assms(3)] by (auto simp: effective_total_def)
  obtain k where k: "max 0 (?eff - ?al) = of_int k / 10000" using grid_max [OF e assms(4)] by blast
  obtain l where l: "max 0 (?al - ?eff) = of_int l / 10000" using grid_max [OF assms(4) e] by blast
  have "?eff = max 0 (max 0 (settlementRat o_text - settlementRat r_text) - settlementRat ret_text)"
    by (simp add: effective_total_def posted_total_def)
  moreover have "max 0 (?eff - ?al) - max 0 (?al - ?eff) = ?eff - ?al"
    "max 0 (?eff - ?al) = 0 \<or> max 0 (?al - ?eff) = 0" by (auto simp: max_def)
  ultimately show ?thesis
    unfolding Let_def derive_amounts settlementAmount_exact [OF k] settlementAmount_exact [OF l]
      settlementAmount_exact [OF e] settlementAmount_exact [OF assms(4)]
    by (intro conjI) (simp_all only: max.cobounded1)
qed

theorem settlement_balances_witness:
  "let s = deriveDocumentSettlement (numeric_text 1000000) ''0'' (numeric_text 250000) (numeric_text 400000) ''PAYABLE'' in
     settlementRat (OutstandingAmount s) - settlementRat (credit_amount s)
       = settlementRat (ds_EffectiveInvoiceTotal s) - settlementRat (settled_amount s)"
  using settlement_balances [of "numeric_text 1000000" 1000000 "''0''" 0 "numeric_text 250000" 250000 "numeric_text 400000" 400000 "''PAYABLE''"]
    settlementRat_format [of _ 4] by (simp add: numeric_text_def Let_def)

lemma grid_le: "(of_int x / 10000 \<le> (of_int y / 10000 :: rat)) = (x \<le> y)"
  by (simp add: divide_le_cancel)

lemma grid_pos: "(0 < (of_int x / 10000 :: rat)) = (0 < x)"
  by (simp add: zero_less_divide_iff)

lemma read_settlement_status:
  assumes "latest_item db doc = Some oi"
  shows "ds_PaymentStatus (ReadDocumentSettlement db doc) =
    (let posted = max 0 (oi_original oi - reversed_amount oi); eff = max 0 (posted - returned_amount db doc); alloc = allocated_amount oi in
     if alloc \<ge> posted \<or> (eff > 0 \<and> alloc \<ge> eff) then ''PAID'' else if alloc > 0 then ''PARTIALLY_PAID'' else ''UNPAID'')"
proof -
  have num: "settlementRat (numeric_text n) = of_int n / 10000" for n using settlementRat_format [of n 4] by (simp add: numeric_text_def)
  have rev: "settlementRat (case oi_reversal oi of None \<Rightarrow> ''0'' | Some a \<Rightarrow> numeric_text a) = of_int (reversed_amount oi) / 10000"
    by (simp add: reversed_amount_def num split: option.split)
  have al: "settlementRat (if oi_allocations oi = [] then ''0'' else numeric_text (allocated_amount oi)) = of_int (allocated_amount oi) / 10000"
    by (simp add: allocated_amount_def num)
  have none: "\<not> (\<exists>(d, _) \<in> set (fd_returns db). d = doc) \<Longrightarrow> returned_amount db doc = 0"
    by (auto simp: returned_amount_def filter_False)
  have ret: "settlementRat (if \<exists>(d, _) \<in> set (fd_returns db). d = doc then numeric_text (returned_amount db doc) else ''0'')
      = of_int (returned_amount db doc) / 10000"
    using none by (auto simp: num)
  have mx: "max 0 (of_int x / 10000 - of_int y / 10000) = (of_int (max 0 (x - y)) / 10000 :: rat)" for x y :: int
    by (auto simp: max_def field_simps)
  show ?thesis
    unfolding ReadDocumentSettlement_def assms Let_def option.case derive_amounts(5) rev al ret num
      effective_total_def posted_total_def mx
    by (simp only: grid_le grid_pos)
qed

text \<open>
  The card and the filter disagree on an invoice without an open item, such as one with nothing to pay: the card reads
  zeros and says \<^verbatim>\<open>PAID\<close>, the filter says \<^verbatim>\<open>UNPAID\<close>.
\<close>

lemma card_paid_filter_unpaid:
  assumes "latest_item db doc = None"
  shows "ds_PaymentStatus (ReadDocumentSettlement db doc) = ''PAID'' \<and> payment_case db doc = ''UNPAID''"
  by (simp add: ReadDocumentSettlement_def assms Let_def derive_amounts(5) payment_case_def posted_total_def)

text \<open>
  Claim C25.  What a payment-status filter selects, against what the card of the invoice shows.  For a valid status, an invoice
  whose returns and, if it has an open item, whose allocations do not sum to a negative amount, and any document status: sales
  and purchasing agree; only posted documents are selected; with an open item the predicate for a payment status holds exactly
  when \<^verbatim>\<open>ReadDocumentSettlement\<close> reports this status; without an open item the two disagree: the card says \<^verbatim>\<open>PAID\<close> and the
  document is selected as \<^verbatim>\<open>UNPAID\<close> only.  (Of several open items created at the same instant the filter's query may read any;
  the model takes the one the card reads.)
\<close>

theorem payment_filter_matches_card:
  assumes "case latest_item db doc of None \<Rightarrow> True | Some oi \<Rightarrow> 0 \<le> allocated_amount oi" "0 \<le> returned_amount db doc"
    and "to_upper (trim_space requested) = st" "st \<in> {''UNPAID'', ''PARTIALLY_PAID'', ''PAID''}"
  shows "commercialPaymentPredicate requested db doc status = purchasePaymentPredicate requested db doc status
    \<and> commercialPaymentPredicate requested db doc status = Some (status = ''POSTED''
        \<and> (case latest_item db doc of
             Some oi \<Rightarrow> ds_PaymentStatus (ReadDocumentSettlement db doc) = st
           | None \<Rightarrow> ds_PaymentStatus (ReadDocumentSettlement db doc) = ''PAID'' \<and> st = ''UNPAID''))"
proof (cases "latest_item db doc")
  case None
  then show ?thesis using card_paid_filter_unpaid [OF None] assms(3,4)
    by (auto simp: commercialPaymentPredicate_def purchasePaymentPredicate_def)
next
  case (Some oi)
  have "payment_case db doc = ds_PaymentStatus (ReadDocumentSettlement db doc)"
    unfolding read_settlement_status [OF Some] payment_case_def Some Let_def option.case
    using assms(1,2) Some by (auto simp: max_def)
  then show ?thesis using Some assms(3,4) by (simp add: commercialPaymentPredicate_def purchasePaymentPredicate_def)
qed

definition sample_db :: finance_db where
  "sample_db = \<lparr>fd_items = [\<lparr>oi_id = 1, oi_document = 7, oi_original = 1000000, oi_side = ''RECEIVABLE'', oi_created_at = 5,
     oi_reversal = None, oi_allocations = [(600000, False)]\<rparr>], fd_returns = [(7, 400000)]\<rparr>"

lemma sample_item: "latest_item sample_db 7 = Some \<lparr>oi_id = 1, oi_document = 7, oi_original = 1000000, oi_side = ''RECEIVABLE'',
    oi_created_at = 5, oi_reversal = None, oi_allocations = [(600000, False)]\<rparr>"
  by (simp add: latest_item_def sample_db_def)

theorem payment_filter_matches_card_witness:
  "commercialPaymentPredicate ''paid'' sample_db 7 ''POSTED'' = Some (ds_PaymentStatus (ReadDocumentSettlement sample_db 7) = ''PAID'')
   \<and> commercialPaymentPredicate ''paid'' sample_db 9 ''POSTED'' = Some False"
proof -
  have p: "to_upper (trim_space ''paid'') = ''PAID''" by code_simp
  have none: "latest_item sample_db 9 = None" by (simp add: latest_item_def sample_db_def)
  have "returned_amount sample_db 7 = 400000" "returned_amount sample_db 9 = 0" by (simp_all add: returned_amount_def sample_db_def)
  then show ?thesis
    using payment_filter_matches_card [where status = "''POSTED''" and db = sample_db and doc = 7, OF _ _ p]
      payment_filter_matches_card [where status = "''POSTED''" and db = sample_db and doc = 9, OF _ _ p] sample_item none
    by (auto simp: allocated_amount_def)
qed

text \<open>
  The purchase list shows \<^verbatim>\<open>purchasePaymentStatus\<close>, which ignores returns: an invoice of 100 with a return of 40 and a
  payment of 60 is listed as partially paid while its filter and its card say \<^verbatim>\<open>PAID\<close>.
\<close>

lemma list_status_ignores_returns:
  "purchasePaymentStatus sample_db 7 = ''PARTIALLY_PAID'' \<and> payment_case sample_db 7 = ''PAID''
   \<and> ds_PaymentStatus (ReadDocumentSettlement sample_db 7) = ''PAID''"
  by (simp add: read_settlement_status [OF sample_item] purchasePaymentStatus_def payment_case_def sample_item
      allocated_amount_def reversed_amount_def Let_def) (simp add: returned_amount_def sample_db_def)

end
