(* ===== verification/Go_Sort.thy ===== *)
theory Go_Sort
  imports Prelude "HOL-Library.Multiset"
begin

text \<open>
  What the program uses of Go's \<^verbatim>\<open>sort\<close> package: the order of strings, which compares bytes, and \<^verbatim>\<open>SliceStable\<close>
  for a \<^verbatim>\<open>less\<close> function.  A locale states what a \<^verbatim>\<open>less\<close> function owes; under it the result is sorted; it is
  a permutation for any \<^verbatim>\<open>less\<close>.
\<close>

fun str_less :: "string \<Rightarrow> string \<Rightarrow> bool" where
  "str_less s [] = False"
| "str_less [] (b # bs) = True"
| "str_less (a # as) (b # bs) = ((of_char a :: nat) < of_char b \<or> (a = b \<and> str_less as bs))"

fun insert_by :: "('a \<Rightarrow> 'a \<Rightarrow> bool) \<Rightarrow> 'a \<Rightarrow> 'a list \<Rightarrow> 'a list" where
  "insert_by lt x [] = [x]"
| "insert_by lt x (y # ys) = (if lt y x then y # insert_by lt x ys else x # y # ys)"

definition stable_sort :: "('a \<Rightarrow> 'a \<Rightarrow> bool) \<Rightarrow> 'a list \<Rightarrow> 'a list" where
  "stable_sort lt xs = foldr (insert_by lt) xs []"

lemma stable_sort_simps [simp]:
  "stable_sort lt [] = []" "stable_sort lt (x # xs) = insert_by lt x (stable_sort lt xs)"
  by (simp_all add: stable_sort_def)

lemma mset_insert_by [simp]: "mset (insert_by lt x ys) = add_mset x (mset ys)"
  by (induction ys) auto

lemma mset_stable_sort [simp]: "mset (stable_sort lt xs) = mset xs"
  by (induction xs) auto

lemma set_stable_sort [simp]: "set (stable_sort lt xs) = set xs"
  by (metis mset_stable_sort set_mset_mset)

lemma length_stable_sort [simp]: "length (stable_sort lt xs) = length xs"
  by (metis mset_stable_sort size_mset)

lemma str_less_irrefl [simp]: "\<not> str_less s s"
  by (induction s) auto

lemma str_less_total: "s = t \<or> str_less s t \<or> str_less t s"
proof (induction s t rule: str_less.induct)
  case (3 a as b bs)
  then show ?case
    by (auto simp: not_less_iff_gr_or_eq)
next
  case (1 s)
  then show ?case by (cases s) auto
qed simp

lemma str_less_trans: "str_less s t \<Longrightarrow> str_less t u \<Longrightarrow> str_less s u"
proof (induction s t arbitrary: u rule: str_less.induct)
  case (3 a as b bs)
  then show ?case by (cases u) auto
next
  case (2 b bs)
  then show ?case by (cases u) auto
qed simp

text \<open>A \<^verbatim>\<open>less\<close> function: irreflexive, transitive, and incomparability is transitive too.\<close>

locale weak_less =
  fixes lt :: "'a \<Rightarrow> 'a \<Rightarrow> bool"
  assumes irrefl: "\<not> lt x x"
    and trans: "lt x y \<Longrightarrow> lt y z \<Longrightarrow> lt x z"
    and weak: "lt x z \<Longrightarrow> lt x y \<or> lt y z"
begin

lemma asym: "lt x y \<Longrightarrow> \<not> lt y x"
  using irrefl trans by blast

lemma sorted_insert:
  "sorted_wrt (\<lambda>x y. \<not> lt y x) ys \<Longrightarrow> sorted_wrt (\<lambda>x y. \<not> lt y x) (insert_by lt x ys)"
proof (induction ys)
  case (Cons y ys)
  have mem: "z \<in> set (insert_by lt x ys) \<longleftrightarrow> z = x \<or> z \<in> set ys" for z
    by (metis insert_iff list.set(2) mset.simps(2) mset_insert_by set_mset_mset)
  show ?case
  proof (cases "lt y x")
    case True
    then show ?thesis using Cons asym by (auto simp: mem)
  next
    case False
    then show ?thesis using Cons.prems weak by (auto)
  qed
qed simp

lemma sorted_stable: "sorted_wrt (\<lambda>x y. \<not> lt y x) (stable_sort lt xs)"
  by (induction xs) (auto intro: sorted_insert)

end

interpretation ids: weak_less str_less
proof unfold_locales
  show "\<not> str_less x x" for x by simp
  show "str_less x y \<Longrightarrow> str_less y z \<Longrightarrow> str_less x z" for x y z by (rule str_less_trans)
  show "str_less x z \<Longrightarrow> str_less x y \<or> str_less y z" for x y z
    using str_less_total [of x y] str_less_trans [of y x z] by auto
qed

end
