(* ===== verification/Allocation.thy ===== *)
theory Allocation
  imports Settlement Go_Sort
begin

text \<open>
  How a payment is spread over open invoices: \<^verbatim>\<open>FIFOAllocations\<close> of \<^verbatim>\<open>src/internal/finance/service.go\<close>.  Dates are
  instants; amounts are the texts of the source, read with \<^verbatim>\<open>parsePositive\<close> and \<^verbatim>\<open>mustRat\<close>.
\<close>

section \<open>Amounts\<close>

definition parseRat :: "string \<Rightarrow> money_error + rat" where
  "parseRat value = (case rat_SetString (trim_space value) of None \<Rightarrow> Inl ErrInvalidDecimal | Some r \<Rightarrow> Inr r)"

definition parsePositive :: "string \<Rightarrow> int \<Rightarrow> money_error + rat" where
  "parsePositive value scale =
     (case ParseDecimal value scale of
        Inl e \<Rightarrow> Inl ErrInvalidDecimal
      | Inr d \<Rightarrow> if dec_Sign d \<le> 0 then Inl ErrInvalidDecimal else parseRat (dec_String d))"

definition mustRat :: "string \<Rightarrow> rat" where
  "mustRat value = (case parseRat value of Inl e \<Rightarrow> 0 | Inr r \<Rightarrow> r)"

section \<open>FIFO\<close>

record OpenItemDue =
  due_PlanID :: "string option"
  due_InstallmentNo :: int
  due_DueDate :: "int option"
  due_OpenAmount :: string

record OpenItem =
  op_DueSchedule :: "OpenItemDue list"
  op_ID :: string
  op_DocumentID :: string
  op_DocumentNo :: string
  op_PartyID :: string
  op_Side :: string
  op_Currency :: string
  op_OriginalAmount :: string
  op_AllocatedAmount :: string
  op_OpenAmount :: string
  op_ExchangeRate :: string
  op_BaseCurrency :: string
  op_DocumentDate :: int
  op_DueDate :: "int option"

record AllocationInput =
  ai_OpenItemID :: string
  ai_Amount :: string
  ai_IdempotencyKey :: string

definition portions :: "OpenItem \<Rightarrow> OpenItem list" where
  "portions item =
     (if op_DueSchedule item = [] then [item]
      else map (\<lambda>due. item\<lparr>op_OpenAmount := due_OpenAmount due, op_DueDate := due_DueDate due\<rparr>) (op_DueSchedule item))"

definition by_document :: "OpenItem \<Rightarrow> OpenItem \<Rightarrow> bool" where
  "by_document x y =
     (if op_DocumentDate x = op_DocumentDate y then str_less (op_ID x) (op_ID y)
      else op_DocumentDate x < op_DocumentDate y)"

definition fifo_less :: "OpenItem \<Rightarrow> OpenItem \<Rightarrow> bool" where
  "fifo_less x y =
     (case (op_DueDate x, op_DueDate y) of
        (None, None) \<Rightarrow> by_document x y
      | (None, Some e) \<Rightarrow> False
      | (Some d, None) \<Rightarrow> True
      | (Some d, Some e) \<Rightarrow> if d \<noteq> e then d < e else by_document x y)"

definition fifo_order :: "OpenItem list \<Rightarrow> OpenItem list" where
  "fifo_order items = stable_sort fifo_less (concat (map portions items))"

fun fifo_loop :: "rat \<Rightarrow> OpenItem list \<Rightarrow> AllocationInput list" where
  "fifo_loop remaining [] = []"
| "fifo_loop remaining (item # rest) =
     (case parsePositive (op_OpenAmount item) 4 of
        Inl e \<Rightarrow> fifo_loop remaining rest
      | Inr opened \<Rightarrow>
          if opened \<le> 0 then fifo_loop remaining rest
          else
            let part = (if remaining < opened then remaining else opened);
                remaining = remaining - part in
            \<lparr>ai_OpenItemID = op_ID item, ai_Amount = amountString part 4, ai_IdempotencyKey = []\<rparr>
              # (if remaining = 0 then [] else fifo_loop remaining rest))"

fun merge_loop :: "AllocationInput list \<Rightarrow> (string \<rightharpoonup> nat) \<Rightarrow> AllocationInput list \<Rightarrow> AllocationInput list" where
  "merge_loop merged positions [] = merged"
| "merge_loop merged positions (part # rest) =
     (case positions (ai_OpenItemID part) of
        Some index \<Rightarrow>
          merge_loop (merged[index := (merged ! index)\<lparr>ai_Amount :=
            amountString (mustRat (ai_Amount (merged ! index)) + mustRat (ai_Amount part)) 4\<rparr>]) positions rest
      | None \<Rightarrow> merge_loop (merged @ [part]) (positions(ai_OpenItemID part \<mapsto> length merged)) rest)"

text \<open>The error is \<^verbatim>\<open>identity.ErrValidation\<close>; the model names its reason, the invalid amount.\<close>

definition FIFOAllocations :: "OpenItem list \<Rightarrow> string \<Rightarrow> money_error + AllocationInput list" where
  "FIFOAllocations items amount =
     (case parsePositive amount 4 of
        Inl e \<Rightarrow> Inl e
      | Inr remaining \<Rightarrow> Inr (merge_loop [] Map.empty (fifo_loop remaining (fifo_order items))))"

section \<open>Reading and printing amounts of four decimals\<close>

lemma mustRat_eq: "mustRat value = settlementRat value"
  by (simp add: mustRat_def parseRat_def settlementRat_def split: option.split)

lemma amount_roundtrip: "mustRat (amountString (of_int n / 10000) 4) = of_int n / 10000"
  using settlementAmount_exact [of "of_int n / 10000" n] by (simp add: mustRat_eq settlementAmount_def)

lemma mustRat_numeric: "mustRat (numeric_text n) = of_int n / 10000"
  using settlementRat_format [of n 4] by (simp add: mustRat_eq numeric_text_def)

lemma parseRat_format: "parseRat (formatScaled n k) = Inr (of_int n / 10 ^ k)"
proof -
  have "decimal_ok (fromScaledInt n k)" by simp
  moreover have "dec_String (fromScaledInt n k) = formatScaled n k"
    by (simp add: fromScaledInt_def dec_String_def formatScaled_def Let_def)
  ultimately show ?thesis
    using rat_SetString_decimal trim_space_decimal_text fromScaledInt_simps fromScaledInt_rat
    by (metis (no_types, lifting) option.simps(5) parseRat_def)
qed

lemma dec_String_ok: "decimal_ok d \<Longrightarrow> dec_String d = formatScaled (dvalue d) (dscale d)"
  by (simp add: decimal_ok_def dec_String_def formatScaled_def Let_def)

lemma parsePositive_grid:
  assumes "parsePositive s 4 = Inr r" shows "0 < r \<and> (\<exists>n :: int. r = of_int n / 10000)"
proof -
  obtain d where d: "ParseDecimal s 4 = Inr d" "0 < dec_Sign d" "parseRat (dec_String d) = Inr r"
    using assms by (auto simp: parsePositive_def split: sum.splits if_splits)
  have ok: "decimal_ok d" and sc: "dscale d \<le> 4" using ParseDecimal_ok [OF d(1)] by simp_all
  have r: "r = decimal_rat d"
    using d(3) parseRat_format [of "dvalue d" "dscale d"] by (simp add: dec_String_ok [OF ok] decimal_rat_def)
  have "0 < r" using d(2) by (simp add: r dec_Sign_rat split: if_splits)
  moreover have p: "(10::rat) ^ dscale d * 10 ^ (4 - dscale d) = 10000"
    using sc by (simp flip: power_add)
  have "r = of_int (dvalue d * 10 ^ (4 - dscale d)) / 10000"
    unfolding r decimal_rat_def p [symmetric] by simp
  ultimately show ?thesis by blast
qed

section \<open>The order of payment\<close>

lemma by_document_weak:
  "\<not> by_document x x" "by_document x y \<Longrightarrow> by_document y z \<Longrightarrow> by_document x z"
  "by_document x z \<Longrightarrow> by_document x y \<or> by_document y z"
  using ids.weak [of "op_ID x" "op_ID z" "op_ID y"] str_less_trans
  by (auto simp: by_document_def split: if_splits)

interpretation fifo: weak_less fifo_less
proof unfold_locales
  show "\<not> fifo_less x x" for x by (simp add: fifo_less_def by_document_weak(1) split: option.split)
  show "fifo_less x y \<Longrightarrow> fifo_less y z \<Longrightarrow> fifo_less x z" for x y z
    using by_document_weak(2) [of x y z] by (auto simp: fifo_less_def split: option.splits if_splits)
  show "fifo_less x z \<Longrightarrow> fifo_less x y \<or> fifo_less y z" for x y z
    using by_document_weak(3) [of x z y] by (auto simp: fifo_less_def split: option.splits if_splits)
qed

section \<open>What the loop pays\<close>

definition open_value :: "OpenItem \<Rightarrow> rat" where
  "open_value item = (case parsePositive (op_OpenAmount item) 4 of Inl e \<Rightarrow> 0 | Inr v \<Rightarrow> v)"

text \<open>The reference: portion \<open>i\<close> takes what the earlier portions left of the payment, up to its own open amount.\<close>

definition fifo_share :: "rat \<Rightarrow> rat list \<Rightarrow> nat \<Rightarrow> rat" where
  "fifo_share a ys i = max 0 (min (ys ! i) (a - sum_list (take i ys)))"

definition paid :: "(string \<Rightarrow> bool) \<Rightarrow> AllocationInput list \<Rightarrow> rat" where
  "paid P as = (\<Sum>a\<leftarrow>as. if P (ai_OpenItemID a) then mustRat (ai_Amount a) else 0)"

definition on_scale :: "rat \<Rightarrow> bool" where
  "on_scale r = (\<exists>n :: int. r = of_int n / 10000)"

definition grid_input :: "AllocationInput \<Rightarrow> bool" where
  "grid_input a = (\<exists>r. ai_Amount a = amountString r 4 \<and> on_scale r \<and> 0 < r)"

lemma on_scale_diff: "on_scale x \<Longrightarrow> on_scale y \<Longrightarrow> on_scale (x - y)"
  unfolding on_scale_def by (metis diff_divide_distrib of_int_diff)

lemma on_scale_add: "on_scale x \<Longrightarrow> on_scale y \<Longrightarrow> on_scale (x + y)"
  unfolding on_scale_def by (metis add_divide_distrib of_int_add)

lemma on_scale_amount: "on_scale r \<Longrightarrow> mustRat (amountString r 4) = r"
  unfolding on_scale_def using amount_roundtrip by (elim exE) (simp only:)

lemma grid_input_amount: "grid_input a \<Longrightarrow> on_scale (mustRat (ai_Amount a)) \<and> 0 < mustRat (ai_Amount a)"
  unfolding grid_input_def using on_scale_amount by auto

lemma open_value_cases:
  "(parsePositive (op_OpenAmount item) 4 = Inr (open_value item) \<and> 0 < open_value item \<and> on_scale (open_value item))
   \<or> ((\<exists>e. parsePositive (op_OpenAmount item) 4 = Inl e) \<and> open_value item = 0)"
  using parsePositive_grid [of "op_OpenAmount item"]
  by (cases "parsePositive (op_OpenAmount item) 4") (auto simp: open_value_def on_scale_def)

lemma open_value_nonneg: "0 \<le> open_value item"
  using open_value_cases [of item] by auto

lemma fifo_share_Cons:
  "fifo_share a (y # ys) 0 = max 0 (min y a)" "fifo_share a (y # ys) (Suc i) = fifo_share (a - y) ys i"
  by (simp_all add: fifo_share_def algebra_simps)

lemma fifo_share_done: "a \<le> 0 \<Longrightarrow> \<forall>y \<in> set ys. 0 \<le> y \<Longrightarrow> i < length ys \<Longrightarrow> fifo_share a ys i = 0"
proof -
  assume a: "a \<le> 0" "\<forall>y \<in> set ys. 0 \<le> y" "i < length ys"
  then have "0 \<le> sum_list (take i ys)" by (intro sum_list_nonneg) (auto dest: in_set_takeD)
  then show ?thesis using a(1) by (auto simp: fifo_share_def min_def max_def)
qed

definition shares_of :: "(string \<Rightarrow> bool) \<Rightarrow> rat \<Rightarrow> OpenItem list \<Rightarrow> rat" where
  "shares_of P a ord = (\<Sum>i<length ord. if P (op_ID (ord ! i)) then fifo_share a (map open_value ord) i else 0)"

lemma shares_of_Cons:
  "shares_of P a (x # ord) = (if P (op_ID x) then max 0 (min (open_value x) a) else 0) + shares_of P (a - open_value x) ord"
  unfolding shares_of_def by (simp only: length_Cons list.map sum.lessThan_Suc_shift nth_Cons_0 nth_Cons_Suc fifo_share_Cons)

lemma shares_of_done: "a \<le> 0 \<Longrightarrow> shares_of P a ord = 0"
  unfolding shares_of_def by (intro sum.neutral) (auto simp: fifo_share_done open_value_nonneg)

lemma fifo_loop_paid:
  "0 < a \<Longrightarrow> on_scale a \<Longrightarrow> paid P (fifo_loop a ord) = shares_of P a ord \<and> (\<forall>x \<in> set (fifo_loop a ord). grid_input x)"
proof (induction ord arbitrary: a)
  case Nil
  then show ?case by (simp add: paid_def shares_of_def)
next
  case (Cons x ord)
  consider (skip) e where "parsePositive (op_OpenAmount x) 4 = Inl e" "open_value x = 0"
    | (pay) "parsePositive (op_OpenAmount x) 4 = Inr (open_value x)" "0 < open_value x" "on_scale (open_value x)"
    using open_value_cases [of x] by blast
  then show ?case
  proof cases
    case skip
    then show ?thesis using Cons by (simp add: shares_of_Cons)
  next
    case pay
    let ?p = "if a < open_value x then a else open_value x"
    have p: "0 < ?p" "on_scale ?p" using pay Cons.prems by auto
    have g: "grid_input \<lparr>ai_OpenItemID = op_ID x, ai_Amount = amountString ?p 4, ai_IdempotencyKey = []\<rparr>"
      unfolding grid_input_def using p by auto
    have m: "max 0 (min (open_value x) a) = ?p" using pay Cons.prems by (simp add: min_def)
    show ?thesis
    proof (cases "a - ?p = 0")
      case True
      then have "shares_of P (a - open_value x) ord = 0" by (intro shares_of_done) (simp split: if_splits)
      then show ?thesis using True pay g on_scale_amount [OF p(2)] by (simp add: shares_of_Cons m paid_def Let_def)
    next
      case False
      then have "open_value x < a" using Cons.prems by (simp split: if_splits)
      then have ih: "paid P (fifo_loop (a - open_value x) ord) = shares_of P (a - open_value x) ord
          \<and> (\<forall>y \<in> set (fifo_loop (a - open_value x) ord). grid_input y)"
        using Cons.prems pay by (intro Cons.IH) (auto intro: on_scale_diff)
      then show ?thesis
        using \<open>open_value x < a\<close> pay g on_scale_amount [OF p(2)] by (simp add: shares_of_Cons paid_def Let_def m)
    qed
  qed
qed

lemma paid_simps [simp]:
  "paid P [] = 0" "paid P (a # as) = (if P (ai_OpenItemID a) then mustRat (ai_Amount a) else 0) + paid P as"
  "paid P (as @ bs) = paid P as + paid P bs"
  by (simp_all add: paid_def)

lemma paid_update:
  "i < length as \<Longrightarrow> ai_OpenItemID b = ai_OpenItemID (as ! i) \<Longrightarrow>
   paid P (as[i := b]) = paid P as + (if P (ai_OpenItemID b) then mustRat (ai_Amount b) - mustRat (ai_Amount (as ! i)) else 0)"
  by (induction as arbitrary: i) (auto simp: nth_Cons split: nat.splits)

definition indexed :: "AllocationInput list \<Rightarrow> (string \<rightharpoonup> nat) \<Rightarrow> bool" where
  "indexed merged positions =
     (distinct (map ai_OpenItemID merged)
      \<and> (\<forall>k i. positions k = Some i \<longleftrightarrow> i < length merged \<and> ai_OpenItemID (merged ! i) = k))"

lemma merge_loop_paid:
  assumes "indexed merged positions" "\<forall>a \<in> set merged \<union> set parts. grid_input a"
  shows "distinct (map ai_OpenItemID (merge_loop merged positions parts))
    \<and> (\<forall>P. paid P (merge_loop merged positions parts) = paid P merged + paid P parts)
    \<and> (\<forall>a \<in> set (merge_loop merged positions parts). grid_input a)"
  using assms
proof (induction parts arbitrary: merged positions)
  case Nil
  then show ?case by (simp add: indexed_def)
next
  case (Cons part parts)
  show ?case
  proof (cases "positions (ai_OpenItemID part)")
    case None
    define p where "p = positions(ai_OpenItemID part \<mapsto> length merged)"
    have idx: "indexed (merged @ [part]) p"
      using Cons.prems(1) None unfolding indexed_def p_def
      by (auto simp: nth_append in_set_conv_nth less_Suc_eq) (metis option.distinct(1))+
    have "merge_loop merged positions (part # parts) = merge_loop (merged @ [part]) p parts" by (simp add: None p_def)
    then show ?thesis using Cons.IH [OF idx] Cons.prems(2) by (simp add: add.assoc)
  next
    case (Some i)
    let ?b = "(merged ! i)\<lparr>ai_Amount := amountString (mustRat (ai_Amount (merged ! i)) + mustRat (ai_Amount part)) 4\<rparr>"
    have i: "i < length merged" "ai_OpenItemID (merged ! i) = ai_OpenItemID part"
      using Cons.prems(1) Some by (auto simp: indexed_def)
    have g: "grid_input (merged ! i)" "grid_input part" using Cons.prems(2) i(1) by auto
    have v: "on_scale (mustRat (ai_Amount (merged ! i)) + mustRat (ai_Amount part))"
      "0 < mustRat (ai_Amount (merged ! i)) + mustRat (ai_Amount part)"
      using grid_input_amount [OF g(1)] grid_input_amount [OF g(2)] by (auto intro: on_scale_add)
    have ids: "map ai_OpenItemID (merged[i := ?b]) = map ai_OpenItemID merged"
      using i(1) by (simp add: map_update) (metis list_update_id map_update nth_map)
    have "indexed (merged[i := ?b]) positions"
      using Cons.prems(1) unfolding indexed_def ids by (metis (no_types, lifting) ids length_list_update nth_map)
    moreover have "grid_input ?b" unfolding grid_input_def using v by auto
    then have "\<forall>a \<in> set (merged[i := ?b]) \<union> set parts. grid_input a"
      using Cons.prems(2) set_update_subset_insert [of merged i ?b] by auto
    moreover have "paid P (merged[i := ?b]) = paid P merged + (if P (ai_OpenItemID part) then mustRat (ai_Amount part) else 0)" for P
      using paid_update [OF i(1), of ?b P] on_scale_amount [OF v(1)] i(2) by simp
    ultimately show ?thesis using Cons.IH [of "merged[i := ?b]" positions] Some by simp
  qed
qed

lemma shares_of_total:
  "0 \<le> a \<Longrightarrow> shares_of (\<lambda>_. True) a ord = min a (sum_list (map open_value ord))"
proof (induction ord arbitrary: a)
  case (Cons x ord)
  have n: "0 \<le> sum_list (map open_value ord)" by (intro sum_list_nonneg) (auto simp: open_value_nonneg)
  show ?case
  proof (cases "open_value x \<le> a")
    case True
    then show ?thesis using Cons.IH [of "a - open_value x"] open_value_nonneg [of x]
      by (simp add: shares_of_Cons min_def)
  next
    case False
    then show ?thesis using Cons.prems n by (simp add: shares_of_Cons shares_of_done min_def)
  qed
qed (simp add: shares_of_def)

text \<open>
  Claim C26.  \<^verbatim>\<open>FIFOAllocations\<close> pays the dated portions of the open invoices in the order due date (undated last),
  document date, id: with the portions in that order, an invoice receives exactly the sum, over its portions, of
  \<open>max 0 (min open (amount - what earlier portions took))\<close>.  Each invoice is named once, every amount is positive, and the
  total is the payment or, when less is open, everything that is open.
\<close>

theorem fifo_allocations_greedy:
  assumes "parsePositive amount 4 = Inr a"
  shows "\<exists>allocs. FIFOAllocations items amount = Inr allocs
    \<and> distinct (map ai_OpenItemID allocs)
    \<and> (\<forall>x \<in> set allocs. 0 < mustRat (ai_Amount x))
    \<and> (\<forall>k. paid (\<lambda>i. i = k) allocs
          = (\<Sum>i<length (fifo_order items). if op_ID (fifo_order items ! i) = k
               then fifo_share a (map open_value (fifo_order items)) i else 0))
    \<and> (\<Sum>x\<leftarrow>allocs. mustRat (ai_Amount x)) = min a (sum_list (map open_value (fifo_order items)))
    \<and> sorted_wrt (\<lambda>x y. \<not> fifo_less y x) (fifo_order items)
    \<and> mset (fifo_order items) = mset (concat (map portions items))"
proof -
  let ?l = "fifo_loop a (fifo_order items)"
  have a: "0 < a" "on_scale a" using parsePositive_grid [OF assms] by (auto simp: on_scale_def)
  have l: "paid P ?l = shares_of P a (fifo_order items)" "\<forall>x \<in> set ?l. grid_input x" for P
    using fifo_loop_paid [OF a] by auto
  have m: "distinct (map ai_OpenItemID (merge_loop [] Map.empty ?l))"
    "paid P (merge_loop [] Map.empty ?l) = paid P ?l" "\<forall>x \<in> set (merge_loop [] Map.empty ?l). grid_input x" for P
    using merge_loop_paid [of "[]" Map.empty ?l] l(2) by (auto simp: indexed_def)
  have "(\<Sum>x\<leftarrow>merge_loop [] Map.empty ?l. mustRat (ai_Amount x)) = paid (\<lambda>_. True) (merge_loop [] Map.empty ?l)"
    by (simp add: paid_def)
  also have "\<dots> = min a (sum_list (map open_value (fifo_order items)))"
    using a(1) by (simp add: m(2) l(1) shares_of_total)
  finally have total: "(\<Sum>x\<leftarrow>merge_loop [] Map.empty ?l. mustRat (ai_Amount x)) = min a (sum_list (map open_value (fifo_order items)))" .
  have order: "sorted_wrt (\<lambda>x y. \<not> fifo_less y x) (fifo_order items)" "mset (fifo_order items) = mset (concat (map portions items))"
    by (simp_all add: fifo_order_def fifo.sorted_stable)
  have each: "paid (\<lambda>i. i = k) (merge_loop [] Map.empty ?l)
      = (\<Sum>i<length (fifo_order items). if op_ID (fifo_order items ! i) = k
               then fifo_share a (map open_value (fifo_order items)) i else 0)" for k
    by (simp only: m(2) l(1) shares_of_def)
  show ?thesis
    by (intro exI [of _ "merge_loop [] Map.empty ?l"] conjI allI ballI each total order m(1))
      (simp add: FIFOAllocations_def assms, use m(3) grid_input_amount in blast)
qed

definition sample_item_1 :: OpenItem where
  "sample_item_1 = \<lparr>op_DueSchedule = [], op_ID = ''i1'', op_DocumentID = [], op_DocumentNo = [], op_PartyID = [], op_Side = [],
     op_Currency = [], op_OriginalAmount = [], op_AllocatedAmount = [], op_OpenAmount = ''40.0000'', op_ExchangeRate = [],
     op_BaseCurrency = [], op_DocumentDate = 2, op_DueDate = None\<rparr>"

definition sample_items :: "OpenItem list" where
  "sample_items = [sample_item_1, sample_item_1\<lparr>op_ID := ''i2'', op_OpenAmount := ''80.5'', op_DueDate := Some 9\<rparr>]"

lemma parsePositive_format: "0 < n \<Longrightarrow> k \<le> 4 \<Longrightarrow> parsePositive (formatScaled n k) 4 = Inr (of_int n / 10 ^ k)"
proof -
  assume n: "0 < n" "k \<le> 4"
  let ?d = "fromScaledInt n k"
  have t: "dec_String ?d = formatScaled n k" by (simp add: dec_String_ok)
  have "ParseDecimal (dec_String ?d) 4 = Inr ?d" using n(2) Parse_String [of ?d 4] by simp
  moreover have "\<not> dec_Sign ?d \<le> 0" using n(1) by (simp add: dec_Sign_rat not_less)
  ultimately show ?thesis unfolding parsePositive_def using parseRat_format [of n k] by (simp add: t)
qed

theorem fifo_allocations_greedy_witness:
  "\<exists>allocs. FIFOAllocations sample_items ''100'' = Inr allocs \<and> distinct (map ai_OpenItemID allocs)"
proof -
  have "formatScaled 100 0 = ''100''" by code_simp
  then have "parsePositive ''100'' 4 = Inr 100" using parsePositive_format [of 100 0] by simp
  from fifo_allocations_greedy [OF this, of sample_items] show ?thesis by blast
qed

end
