(* ===== verification/Allocation_Ledger.thy ===== *)
theory Allocation_Ledger
  imports Allocation Idempotency
begin

text \<open>
  The allocation ledger of \<^verbatim>\<open>src/internal/finance/service.go\<close>: the commands \<^verbatim>\<open>AllocatePayment\<close>, \<^verbatim>\<open>AllocatePaymentFIFO\<close>
  and \<^verbatim>\<open>UnallocatePayment\<close>, each one serializable transaction around an idempotency reservation.  The state holds the rows
  of the session's company; amounts are \<^verbatim>\<open>numeric(20,4)\<close>, counted in ten-thousandths.  Parameters stand for the uuid
  package, the payload digest, JSON, the clock, fresh row ids, the instalment schedule of an invoice and for whether
  the audit row and the commit go through; a command that fails rolls back, so its state is the old one.
\<close>

section \<open>Rows\<close>

datatype fin_error = Forbidden | Validation | InvalidPaymentState | IdempotencyConflict | ExceedsOpenAmount
  | CurrencyMismatch | AlreadyReversed | ConstraintViolation | ReplayUnreadable | TransactionFailed
  | IdemFailed idem_error

record fin_session =
  fs_CompanyID :: string
  fs_UserID :: string
  fs_Permissions :: "string list"
  fs_scopes :: "string list" \<comment> \<open>\<^verbatim>\<open>membership_branch_scopes\<close> of the user\<close>

record fin_payment =
  fp_PartyID :: string
  fp_Currency :: string
  fp_PaymentKind :: string
  fp_Amount :: int
  fp_AccountID :: "string option"
  fp_ReversalOfID :: "string option"

record item_row =
  it_PartyID :: string
  it_Side :: string
  it_Currency :: string
  it_Original :: int
  it_Reversal :: "int option"
  it_DocumentID :: "string option"
  it_ManualEntryID :: "string option"
  it_DocumentDate :: int
  it_DueDate :: "int option"
  it_CreatedAt :: int

record doc_row =
  dc_type :: string
  dc_branch :: "string option"

record alloc_row =
  ar_ID :: string
  ar_PaymentID :: string
  ar_PartyID :: string
  ar_OpenItemID :: string
  ar_TargetType :: string
  ar_TargetID :: string
  ar_Currency :: string
  ar_Amount :: int
  ar_Key :: string
  ar_ReversalOfID :: "string option"

text \<open>What JSON carries of a row: the idempotency key has the tag \<^verbatim>\<open>json:"-"\<close>.\<close>

definition public_row :: "alloc_row \<Rightarrow> alloc_row" where
  "public_row r = r\<lparr>ar_Key := []\<rparr>"

record fin_db =
  db_payments :: "(string \<times> fin_payment) list"
  db_items :: "(string \<times> item_row) list"
  db_documents :: "string \<rightharpoonup> doc_row"
  db_returns :: "(string \<times> int) list"
  db_accounts :: "string \<rightharpoonup> string option" \<comment> \<open>the branch of an account\<close>
  db_branches :: "string list" \<comment> \<open>the active branches\<close>
  db_allocs :: "alloc_row list"

record fin_world =
  fw_db :: fin_db
  fw_idem :: idem_table

record fin_env =
  ev_parse_uuid :: "string \<Rightarrow> string option"
  ev_digest :: "string \<Rightarrow> string"
  ev_new_id :: "nat \<Rightarrow> string"
  ev_now :: int
  ev_payload :: "string \<Rightarrow> (string \<times> string \<times> string) list \<Rightarrow> string"
  ev_encode :: "alloc_row list \<Rightarrow> string option"
  ev_decode :: "string \<Rightarrow> alloc_row list option"
  ev_dues :: "string \<Rightarrow> OpenItemDue list"
  ev_commit :: bool

section \<open>Guards\<close>

definition validUUID :: "(string \<Rightarrow> string option) \<Rightarrow> string \<Rightarrow> bool" where
  "validUUID parse_uuid value = (trim_space value \<noteq> [] \<and> parse_uuid value \<noteq> None)"

definition ValidateExternalActor :: "(string \<Rightarrow> string option) \<Rightarrow> fin_session \<Rightarrow> bool" where
  "ValidateExternalActor parse_uuid s =
     (validUUID parse_uuid (trim_space (fs_UserID s)) \<and> validUUID parse_uuid (trim_space (fs_CompanyID s)))"

definition can :: "(string \<Rightarrow> string option) \<Rightarrow> fin_session \<Rightarrow> string \<Rightarrow> bool" where
  "can parse_uuid s permission = (ValidateExternalActor parse_uuid s \<and> permission \<in> set (fs_Permissions s))"

definition in_scope :: "fin_session \<Rightarrow> string \<Rightarrow> bool" where
  "in_scope s branch = (fs_scopes s = [] \<or> branch \<in> set (fs_scopes s))"

definition branch_allowed :: "(string \<Rightarrow> string option) \<Rightarrow> string list \<Rightarrow> fin_session \<Rightarrow> string \<Rightarrow> bool" where
  "branch_allowed parse_uuid active s branchID =
     (trim_space (fs_UserID s) \<noteq> [] \<and> trim_space branchID \<noteq> []
      \<and> parse_uuid (trim_space (fs_UserID s)) \<noteq> None \<and> parse_uuid (trim_space branchID) \<noteq> None
      \<and> branchID \<in> set active \<and> in_scope s branchID)"

definition ensureBranchAccess :: "(string \<Rightarrow> string option) \<Rightarrow> fin_db \<Rightarrow> fin_session \<Rightarrow> string \<Rightarrow> bool" where
  "ensureBranchAccess parse_uuid db s branchID = branch_allowed parse_uuid (db_branches db) s branchID"

definition ensurePaymentAccountAccess :: "(string \<Rightarrow> string option) \<Rightarrow> fin_db \<Rightarrow> fin_session \<Rightarrow> fin_payment \<Rightarrow> bool" where
  "ensurePaymentAccountAccess parse_uuid db s p =
     (case fp_AccountID p of
        None \<Rightarrow> True
      | Some account \<Rightarrow>
          if trim_space account = [] then True
          else (case db_accounts db account of
              None \<Rightarrow> False
            | Some None \<Rightarrow> True
            | Some (Some branch) \<Rightarrow> ensureBranchAccess parse_uuid db s branch))"

definition payment_reversed :: "fin_db \<Rightarrow> string \<Rightarrow> fin_payment \<Rightarrow> bool" where \<comment> \<open>\<^verbatim>\<open>Status == REVERSED || ReversalOfID != nil\<close>\<close>
  "payment_reversed db i p =
     (fp_ReversalOfID p \<noteq> None \<or> (\<exists>(j, q) \<in> set (db_payments db). fp_ReversalOfID q = Some i))"

section \<open>Sums over the ledger\<close>

definition signed :: "alloc_row \<Rightarrow> int" where
  "signed r = (if ar_ReversalOfID r = None then ar_Amount r else - ar_Amount r)"

definition payment_used :: "fin_db \<Rightarrow> string \<Rightarrow> int" where
  "payment_used db i = (\<Sum>r\<leftarrow>db_allocs db. if ar_PaymentID r = i then signed r else 0)"

definition allocationForOpenItem :: "fin_db \<Rightarrow> string \<Rightarrow> int" where
  "allocationForOpenItem db i = (\<Sum>r\<leftarrow>db_allocs db. if ar_OpenItemID r = i then signed r else 0)"

definition returnedAmountForDocument :: "fin_db \<Rightarrow> string \<Rightarrow> int" where
  "returnedAmountForDocument db d = (\<Sum>(e, a)\<leftarrow>db_returns db. if e = d then a else 0)"

definition reversal_text :: "item_row \<Rightarrow> string" where
  "reversal_text it = (case it_Reversal it of None \<Rightarrow> ''0'' | Some a \<Rightarrow> numeric_text a)"

definition item_open :: "fin_db \<Rightarrow> string \<Rightarrow> item_row \<Rightarrow> rat" where
  "item_open db i it =
     mustRat (numeric_text (it_Original it)) - mustRat (reversal_text it)
       - (case it_DocumentID it of None \<Rightarrow> 0 | Some d \<Rightarrow> settlementRat (numeric_text (returnedAmountForDocument db d)))
       - mustRat (numeric_text (allocationForOpenItem db i))"

definition invoice_types :: "string list" where
  "invoice_types = [''SALES_INVOICE'', ''PURCHASE_INVOICE'']"

text \<open>The row that the query of \<^verbatim>\<open>applyAllocationsTx\<close> locks: the document is joined only when it is an invoice.\<close>

definition allocatable :: "fin_db \<Rightarrow> fin_session \<Rightarrow> string \<Rightarrow> item_row option" where
  "allocatable db s i =
     (case map_of (db_items db) i of
        None \<Rightarrow> None
      | Some it \<Rightarrow>
          let d = (case it_DocumentID it of
                None \<Rightarrow> None
              | Some j \<Rightarrow> (case db_documents db j of
                  None \<Rightarrow> None | Some d \<Rightarrow> if dc_type d \<in> set invoice_types then Some d else None)) in
          if (it_ManualEntryID it \<noteq> None \<or> d \<noteq> None)
            \<and> (case d of None \<Rightarrow> True | Some d \<Rightarrow> (case dc_branch d of None \<Rightarrow> True | Some b \<Rightarrow> in_scope s b))
          then Some it else None)"

section \<open>Writing allocation rows\<close>

text \<open>
  The primary key, the two unique constraints and the row checks of the table; any other constraint only makes more
  commands fail.
\<close>

definition insert_alloc :: "alloc_row \<Rightarrow> fin_db \<Rightarrow> fin_db option" where
  "insert_alloc r db =
     (if ar_ID r \<in> set (map ar_ID (db_allocs db)) \<or> ar_Key r \<in> set (map ar_Key (db_allocs db))
        \<or> (ar_ReversalOfID r \<noteq> None \<and> ar_ReversalOfID r \<in> set (map ar_ReversalOfID (db_allocs db)))
        \<or> ar_Amount r \<le> 0 \<or> ar_ReversalOfID r = Some (ar_ID r)
      then None else Some (db\<lparr>db_allocs := db_allocs db @ [r]\<rparr>))"

definition to_numeric :: "rat \<Rightarrow> int" where \<comment> \<open>the text \<^verbatim>\<open>amountString(amount, 4)\<close> as a \<^verbatim>\<open>numeric(20,4)\<close>\<close>
  "to_numeric r = round_half_away (mustRat (amountString r 4) * 10000)"

definition alloc_key :: "string \<Rightarrow> string \<Rightarrow> AllocationInput \<Rightarrow> string" where
  "alloc_key scope paymentID input =
     (let key = trim_space (ai_IdempotencyKey input) in
      if key \<noteq> [] then key
      else if trim_space scope \<noteq> [] then trim_space scope @ '':'' @ paymentID @ '':'' @ ai_OpenItemID input
      else paymentID @ '':'' @ ai_OpenItemID input)"

definition normalizeAllocationInputs :: "(string \<Rightarrow> string option) \<Rightarrow> AllocationInput list \<Rightarrow> fin_error + AllocationInput list" where
  "normalizeAllocationInputs parse_uuid inputs =
     (case mapE (\<lambda>input.
         case parse_uuid (trim_space (ai_OpenItemID input)) of
           None \<Rightarrow> Inl Validation
         | Some i \<Rightarrow> (case parsePositive (ai_Amount input) 4 of
             Inl e \<Rightarrow> Inl Validation
           | Inr amount \<Rightarrow> Inr (\<lparr>ai_OpenItemID = i, ai_Amount = amountString amount 4,
               ai_IdempotencyKey = trim_space (ai_IdempotencyKey input)\<rparr>))) inputs of
        Inl e \<Rightarrow> Inl e
      | Inr result \<Rightarrow> Inr (stable_sort (\<lambda>x y. str_less (ai_OpenItemID x) (ai_OpenItemID y)) result))"

definition mismatch :: "fin_payment \<Rightarrow> item_row \<Rightarrow> bool" where
  "mismatch p it =
     (it_PartyID it \<noteq> fp_PartyID p \<or> it_Currency it \<noteq> fp_Currency p
      \<or> (fp_PaymentKind p = ''COLLECTION'' \<and> it_Side it \<noteq> ''RECEIVABLE'')
      \<or> (fp_PaymentKind p = ''PAYMENT'' \<and> it_Side it \<noteq> ''PAYABLE''))"

definition new_alloc :: "string \<Rightarrow> string \<Rightarrow> fin_payment \<Rightarrow> string \<Rightarrow> item_row \<Rightarrow> rat \<Rightarrow> string \<Rightarrow> alloc_row" where
  "new_alloc i paymentID p itemID it amount key =
     \<lparr>ar_ID = i, ar_PaymentID = paymentID, ar_PartyID = fp_PartyID p, ar_OpenItemID = itemID,
      ar_TargetType = (case it_DocumentID it of Some d \<Rightarrow> ''DOCUMENT'' | None \<Rightarrow> ''MANUAL_ENTRY''),
      ar_TargetID = (case it_DocumentID it of Some d \<Rightarrow> d | None \<Rightarrow> (case it_ManualEntryID it of Some m \<Rightarrow> m | None \<Rightarrow> [])),
      ar_Currency = fp_Currency p, ar_Amount = to_numeric amount, ar_Key = key, ar_ReversalOfID = None\<rparr>"

fun apply_loop :: "(nat \<Rightarrow> string) \<Rightarrow> fin_session \<Rightarrow> string \<Rightarrow> fin_payment \<Rightarrow> string \<Rightarrow> nat \<Rightarrow> rat \<Rightarrow> fin_db \<Rightarrow> AllocationInput list \<Rightarrow>
    fin_error + fin_db \<times> alloc_row list" where
  "apply_loop new_id s paymentID p scope n used db [] = Inr (db, [])"
| "apply_loop new_id s paymentID p scope n used db (input # rest) =
     (case parsePositive (ai_Amount input) 4 of
        Inl e \<Rightarrow> Inl Validation
      | Inr amount \<Rightarrow>
          let key = alloc_key scope paymentID input in
          (case find (\<lambda>r. ar_Key r = key) (db_allocs db) of
             Some existing \<Rightarrow>
               if ar_ReversalOfID existing \<noteq> None then Inl InvalidPaymentState
               else if ar_PaymentID existing \<noteq> paymentID \<or> ar_PartyID existing \<noteq> fp_PartyID p
                 \<or> ar_Currency existing \<noteq> fp_Currency p \<or> ar_OpenItemID existing \<noteq> ai_OpenItemID input
                 \<or> numeric_text (ar_Amount existing) \<noteq> amountString amount 4 then Inl IdempotencyConflict
               else (case apply_loop new_id s paymentID p scope n used db rest of
                   Inl e \<Rightarrow> Inl e | Inr (db', rs) \<Rightarrow> Inr (db', existing # rs))
           | None \<Rightarrow>
               if used + amount > of_int (fp_Amount p) / 10000 then Inl ExceedsOpenAmount
               else (case allocatable db s (ai_OpenItemID input) of
                   None \<Rightarrow> Inl Forbidden
                 | Some it \<Rightarrow>
                     if mismatch p it then Inl CurrencyMismatch
                     else if amount > item_open db (ai_OpenItemID input) it then Inl ExceedsOpenAmount
                     else
                       let r = new_alloc (new_id n) paymentID p (ai_OpenItemID input) it amount key in
                       (case insert_alloc r db of
                          None \<Rightarrow> Inl ConstraintViolation
                        | Some db1 \<Rightarrow> (case apply_loop new_id s paymentID p scope (Suc n) (used + amount) db1 rest of
                            Inl e \<Rightarrow> Inl e | Inr (db', rs) \<Rightarrow> Inr (db', r # rs))))))"

definition adjacent_duplicate :: "AllocationInput list \<Rightarrow> bool" where
  "adjacent_duplicate inputs =
     (\<exists>i \<in> {1..<length inputs}. ai_OpenItemID (inputs ! (i - 1)) = ai_OpenItemID (inputs ! i))"

definition applyAllocationsTx :: "fin_env \<Rightarrow> fin_session \<Rightarrow> string \<Rightarrow> string \<Rightarrow> AllocationInput list \<Rightarrow> fin_db \<Rightarrow>
    fin_error + fin_db \<times> alloc_row list" where
  "applyAllocationsTx env s paymentID scope inputs db =
     (if inputs = [] then Inr (db, [])
      else (case normalizeAllocationInputs (ev_parse_uuid env) inputs of
          Inl e \<Rightarrow> Inl e
        | Inr inputs \<Rightarrow>
            if adjacent_duplicate inputs then Inl Validation
            else (case map_of (db_payments db) paymentID of
                None \<Rightarrow> Inl Forbidden
              | Some p \<Rightarrow>
                  apply_loop (ev_new_id env) s paymentID p scope 0 (of_int (payment_used db paymentID) / 10000) db inputs)))"

section \<open>Commands\<close>

text \<open>The frame the three commands share, from \<^verbatim>\<open>ReserveTx\<close> to the commit.\<close>

definition alloc_command :: "fin_env \<Rightarrow> fin_session \<Rightarrow> string \<Rightarrow> string \<Rightarrow> string \<Rightarrow> string \<Rightarrow>
    (fin_payment \<Rightarrow> fin_db \<Rightarrow> fin_error + fin_db \<times> alloc_row list) \<Rightarrow> fin_world \<Rightarrow> fin_world \<times> (fin_error + alloc_row list)" where
  "alloc_command env s key command payload paymentID body w =
     (let (t, r) = ReserveTx (ev_parse_uuid env) (ev_digest env) (fw_idem w) (fs_CompanyID s) key command payload in
      case r of
        Inl e \<Rightarrow> (w, Inl (IdemFailed e))
      | Inr reservation \<Rightarrow>
          if tx_Completed reservation then
            (w, case ev_decode env (tx_ResponseBody reservation) of None \<Rightarrow> Inl ReplayUnreadable | Some rs \<Rightarrow> Inr rs)
          else (case map_of (db_payments (fw_db w)) paymentID of
              None \<Rightarrow> (w, Inl Forbidden)
            | Some p \<Rightarrow>
                if \<not> ensurePaymentAccountAccess (ev_parse_uuid env) (fw_db w) s p then (w, Inl Forbidden)
                else if payment_reversed (fw_db w) paymentID p then (w, Inl InvalidPaymentState)
                else (case body p (fw_db w) of
                    Inl e \<Rightarrow> (w, Inl e)
                  | Inr (db, rs) \<Rightarrow>
                      let (t', e) = CompleteTx (ev_parse_uuid env) t (fs_CompanyID s) key 200 (ev_encode env rs) (ev_now env) in
                      (case e of
                         Some e \<Rightarrow> (w, Inl (IdemFailed e))
                       | None \<Rightarrow> if \<not> ev_commit env then (w, Inl TransactionFailed)
                           else (\<lparr>fw_db = db, fw_idem = t'\<rparr>, Inr rs)))))"

definition input_fields :: "AllocationInput \<Rightarrow> string \<times> string \<times> string" where
  "input_fields x = (ai_OpenItemID x, ai_Amount x, ai_IdempotencyKey x)"

definition AllocatePayment :: "fin_env \<Rightarrow> fin_session \<Rightarrow> string \<Rightarrow> AllocationInput list \<Rightarrow> string \<Rightarrow> fin_world \<Rightarrow>
    fin_world \<times> (fin_error + alloc_row list)" where
  "AllocatePayment env s paymentID inputs key w =
     (if \<not> can (ev_parse_uuid env) s ''finance.allocation.manage'' then (w, Inl Forbidden)
      else (case ev_parse_uuid env (trim_space paymentID) of
          None \<Rightarrow> (w, Inl Validation)
        | Some paymentID \<Rightarrow>
            if inputs = [] then (w, Inl Validation)
            else (case normalizeAllocationInputs (ev_parse_uuid env) inputs of
                Inl e \<Rightarrow> (w, Inl e)
              | Inr inputs \<Rightarrow>
                  alloc_command env s key ''finance.payment.allocate'' (ev_payload env paymentID (map input_fields inputs)) paymentID
                    (\<lambda>p db. applyAllocationsTx env s paymentID (''allocate:'' @ trim_space key) inputs db) w)))"

definition fifo_side :: "fin_payment \<Rightarrow> string" where
  "fifo_side p = (if fp_PaymentKind p = ''PAYMENT'' then ''PAYABLE'' else ''RECEIVABLE'')"

definition fifo_visible :: "fin_db \<Rightarrow> fin_session \<Rightarrow> fin_payment \<Rightarrow> item_row \<Rightarrow> bool" where
  "fifo_visible db s p it =
     (let d = (case it_DocumentID it of None \<Rightarrow> None | Some j \<Rightarrow> db_documents db j) in
      it_PartyID it = fp_PartyID p \<and> it_Currency it = fp_Currency p \<and> it_Side it = fifo_side p
      \<and> (it_ManualEntryID it \<noteq> None \<or> (case d of None \<Rightarrow> False | Some d \<Rightarrow> dc_type d \<in> set invoice_types))
      \<and> (case d of None \<Rightarrow> True | Some d \<Rightarrow> (case dc_branch d of None \<Rightarrow> True | Some b \<Rightarrow> in_scope s b)))"

definition fifo_item :: "fin_env \<Rightarrow> string \<Rightarrow> item_row \<Rightarrow> rat \<Rightarrow> OpenItem" where
  "fifo_item env i it opened =
     \<lparr>op_DueSchedule = ev_dues env i, op_ID = i, op_DocumentID = [], op_DocumentNo = [], op_PartyID = [], op_Side = [],
      op_Currency = [], op_OriginalAmount = [], op_AllocatedAmount = [], op_OpenAmount = amountString opened 4,
      op_ExchangeRate = [], op_BaseCurrency = [], op_DocumentDate = it_DocumentDate it, op_DueDate = it_DueDate it\<rparr>"

text \<open>
  The query's \<^verbatim>\<open>ORDER BY\<close> only fixes the order in which rows are locked: \<^verbatim>\<open>FIFOAllocations\<close> sorts the items again by due
  date, document date and id, which no two items share.
\<close>

definition fifoOpenItemAllocationsTx :: "fin_env \<Rightarrow> fin_session \<Rightarrow> fin_payment \<Rightarrow> rat \<Rightarrow> fin_db \<Rightarrow> fin_error + AllocationInput list" where
  "fifoOpenItemAllocationsTx env s p amount db =
     (let items = [fifo_item env i it (item_open db i it). (i, it) \<leftarrow> db_items db,
                     fifo_visible db s p it \<and> 0 < item_open db i it] in
      case FIFOAllocations items (amountString amount 4) of Inl e \<Rightarrow> Inl Validation | Inr inputs \<Rightarrow> Inr inputs)"

definition fifo_allocate :: "fin_env \<Rightarrow> fin_session \<Rightarrow> string \<Rightarrow> string \<Rightarrow> fin_payment \<Rightarrow> fin_db \<Rightarrow> fin_error + fin_db \<times> alloc_row list" where
  "fifo_allocate env s paymentID key p db =
     (let unapplied = mustRat (numeric_text (fp_Amount p)) - mustRat (numeric_text (payment_used db paymentID)) in
      if unapplied \<le> 0 then Inl InvalidPaymentState
      else (case fifoOpenItemAllocationsTx env s p unapplied db of
          Inl e \<Rightarrow> Inl e
        | Inr inputs \<Rightarrow>
            if inputs = [] then Inl ExceedsOpenAmount
            else applyAllocationsTx env s paymentID (''allocate-fifo:'' @ trim_space key) inputs db))"

definition AllocatePaymentFIFO :: "fin_env \<Rightarrow> fin_session \<Rightarrow> string \<Rightarrow> string \<Rightarrow> fin_world \<Rightarrow> fin_world \<times> (fin_error + alloc_row list)" where
  "AllocatePaymentFIFO env s paymentID key w =
     (if \<not> can (ev_parse_uuid env) s ''finance.allocation.manage'' then (w, Inl Forbidden)
      else if trim_space key = [] then (w, Inl Validation)
      else (case ev_parse_uuid env (trim_space paymentID) of
          None \<Rightarrow> (w, Inl Validation)
        | Some paymentID \<Rightarrow>
            alloc_command env s key ''finance.payment.allocate_fifo'' (ev_payload env paymentID [(''FIFO'', [], [])]) paymentID
              (fifo_allocate env s paymentID key) w))"

fun unallocate_loop :: "(nat \<Rightarrow> string) \<Rightarrow> string \<Rightarrow> string \<Rightarrow> nat \<Rightarrow> fin_db \<Rightarrow> string list \<Rightarrow> fin_error + fin_db \<times> alloc_row list" where
  "unallocate_loop new_id key paymentID n db [] = Inr (db, [])"
| "unallocate_loop new_id key paymentID n db (i # rest) =
     (case find (\<lambda>r. ar_ID r = i \<and> ar_PaymentID r = paymentID \<and> ar_ReversalOfID r = None) (db_allocs db) of
        None \<Rightarrow> Inl InvalidPaymentState
      | Some original \<Rightarrow>
          if Some i \<in> set (map ar_ReversalOfID (db_allocs db)) then Inl AlreadyReversed
          else
            let r = original\<lparr>ar_ID := new_id n, ar_Key := ''unallocate:'' @ key @ '':'' @ i, ar_ReversalOfID := Some i\<rparr> in
            (case insert_alloc r db of
               None \<Rightarrow> Inl ConstraintViolation
             | Some db1 \<Rightarrow> (case unallocate_loop new_id key paymentID (Suc n) db1 rest of
                 Inl e \<Rightarrow> Inl e | Inr (db', rs) \<Rightarrow> Inr (db', r # rs))))"

definition UnallocatePayment :: "fin_env \<Rightarrow> fin_session \<Rightarrow> string \<Rightarrow> string list \<Rightarrow> string \<Rightarrow> fin_world \<Rightarrow>
    fin_world \<times> (fin_error + alloc_row list)" where
  "UnallocatePayment env s paymentID allocationIDs key w =
     (if \<not> can (ev_parse_uuid env) s ''finance.allocation.manage'' then (w, Inl Forbidden)
      else (case mapE (\<lambda>i. case ev_parse_uuid env (trim_space i) of None \<Rightarrow> Inl Validation | Some j \<Rightarrow> Inr j) allocationIDs of
          Inl e \<Rightarrow> (w, Inl e)
        | Inr parsed_ids \<Rightarrow>
            let cleaned = rev (remdups (rev parsed_ids)) in
            if cleaned = [] then (w, Inl Validation)
            else (case ev_parse_uuid env (trim_space paymentID) of
                None \<Rightarrow> (w, Inl Validation)
              | Some paymentID \<Rightarrow>
                  let cleaned = stable_sort str_less cleaned in
                  alloc_command env s key ''finance.payment.unallocate'' (ev_payload env paymentID (map (\<lambda>i. (i, [], [])) cleaned)) paymentID
                    (\<lambda>p db. unallocate_loop (ev_new_id env) key paymentID 0 db cleaned) w)))"

end
