(* ===== verification/Allocation_Safety.thy ===== *)
theory Allocation_Safety
  imports Allocation_Ledger
begin

text \<open>
  What the allocation commands keep: no payment is spent twice, no invoice is allocated beyond its amount, an
  allocation is taken back at most once, and a command repeated under its idempotency key answers the same without
  touching the ledger.
\<close>

section \<open>The invariant of the ledger\<close>

definition reverses :: "alloc_row \<Rightarrow> alloc_row \<Rightarrow> bool" where
  "reverses r q =
     (ar_ReversalOfID r = Some (ar_ID q) \<and> ar_ReversalOfID q = None \<and> ar_PaymentID q = ar_PaymentID r
      \<and> ar_OpenItemID q = ar_OpenItemID r \<and> ar_Amount q = ar_Amount r)"

definition rows_ok :: "alloc_row list \<Rightarrow> bool" where
  "rows_ok rs =
     (distinct (map ar_ID rs) \<and> (\<forall>r \<in> set rs. 0 < ar_Amount r)
      \<and> (\<forall>r \<in> set rs. ar_ReversalOfID r \<noteq> None \<longrightarrow> (\<exists>q \<in> set rs. reverses r q))
      \<and> (\<forall>r \<in> set rs. \<forall>q \<in> set rs. ar_ReversalOfID r \<noteq> None \<longrightarrow> ar_ReversalOfID r = ar_ReversalOfID q \<longrightarrow> r = q))"

definition limits_ok :: "fin_db \<Rightarrow> bool" where
  "limits_ok db =
     ((\<forall>i p. map_of (db_payments db) i = Some p \<longrightarrow> payment_used db i \<le> fp_Amount p)
      \<and> (\<forall>i it. map_of (db_items db) i = Some it \<longrightarrow> allocationForOpenItem db i \<le> it_Original it))"

definition columns_ok :: "fin_db \<Rightarrow> bool" where \<comment> \<open>the checks of the tables the commands only read\<close>
  "columns_ok db =
     ((\<forall>(i, it) \<in> set (db_items db). case it_Reversal it of None \<Rightarrow> True | Some a \<Rightarrow> 0 \<le> a)
      \<and> (\<forall>(d, a) \<in> set (db_returns db). 0 \<le> a))"

definition ledger_inv :: "fin_db \<Rightarrow> bool" where
  "ledger_inv db = (rows_ok (db_allocs db) \<and> limits_ok db \<and> columns_ok db)"

definition net :: "(alloc_row \<Rightarrow> bool) \<Rightarrow> alloc_row list \<Rightarrow> int" where
  "net P rs = (\<Sum>r\<leftarrow>rs. if P r then signed r else 0)"

lemma net_simps [simp]: "net P [] = 0" "net P (rs @ [r]) = net P rs + (if P r then signed r else 0)"
  by (simp_all add: net_def)

lemma used_net:
  "payment_used db i = net (\<lambda>r. ar_PaymentID r = i) (db_allocs db)"
  "allocationForOpenItem db i = net (\<lambda>r. ar_OpenItemID r = i) (db_allocs db)"
  by (simp_all add: payment_used_def allocationForOpenItem_def net_def)

lemma net_nonneg:
  assumes ok: "rows_ok rs" and P: "\<And>r q. reverses r q \<Longrightarrow> P r = P q"
  shows "0 \<le> net P rs"
proof -
  let ?O = "{r \<in> set rs. P r \<and> ar_ReversalOfID r = None}" and ?R = "{r \<in> set rs. P r \<and> ar_ReversalOfID r \<noteq> None}"
  define orig where "orig r = (SOME q. q \<in> set rs \<and> reverses r q)" for r
  have o: "orig r \<in> set rs \<and> reverses r (orig r)" if "r \<in> ?R" for r
    unfolding orig_def by (rule someI_ex) (use ok that in \<open>auto simp: rows_ok_def\<close>)
  have inj: "inj_on orig ?R"
  proof (rule inj_onI)
    fix r q assume "r \<in> ?R" "q \<in> ?R" "orig r = orig q"
    then have "ar_ReversalOfID r = ar_ReversalOfID q" using o [of r] o [of q] by (simp add: reverses_def)
    then show "r = q" using ok \<open>r \<in> ?R\<close> \<open>q \<in> ?R\<close> unfolding rows_ok_def by blast
  qed
  have sub: "orig ` ?R \<subseteq> ?O" using o P by (fastforce simp: reverses_def)
  have "sum ar_Amount ?R = sum ar_Amount (orig ` ?R)"
    unfolding sum.reindex [OF inj] by (rule sum.cong) (use o in \<open>auto simp: reverses_def\<close>)
  also have "\<dots> \<le> sum ar_Amount ?O"
    by (rule sum_mono2) (use sub ok in \<open>auto simp: rows_ok_def less_imp_le\<close>)
  finally have le: "sum ar_Amount ?R \<le> sum ar_Amount ?O" .
  have "distinct rs" using ok by (simp add: rows_ok_def distinct_map)
  then have "net P rs = (\<Sum>r \<in> set rs. if P r then signed r else 0)" by (simp add: net_def sum_list_distinct_conv_sum_set)
  also have "\<dots> = (\<Sum>r \<in> ?O \<union> ?R. signed r)" by (rule sum.mono_neutral_cong_right) auto
  also have "\<dots> = sum signed ?O + sum signed ?R" by (rule sum.union_disjoint) auto
  also have "sum signed ?O = sum ar_Amount ?O" by (rule sum.cong) (auto simp: signed_def)
  also have "sum signed ?R = - sum ar_Amount ?R" unfolding sum_negf [symmetric] by (rule sum.cong) (auto simp: signed_def)
  finally show ?thesis using le by simp
qed

lemma ledger_nonneg: "ledger_inv db \<Longrightarrow> 0 \<le> payment_used db i \<and> 0 \<le> allocationForOpenItem db i"
  unfolding used_net by (auto simp: ledger_inv_def reverses_def intro!: net_nonneg)

section \<open>Inserting rows\<close>

lemma insert_alloc_Some:
  assumes "insert_alloc r db = Some db'"
  shows "db' = db\<lparr>db_allocs := db_allocs db @ [r]\<rparr> \<and> ar_ID r \<notin> set (map ar_ID (db_allocs db)) \<and> 0 < ar_Amount r
    \<and> (ar_ReversalOfID r \<noteq> None \<longrightarrow> ar_ReversalOfID r \<notin> set (map ar_ReversalOfID (db_allocs db)))"
  using assms by (auto simp: insert_alloc_def split: if_splits)

lemma rows_ok_insert:
  assumes "rows_ok (db_allocs db)" "insert_alloc r db = Some db'"
    and "ar_ReversalOfID r \<noteq> None \<Longrightarrow> \<exists>q \<in> set (db_allocs db). reverses r q"
  shows "rows_ok (db_allocs db')"
proof -
  have i: "db_allocs db' = db_allocs db @ [r]" "ar_ID r \<notin> set (map ar_ID (db_allocs db))" "0 < ar_Amount r"
    "ar_ReversalOfID r \<noteq> None \<Longrightarrow> ar_ReversalOfID r \<notin> set (map ar_ReversalOfID (db_allocs db))"
    using insert_alloc_Some [OF assms(2)] by auto
  let ?rs = "db_allocs db"
  have ok: "distinct (map ar_ID ?rs)" "\<forall>r \<in> set ?rs. 0 < ar_Amount r"
    "\<forall>r \<in> set ?rs. ar_ReversalOfID r \<noteq> None \<longrightarrow> (\<exists>q \<in> set ?rs. reverses r q)"
    "\<forall>r \<in> set ?rs. \<forall>q \<in> set ?rs. ar_ReversalOfID r \<noteq> None \<longrightarrow> ar_ReversalOfID r = ar_ReversalOfID q \<longrightarrow> r = q"
    using assms(1) unfolding rows_ok_def by blast+
  have "ar_ReversalOfID r \<noteq> ar_ReversalOfID q" if "q \<in> set ?rs" "ar_ReversalOfID r \<noteq> None \<or> ar_ReversalOfID q \<noteq> None" for q
    using that i(4) by (cases "ar_ReversalOfID r = None") (auto simp: image_iff)
  then have "\<forall>x \<in> set (?rs @ [r]). \<forall>q \<in> set (?rs @ [r]). ar_ReversalOfID x \<noteq> None \<longrightarrow> ar_ReversalOfID x = ar_ReversalOfID q \<longrightarrow> x = q"
    using ok(4) by (metis Un_iff empty_iff insert_iff list.set set_append)
  moreover have "\<forall>x \<in> set (?rs @ [r]). ar_ReversalOfID x \<noteq> None \<longrightarrow> (\<exists>q \<in> set (?rs @ [r]). reverses x q)"
    using ok(3) assms(3) by auto
  ultimately show ?thesis using ok(1,2) i(2,3) unfolding rows_ok_def i(1) by simp
qed

lemma limits_insert:
  assumes l: "limits_ok db" and i: "insert_alloc r db = Some db'"
    and p: "\<And>p. map_of (db_payments db) (ar_PaymentID r) = Some p \<Longrightarrow> payment_used db (ar_PaymentID r) + signed r \<le> fp_Amount p"
    and o: "\<And>it. map_of (db_items db) (ar_OpenItemID r) = Some it \<Longrightarrow> allocationForOpenItem db (ar_OpenItemID r) + signed r \<le> it_Original it"
  shows "limits_ok db'"
proof -
  have d: "db' = db\<lparr>db_allocs := db_allocs db @ [r]\<rparr>" using insert_alloc_Some [OF i] by simp
  have u: "payment_used db' k = payment_used db k + (if ar_PaymentID r = k then signed r else 0)"
    "allocationForOpenItem db' k = allocationForOpenItem db k + (if ar_OpenItemID r = k then signed r else 0)" for k
    unfolding used_net d by simp_all
  show ?thesis using l p o unfolding limits_ok_def u by (auto simp: d)
qed

lemma columns_insert: "insert_alloc r db = Some db' \<Longrightarrow> columns_ok db' = columns_ok db"
  by (drule insert_alloc_Some) (simp add: columns_ok_def)

lemma same_tables:
  "insert_alloc r db = Some db' \<Longrightarrow> db_payments db' = db_payments db"
  by (drule insert_alloc_Some) simp

section \<open>Allocating\<close>

lemma to_numeric_exact: "on_scale r \<Longrightarrow> of_int (to_numeric r) = r * 10000"
proof -
  assume "on_scale r"
  then obtain n :: int where n: "r = of_int n / 10000" by (auto simp: on_scale_def)
  have "to_numeric r = n" unfolding to_numeric_def on_scale_amount [OF \<open>on_scale r\<close>] by (simp add: n)
  then show ?thesis by (simp add: n)
qed

lemma returned_nonneg: "columns_ok db \<Longrightarrow> 0 \<le> returnedAmountForDocument db d"
  unfolding returnedAmountForDocument_def columns_ok_def by (intro sum_list_nonneg) auto

lemma reversal_text_value: "mustRat (reversal_text it) = of_int (case it_Reversal it of None \<Rightarrow> 0 | Some a \<Rightarrow> a) / 10000"
  by (cases "it_Reversal it") (simp_all add: reversal_text_def mustRat_numeric, simp add: mustRat_eq)

lemma item_open_bound:
  assumes "columns_ok db" "map_of (db_items db) i = Some it"
  shows "item_open db i it * 10000 \<le> of_int (it_Original it - allocationForOpenItem db i)"
proof -
  have "0 \<le> (case it_Reversal it of None \<Rightarrow> 0 | Some a \<Rightarrow> a)"
    using assms map_of_SomeD [OF assms(2)] by (fastforce simp: columns_ok_def split: option.splits)
  then have "0 \<le> (of_int (case it_Reversal it of None \<Rightarrow> 0 | Some a \<Rightarrow> a) :: rat)" by (simp only: of_int_0_le_iff)
  moreover have "0 \<le> (case it_DocumentID it of None \<Rightarrow> 0 | Some d \<Rightarrow> settlementRat (numeric_text (returnedAmountForDocument db d)))"
    using returned_nonneg [OF assms(1)] by (simp add: mustRat_numeric flip: mustRat_eq split: option.split)
  ultimately show ?thesis unfolding item_open_def reversal_text_value mustRat_numeric by (simp add: field_simps)
qed

lemma allocatable_item: "allocatable db s i = Some it \<Longrightarrow> map_of (db_items db) i = Some it"
  by (simp add: allocatable_def Let_def split: option.splits if_splits)

lemma new_alloc_simps [simp]:
  "ar_PaymentID (new_alloc i pid p k it a key) = pid" "ar_OpenItemID (new_alloc i pid p k it a key) = k"
  "ar_ReversalOfID (new_alloc i pid p k it a key) = None" "signed (new_alloc i pid p k it a key) = to_numeric a"
  by (simp_all add: new_alloc_def signed_def)

lemma apply_step_inv:
  assumes inv: "ledger_inv db" and p: "map_of (db_payments db) pid = Some p"
    and a: "on_scale amount" and u: "of_int (payment_used db pid) / 10000 + amount \<le> of_int (fp_Amount p) / 10000"
    and it: "allocatable db s k = Some it" and o: "amount \<le> item_open db k it"
    and ins: "insert_alloc (new_alloc i pid p k it amount key) db = Some db'"
  shows "ledger_inv db' \<and> payment_used db' pid = payment_used db pid + to_numeric amount"
proof
  have n: "of_int (to_numeric amount) = amount * 10000" by (rule to_numeric_exact [OF a])
  have "of_int (payment_used db pid + to_numeric amount) \<le> (of_int (fp_Amount p) :: rat)" using u by (simp add: n field_simps)
  then have pay: "payment_used db pid + to_numeric amount \<le> fp_Amount p" by (simp only: of_int_le_iff)
  have "of_int (to_numeric amount) \<le> (of_int (it_Original it - allocationForOpenItem db k) :: rat)"
    using item_open_bound [OF _ allocatable_item [OF it]] inv o by (fastforce simp: n ledger_inv_def)
  then have "to_numeric amount \<le> it_Original it - allocationForOpenItem db k" by (simp only: of_int_le_iff)
  then have item: "allocationForOpenItem db k + to_numeric amount \<le> it_Original it" by simp
  show "ledger_inv db'"
    using inv rows_ok_insert [OF _ ins] limits_insert [OF _ ins] columns_insert [OF ins] p pay item allocatable_item [OF it]
    by (auto simp: ledger_inv_def)
  show "payment_used db' pid = payment_used db pid + to_numeric amount"
    unfolding used_net using insert_alloc_Some [OF ins] by simp
qed

lemma apply_loop_inv:
  assumes "apply_loop new_id s pid p scope n used db inputs = Inr (db', rs)"
    and "ledger_inv db" "map_of (db_payments db) pid = Some p" "used = of_int (payment_used db pid) / 10000"
  shows "ledger_inv db'"
  using assms
proof (induction inputs arbitrary: n used db rs)
  case (Cons input rest)
  obtain amount where am: "parsePositive (ai_Amount input) 4 = Inr amount" using Cons.prems(1) by (auto split: sum.splits)
  have a: "on_scale amount" using parsePositive_grid [OF am] by (simp add: on_scale_def)
  show ?case
  proof (cases "find (\<lambda>r. ar_Key r = alloc_key scope pid input) (db_allocs db)")
    case (Some ex)
    then obtain rs1 where "apply_loop new_id s pid p scope n used db rest = Inr (db', rs1)"
      using Cons.prems(1) by (auto simp: am Let_def split: if_splits sum.splits)
    then show ?thesis by (rule Cons.IH [OF _ Cons.prems(2-4)])
  next
    case None
    obtain it where it: "allocatable db s (ai_OpenItemID input) = Some it" "amount \<le> item_open db (ai_OpenItemID input) it"
      using Cons.prems(1) None by (auto simp: am Let_def not_less split: if_splits option.splits)
    let ?r = "new_alloc (new_id n) pid p (ai_OpenItemID input) it amount (alloc_key scope pid input)"
    obtain db1 rs1 where r: "insert_alloc ?r db = Some db1"
      "apply_loop new_id s pid p scope (Suc n) (used + amount) db1 rest = Inr (db', rs1)"
      using Cons.prems(1) None it by (auto simp: am Let_def split: if_splits option.splits sum.splits)
    have le: "used + amount \<le> of_int (fp_Amount p) / 10000"
      using Cons.prems(1) None by (auto simp: am Let_def not_less split: if_splits)
    note step = apply_step_inv [OF Cons.prems(2,3) a le [unfolded Cons.prems(4)] it r(1)]
    have "used + amount = of_int (payment_used db1 pid) / 10000"
      using step to_numeric_exact [OF a] by (simp add: Cons.prems(4) field_simps)
    then show ?thesis using Cons.IH [OF r(2)] step Cons.prems(3) same_tables [OF r(1)] by simp
  qed
qed simp

lemma applyAllocationsTx_inv:
  "applyAllocationsTx env s pid scope inputs db = Inr (db', rs) \<Longrightarrow> ledger_inv db \<Longrightarrow> ledger_inv db'"
  by (auto simp: applyAllocationsTx_def split: if_splits sum.splits option.splits dest: apply_loop_inv)

lemma unallocate_loop_inv:
  assumes "unallocate_loop new_id key pid n db ids = Inr (db', rs)" "ledger_inv db"
  shows "ledger_inv db'"
  using assms
proof (induction ids arbitrary: n db rs)
  case (Cons i rest)
  obtain original where f: "find (\<lambda>r. ar_ID r = i \<and> ar_PaymentID r = pid \<and> ar_ReversalOfID r = None) (db_allocs db) = Some original"
    using Cons.prems(1) by (auto split: option.splits)
  have or: "original \<in> set (db_allocs db)" "ar_ID original = i" "ar_ReversalOfID original = None"
    using f by (auto simp: find_Some_iff)
  let ?r = "original\<lparr>ar_ID := new_id n, ar_Key := ''unallocate:'' @ key @ '':'' @ i, ar_ReversalOfID := Some i\<rparr>"
  obtain db1 rs1 where r: "insert_alloc ?r db = Some db1" "unallocate_loop new_id key pid (Suc n) db1 rest = Inr (db', rs1)"
    using Cons.prems(1) by (auto simp: f Let_def split: if_splits option.splits sum.splits)
  have pos: "0 < ar_Amount original" using Cons.prems(2) or(1) by (auto simp: ledger_inv_def rows_ok_def)
  have rev: "reverses ?r original" by (simp add: reverses_def or)
  have s: "signed ?r = - ar_Amount original" by (simp add: signed_def)
  have "rows_ok (db_allocs db1)"
    using rows_ok_insert [OF _ r(1)] Cons.prems(2) or(1) rev by (auto simp: ledger_inv_def)
  moreover have "limits_ok db1"
    using Cons.prems(2) pos s by (intro limits_insert [OF _ r(1)]) (auto simp: ledger_inv_def limits_ok_def, fastforce+)
  ultimately have "ledger_inv db1" using columns_insert [OF r(1)] Cons.prems(2) by (simp add: ledger_inv_def)
  then show ?case by (rule Cons.IH [OF r(2)])
qed simp

section \<open>Commands\<close>

lemma alloc_command_cases:
  assumes "alloc_command env s key command payload pid body w = (w', r)"
  shows "w' = w \<or> (\<exists>p db rs. body p (fw_db w) = Inr (db, rs) \<and> fw_db w' = db)"
  using assms unfolding alloc_command_def Let_def
  by (auto split: prod.splits sum.splits if_splits option.splits)

lemma alloc_command_inv:
  assumes "ledger_inv (fw_db w)" "\<And>p db rs. body p (fw_db w) = Inr (db, rs) \<Longrightarrow> ledger_inv db"
  shows "ledger_inv (fw_db (fst (alloc_command env s key command payload pid body w)))"
  using alloc_command_cases [of env s key command payload pid body w] assms
  by (cases "alloc_command env s key command payload pid body w") auto

lemma fifo_allocate_inv:
  "fifo_allocate env s pid key p db = Inr (db', rs) \<Longrightarrow> ledger_inv db \<Longrightarrow> ledger_inv db'"
  by (auto simp: fifo_allocate_def Let_def split: if_splits sum.splits dest: applyAllocationsTx_inv)

datatype alloc_cmd = CmdAllocate fin_env fin_session string "AllocationInput list" string
  | CmdFIFO fin_env fin_session string string
  | CmdUnallocate fin_env fin_session string "string list" string

fun run_cmd :: "alloc_cmd \<Rightarrow> fin_world \<Rightarrow> fin_world \<times> (fin_error + alloc_row list)" where
  "run_cmd (CmdAllocate env s pid inputs key) w = AllocatePayment env s pid inputs key w"
| "run_cmd (CmdFIFO env s pid key) w = AllocatePaymentFIFO env s pid key w"
| "run_cmd (CmdUnallocate env s pid ids key) w = UnallocatePayment env s pid ids key w"

definition run_cmds :: "alloc_cmd list \<Rightarrow> fin_world \<Rightarrow> fin_world" where
  "run_cmds cs w = foldl (\<lambda>w c. fst (run_cmd c w)) w cs"

lemma run_cmd_inv:
  assumes "ledger_inv (fw_db w)" shows "ledger_inv (fw_db (fst (run_cmd c w)))"
proof (cases c)
  case (CmdAllocate env s pid inputs key)
  then show ?thesis using assms
    by (auto simp: AllocatePayment_def split: option.split sum.split intro!: alloc_command_inv elim: applyAllocationsTx_inv)
next
  case (CmdFIFO env s pid key)
  then show ?thesis using assms
    by (auto simp: AllocatePaymentFIFO_def split: option.split intro!: alloc_command_inv elim: fifo_allocate_inv)
next
  case (CmdUnallocate env s pid ids key)
  then show ?thesis using assms
    by (auto simp: UnallocatePayment_def Let_def split: option.split sum.split intro!: alloc_command_inv elim: unallocate_loop_inv)
qed

lemma run_cmds_inv: "ledger_inv (fw_db w) \<Longrightarrow> ledger_inv (fw_db (run_cmds cs w))"
  unfolding run_cmds_def by (induction cs arbitrary: w) (simp_all add: run_cmd_inv)

text \<open>
  Claim C7.  Whatever sequence of allocate, FIFO-allocate and unallocate commands runs, with any inputs, failing commits
  included, the net amount allocated from a payment stays between zero and the payment, the net amount allocated to an
  invoice between zero and its amount, and an allocation row is taken back at most once, by a row of the same payment,
  invoice and amount.
\<close>

theorem allocations_never_exceed:
  assumes "ledger_inv (fw_db w)"
  shows "let db = fw_db (run_cmds cs w) in
    (\<forall>i p. map_of (db_payments db) i = Some p \<longrightarrow> 0 \<le> payment_used db i \<and> payment_used db i \<le> fp_Amount p)
    \<and> (\<forall>i it. map_of (db_items db) i = Some it \<longrightarrow> 0 \<le> allocationForOpenItem db i \<and> allocationForOpenItem db i \<le> it_Original it)
    \<and> (\<forall>r \<in> set (db_allocs db). ar_ReversalOfID r \<noteq> None \<longrightarrow> (\<exists>q \<in> set (db_allocs db). reverses r q))
    \<and> (\<forall>r \<in> set (db_allocs db). \<forall>q \<in> set (db_allocs db).
         ar_ReversalOfID r \<noteq> None \<longrightarrow> ar_ReversalOfID r = ar_ReversalOfID q \<longrightarrow> r = q)"
proof -
  have inv: "ledger_inv (fw_db (run_cmds cs w))" by (rule run_cmds_inv [OF assms(1)])
  then show ?thesis using ledger_nonneg [OF inv] unfolding ledger_inv_def limits_ok_def rows_ok_def Let_def by blast
qed

definition sample_alloc :: alloc_row where
  "sample_alloc = \<lparr>ar_ID = ''a1'', ar_PaymentID = ''p1'', ar_PartyID = ''c1'', ar_OpenItemID = ''i1'', ar_TargetType = ''DOCUMENT'',
     ar_TargetID = ''d1'', ar_Currency = ''TRY'', ar_Amount = 300000, ar_Key = ''k1'', ar_ReversalOfID = None\<rparr>"

definition sample_reversal :: alloc_row where
  "sample_reversal = sample_alloc\<lparr>ar_ID := ''n1'', ar_Key := ''unallocate:k2:a1'', ar_ReversalOfID := Some ''a1''\<rparr>"

definition sample_fin_db :: fin_db where
  "sample_fin_db = \<lparr>
     db_payments = [(''p1'', \<lparr>fp_PartyID = ''c1'', fp_Currency = ''TRY'', fp_PaymentKind = ''COLLECTION'', fp_Amount = 1000000,
       fp_AccountID = None, fp_ReversalOfID = None\<rparr>)],
     db_items = [(''i1'', \<lparr>it_PartyID = ''c1'', it_Side = ''RECEIVABLE'', it_Currency = ''TRY'', it_Original = 400000, it_Reversal = None,
       it_DocumentID = Some ''d1'', it_ManualEntryID = None, it_DocumentDate = 1, it_DueDate = None, it_CreatedAt = 1\<rparr>)],
     db_documents = [''d1'' \<mapsto> \<lparr>dc_type = ''SALES_INVOICE'', dc_branch = None\<rparr>], db_returns = [(''d1'', 50000)],
     db_accounts = Map.empty, db_branches = [], db_allocs = [sample_alloc]\<rparr>"

definition sample_fin_env :: fin_env where
  "sample_fin_env = \<lparr>ev_parse_uuid = Some, ev_digest = id, ev_new_id = (\<lambda>n. ''n1''), ev_now = 5,
     ev_payload = (\<lambda>p xs. p @ concat (map fst xs)),
     ev_encode = (\<lambda>rs. if rs = [sample_reversal] then Some ''r'' else None), ev_decode = (\<lambda>b. Some [public_row sample_reversal]),
     ev_dues = (\<lambda>i. []), ev_commit = True\<rparr>"

definition sample_session :: fin_session where
  "sample_session = \<lparr>fs_CompanyID = ''co'', fs_UserID = ''u1'', fs_Permissions = [''finance.allocation.manage''], fs_scopes = []\<rparr>"

definition sample_cmd :: alloc_cmd where
  "sample_cmd = CmdUnallocate sample_fin_env sample_session ''p1'' [''a1''] ''k2''"

definition sample_fin_world :: fin_world where
  "sample_fin_world = \<lparr>fw_db = sample_fin_db, fw_idem = Map.empty\<rparr>"

lemma sample_ledger_inv: "ledger_inv (fw_db sample_fin_world)"
  by (simp add: ledger_inv_def rows_ok_def limits_ok_def columns_ok_def sample_fin_world_def sample_fin_db_def sample_alloc_def
      payment_used_def allocationForOpenItem_def signed_def)

theorem allocations_never_exceed_witness:
  "ledger_inv (fw_db sample_fin_world) \<and>
   (let db = fw_db (run_cmds [sample_cmd, sample_cmd] sample_fin_world) in
      \<forall>i p. map_of (db_payments db) i = Some p \<longrightarrow> 0 \<le> payment_used db i \<and> payment_used db i \<le> fp_Amount p)"
  using sample_ledger_inv allocations_never_exceed [OF sample_ledger_inv, of "[sample_cmd, sample_cmd]"] by (simp add: Let_def)

section \<open>Replays\<close>

lemma reserve_after_complete:
  assumes "ReserveTx parse digest t company key command payload = (t1, Inr res)" "\<not> tx_Completed res"
    and "CompleteTx parse t1 company key st (Some body) now = (t2, None)"
  shows "\<exists>res'. ReserveTx parse digest t2 company key command payload = (t2, Inr res') \<and> tx_Completed res' \<and> tx_ResponseBody res' = body"
proof -
  obtain k where k: "NormalizeKey key = Inr k" using assms(1) by (auto simp: ReserveTx_def split: sum.splits)
  obtain c where c: "parse company = Some c" and cmd: "command \<noteq> []"
    using assms(1) by (auto simp: ReserveTx_def k split: if_splits option.splits)
  obtain row where row: "t1 (c, k) = Some row" "rw_command row = command" "rw_hash row = digest payload"
    using assms(1) by (auto simp: ReserveTx_def k c cmd Let_def split: prod.splits if_splits option.splits)
  have "rw_status row = IN_PROGRESS"
    and t2: "t2 = t1((c, k) \<mapsto> row\<lparr>rw_status := COMPLETED, rw_response_status := Some st, rw_response_body := Some body, rw_completed_at := Some now\<rparr>)"
    using assms(3) by (auto simp: CompleteTx_def k c complete_row_def row split: if_splits)
  then show ?thesis
    by (simp add: ReserveTx_def k c cmd insert_ignore_def row Let_def nullable_def)
qed

lemma reserve_completed_again:
  assumes "ReserveTx parse digest t company key command payload = (t1, Inr res)" "tx_Completed res"
  shows "t1 = t"
  using assms
  by (auto simp: ReserveTx_def insert_ignore_def empty_reservation_def Let_def split: sum.splits if_splits option.splits prod.splits)

lemma alloc_command_replay:
  assumes first: "alloc_command env s key command payload pid body w = (w', Inr rs)"
    and json: "\<And>rs b. ev_encode env rs = Some b \<Longrightarrow> ev_decode env b = Some (map public_row rs)"
      "\<And>rs b. ev_decode env b = Some rs \<Longrightarrow> map public_row rs = rs"
    and env: "ev_parse_uuid env' = ev_parse_uuid env" "ev_digest env' = ev_digest env" "ev_decode env' = ev_decode env"
  shows "alloc_command env' s key command payload pid body' w' = (w', Inr (map public_row rs))"
proof -
  obtain t res where res: "ReserveTx (ev_parse_uuid env) (ev_digest env) (fw_idem w) (fs_CompanyID s) key command payload = (t, Inr res)"
    using first by (auto simp: alloc_command_def Let_def split: prod.splits sum.splits)
  show ?thesis
  proof (cases "tx_Completed res")
    case True
    then have "w' = w" "ev_decode env (tx_ResponseBody res) = Some rs"
      using first by (auto simp: alloc_command_def Let_def res split: option.splits)
    then show ?thesis using True json(2) by (simp add: alloc_command_def env res)
  next
    case False
    obtain b t' where b: "ev_encode env rs = Some b"
      "CompleteTx (ev_parse_uuid env) t (fs_CompanyID s) key 200 (Some b) (ev_now env) = (t', None)" "fw_idem w' = t'"
      using first False by (auto simp: alloc_command_def Let_def res CompleteTx_def split: prod.splits sum.splits if_splits option.splits)
    then show ?thesis
      using reserve_after_complete [OF res False b(2)] json(1) [OF b(1)] by (auto simp: alloc_command_def env)
  qed
qed

fun cmd_env :: "alloc_cmd \<Rightarrow> fin_env" where
  "cmd_env (CmdAllocate env s pid inputs key) = env"
| "cmd_env (CmdFIFO env s pid key) = env"
| "cmd_env (CmdUnallocate env s pid ids key) = env"

fun with_env :: "fin_env \<Rightarrow> alloc_cmd \<Rightarrow> alloc_cmd" where
  "with_env env (CmdAllocate _ s pid inputs key) = CmdAllocate env s pid inputs key"
| "with_env env (CmdFIFO _ s pid key) = CmdFIFO env s pid key"
| "with_env env (CmdUnallocate _ s pid ids key) = CmdUnallocate env s pid ids key"

definition later_env :: "fin_env \<Rightarrow> (nat \<Rightarrow> string) \<Rightarrow> int \<Rightarrow> (string \<Rightarrow> OpenItemDue list) \<Rightarrow> bool \<Rightarrow> fin_env" where
  "later_env env new_id now dues ok = env\<lparr>ev_new_id := new_id, ev_now := now, ev_dues := dues, ev_commit := ok\<rparr>"

lemma later_env_simps [simp]:
  "ev_parse_uuid (later_env env new_id now dues ok) = ev_parse_uuid env" "ev_digest (later_env env new_id now dues ok) = ev_digest env"
  "ev_decode (later_env env new_id now dues ok) = ev_decode env" "ev_payload (later_env env new_id now dues ok) = ev_payload env"
  by (simp_all add: later_env_def)

text \<open>
  Claim C27.  An allocation command is applied once per idempotency key: after it has answered rows, repeating it with the same
  inputs at any later time (later clock, generated identifiers, due dates and commit outcome being arbitrary) changes neither
  the ledger nor the idempotency table and answers the same rows as far as JSON carries them, that is with an empty
  idempotency key.  Hypotheses on the JSON of rows: decoding an encoded list of rows gives these rows with the key blanked (the
  field has the tag \<^verbatim>\<open>json:"-"\<close>), and decoding never fills the key.
\<close>

theorem allocation_command_replay:
  assumes "run_cmd c w = (w', Inr rs)"
    and "\<And>rs b. ev_encode (cmd_env c) rs = Some b \<Longrightarrow> ev_decode (cmd_env c) b = Some (map public_row rs)"
    and "\<And>rs b. ev_decode (cmd_env c) b = Some rs \<Longrightarrow> map public_row rs = rs"
  shows "run_cmd (with_env (later_env (cmd_env c) new_id now dues ok) c) w' = (w', Inr (map public_row rs))"
proof (cases c)
  case (CmdAllocate env s paymentID inputs key)
  have json: "\<And>rs b. ev_encode env rs = Some b \<Longrightarrow> ev_decode env b = Some (map public_row rs)"
    "\<And>rs b. ev_decode env b = Some rs \<Longrightarrow> map public_row rs = rs" using assms(2,3) CmdAllocate by simp_all
  from assms(1) CmdAllocate show ?thesis
    by (auto simp: AllocatePayment_def split: if_splits option.splits sum.splits intro: alloc_command_replay [OF _ json])
next
  case (CmdFIFO env s paymentID key)
  have json: "\<And>rs b. ev_encode env rs = Some b \<Longrightarrow> ev_decode env b = Some (map public_row rs)"
    "\<And>rs b. ev_decode env b = Some rs \<Longrightarrow> map public_row rs = rs" using assms(2,3) CmdFIFO by simp_all
  from assms(1) CmdFIFO show ?thesis
    by (auto simp: AllocatePaymentFIFO_def split: if_splits option.splits intro: alloc_command_replay [OF _ json])
next
  case (CmdUnallocate env s paymentID ids key)
  have json: "\<And>rs b. ev_encode env rs = Some b \<Longrightarrow> ev_decode env b = Some (map public_row rs)"
    "\<And>rs b. ev_decode env b = Some rs \<Longrightarrow> map public_row rs = rs" using assms(2,3) CmdUnallocate by simp_all
  from assms(1) CmdUnallocate show ?thesis
    by (auto simp: UnallocatePayment_def Let_def split: if_splits option.splits sum.splits intro: alloc_command_replay [OF _ json])
qed

lemma sample_cmd_succeeds: "\<exists>w'. run_cmd sample_cmd sample_fin_world = (w', Inr [sample_reversal])"
proof -
  have "case snd (run_cmd sample_cmd sample_fin_world) of Inl e \<Rightarrow> False | Inr rs \<Rightarrow> rs = [sample_reversal]" by code_simp
  then show ?thesis by (cases "run_cmd sample_cmd sample_fin_world") (auto split: sum.splits)
qed

theorem allocation_command_replay_witness:
  "\<exists>w'. run_cmd sample_cmd sample_fin_world = (w', Inr [sample_reversal])
     \<and> run_cmd (with_env (later_env (cmd_env sample_cmd) (\<lambda>n. ''n2'') 9 (\<lambda>i. []) True) sample_cmd) w' = (w', Inr [public_row sample_reversal])"
proof -
  obtain w' where r: "run_cmd sample_cmd sample_fin_world = (w', Inr [sample_reversal])" using sample_cmd_succeeds by blast
  have "\<And>rs b. ev_encode (cmd_env sample_cmd) rs = Some b \<Longrightarrow> ev_decode (cmd_env sample_cmd) b = Some (map public_row rs)"
    "\<And>rs b. ev_decode (cmd_env sample_cmd) b = Some rs \<Longrightarrow> map public_row rs = rs"
    by (auto simp: sample_cmd_def sample_fin_env_def public_row_def split: if_splits)
  from allocation_command_replay [OF r this] r show ?thesis by simp
qed

end
