(* ===== verification/Data_Exchange.thy ===== *)
theory Data_Exchange
  imports Go_Sort "HOL-Library.Sublist"
begin

text \<open>
  The import engine of \<^verbatim>\<open>src/internal/dataexchange\<close>: jobs (\<^verbatim>\<open>types.go\<close>), tables (\<^verbatim>\<open>table.go\<close>), column mapping (\<^verbatim>\<open>mapping.go\<close>),
  generic validators (\<^verbatim>\<open>validation.go\<close>) and the run (\<^verbatim>\<open>engine.go\<close>).  Strings are byte strings; the Unicode tables behind
  \<^verbatim>\<open>strings.ToLower\<close>, \<^verbatim>\<open>unicode.IsLetter\<close> and \<^verbatim>\<open>unicode.IsDigit\<close> are a parameter.  The target-domain adapter is a parameter: its
  \<^verbatim>\<open>Validate\<close> is a function of the rows, its \<^verbatim>\<open>Commit\<close> a state transformer of the target.  A cancelled context is a
  parameter that tells at which of the checks it is seen.  The Turkish texts of issues and errors are left out.
\<close>

section \<open>Headers\<close>

record unicode =
  un_lower :: "int \<Rightarrow> int"
  un_letter :: "int \<Rightarrow> bool"
  un_digit :: "int \<Rightarrow> bool"

abbreviation byte :: "char \<Rightarrow> int" where "byte c \<equiv> of_char c"

definition cont :: "char \<Rightarrow> bool" where
  "cont c = (0x80 \<le> byte c \<and> byte c \<le> 0xBF)"

text \<open>The first rune of a byte string and its width; an invalid sequence is \<open>U+FFFD\<close> of width one.\<close>

fun first_rune :: "string \<Rightarrow> int \<times> nat" where
  "first_rune (a # b # c # d # s) =
     (let n = byte a; n1 = byte b in
      if n < 0x80 then (n, 1)
      else if 0xC2 \<le> n \<and> n \<le> 0xDF \<and> cont b then ((n - 0xC0) * 64 + (n1 - 0x80), 2)
      else if 0xE0 \<le> n \<and> n \<le> 0xEF \<and> cont b \<and> cont c \<and> (n = 0xE0 \<longrightarrow> 0xA0 \<le> n1) \<and> (n = 0xED \<longrightarrow> n1 \<le> 0x9F)
        then ((n - 0xE0) * 4096 + (n1 - 0x80) * 64 + (byte c - 0x80), 3)
      else if 0xF0 \<le> n \<and> n \<le> 0xF4 \<and> cont b \<and> cont c \<and> cont d \<and> (n = 0xF0 \<longrightarrow> 0x90 \<le> n1) \<and> (n = 0xF4 \<longrightarrow> n1 \<le> 0x8F)
        then ((n - 0xF0) * 262144 + (n1 - 0x80) * 4096 + (byte c - 0x80) * 64 + (byte d - 0x80), 4)
      else (0xFFFD, 1))"
| "first_rune [a, b, c] =
     (let n = byte a; n1 = byte b in
      if n < 0x80 then (n, 1)
      else if 0xC2 \<le> n \<and> n \<le> 0xDF \<and> cont b then ((n - 0xC0) * 64 + (n1 - 0x80), 2)
      else if 0xE0 \<le> n \<and> n \<le> 0xEF \<and> cont b \<and> cont c \<and> (n = 0xE0 \<longrightarrow> 0xA0 \<le> n1) \<and> (n = 0xED \<longrightarrow> n1 \<le> 0x9F)
        then ((n - 0xE0) * 4096 + (n1 - 0x80) * 64 + (byte c - 0x80), 3)
      else (0xFFFD, 1))"
| "first_rune [a, b] =
     (let n = byte a in
      if n < 0x80 then (n, 1)
      else if 0xC2 \<le> n \<and> n \<le> 0xDF \<and> cont b then ((n - 0xC0) * 64 + (byte b - 0x80), 2)
      else (0xFFFD, 1))"
| "first_rune [a] = (if byte a < 0x80 then (byte a, 1) else (0xFFFD, 1))"
| "first_rune [] = (0xFFFD, 0)"

function runes :: "string \<Rightarrow> int list" where
  "runes [] = []"
| "runes (c # s) = (let (r, w) = first_rune (c # s) in r # runes (drop (w - 1) s))"
  by pat_completeness auto
termination by (relation "measure length") auto

definition rune_bytes :: "int \<Rightarrow> string" where \<comment> \<open>\<^verbatim>\<open>utf8.EncodeRune\<close>\<close>
  "rune_bytes r =
     (let r = (if r < 0 \<or> 0x10FFFF < r \<or> (0xD800 \<le> r \<and> r \<le> 0xDFFF) then 0xFFFD else r) in
      map char_of (if r < 0x80 then [r]
        else if r < 0x800 then [0xC0 + r div 64, 0x80 + r mod 64]
        else if r < 0x10000 then [0xE0 + r div 4096, 0x80 + r div 64 mod 64, 0x80 + r mod 64]
        else [0xF0 + r div 262144, 0x80 + r div 4096 mod 64, 0x80 + r div 64 mod 64, 0x80 + r mod 64]))"

definition to_lower :: "unicode \<Rightarrow> string \<Rightarrow> string" where
  "to_lower u s = concat (map (\<lambda>r. rune_bytes (un_lower u r)) (runes s))"

definition fold_turkish :: "int \<Rightarrow> int" where
  "fold_turkish r =
     (if r = 0xE7 then 0x63 else if r = 0x11F then 0x67 else if r = 0x131 then 0x69 else if r = 0xF6 then 0x6F
      else if r = 0x15F then 0x73 else if r = 0xFC then 0x75 else r)"

definition normalizeHeader :: "unicode \<Rightarrow> string \<Rightarrow> string" where
  "normalizeHeader u value =
     concat (map rune_bytes (filter (\<lambda>r. un_letter u r \<or> un_digit u r)
       (map fold_turkish (runes (to_lower u (trim_space value))))))"

section \<open>Jobs\<close>

datatype JobState = Pending | Mapping_State | Previewed | DryRunCompleted | ReadyToCommit | ValidationFailed | Committed_State | Failed
  | OtherState string

record ImportJob =
  job_ID :: string
  job_CompanyID :: string
  job_State :: JobState

record Issue =
  is_RowNumber :: int
  is_Field :: string
  is_Code :: string
  is_Severity :: string

datatype dx_error = ErrInvalidJob | ErrInvalidTable | ErrInvalidMapping | MappingErrors "Issue list" | AdapterValidation | ContextDone

definition NewImportJob :: "string \<Rightarrow> string \<Rightarrow> dx_error + ImportJob" where
  "NewImportJob i c =
     (let i = trim_space i; c = trim_space c in
      if i = [] \<or> c = [] then Inl ErrInvalidJob else Inr \<lparr>job_ID = i, job_CompanyID = c, job_State = Pending\<rparr>)"

fun validJobState :: "JobState \<Rightarrow> bool" where
  "validJobState (OtherState s) = False"
| "validJobState s = True"

definition allowedTransition :: "JobState \<Rightarrow> JobState \<Rightarrow> bool" where
  "allowedTransition from to =
     (case from of
        Pending \<Rightarrow> to = Mapping_State
      | Mapping_State \<Rightarrow> to = Previewed \<or> to = Failed
      | Previewed \<Rightarrow> to = DryRunCompleted \<or> to = ReadyToCommit \<or> to = ValidationFailed \<or> to = Failed
      | ReadyToCommit \<Rightarrow> to = Committed_State \<or> to = Failed
      | _ \<Rightarrow> False)"

definition Transition :: "ImportJob \<Rightarrow> JobState \<Rightarrow> dx_error + ImportJob" where
  "Transition j to =
     (if trim_space (job_ID j) = [] \<or> trim_space (job_CompanyID j) = [] then Inl ErrInvalidJob
      else if \<not> validJobState (job_State j) \<or> \<not> validJobState to then Inl ErrInvalidJob
      else if \<not> allowedTransition (job_State j) to then Inl ErrInvalidJob
      else Inr (j\<lparr>job_State := to\<rparr>))"

definition SeverityError :: string where "SeverityError = ''ERROR''"
definition SeverityWarning :: string where "SeverityWarning = ''WARNING''"

definition IsError :: "Issue \<Rightarrow> bool" where "IsError i = (is_Severity i = SeverityError)"
definition IsWarning :: "Issue \<Rightarrow> bool" where "IsWarning i = (is_Severity i = SeverityWarning)"

definition hasError :: "Issue list \<Rightarrow> bool" where
  "hasError issues = list_ex IsError issues"

definition issue :: "int \<Rightarrow> string \<Rightarrow> string \<Rightarrow> string \<Rightarrow> Issue" where
  "issue n f c sev = \<lparr>is_RowNumber = n, is_Field = f, is_Code = c, is_Severity = sev\<rparr>"

section \<open>Tables\<close>

record Row =
  row_Number :: int
  row_Values :: "string list"

record Table =
  tb_Headers :: "string list"
  tb_Rows :: "Row list"

definition rowNumber :: "Row \<Rightarrow> nat \<Rightarrow> int" where
  "rowNumber row index = (if row_Number row > 0 then row_Number row else int index + 2)"

fun check_headers :: "unicode \<Rightarrow> string list \<Rightarrow> string list \<Rightarrow> bool" where
  "check_headers u seen [] = True"
| "check_headers u seen (h # hs) =
     (trim_space h \<noteq> [] \<and> normalizeHeader u h \<noteq> [] \<and> normalizeHeader u h \<notin> set seen
      \<and> check_headers u (normalizeHeader u h # seen) hs)"

definition table_validate :: "unicode \<Rightarrow> Table \<Rightarrow> dx_error option" where
  "table_validate u t =
     (if tb_Headers t = [] then Some ErrInvalidTable
      else if \<not> check_headers u [] (tb_Headers t) then Some ErrInvalidTable
      else if list_ex (\<lambda>row. length (row_Values row) \<noteq> length (tb_Headers t)) (tb_Rows t) then Some ErrInvalidTable
      else None)"

definition NewTable :: "unicode \<Rightarrow> string list \<Rightarrow> string list list \<Rightarrow> dx_error + Table" where
  "NewTable u headers records =
     (let normalizedHeaders = map trim_space headers in
      if headers = [] then Inl ErrInvalidTable
      else if \<not> check_headers u [] normalizedHeaders then Inl ErrInvalidTable
      else if list_ex (\<lambda>record. length record > length normalizedHeaders) records then Inl ErrInvalidTable
      else Inr \<lparr>tb_Headers = normalizedHeaders,
        tb_Rows = map (\<lambda>(rowIndex, record). \<lparr>row_Number = int rowIndex + 2,
          row_Values = map trim_space record @ replicate (length normalizedHeaders - length record) []\<rparr>) (enumerate 0 records)\<rparr>)"

section \<open>Column mapping\<close>

record FieldSpec =
  fd_Name :: string
  fd_Label :: string
  fd_Type :: string
  fd_Aliases :: "string list"
  fd_Required :: bool
  fd_Example :: string

datatype MappingMethod = Manual | Auto

record ColumnMapping =
  cm_Field :: string
  cm_SourceHeader :: string
  cm_SourceIndex :: nat
  cm_Method :: MappingMethod

record Mapping =
  mp_SourceHeaders :: "string list"
  mp_Columns :: "ColumnMapping list"

record MappedRow =
  mr_RowNumber :: int
  mr_Values :: "string \<rightharpoonup> string"

fun put :: "'k \<Rightarrow> 'v \<Rightarrow> ('k \<times> 'v) list \<Rightarrow> ('k \<times> 'v) list" where
  "put k v [] = [(k, v)]"
| "put k v ((k', v') # xs) = (if k = k' then (k, v) # xs else (k', v') # put k v xs)"

text \<open>\<open>manual\<close> is the Go map as its list of pairs in the order of \<^verbatim>\<open>sort.Strings(keys)\<close>; \<open>specs\<close> are the canonical keys.\<close>

fun manual_loop :: "unicode \<Rightarrow> string list \<Rightarrow> (string \<times> string) list \<Rightarrow> (string \<times> string) list \<Rightarrow> (string \<times> string) list \<times> Issue list" where
  "manual_loop u specs result [] = (result, [])"
| "manual_loop u specs result ((key, source) # rest) =
     (let fieldKey = normalizeHeader u key in
      if fieldKey = [] then
        (let (r, is) = manual_loop u specs result rest in (r, issue 0 [] ''manual_target_empty'' SeverityError # is))
      else if fieldKey \<notin> set specs then manual_loop u specs (put fieldKey (normalizeHeader u source) result) rest
      else (case map_of result fieldKey of
          Some previous \<Rightarrow>
            if previous \<noteq> normalizeHeader u source then
              (let (r, is) = manual_loop u specs result rest in (r, issue 0 key ''manual_target_ambiguous'' SeverityError # is))
            else manual_loop u specs (put fieldKey (normalizeHeader u source) result) rest
        | None \<Rightarrow> manual_loop u specs (put fieldKey (normalizeHeader u source) result) rest))"

definition normalizeManualMappings :: "unicode \<Rightarrow> (string \<times> string) list \<Rightarrow> string list \<Rightarrow> (string \<times> string) list \<times> Issue list" where
  "normalizeManualMappings u manual specs =
     manual_loop u specs [] (stable_sort (\<lambda>x y. str_less (fst x) (fst y)) manual)"

definition matchingHeaders :: "unicode \<Rightarrow> string list \<Rightarrow> FieldSpec \<Rightarrow> nat list" where
  "matchingHeaders u headers field =
     (let accepted = normalizeHeader u (fd_Name field) # filter (\<lambda>k. k \<noteq> []) (map (normalizeHeader u) (fd_Aliases field)) in
      filter (\<lambda>i. normalizeHeader u (headers ! i) \<in> set accepted) [0..<length headers])"

fun canonical_fields :: "unicode \<Rightarrow> string list \<Rightarrow> FieldSpec list \<Rightarrow> dx_error + FieldSpec list" where
  "canonical_fields u seen [] = Inr []"
| "canonical_fields u seen (f # fs) =
     (let f = f\<lparr>fd_Name := trim_space (fd_Name f)\<rparr>; key = normalizeHeader u (fd_Name f) in
      if fd_Name f = [] \<or> key = [] then Inl (MappingErrors [issue 0 (fd_Name f) ''invalid_field'' SeverityError])
      else if key \<in> set seen then Inl (MappingErrors [issue 0 (fd_Name f) ''duplicate_field'' SeverityError])
      else (case canonical_fields u (key # seen) fs of Inl e \<Rightarrow> Inl e | Inr gs \<Rightarrow> Inr (f # gs)))"

definition header_index :: "unicode \<Rightarrow> string list \<Rightarrow> string \<Rightarrow> nat option" where \<comment> \<open>the last header with that key\<close>
  "header_index u headers key = find (\<lambda>i. normalizeHeader u (headers ! i) = key) (rev [0..<length headers])"

text \<open>One field: the column it takes, or the issue it raises; \<open>used\<close> are the source columns already taken.\<close>

definition resolve_field :: "unicode \<Rightarrow> string list \<Rightarrow> (string \<times> string) list \<Rightarrow> nat list \<Rightarrow> FieldSpec \<Rightarrow> Issue + ColumnMapping" where
  "resolve_field u headers manual used field =
     (let column = (\<lambda>i m. Inr \<lparr>cm_Field = fd_Name field, cm_SourceHeader = headers ! i, cm_SourceIndex = i, cm_Method = m\<rparr>);
          err = (\<lambda>c. Inl (issue 0 (fd_Name field) c SeverityError)) in
      case map_of manual (normalizeHeader u (fd_Name field)) of
        Some sourceKey \<Rightarrow>
          if sourceKey = [] then err ''manual_source_empty''
          else (case header_index u headers sourceKey of
              None \<Rightarrow> err ''manual_source_missing''
            | Some i \<Rightarrow> if i \<in> set used then err ''source_column_reused'' else column i Manual)
      | None \<Rightarrow>
          (case matchingHeaders u headers field of
             [] \<Rightarrow> if fd_Required field then err ''required_field_unmapped''
                   else Inl (issue 0 (fd_Name field) ''optional_field_unmapped'' SeverityWarning)
           | [i] \<Rightarrow> if i \<in> set used then err ''source_column_reused'' else column i Auto
           | _ \<Rightarrow> err ''ambiguous_mapping''))"

fun resolve_loop :: "unicode \<Rightarrow> string list \<Rightarrow> (string \<times> string) list \<Rightarrow> nat list \<Rightarrow> FieldSpec list \<Rightarrow> ColumnMapping list \<times> Issue list" where
  "resolve_loop u headers manual used [] = ([], [])"
| "resolve_loop u headers manual used (f # fs) =
     (case resolve_field u headers manual used f of
        Inl i \<Rightarrow> (let (cs, is) = resolve_loop u headers manual used fs in (cs, i # is))
      | Inr c \<Rightarrow> (let (cs, is) = resolve_loop u headers manual (cm_SourceIndex c # used) fs in (c # cs, is)))"

definition ResolveMapping :: "unicode \<Rightarrow> Table \<Rightarrow> FieldSpec list \<Rightarrow> (string \<times> string) list \<Rightarrow> dx_error + Mapping \<times> Issue list" where
  "ResolveMapping u table specs options =
     (case table_validate u table of
        Some e \<Rightarrow> Inl e
      | None \<Rightarrow>
          if specs = [] then Inl (MappingErrors [issue 0 [] ''no_fields'' SeverityError])
          else (case canonical_fields u [] specs of
              Inl e \<Rightarrow> Inl e
            | Inr specs \<Rightarrow>
                let keys = map (\<lambda>f. normalizeHeader u (fd_Name f)) specs;
                    (manual, manualIssues) = normalizeManualMappings u options keys;
                    (columns, fieldIssues) = resolve_loop u (tb_Headers table) manual [] specs;
                    unknown = stable_sort str_less (filter (\<lambda>k. k \<notin> set keys) (map fst manual));
                    unused = filter (\<lambda>i. i \<notin> set (map cm_SourceIndex columns)) [0..<length (tb_Headers table)];
                    issues = manualIssues @ fieldIssues
                      @ map (\<lambda>k. issue 0 k ''manual_target_unknown'' SeverityError) unknown
                      @ map (\<lambda>i. issue 0 (tb_Headers table ! i) ''unmapped_source_column'' SeverityWarning) unused in
                if hasError issues then Inl (MappingErrors issues)
                else Inr (\<lparr>mp_SourceHeaders = tb_Headers table, mp_Columns = columns\<rparr>, issues)))"

definition Mapping_Lookup :: "unicode \<Rightarrow> Mapping \<Rightarrow> string \<Rightarrow> nat option" where
  "Mapping_Lookup u m field =
     map_option cm_SourceIndex (find (\<lambda>c. normalizeHeader u (cm_Field c) = normalizeHeader u field) (mp_Columns m))"

definition MapRow :: "Mapping \<Rightarrow> Row \<Rightarrow> dx_error + MappedRow" where
  "MapRow m row =
     (if mp_SourceHeaders m = [] \<or> length (row_Values row) \<noteq> length (mp_SourceHeaders m) then Inl ErrInvalidTable
      else if list_ex (\<lambda>c. cm_SourceIndex c \<ge> length (row_Values row)) (mp_Columns m) then Inl ErrInvalidMapping
      else Inr \<lparr>mr_RowNumber = row_Number row,
        mr_Values = foldl (\<lambda>vs c. vs(cm_Field c \<mapsto> trim_space (row_Values row ! cm_SourceIndex c))) Map.empty (mp_Columns m)\<rparr>)"

text \<open>A table built from records passes the check every later step makes.\<close>

lemma NewTable_valid: "NewTable u headers records = Inr t \<Longrightarrow> table_validate u t = None"
  by (auto simp: NewTable_def table_validate_def Let_def list_ex_iff in_set_enumerate_eq not_less split: if_splits)

section \<open>Lemmas on the mapping\<close>

named_theorems dx_defs \<open>Definitions of the import engine that its case analyses unfold.\<close>

lemma map_of_put [simp]: "map_of (put k v xs) = (map_of xs)(k \<mapsto> v)"
  by (induction xs) auto

lemma hasError_simps [simp]:
  "hasError [] = False" "hasError (i # is) = (IsError i \<or> hasError is)" "hasError (is @ js) = (hasError is \<or> hasError js)"
  by (simp_all add: hasError_def)

lemma hasError_set: "hasError is \<longleftrightarrow> (\<exists>i \<in> set is. IsError i)"
  by (simp add: hasError_def list_ex_iff)

lemma IsError_issue [simp]:
  "IsError (issue n f c SeverityError)" "\<not> IsError (issue n f c SeverityWarning)"
  by (simp_all add: IsError_def issue_def SeverityError_def SeverityWarning_def)

lemma manual_loop_dom:
  "manual_loop u specs r0 xs = (r, is) \<Longrightarrow> map_of r0 k \<noteq> None \<Longrightarrow> map_of r k \<noteq> None"
proof (induction u specs r0 xs arbitrary: "is" k rule: manual_loop.induct)
  case (2 u specs result key source rest)
  then show ?case
    by (auto simp: Let_def split: if_splits prod.splits option.splits)
qed simp

lemma manual_loop_honours:
  assumes "manual_loop u specs r0 xs = (r, is)" "\<not> hasError is" "\<forall>k. map_of r k \<noteq> None \<longrightarrow> k \<in> set specs"
  shows "(\<forall>(k, s) \<in> set xs. map_of r (normalizeHeader u k) = Some (normalizeHeader u s))
    \<and> (\<forall>k v. map_of r0 k = Some v \<longrightarrow> map_of r k = Some v)"
  using assms
proof (induction xs arbitrary: r0 "is")
  case (Cons x xs)
  obtain key source where x: "x = (key, source)" by (cases x)
  let ?k = "normalizeHeader u key" and ?s = "normalizeHeader u source"
  have rest: "manual_loop u specs (put ?k ?s r0) xs = (r, is)"
    and keep: "?k \<in> set specs \<Longrightarrow> map_of r0 ?k \<noteq> None \<Longrightarrow> map_of r0 ?k = Some ?s"
    using Cons.prems(1,2) by (auto simp: x Let_def split: if_splits prod.splits option.splits)
  have known: "?k \<in> set specs"
    using manual_loop_dom [OF rest, of ?k] Cons.prems(3) by simp
  then have same: "map_of r0 ?k = Some v \<Longrightarrow> v = ?s" for v using keep by simp
  have IH: "\<forall>(k, s) \<in> set xs. map_of r (normalizeHeader u k) = Some (normalizeHeader u s)"
    "\<And>k v. ((map_of r0)(?k \<mapsto> ?s)) k = Some v \<Longrightarrow> map_of r k = Some v"
    using Cons.IH [OF rest Cons.prems(2,3)] by auto
  have "map_of r0 k = Some v \<Longrightarrow> map_of r k = Some v" for k v
    using IH(2) [of k v] IH(2) [of ?k ?s] same by (cases "k = ?k") auto
  then show ?case using IH(1) IH(2) [of ?k ?s] by (auto simp: x)
qed simp

lemma find_header_index:
  "header_index u headers key = Some i \<Longrightarrow> i < length headers \<and> normalizeHeader u (headers ! i) = key"
  by (auto simp: header_index_def find_Some_iff rev_nth)

lemma matchingHeaders_nth:
  "i \<in> set (matchingHeaders u headers f) \<Longrightarrow> i < length headers"
  by (simp add: matchingHeaders_def Let_def)

text \<open>What one assigned column is for its field.\<close>

definition column_ok :: "unicode \<Rightarrow> string list \<Rightarrow> (string \<times> string) list \<Rightarrow> FieldSpec \<Rightarrow> ColumnMapping \<Rightarrow> bool" where
  "column_ok u headers manual f c =
     (cm_Field c = fd_Name f \<and> cm_SourceIndex c < length headers \<and> cm_SourceHeader c = headers ! cm_SourceIndex c
      \<and> (case map_of manual (normalizeHeader u (fd_Name f)) of
           Some source \<Rightarrow> normalizeHeader u (cm_SourceHeader c) = source
         | None \<Rightarrow> matchingHeaders u headers f = [cm_SourceIndex c]))"

lemma resolve_field_column:
  assumes "resolve_field u headers manual used f = Inr c"
  shows "column_ok u headers manual f c \<and> cm_SourceIndex c \<notin> set used"
proof (cases "map_of manual (normalizeHeader u (fd_Name f))")
  case None
  then show ?thesis using assms matchingHeaders_nth [of _ u headers f]
    by (auto simp: resolve_field_def column_ok_def Let_def split: list.splits if_splits)
next
  case (Some source)
  then show ?thesis using assms find_header_index [of u headers source]
    by (auto simp: resolve_field_def column_ok_def Let_def split: option.splits if_splits)
qed

lemma resolve_field_silent:
  assumes "resolve_field u headers manual used f = Inl i" "\<not> IsError i"
  shows "\<not> fd_Required f \<and> map_of manual (normalizeHeader u (fd_Name f)) = None"
  using assms by (auto simp: resolve_field_def Let_def split: option.splits list.splits if_splits)

lemma resolve_loop_props:
  assumes "resolve_loop u headers manual used fs = (cs, is)"
  shows "distinct (map cm_SourceIndex cs)" "set (map cm_SourceIndex cs) \<inter> set used = {}"
    "subseq (map cm_Field cs) (map fd_Name fs)"
    "\<forall>c \<in> set cs. \<exists>f \<in> set fs. column_ok u headers manual f c"
    "\<not> hasError is \<Longrightarrow>
       \<forall>f \<in> set fs. fd_Required f \<or> map_of manual (normalizeHeader u (fd_Name f)) \<noteq> None
         \<longrightarrow> (\<exists>c \<in> set cs. column_ok u headers manual f c)"
proof -
  have "distinct (map cm_SourceIndex cs) \<and> set (map cm_SourceIndex cs) \<inter> set used = {}
    \<and> subseq (map cm_Field cs) (map fd_Name fs) \<and> (\<forall>c \<in> set cs. \<exists>f \<in> set fs. column_ok u headers manual f c)
    \<and> (\<not> hasError is \<longrightarrow> (\<forall>f \<in> set fs. fd_Required f \<or> map_of manual (normalizeHeader u (fd_Name f)) \<noteq> None
         \<longrightarrow> (\<exists>c \<in> set cs. column_ok u headers manual f c)))"
    using assms
  proof (induction fs arbitrary: used cs "is")
    case (Cons f fs)
    show ?case
    proof (cases "resolve_field u headers manual used f")
      case (Inl i)
      obtain is' where rest: "resolve_loop u headers manual used fs = (cs, is')" and "is": "is = i # is'"
        using Cons.prems Inl by (auto split: prod.splits)
      show ?thesis using Cons.IH [OF rest] resolve_field_silent [OF Inl] by (auto simp: "is")
    next
      case (Inr c)
      obtain cs' where rest: "resolve_loop u headers manual (cm_SourceIndex c # used) fs = (cs', is)" and cs: "cs = c # cs'"
        using Cons.prems Inr by (auto split: prod.splits)
      show ?thesis using Cons.IH [OF rest] resolve_field_column [OF Inr] by (auto simp: cs column_ok_def)
    qed
  qed simp
  then show "distinct (map cm_SourceIndex cs)" "set (map cm_SourceIndex cs) \<inter> set used = {}"
    "subseq (map cm_Field cs) (map fd_Name fs)"
    "\<forall>c \<in> set cs. \<exists>f \<in> set fs. column_ok u headers manual f c"
    "\<not> hasError is \<Longrightarrow>
       \<forall>f \<in> set fs. fd_Required f \<or> map_of manual (normalizeHeader u (fd_Name f)) \<noteq> None
         \<longrightarrow> (\<exists>c \<in> set cs. column_ok u headers manual f c)"
    by blast+
qed

lemma canonical_fields_props:
  assumes "canonical_fields u seen fs = Inr gs"
  shows "gs = map (\<lambda>f. f\<lparr>fd_Name := trim_space (fd_Name f)\<rparr>) fs"
    "distinct (map (\<lambda>f. normalizeHeader u (fd_Name f)) gs)"
proof -
  have "gs = map (\<lambda>f. f\<lparr>fd_Name := trim_space (fd_Name f)\<rparr>) fs
    \<and> distinct (map (\<lambda>f. normalizeHeader u (fd_Name f)) gs) \<and> (\<forall>g \<in> set gs. normalizeHeader u (fd_Name g) \<notin> set seen)"
    using assms
  proof (induction fs arbitrary: seen gs)
    case (Cons f fs)
    let ?k = "normalizeHeader u (trim_space (fd_Name f))"
    obtain hs where rest: "canonical_fields u (?k # seen) fs = Inr hs" and "?k \<notin> set seen"
      "gs = f\<lparr>fd_Name := trim_space (fd_Name f)\<rparr> # hs"
      using Cons.prems by (auto simp: Let_def split: if_splits sum.splits)
    then show ?case using Cons.IH [OF rest] by fastforce
  qed simp
  then show "gs = map (\<lambda>f. f\<lparr>fd_Name := trim_space (fd_Name f)\<rparr>) fs"
    "distinct (map (\<lambda>f. normalizeHeader u (fd_Name f)) gs)" by blast+
qed

lemma ResolveMapping_InrD:
  assumes "ResolveMapping u t specs options = Inr (m, is)"
  obtains fs manual mi fi where
    "table_validate u t = None" "fs = map (\<lambda>f. f\<lparr>fd_Name := trim_space (fd_Name f)\<rparr>) specs"
    "distinct (map (\<lambda>f. normalizeHeader u (fd_Name f)) fs)"
    "normalizeManualMappings u options (map (\<lambda>f. normalizeHeader u (fd_Name f)) fs) = (manual, mi)"
    "\<forall>k. map_of manual k \<noteq> None \<longrightarrow> k \<in> set (map (\<lambda>f. normalizeHeader u (fd_Name f)) fs)"
    "resolve_loop u (tb_Headers t) manual [] fs = (mp_Columns m, fi)"
    "mp_SourceHeaders m = tb_Headers t" "\<not> hasError mi" "\<not> hasError fi" "\<not> hasError is"
proof -
  have tv: "table_validate u t = None" and ne: "specs \<noteq> []"
    using assms by (auto simp: ResolveMapping_def split: option.splits if_splits)
  obtain fs where cf: "canonical_fields u [] specs = Inr fs"
    using assms tv ne by (auto simp: ResolveMapping_def split: sum.splits)
  let ?keys = "map (\<lambda>f. normalizeHeader u (fd_Name f)) fs"
  obtain manual mi where nm: "normalizeManualMappings u options ?keys = (manual, mi)" by fastforce
  obtain cs fi where rl: "resolve_loop u (tb_Headers t) manual [] fs = (cs, fi)" by fastforce
  have ok: "\<not> hasError mi" "\<not> hasError fi" "\<not> hasError is" "mp_Columns m = cs" "mp_SourceHeaders m = tb_Headers t"
    and unknown: "\<not> hasError (map (\<lambda>k. issue 0 k ''manual_target_unknown'' SeverityError)
      (stable_sort str_less (filter (\<lambda>k. k \<notin> set ?keys) (map fst manual))))"
    using assms tv ne by (auto simp: ResolveMapping_def cf nm rl Let_def split: if_splits)
  have "k \<in> set ?keys" if "map_of manual k \<noteq> None" for k
  proof (rule ccontr)
    assume "k \<notin> set ?keys"
    moreover have "k \<in> set (map fst manual)" using that by (simp add: map_of_eq_None_iff)
    ultimately show False using unknown by (auto simp: hasError_set)
  qed
  then show ?thesis using that [OF tv _ _ nm _ _ ok(5,1,2,3)] canonical_fields_props [OF cf] rl ok(4) by auto
qed

lemma distinct_subseq: "subseq xs ys \<Longrightarrow> distinct ys \<Longrightarrow> distinct xs"
  by (induction rule: list_emb.induct) (auto dest: list_emb_set)

lemma Mapping_Lookup_column:
  assumes "distinct (map (\<lambda>c. normalizeHeader u (cm_Field c)) (mp_Columns m))" "c \<in> set (mp_Columns m)"
    "normalizeHeader u (cm_Field c) = normalizeHeader u field"
  shows "Mapping_Lookup u m field = Some (cm_SourceIndex c)"
proof -
  obtain d where d: "find (\<lambda>c. normalizeHeader u (cm_Field c) = normalizeHeader u field) (mp_Columns m) = Some d"
    using assms(2,3) by (cases "find (\<lambda>c. normalizeHeader u (cm_Field c) = normalizeHeader u field) (mp_Columns m)") (auto simp: find_None_iff)
  then have "d \<in> set (mp_Columns m)" "normalizeHeader u (cm_Field d) = normalizeHeader u field"
    by (auto simp: find_Some_iff)
  then have "d = c" using assms by (auto simp: distinct_map inj_on_def)
  then show ?thesis using d by (simp add: Mapping_Lookup_def)
qed

lemma foldl_upd_other:
  "k \<notin> g ` set cs \<Longrightarrow> foldl (\<lambda>vs c. vs(g c \<mapsto> h c)) vs cs k = vs k"
  by (induction cs arbitrary: vs) auto

lemma foldl_upd:
  "distinct (map g cs) \<Longrightarrow> c \<in> set cs \<Longrightarrow> foldl (\<lambda>vs c. vs(g c \<mapsto> h c)) vs cs (g c) = Some (h c)"
proof (induction cs arbitrary: vs)
  case (Cons d cs)
  then show ?case
    by (cases "c = d") (simp_all add: foldl_upd_other del: fun_upd_apply, simp)
qed simp

lemma MapRow_ok:
  assumes "mp_SourceHeaders m \<noteq> []" "length (row_Values row) = length (mp_SourceHeaders m)"
    "\<forall>c \<in> set (mp_Columns m). cm_SourceIndex c < length (mp_SourceHeaders m)" "distinct (map cm_Field (mp_Columns m))"
  shows "\<exists>r. MapRow m row = Inr r \<and> mr_RowNumber r = row_Number row
    \<and> (\<forall>c \<in> set (mp_Columns m). mr_Values r (cm_Field c) = Some (trim_space (row_Values row ! cm_SourceIndex c)))"
proof -
  have "\<not> list_ex (\<lambda>c. cm_SourceIndex c \<ge> length (row_Values row)) (mp_Columns m)"
    using assms(2,3) by (auto simp: list_ex_iff not_le)
  then show ?thesis
    using assms(1,2) foldl_upd [OF assms(4), where h = "\<lambda>c. trim_space (row_Values row ! cm_SourceIndex c)"]
    by (simp add: MapRow_def)
qed

section \<open>The mapping is sound\<close>

lemma ResolveMapping_columns:
  assumes "ResolveMapping u t specs options = Inr (m, is)"
  shows "mp_SourceHeaders m = tb_Headers t" "distinct (map cm_SourceIndex (mp_Columns m))"
    "distinct (map (\<lambda>c. normalizeHeader u (cm_Field c)) (mp_Columns m))"
    "\<forall>c \<in> set (mp_Columns m). cm_SourceIndex c < length (tb_Headers t) \<and> cm_SourceHeader c = tb_Headers t ! cm_SourceIndex c"
    "\<forall>f \<in> set specs. fd_Required f \<longrightarrow> Mapping_Lookup u m (trim_space (fd_Name f)) \<noteq> None"
    "\<forall>(k, s) \<in> set options. \<exists>i. Mapping_Lookup u m k = Some i \<and> normalizeHeader u (tb_Headers t ! i) = normalizeHeader u s"
proof -
  obtain fs manual mi fi where "table_validate u t = None" and fs: "fs = map (\<lambda>f. f\<lparr>fd_Name := trim_space (fd_Name f)\<rparr>) specs"
    and dist: "distinct (map (\<lambda>f. normalizeHeader u (fd_Name f)) fs)"
    and nm: "normalizeManualMappings u options (map (\<lambda>f. normalizeHeader u (fd_Name f)) fs) = (manual, mi)"
    and known: "\<forall>k. map_of manual k \<noteq> None \<longrightarrow> k \<in> set (map (\<lambda>f. normalizeHeader u (fd_Name f)) fs)"
    and rl: "resolve_loop u (tb_Headers t) manual [] fs = (mp_Columns m, fi)"
    and hd: "mp_SourceHeaders m = tb_Headers t" and ok: "\<not> hasError mi" "\<not> hasError fi" "\<not> hasError is"
    using assms by (rule ResolveMapping_InrD)
  note cols = resolve_loop_props [OF rl]
  show "mp_SourceHeaders m = tb_Headers t" "distinct (map cm_SourceIndex (mp_Columns m))" by (fact hd, fact cols(1))
  show dk: "distinct (map (\<lambda>c. normalizeHeader u (cm_Field c)) (mp_Columns m))"
    using distinct_subseq [OF subseq_map [OF cols(3), of "normalizeHeader u"]] dist by (simp add: o_def)
  show "\<forall>c \<in> set (mp_Columns m). cm_SourceIndex c < length (tb_Headers t) \<and> cm_SourceHeader c = tb_Headers t ! cm_SourceIndex c"
    using cols(4) by (auto simp: column_ok_def)
  show "\<forall>f \<in> set specs. fd_Required f \<longrightarrow> Mapping_Lookup u m (trim_space (fd_Name f)) \<noteq> None"
  proof (intro ballI impI)
    fix f assume "f \<in> set specs" "fd_Required f"
    then obtain c where "c \<in> set (mp_Columns m)" "cm_Field c = trim_space (fd_Name f)"
      using cols(5) [OF ok(2)] by (force simp: fs column_ok_def)
    then show "Mapping_Lookup u m (trim_space (fd_Name f)) \<noteq> None" using Mapping_Lookup_column [OF dk] by simp
  qed
  have manual: "\<forall>(k, s) \<in> set options. map_of manual (normalizeHeader u k) = Some (normalizeHeader u s)"
    using manual_loop_honours [OF nm [unfolded normalizeManualMappings_def] ok(1) known] by simp
  show "\<forall>(k, s) \<in> set options. \<exists>i. Mapping_Lookup u m k = Some i \<and> normalizeHeader u (tb_Headers t ! i) = normalizeHeader u s"
  proof (clarify)
    fix k s assume "(k, s) \<in> set options"
    then have mk: "map_of manual (normalizeHeader u k) = Some (normalizeHeader u s)" using manual by auto
    then obtain f where f: "f \<in> set fs" "normalizeHeader u (fd_Name f) = normalizeHeader u k" using known by (metis (no_types, lifting) imageE image_set option.discI)
    then obtain c where c: "c \<in> set (mp_Columns m)" "column_ok u (tb_Headers t) manual f c" using cols(5) [OF ok(2)] mk by auto
    then have "Mapping_Lookup u m k = Some (cm_SourceIndex c)"
      using Mapping_Lookup_column [OF dk c(1)] f(2) by (simp add: column_ok_def)
    then show "\<exists>i. Mapping_Lookup u m k = Some i \<and> normalizeHeader u (tb_Headers t ! i) = normalizeHeader u s"
      using c(2) f(2) mk by (auto simp: column_ok_def)
  qed
qed

lemma ResolveMapping_rows:
  assumes "ResolveMapping u t specs options = Inr (m, is)" "row \<in> set (tb_Rows t)"
  shows "\<exists>r. MapRow m (row\<lparr>row_Number := n\<rparr>) = Inr r \<and> mr_RowNumber r = n
    \<and> (\<forall>c \<in> set (mp_Columns m). mr_Values r (cm_Field c) = Some (trim_space (row_Values row ! cm_SourceIndex c)))"
proof -
  note cols = ResolveMapping_columns [OF assms(1)]
  have "table_validate u t = None" using assms(1) by (rule ResolveMapping_InrD)
  then have "tb_Headers t \<noteq> []" "length (row_Values row) = length (tb_Headers t)"
    using assms(2) by (auto simp: table_validate_def list_ex_iff split: if_splits)
  moreover have "distinct (map cm_Field (mp_Columns m))" using cols(3) by (auto simp: distinct_map inj_on_def)
  ultimately show ?thesis using MapRow_ok [of m "row\<lparr>row_Number := n\<rparr>"] cols(1,4) by simp
qed

text \<open>
  Claim C30.  A successful \<^verbatim>\<open>ResolveMapping\<close> never gives one source column to two fields nor two columns to one field, keeps
  every column inside the header, finds every required field, honours every manual assignment, and projects every
  row of the table: each mapped field of the row is the trimmed cell under its column.
\<close>

theorem mapping_sound:
  assumes "ResolveMapping u t specs options = Inr (m, is)"
  shows "distinct (map cm_SourceIndex (mp_Columns m))
    \<and> distinct (map (\<lambda>c. normalizeHeader u (cm_Field c)) (mp_Columns m))
    \<and> (\<forall>c \<in> set (mp_Columns m). cm_SourceIndex c < length (tb_Headers t) \<and> cm_SourceHeader c = tb_Headers t ! cm_SourceIndex c)
    \<and> (\<forall>f \<in> set specs. fd_Required f \<longrightarrow> Mapping_Lookup u m (trim_space (fd_Name f)) \<noteq> None)
    \<and> (\<forall>(k, s) \<in> set options. \<exists>i. Mapping_Lookup u m k = Some i \<and> normalizeHeader u (tb_Headers t ! i) = normalizeHeader u s)
    \<and> (\<forall>row \<in> set (tb_Rows t). \<exists>r. MapRow m row = Inr r \<and> mr_RowNumber r = row_Number row
        \<and> (\<forall>c \<in> set (mp_Columns m). mr_Values r (cm_Field c) = Some (trim_space (row_Values row ! cm_SourceIndex c))))"
proof -
  have "\<exists>r. MapRow m row = Inr r \<and> mr_RowNumber r = row_Number row
      \<and> (\<forall>c \<in> set (mp_Columns m). mr_Values r (cm_Field c) = Some (trim_space (row_Values row ! cm_SourceIndex c)))"
    if "row \<in> set (tb_Rows t)" for row
    using ResolveMapping_rows [OF assms that, of "row_Number row"] by simp
  then show ?thesis using ResolveMapping_columns [OF assms] by blast
qed

definition ascii :: unicode where
  "ascii = \<lparr>un_lower = (\<lambda>r. if 65 \<le> r \<and> r \<le> 90 then r + 32 else r),
     un_letter = (\<lambda>r. (65 \<le> r \<and> r \<le> 90) \<or> (97 \<le> r \<and> r \<le> 122)), un_digit = (\<lambda>r. 48 \<le> r \<and> r \<le> 57)\<rparr>"

definition sample_specs :: "FieldSpec list" where
  "sample_specs =
     [\<lparr>fd_Name = ''code'', fd_Label = ''Kod'', fd_Type = ''string'', fd_Aliases = [''Kod''], fd_Required = True, fd_Example = []\<rparr>,
      \<lparr>fd_Name = ''quantity'', fd_Label = ''Miktar'', fd_Type = ''decimal'', fd_Aliases = [], fd_Required = True, fd_Example = []\<rparr>]"

definition sample_table :: Table where
  "sample_table = \<lparr>tb_Headers = [''Adet'', ''KOD''],
     tb_Rows = [\<lparr>row_Number = 2, row_Values = ['' 5'', ''A1'']\<rparr>, \<lparr>row_Number = 3, row_Values = [''7'', ''B2'']\<rparr>]\<rparr>"

definition sample_mapping :: Mapping where
  "sample_mapping = \<lparr>mp_SourceHeaders = [''Adet'', ''KOD''], mp_Columns =
     [\<lparr>cm_Field = ''code'', cm_SourceHeader = ''KOD'', cm_SourceIndex = 1, cm_Method = Auto\<rparr>,
      \<lparr>cm_Field = ''quantity'', cm_SourceHeader = ''Adet'', cm_SourceIndex = 0, cm_Method = Manual\<rparr>]\<rparr>"

lemma sample_resolves:
  "ResolveMapping ascii sample_table sample_specs [(''Quantity'', ''ADET'')] = Inr (sample_mapping, [])"
  by code_simp

theorem mapping_sound_witness:
  "ResolveMapping ascii sample_table sample_specs [(''Quantity'', ''ADET'')] = Inr (sample_mapping, [])
   \<and> (\<exists>i. Mapping_Lookup ascii sample_mapping ''Quantity'' = Some i
        \<and> normalizeHeader ascii (tb_Headers sample_table ! i) = normalizeHeader ascii ''ADET'')"
  using mapping_sound [OF sample_resolves] sample_resolves by simp

end
