(* ===== verification/Data_Import.thy ===== *)
theory Data_Import
  imports Data_Exchange Go_Rat
begin

text \<open>
  The validators of \<^verbatim>\<open>src/internal/dataexchange/validation.go\<close> and the import run of \<^verbatim>\<open>engine.go\<close>.
\<close>

section \<open>Quantities\<close>

record Quantity =
  q_value :: rat
  q_scale :: nat

text \<open>After the sign: \<open>value\<close> is the rest of the text.\<close>

definition quantity_body :: "bool \<Rightarrow> string \<Rightarrow> Quantity option" where
  "quantity_body neg value =
     (if value = [] \<or> CHR ''e'' \<in> set value \<or> CHR ''E'' \<in> set value then None
      else if CHR ''.'' \<in> set value \<and> CHR '','' \<in> set value then None
      else
        let ip = takeWhile (\<lambda>c. c \<noteq> CHR ''.'' \<and> c \<noteq> CHR '','') value;
            fp = drop (length ip + 1) value;
            digits = ip @ fp in
        if digits = [] \<or> \<not> all_digits digits then None
        else Some \<lparr>q_value = (if neg then -1 else 1) * (of_nat (nat_of_dec digits) / 10 ^ length fp), q_scale = length fp\<rparr>)"

definition ParseQuantity :: "string \<Rightarrow> Quantity option" where
  "ParseQuantity raw =
     (case trim_space raw of
        [] \<Rightarrow> None
      | c # cs \<Rightarrow>
          if c = CHR ''+'' then quantity_body False cs
          else if c = CHR ''-'' then quantity_body True cs
          else quantity_body False (c # cs))"

definition IsNegative :: "Quantity \<Rightarrow> bool" where "IsNegative q = (q_value q < 0)"

definition Quantity_String :: "Quantity \<Rightarrow> string" where "Quantity_String q = rat_FloatString (q_scale q) (q_value q)"

record QuantityRule =
  qr_Field :: string
  qr_Required :: bool
  qr_AllowNegative :: bool
  qr_MaxScale :: int

definition UnlimitedPrecision :: int where "UnlimitedPrecision = -1"

definition ValidateQuantity :: "MappedRow \<Rightarrow> QuantityRule \<Rightarrow> Issue list" where
  "ValidateQuantity row rule =
     (let err = (\<lambda>f c. [issue (mr_RowNumber row) f c SeverityError]) in
      if trim_space (qr_Field rule) = [] then err [] ''invalid_quantity_rule''
      else (case mr_Values row (qr_Field rule) of
          None \<Rightarrow> if qr_Required rule then err (qr_Field rule) ''quantity_required'' else []
        | Some raw \<Rightarrow>
            if trim_space raw = [] then (if qr_Required rule then err (qr_Field rule) ''quantity_required'' else [])
            else (case ParseQuantity raw of
                None \<Rightarrow> err (qr_Field rule) ''invalid_quantity''
              | Some quantity \<Rightarrow>
                  if \<not> qr_AllowNegative rule \<and> IsNegative quantity then err (qr_Field rule) ''negative_quantity''
                  else if qr_MaxScale rule \<noteq> UnlimitedPrecision \<and> qr_MaxScale rule < 0 then err (qr_Field rule) ''invalid_quantity_rule''
                  else if qr_MaxScale rule \<ge> 0 \<and> int (q_scale quantity) > qr_MaxScale rule then err (qr_Field rule) ''quantity_precision''
                  else [])))"

definition QuantityRule_Validate :: "QuantityRule \<Rightarrow> MappedRow list \<Rightarrow> Issue list" where
  "QuantityRule_Validate r rows = concat (map (\<lambda>row. ValidateQuantity row r) rows)"

section \<open>Duplicates\<close>

definition duplicateKey :: "string list \<Rightarrow> string" where
  "duplicateKey parts = concat (map (\<lambda>part. dec_of_nat (length part) @ '':'' @ part) parts)"

text \<open>The trimmed parts of a row, when every field is present.\<close>

definition row_parts :: "string list \<Rightarrow> MappedRow \<Rightarrow> string list option" where
  "row_parts flds row =
     (if list_all (\<lambda>f. mr_Values row f \<noteq> None) flds then Some (map (\<lambda>f. trim_space (the (mr_Values row f))) flds) else None)"

fun join_comma :: "string list \<Rightarrow> string" where
  "join_comma [] = []"
| "join_comma [x] = x"
| "join_comma (x # xs) = x @ '','' @ join_comma xs"

fun duplicate_loop :: "string list \<Rightarrow> string list \<Rightarrow> MappedRow list \<Rightarrow> Issue list" where
  "duplicate_loop flds seen [] = []"
| "duplicate_loop flds seen (row # rows) =
     (case row_parts flds row of
        None \<Rightarrow> duplicate_loop flds seen rows
      | Some parts \<Rightarrow>
          if list_all (\<lambda>p. p = []) parts then duplicate_loop flds seen rows
          else if duplicateKey parts \<in> set seen then
            issue (mr_RowNumber row) (join_comma flds) ''duplicate_row'' SeverityError # duplicate_loop flds seen rows
          else duplicate_loop flds (duplicateKey parts # seen) rows)"

definition DuplicateRule_Validate :: "string list \<Rightarrow> MappedRow list \<Rightarrow> Issue list" where
  "DuplicateRule_Validate flds rows =
     (if flds = [] then [issue 0 [] ''invalid_duplicate_rule'' SeverityError] else duplicate_loop flds [] rows)"

section \<open>The engine\<close>

datatype RowStatus = VALID | INVALID

record RowResult =
  rr_RowNumber :: int
  rr_Status :: RowStatus
  rr_Values :: "string \<rightharpoonup> string"
  rr_Issues :: "Issue list"

record Preview =
  pv_Job :: ImportJob
  pv_Mapping :: Mapping
  pv_Rows :: "RowResult list"
  pv_Issues :: "Issue list"
  pv_TotalRows :: nat
  pv_ValidRows :: nat
  pv_InvalidRows :: nat
  pv_WarningRows :: nat
  pv_CanCommit :: bool
  pv_DryRun :: bool

record AdapterInput =
  ai_Job :: ImportJob
  ai_Mapping :: Mapping
  ai_Rows :: "MappedRow list"

text \<open>An adapter: \<^verbatim>\<open>Validate\<close> reads the target, \<^verbatim>\<open>Commit\<close> changes it; \<open>False\<close> is an error.\<close>

record 's Adapter =
  ad_Validate :: "'s \<Rightarrow> AdapterInput \<Rightarrow> Issue list option"
  ad_Commit :: "'s \<Rightarrow> AdapterInput \<Rightarrow> 's \<times> bool"

record 's Engine =
  en_adapter :: "'s Adapter"
  en_fields :: "FieldSpec list"
  en_validators :: "(MappedRow list \<Rightarrow> Issue list) list"

fun own_fields :: "unicode \<Rightarrow> string list \<Rightarrow> FieldSpec list \<Rightarrow> FieldSpec list option" where
  "own_fields u seen [] = Some []"
| "own_fields u seen (f # fs) =
     (let f = f\<lparr>fd_Name := trim_space (fd_Name f)\<rparr>; key = normalizeHeader u (fd_Name f) in
      if key = [] \<or> key \<in> set seen then None
      else (case own_fields u (key # seen) fs of None \<Rightarrow> None | Some gs \<Rightarrow> Some (f # gs)))"

definition NewEngine :: "unicode \<Rightarrow> 's Adapter option \<Rightarrow> FieldSpec list \<Rightarrow> (MappedRow list \<Rightarrow> Issue list) option list \<Rightarrow> dx_error + 's Engine" where
  "NewEngine u adapter specs validators =
     (case adapter of
        None \<Rightarrow> Inl ErrInvalidJob
      | Some a \<Rightarrow>
          if specs = [] then Inl ErrInvalidMapping
          else (case own_fields u [] specs of
              None \<Rightarrow> Inl ErrInvalidMapping
            | Some owned \<Rightarrow> Inr \<lparr>en_adapter = a, en_fields = owned, en_validators = map the (filter (\<lambda>v. v \<noteq> None) validators)\<rparr>))"

record ProcessRequest =
  pr_Job :: ImportJob
  pr_Table :: Table
  pr_Mapping :: "(string \<times> string) list"
  pr_DryRun :: bool

record preparedRun =
  pp_job :: ImportJob
  pp_mapping :: Mapping
  pp_rows :: "MappedRow list"
  pp_preview :: Preview

definition row_result :: "Issue list \<Rightarrow> MappedRow \<Rightarrow> RowResult" where
  "row_result issues row =
     (let rowIssues = (if mr_RowNumber row = 0 then [] else filter (\<lambda>i. is_RowNumber i = mr_RowNumber row) issues) in
      \<lparr>rr_RowNumber = mr_RowNumber row, rr_Status = (if list_ex IsError rowIssues then INVALID else VALID),
        rr_Values = mr_Values row, rr_Issues = rowIssues\<rparr>)"

definition HasWarnings :: "RowResult \<Rightarrow> bool" where "HasWarnings r = list_ex IsWarning (rr_Issues r)"

definition buildPreview :: "ImportJob \<Rightarrow> Mapping \<Rightarrow> MappedRow list \<Rightarrow> Issue list \<Rightarrow> dx_error + Preview" where
  "buildPreview job mapping rows issues =
     (let globalIssues = filter (\<lambda>i. is_RowNumber i = 0) issues;
          results = map (row_result issues) rows;
          invalidRows = length (filter (\<lambda>r. rr_Status r = INVALID) results) in
      if list_ex (\<lambda>i. is_RowNumber i \<noteq> 0 \<and> is_RowNumber i \<notin> set (map mr_RowNumber rows)) issues then Inl ErrInvalidJob
      else Inr \<lparr>pv_Job = job, pv_Mapping = mapping, pv_Rows = results, pv_Issues = globalIssues, pv_TotalRows = length rows,
        pv_ValidRows = length (filter (\<lambda>r. rr_Status r = VALID) results), pv_InvalidRows = invalidRows,
        pv_WarningRows = length (filter (\<lambda>r. rr_Status r = VALID \<and> HasWarnings r) results),
        pv_CanCommit = (\<not> hasError globalIssues \<and> invalidRows = 0 \<and> length rows > 0), pv_DryRun = False\<rparr>)"

text \<open>\<open>ctx k\<close>: the \<open>k\<close>-th check of the context during the run finds it done.\<close>

definition contextError :: "(nat \<Rightarrow> bool) \<Rightarrow> nat \<Rightarrow> dx_error + unit" where
  "contextError ctx k = (if ctx k then Inl ContextDone else Inr ())"

definition map_rows :: "Mapping \<Rightarrow> Row list \<Rightarrow> dx_error + MappedRow list" where
  "map_rows m rows = mapE (\<lambda>(index, row). MapRow m (row\<lparr>row_Number := rowNumber row index\<rparr>)) (enumerate 0 rows)"

definition prepare :: "unicode \<Rightarrow> 's Engine \<Rightarrow> (nat \<Rightarrow> bool) \<Rightarrow> 's \<Rightarrow> ProcessRequest \<Rightarrow> dx_error + preparedRun" where
  "prepare u e ctx s request =
     bindE (contextError ctx 0) (\<lambda>_.
     if job_State (pr_Job request) \<noteq> Pending then Inl ErrInvalidJob
     else if trim_space (job_ID (pr_Job request)) = [] \<or> trim_space (job_CompanyID (pr_Job request)) = [] then Inl ErrInvalidJob
     else (case table_validate u (pr_Table request) of Some err \<Rightarrow> Inl err | None \<Rightarrow>
     bindE (Transition (pr_Job request) Mapping_State) (\<lambda>job.
     bindE (ResolveMapping u (pr_Table request) (en_fields e) (pr_Mapping request)) (\<lambda>(mapping, mappingIssues).
     bindE (map_rows mapping (tb_Rows (pr_Table request))) (\<lambda>rows.
     bindE (contextError ctx 1) (\<lambda>_.
     (case ad_Validate (en_adapter e) s \<lparr>ai_Job = job, ai_Mapping = mapping, ai_Rows = rows\<rparr> of
        None \<Rightarrow> Inl AdapterValidation
      | Some adapterIssues \<Rightarrow>
          let issues = mappingIssues @ (if rows = [] then [issue 0 [] ''empty_input'' SeverityError] else [])
                @ concat (map (\<lambda>v. v rows) (en_validators e)) @ adapterIssues in
          bindE (contextError ctx 2) (\<lambda>_.
          bindE (buildPreview job mapping rows issues) (\<lambda>preview.
          bindE (Transition job Previewed) (\<lambda>job.
          Inr \<lparr>pp_job = job, pp_mapping = mapping, pp_rows = rows, pp_preview = preview\<lparr>pv_Job := job\<rparr>\<rparr>))))))))))"

definition Preview_run :: "unicode \<Rightarrow> 's Engine \<Rightarrow> (nat \<Rightarrow> bool) \<Rightarrow> 's \<Rightarrow> ProcessRequest \<Rightarrow> dx_error + Preview" where
  "Preview_run u e ctx s request = bindE (prepare u e ctx s request) (\<lambda>p. Inr (pp_preview p))"

record RunResult =
  rn_Job :: ImportJob
  rn_Preview :: Preview
  rn_Committed :: bool

text \<open>\<^verbatim>\<open>Run\<close> returns an error, a result, or a result together with \<^verbatim>\<open>CommitError\<close>.\<close>

datatype run_outcome = RunError dx_error | CommitFailed RunResult | RunOk RunResult

definition finish :: "preparedRun \<Rightarrow> ImportJob \<Rightarrow> bool \<Rightarrow> RunResult" where
  "finish p job committed = \<lparr>rn_Job = job, rn_Preview = (pp_preview p)\<lparr>pv_Job := job\<rparr>, rn_Committed = committed\<rparr>"

definition Run :: "unicode \<Rightarrow> 's Engine \<Rightarrow> (nat \<Rightarrow> bool) \<Rightarrow> 's \<Rightarrow> ProcessRequest \<Rightarrow> 's \<times> run_outcome" where
  "Run u e ctx s request =
     (case prepare u e ctx s request of
        Inl err \<Rightarrow> (s, RunError err)
      | Inr p \<Rightarrow>
          if \<not> pv_CanCommit (pp_preview p) then
            (case Transition (pp_job p) ValidationFailed of Inl err \<Rightarrow> (s, RunError err) | Inr job \<Rightarrow> (s, RunOk (finish p job False)))
          else if pr_DryRun request then
            (case Transition (pp_job p) DryRunCompleted of
               Inl err \<Rightarrow> (s, RunError err)
             | Inr job \<Rightarrow> (s, RunOk (finish (p\<lparr>pp_preview := (pp_preview p)\<lparr>pv_DryRun := True\<rparr>\<rparr>) job False)))
          else (case Transition (pp_job p) ReadyToCommit of
              Inl err \<Rightarrow> (s, RunError err)
            | Inr job \<Rightarrow>
                (case contextError ctx 3 of
                   Inl err \<Rightarrow> (s, RunError err)
                 | Inr _ \<Rightarrow>
                     (case ad_Commit (en_adapter e) s \<lparr>ai_Job = job, ai_Mapping = pp_mapping p, ai_Rows = pp_rows p\<rparr> of
                        (s', False) \<Rightarrow>
                          (case Transition job Failed of Inl err \<Rightarrow> (s', RunError err) | Inr job \<Rightarrow> (s', CommitFailed (finish p job False)))
                      | (s', True) \<Rightarrow>
                          (case Transition job Committed_State of
                             Inl err \<Rightarrow> (s', RunError err)
                           | Inr job \<Rightarrow> (s', RunOk (finish p job True)))))))"

section \<open>Quantities round trip\<close>

lemma ParseQuantity_text:
  assumes "all_digits ip" "all_digits fp" "ip \<noteq> []"
  shows "ParseQuantity ((if neg then ''-'' else []) @ unsigned_text ip fp)
    = Some \<lparr>q_value = (if neg then -1 else 1) * (of_nat (nat_of_dec (ip @ fp)) / 10 ^ length fp), q_scale = length fp\<rparr>"
proof -
  let ?u = "unsigned_text ip fp" and ?s = "if neg then ''-'' else []"
  have chars: "c \<in> set ?u \<Longrightarrow> is_digit c \<or> c = CHR ''.''" for c
    using assms by (auto simp: unsigned_text_def all_digits_set split: if_splits)
  have no: "CHR ''e'' \<notin> set ?u" "CHR ''E'' \<notin> set ?u" "CHR '','' \<notin> set ?u"
    using chars [of "CHR ''e''"] chars [of "CHR ''E''"] chars [of "CHR '',''"] by (auto simp: is_digit_def)
  obtain c cs where u: "?u = c # cs" "is_digit c" using assms by (cases ip) (auto simp: unsigned_text_def)
  have "is_digit (last ?u)" using assms by (auto simp: unsigned_text_def all_digits_set)
  then have tr: "trim_space (?s @ ?u) = ?s @ ?u"
    using u by (intro trim_space_plain) (auto simp: plain_char_def is_digit_def)
  have c: "c \<noteq> CHR ''+''" "c \<noteq> CHR ''-''" using u(2) by (auto simp: is_digit_def)
  have dot: "\<forall>d \<in> set ip. d \<noteq> CHR ''.'' \<and> d \<noteq> CHR '',''" using assms(1) by (auto simp: all_digits_set is_digit_def)
  have ip: "takeWhile (\<lambda>c. c \<noteq> CHR ''.'' \<and> c \<noteq> CHR '','') ?u = ip"
    using dot by (auto simp: unsigned_text_def takeWhile_append)
  have fp: "drop (length ip + 1) ?u = fp" by (simp add: unsigned_text_def)
  have ds: "all_digits (ip @ fp)" using assms by (auto simp: all_digits_set)
  have body: "quantity_body neg ?u
    = Some \<lparr>q_value = (if neg then -1 else 1) * (of_nat (nat_of_dec (ip @ fp)) / 10 ^ length fp), q_scale = length fp\<rparr>"
    using no ds assms(3) u(1) unfolding quantity_body_def ip fp Let_def by simp
  show ?thesis
    unfolding ParseQuantity_def tr using body u c by (cases neg) simp_all
qed

lemma quantity_body_value:
  assumes "quantity_body neg value = Some q"
  shows "\<exists>v. q_value q = of_int v / 10 ^ q_scale q"
proof -
  define fp where "fp = drop (length (takeWhile (\<lambda>c. c \<noteq> CHR ''.'' \<and> c \<noteq> CHR '','') value) + 1) value"
  define n where "n = nat_of_dec (takeWhile (\<lambda>c. c \<noteq> CHR ''.'' \<and> c \<noteq> CHR '','') value @ fp)"
  have "q = \<lparr>q_value = (if neg then -1 else 1) * (of_nat n / 10 ^ length fp), q_scale = length fp\<rparr>"
    using assms unfolding quantity_body_def Let_def fp_def [symmetric] n_def [symmetric] by (simp split: if_split_asm)
  then have "q_value q = of_int ((if neg then -1 else 1) * int n) / 10 ^ q_scale q" by simp
  then show ?thesis by blast
qed

lemma ParseQuantity_value: "ParseQuantity raw = Some q \<Longrightarrow> \<exists>v. q_value q = of_int v / 10 ^ q_scale q"
  using quantity_body_value by (auto simp: ParseQuantity_def split: list.splits if_splits)

text \<open>
  A quantity read from a cell prints and reads back as the same value with the same number of decimals: no digit
  of the source is lost or added, whatever its sign, separator or leading zeros.
\<close>

theorem quantity_roundtrip:
  assumes "ParseQuantity raw = Some q"
  shows "ParseQuantity (Quantity_String q) = Some q"
proof -
  obtain v where v: "q_value q = of_int v / 10 ^ q_scale q" using ParseQuantity_value [OF assms] by blast
  let ?k = "q_scale q" and ?n = "nat \<bar>v\<bar>"
  let ?i = "dec_of_nat (?n div 10 ^ ?k)" and ?f = "if ?k = 0 then [] else frac_digits ?k (?n mod 10 ^ ?k)"
  have f: "length ?f = ?k" "all_digits ?f" "nat_of_dec ?f = ?n mod 10 ^ ?k"
    using frac_digits_props [of ?k "?n mod 10 ^ ?k"] by auto
  have n: "nat_of_dec (?i @ ?f) = ?n"
    unfolding nat_of_dec_append f(1,3) nat_of_dec_of_nat by (rule div_mult_mod_eq)
  have "Quantity_String q = (if v < 0 then ''-'' else []) @ unsigned_text ?i ?f"
    unfolding Quantity_String_def v FloatString_scaled by (auto simp: formatScaled_eq unsigned_text_def frac_digits_def)
  moreover have "(of_nat ?n :: rat) = \<bar>of_int v\<bar>" by simp
  ultimately show ?thesis using ParseQuantity_text [of ?i ?f "v < 0"] f(1,2) n v by simp
qed

theorem quantity_roundtrip_witness:
  "\<exists>q. ParseQuantity ''-007,50'' = Some q \<and> ParseQuantity (Quantity_String q) = Some q \<and> q_scale q = 2"
proof -
  have "trim_space ''-007,50'' = ''-007,50''" by code_simp
  then obtain q where "ParseQuantity ''-007,50'' = Some q" "q_scale q = 2"
    by (simp add: ParseQuantity_def quantity_body_def Let_def all_digits_def is_digit_def)
  then show ?thesis using quantity_roundtrip by blast
qed

section \<open>Duplicates are found exactly\<close>

lemma digits_colon_inj:
  assumes "all_digits a" "all_digits b" "a @ CHR '':'' # s = b @ CHR '':'' # t"
  shows "a = b \<and> s = t"
proof -
  have tw: "takeWhile is_digit (a @ CHR '':'' # s) = a" "takeWhile is_digit (b @ CHR '':'' # t) = b"
    using assms(1,2) by (auto simp: all_digits_set takeWhile_append is_digit_def)
  then have "a = b" using assms(3) by metis
  then show ?thesis using assms(3) by simp
qed

lemma duplicateKey_simps [simp]:
  "duplicateKey [] = []" "duplicateKey (p # ps) = dec_of_nat (length p) @ CHR '':'' # p @ duplicateKey ps"
  by (simp_all add: duplicateKey_def)

lemma duplicateKey_inj: "duplicateKey ps = duplicateKey qs \<Longrightarrow> ps = qs"
proof (induction ps arbitrary: qs)
  case Nil
  then show ?case by (cases qs) simp_all
next
  case (Cons p ps)
  then obtain q qs' where qs: "qs = q # qs'" by (cases qs) simp_all
  have eq: "dec_of_nat (length p) = dec_of_nat (length q)" "p @ duplicateKey ps = q @ duplicateKey qs'"
    using Cons.prems digits_colon_inj [of "dec_of_nat (length p)" "dec_of_nat (length q)"] by (simp_all add: qs)
  have "length p = length q" using arg_cong [OF eq(1), of nat_of_dec] by simp
  then show ?case using eq(2) Cons.IH by (simp add: qs)
qed

text \<open>What a row counts as: its parts, when it is complete and not empty.\<close>

definition dup_parts :: "string list \<Rightarrow> MappedRow \<Rightarrow> string list option" where
  "dup_parts flds row =
     (case row_parts flds row of None \<Rightarrow> None | Some ps \<Rightarrow> if list_all (\<lambda>p. p = []) ps then None else Some ps)"

fun repeats :: "string list \<Rightarrow> MappedRow list \<Rightarrow> MappedRow list \<Rightarrow> MappedRow list" where
  "repeats flds before [] = []"
| "repeats flds before (row # rows) =
     (if dup_parts flds row \<noteq> None \<and> (\<exists>b \<in> set before. dup_parts flds b = dup_parts flds row)
      then row # repeats flds (before @ [row]) rows else repeats flds (before @ [row]) rows)"

lemma duplicate_loop_repeats:
  assumes "\<forall>ps. duplicateKey ps \<in> set seen \<longleftrightarrow> (\<exists>b \<in> set before. dup_parts flds b = Some ps)"
  shows "duplicate_loop flds seen rows
    = map (\<lambda>row. issue (mr_RowNumber row) (join_comma flds) ''duplicate_row'' SeverityError) (repeats flds before rows)"
  using assms
proof (induction rows arbitrary: seen before)
  case (Cons row rows)
  note prem = Cons.prems [rule_format]
  show ?case
  proof (cases "dup_parts flds row")
    case None
    then have step: "duplicate_loop flds seen (row # rows) = duplicate_loop flds seen rows"
      by (auto simp: dup_parts_def split: option.splits if_splits)
    have "duplicateKey ps \<in> set seen \<longleftrightarrow> (\<exists>b \<in> set (before @ [row]). dup_parts flds b = Some ps)" for ps
      using None prem [of ps] by simp
    then show ?thesis using Cons.IH [of seen "before @ [row]"] step None by (simp del: duplicate_loop.simps)
  next
    case (Some ps)
    show ?thesis
    proof (cases "duplicateKey ps \<in> set seen")
      case True
      have step: "duplicate_loop flds seen (row # rows)
        = issue (mr_RowNumber row) (join_comma flds) ''duplicate_row'' SeverityError # duplicate_loop flds seen rows"
        using Some True by (auto simp: dup_parts_def split: option.splits if_splits)
      have "duplicateKey qs \<in> set seen \<longleftrightarrow> (\<exists>b \<in> set (before @ [row]). dup_parts flds b = Some qs)" for qs
        using Some prem [of qs] True by auto
      then show ?thesis using Cons.IH [of seen "before @ [row]"] step Some prem [of ps] True by (simp del: duplicate_loop.simps)
    next
      case False
      have step: "duplicate_loop flds seen (row # rows) = duplicate_loop flds (duplicateKey ps # seen) rows"
        using Some False by (auto simp: dup_parts_def split: option.splits if_splits)
      have "duplicateKey qs \<in> set (duplicateKey ps # seen) \<longleftrightarrow> (\<exists>b \<in> set (before @ [row]). dup_parts flds b = Some qs)" for qs
        using Some prem [of qs] duplicateKey_inj [of qs ps] by auto
      then show ?thesis using Cons.IH [of "duplicateKey ps # seen" "before @ [row]"] step Some prem [of ps] False by (simp del: duplicate_loop.simps)
    qed
  qed
qed simp

lemma repeats_filter:
  "repeats flds before rows = map (\<lambda>i. rows ! i) (filter (\<lambda>i. dup_parts flds (rows ! i) \<noteq> None
     \<and> (\<exists>b \<in> set (before @ take i rows). dup_parts flds b = dup_parts flds (rows ! i))) [0..<length rows])"
proof (induction rows arbitrary: before)
  case (Cons row rows)
  have shift: "[0..<length (row # rows)] = 0 # map Suc [0..<length rows]" by (simp add: map_Suc_upt upt_conv_Cons del: upt_Suc)
  show ?case by (subst shift) (simp add: Cons.IH [of "before @ [row]"] filter_map o_def)
qed simp

text \<open>
  The duplicate validator flags, in order, exactly the rows that repeat an earlier row: all its fields are
  present, not all are empty, and some earlier row has the same trimmed values.  The key the code hashes them by is
  injective, so no two different combinations are confused, whatever the cells contain.
\<close>

theorem duplicate_rows_exact:
  assumes "flds \<noteq> []"
  shows "DuplicateRule_Validate flds rows =
    map (\<lambda>i. issue (mr_RowNumber (rows ! i)) (join_comma flds) ''duplicate_row'' SeverityError)
      (filter (\<lambda>i. dup_parts flds (rows ! i) \<noteq> None \<and> (\<exists>j < i. dup_parts flds (rows ! j) = dup_parts flds (rows ! i)))
        [0..<length rows])"
proof -
  have ex: "(\<exists>b \<in> set (take i rows). P b) \<longleftrightarrow> (\<exists>j < i. P (rows ! j))" if "i < length rows" for i P
    using that by (auto simp: set_conv_nth)
  have "filter (\<lambda>i. dup_parts flds (rows ! i) \<noteq> None \<and> (\<exists>b \<in> set (take i rows). dup_parts flds b = dup_parts flds (rows ! i)))
      [0..<length rows]
    = filter (\<lambda>i. dup_parts flds (rows ! i) \<noteq> None \<and> (\<exists>j < i. dup_parts flds (rows ! j) = dup_parts flds (rows ! i))) [0..<length rows]"
    by (rule filter_cong) (simp_all add: ex)
  then show ?thesis
    using assms duplicate_loop_repeats [of "[]" "[]" flds rows]
    by (simp add: DuplicateRule_Validate_def repeats_filter o_def)
qed

definition sample_row :: "int \<Rightarrow> string \<Rightarrow> string \<Rightarrow> MappedRow" where
  "sample_row n a b = \<lparr>mr_RowNumber = n, mr_Values = [''code'' \<mapsto> a, ''lot'' \<mapsto> b]\<rparr>"

theorem duplicate_rows_exact_witness:
  "DuplicateRule_Validate [''code'', ''lot''] [sample_row 2 ''A'' ''1'', sample_row 3 ''A1'' [], sample_row 4 ''A '' ''1'']
     = [issue 4 ''code,lot'' ''duplicate_row'' SeverityError]"
proof -
  have "filter (\<lambda>i. dup_parts [''code'', ''lot''] ([sample_row 2 ''A'' ''1'', sample_row 3 ''A1'' [], sample_row 4 ''A '' ''1''] ! i) \<noteq> None
      \<and> (\<exists>j < i. dup_parts [''code'', ''lot''] ([sample_row 2 ''A'' ''1'', sample_row 3 ''A1'' [], sample_row 4 ''A '' ''1''] ! j)
        = dup_parts [''code'', ''lot''] ([sample_row 2 ''A'' ''1'', sample_row 3 ''A1'' [], sample_row 4 ''A '' ''1''] ! i))) [0..<3] = [2]"
    by code_simp
  then show ?thesis
    using duplicate_rows_exact [of "[''code'', ''lot'']" "[sample_row 2 ''A'' ''1'', sample_row 3 ''A1'' [], sample_row 4 ''A '' ''1'']"]
    by (simp add: sample_row_def numeral_3_eq_3)
qed

section \<open>The preview decides\<close>

lemma length_filter_status:
  "length (filter (\<lambda>r. rr_Status r = VALID) rs) + length (filter (\<lambda>r. rr_Status r = INVALID) rs) = length rs"
proof (induction rs)
  case (Cons r rs)
  then show ?case by (cases "rr_Status r") simp_all
qed simp

lemma row_result_status:
  "0 < mr_RowNumber row \<Longrightarrow>
    rr_Status (row_result issues row) = INVALID \<longleftrightarrow> (\<exists>i \<in> set issues. IsError i \<and> is_RowNumber i = mr_RowNumber row)"
  by (auto simp: row_result_def Let_def list_ex_iff)

lemma row_result_number [simp]: "rr_RowNumber (row_result issues row) = mr_RowNumber row"
  by (simp add: row_result_def Let_def)

lemma buildPreview_props:
  assumes "buildPreview job m rows issues = Inr pv" "\<forall>row \<in> set rows. 0 < mr_RowNumber row"
  shows "pv_ValidRows pv + pv_InvalidRows pv = pv_TotalRows pv" "pv_TotalRows pv = length rows"
    "pv_Rows pv = map (row_result issues) rows"
    "pv_CanCommit pv \<longleftrightarrow> rows \<noteq> [] \<and> \<not> hasError issues"
proof -
  have pv: "pv_Rows pv = map (row_result issues) rows" "pv_TotalRows pv = length rows"
    "pv_ValidRows pv = length (filter (\<lambda>r. rr_Status r = VALID) (map (row_result issues) rows))"
    "pv_InvalidRows pv = length (filter (\<lambda>r. rr_Status r = INVALID) (map (row_result issues) rows))"
    "pv_CanCommit pv \<longleftrightarrow> \<not> hasError (filter (\<lambda>i. is_RowNumber i = 0) issues)
       \<and> filter (\<lambda>r. rr_Status r = INVALID) (map (row_result issues) rows) = [] \<and> rows \<noteq> []"
    and known: "\<forall>i \<in> set issues. is_RowNumber i \<noteq> 0 \<longrightarrow> is_RowNumber i \<in> set (map mr_RowNumber rows)"
    using assms(1) by (auto simp: buildPreview_def Let_def list_ex_iff filter_map split: if_splits)
  show "pv_ValidRows pv + pv_InvalidRows pv = pv_TotalRows pv"
    using length_filter_status [of "map (row_result issues) rows"] by (simp only: pv length_map)
  show "pv_TotalRows pv = length rows" "pv_Rows pv = map (row_result issues) rows" by (fact pv(2), fact pv(1))
  have "filter (\<lambda>r. rr_Status r = INVALID) (map (row_result issues) rows) = []
    \<longleftrightarrow> \<not> (\<exists>i \<in> set issues. IsError i \<and> is_RowNumber i \<in> set (map mr_RowNumber rows))"
    using assms(2) row_result_status by (fastforce simp: filter_empty_conv)
  then show "pv_CanCommit pv \<longleftrightarrow> rows \<noteq> [] \<and> \<not> hasError issues"
    using known unfolding pv(5) by (auto simp: hasError_set)
qed

text \<open>
  Claim C29.  A preview counts every row once, as valid or as invalid; a row is invalid exactly when an error issue
  names its number; and the batch may be committed exactly when there is a row and no error issue at all, of the job or
  of any row.
\<close>

theorem preview_decides:
  assumes "buildPreview job m rows issues = Inr pv" "\<forall>row \<in> set rows. 0 < mr_RowNumber row"
  shows "pv_ValidRows pv + pv_InvalidRows pv = pv_TotalRows pv \<and> pv_TotalRows pv = length rows
    \<and> map rr_RowNumber (pv_Rows pv) = map mr_RowNumber rows
    \<and> (\<forall>r \<in> set (pv_Rows pv). rr_Status r = INVALID \<longleftrightarrow> (\<exists>i \<in> set issues. IsError i \<and> is_RowNumber i = rr_RowNumber r))
    \<and> (pv_CanCommit pv \<longleftrightarrow> rows \<noteq> [] \<and> \<not> hasError issues)"
proof -
  note pv = buildPreview_props [OF assms]
  have "\<forall>r \<in> set (pv_Rows pv). rr_Status r = INVALID \<longleftrightarrow> (\<exists>i \<in> set issues. IsError i \<and> is_RowNumber i = rr_RowNumber r)"
    using assms(2) row_result_status by (auto simp: pv(3))
  then show ?thesis using pv(1,2,4) by (simp add: pv(3))
qed

definition sample_job :: ImportJob where
  "sample_job = \<lparr>job_ID = ''j1'', job_CompanyID = ''c1'', job_State = Pending\<rparr>"

definition sample_issues :: "Issue list" where
  "sample_issues = [issue 3 ''code'' ''unknown'' SeverityError, issue 2 ''code'' ''odd'' SeverityWarning]"

lemma sample_preview_ok:
  "\<exists>pv. buildPreview sample_job sample_mapping [sample_row 2 ''A'' [], sample_row 3 ''B'' []] sample_issues = Inr pv \<and> pv_InvalidRows pv = 1"
  by (simp add: buildPreview_def Let_def sample_issues_def issue_def sample_row_def row_result_def IsError_def SeverityError_def SeverityWarning_def)

theorem preview_decides_witness:
  "\<exists>pv. buildPreview sample_job sample_mapping [sample_row 2 ''A'' [], sample_row 3 ''B'' []] sample_issues = Inr pv
     \<and> pv_ValidRows pv = 1 \<and> pv_InvalidRows pv = 1 \<and> \<not> pv_CanCommit pv"
proof -
  obtain pv where pv: "buildPreview sample_job sample_mapping [sample_row 2 ''A'' [], sample_row 3 ''B'' []] sample_issues = Inr pv"
    "pv_InvalidRows pv = 1" using sample_preview_ok by blast
  have "hasError sample_issues" by (simp add: sample_issues_def)
  then show ?thesis using preview_decides [OF pv(1)] pv by (auto simp: sample_row_def)
qed

section \<open>Commits are gated\<close>

lemma Transition_Inr_iff:
  "Transition j to = Inr j' \<longleftrightarrow> trim_space (job_ID j) \<noteq> [] \<and> trim_space (job_CompanyID j) \<noteq> [] \<and> validJobState (job_State j)
     \<and> validJobState to \<and> allowedTransition (job_State j) to \<and> j' = j\<lparr>job_State := to\<rparr>"
  by (auto simp: Transition_def)

lemma contextError_iff [simp]: "contextError ctx k = Inr x \<longleftrightarrow> \<not> ctx k" "contextError ctx k = Inl e \<longleftrightarrow> ctx k \<and> e = ContextDone"
  by (auto simp: contextError_def)

lemma map_rows_props:
  assumes "map_rows m rows = Inr ms"
  shows "length ms = length rows" "\<forall>r \<in> set ms. 0 < mr_RowNumber r"
    "\<forall>i < length rows. mr_RowNumber (ms ! i) = rowNumber (rows ! i) i"
proof -
  have num: "MapRow m row = Inr r \<Longrightarrow> mr_RowNumber r = row_Number row" for row r
    by (auto simp: MapRow_def split: if_splits)
  have len: "length ms = length rows"
    and nth: "i < length rows \<Longrightarrow> MapRow m ((rows ! i)\<lparr>row_Number := rowNumber (rows ! i) i\<rparr>) = Inr (ms ! i)" for i
    using assms by (auto simp: map_rows_def mapE_Inr_iff list_all2_conv_all_nth nth_enumerate_eq)
  show "length ms = length rows" by (fact len)
  show at: "\<forall>i < length rows. mr_RowNumber (ms ! i) = rowNumber (rows ! i) i" using num [OF nth] by simp
  have "0 < rowNumber row i" for row i by (simp add: rowNumber_def)
  then show "\<forall>r \<in> set ms. 0 < mr_RowNumber r" using at len by (auto simp: in_set_conv_nth)
qed

text \<open>What a prepared run is: the job previewed, one mapped row per table row, and the preview of their issues.\<close>

lemma prepare_InrD:
  assumes "prepare u e ctx s request = Inr p"
  shows "job_State (pp_job p) = Previewed" "trim_space (job_ID (pp_job p)) \<noteq> []" "trim_space (job_CompanyID (pp_job p)) \<noteq> []"
    "pp_job p = (pr_Job request)\<lparr>job_State := Previewed\<rparr>"
    "map_rows (pp_mapping p) (tb_Rows (pr_Table request)) = Inr (pp_rows p)"
    "\<exists>mi. ResolveMapping u (pr_Table request) (en_fields e) (pr_Mapping request) = Inr (pp_mapping p, mi)"
    "\<exists>issues job pv. buildPreview job (pp_mapping p) (pp_rows p) issues = Inr pv \<and> pp_preview p = pv\<lparr>pv_Job := pp_job p\<rparr>
       \<and> (\<forall>v \<in> set (en_validators e). set (v (pp_rows p)) \<subseteq> set issues)"
proof -
  define issues where "issues mi rows ai = mi @ (if rows = [] then [issue 0 [] ''empty_input'' SeverityError] else [])
    @ concat (map (\<lambda>v. v rows) (en_validators e)) @ ai" for mi rows ai
  have sub: "set (v rows) \<subseteq> set (issues mi rows ai)" if "v \<in> set (en_validators e)" for v mi rows ai
    using that by (auto simp: issues_def)
  obtain mi ai pv where
    "pp_job p = (pr_Job request)\<lparr>job_State := Previewed\<rparr>"
    "trim_space (job_ID (pr_Job request)) \<noteq> []" "trim_space (job_CompanyID (pr_Job request)) \<noteq> []"
    "ResolveMapping u (pr_Table request) (en_fields e) (pr_Mapping request) = Inr (pp_mapping p, mi)"
    "map_rows (pp_mapping p) (tb_Rows (pr_Table request)) = Inr (pp_rows p)"
    "buildPreview ((pr_Job request)\<lparr>job_State := Mapping_State\<rparr>) (pp_mapping p) (pp_rows p) (issues mi (pp_rows p) ai) = Inr pv"
    "pp_preview p = pv\<lparr>pv_Job := pp_job p\<rparr>"
    using assms unfolding prepare_def Let_def issues_def [symmetric]
    by (auto simp: bindE_Inr_iff Transition_Inr_iff split: if_splits option.splits prod.splits)
  note P = this
  show "job_State (pp_job p) = Previewed" "trim_space (job_ID (pp_job p)) \<noteq> []" "trim_space (job_CompanyID (pp_job p)) \<noteq> []"
    "pp_job p = (pr_Job request)\<lparr>job_State := Previewed\<rparr>" "map_rows (pp_mapping p) (tb_Rows (pr_Table request)) = Inr (pp_rows p)"
    by (simp_all add: P(1-3,5))
  show "\<exists>mi. ResolveMapping u (pr_Table request) (en_fields e) (pr_Mapping request) = Inr (pp_mapping p, mi)"
    using P(4) by blast
  show "\<exists>issues job pv. buildPreview job (pp_mapping p) (pp_rows p) issues = Inr pv \<and> pp_preview p = pv\<lparr>pv_Job := pp_job p\<rparr>
       \<and> (\<forall>v \<in> set (en_validators e). set (v (pp_rows p)) \<subseteq> set issues)"
    using P(6,7) sub by blast
qed

lemma prepared_commit:
  assumes "prepare u e ctx s request = Inr p"
  shows "pv_Rows (pp_preview p) \<noteq> [] \<or> \<not> pv_CanCommit (pp_preview p)"
    "pv_CanCommit (pp_preview p) \<Longrightarrow> \<forall>r \<in> set (pv_Rows (pp_preview p)). rr_Status r = VALID"
    "pv_CanCommit (pp_preview p) \<Longrightarrow> \<forall>v \<in> set (en_validators e). \<not> hasError (v (pp_rows p))"
proof -
  note P = prepare_InrD [OF assms]
  obtain issues job pv where b: "buildPreview job (pp_mapping p) (pp_rows p) issues = Inr pv"
    "pp_preview p = pv\<lparr>pv_Job := pp_job p\<rparr>" and sub: "\<forall>v \<in> set (en_validators e). set (v (pp_rows p)) \<subseteq> set issues"
    using P(7) by blast
  note pos = map_rows_props(2) [OF P(5)]
  note pv = buildPreview_props [OF b(1) pos]
  show "pv_Rows (pp_preview p) \<noteq> [] \<or> \<not> pv_CanCommit (pp_preview p)" using pv b(2) by auto
  assume can: "pv_CanCommit (pp_preview p)"
  then have clean: "\<not> hasError issues" using pv(4) b(2) by simp
  then show "\<forall>v \<in> set (en_validators e). \<not> hasError (v (pp_rows p))" using sub by (auto simp: hasError_set)
  have "rr_Status (row_result issues row) = VALID" if "row \<in> set (pp_rows p)" for row
    using clean row_result_status [of row issues] pos that by (metis RowStatus.exhaust hasError_set)
  then show "\<forall>r \<in> set (pv_Rows (pp_preview p)). rr_Status r = VALID" using pv(3) b(2) by auto
qed

text \<open>A run shows the rows and counts the preview showed.\<close>

lemma Run_preview:
  assumes "Run u e ctx s request = (s', RunOk rr)"
  shows "\<exists>pv. Preview_run u e ctx s request = Inr pv \<and> pv_Rows (rn_Preview rr) = pv_Rows pv
    \<and> pv_Issues (rn_Preview rr) = pv_Issues pv \<and> pv_CanCommit (rn_Preview rr) = pv_CanCommit pv"
  using assms
  by (auto simp: Run_def Preview_run_def finish_def split: sum.splits if_splits prod.splits bool.splits)

text \<open>
  Claim C28.  Running an import whose adapter leaves the target unchanged on error changes the target only through one
  \<^verbatim>\<open>Commit\<close> of the whole batch, one mapped row per table row in order, and only when the request is not a dry run and
  every row of a non-empty preview is valid; the job then ends \<^verbatim>\<open>COMMITTED\<close>.  A failed commit ends \<^verbatim>\<open>FAILED\<close>, a dry run
  \<^verbatim>\<open>DRY_RUN_COMPLETED\<close>, a rejected batch \<^verbatim>\<open>VALIDATION_FAILED\<close>, all with the target untouched; an error never follows a commit.
\<close>

theorem import_commit_gated:
  assumes "Run u e ctx s request = (s', out)" "\<forall>t i t'. ad_Commit (en_adapter e) t i = (t', False) \<longrightarrow> t' = t"
  shows "(case out of
      RunError err \<Rightarrow> s' = s
    | CommitFailed rr \<Rightarrow> s' = s \<and> job_State (rn_Job rr) = Failed \<and> \<not> rn_Committed rr
    | RunOk rr \<Rightarrow>
        if rn_Committed rr then
          job_State (rn_Job rr) = Committed_State \<and> \<not> pr_DryRun request \<and> pv_Rows (rn_Preview rr) \<noteq> []
          \<and> (\<forall>r \<in> set (pv_Rows (rn_Preview rr)). rr_Status r = VALID)
          \<and> (\<exists>m rows. map_rows m (tb_Rows (pr_Table request)) = Inr rows
              \<and> (\<forall>v \<in> set (en_validators e). \<not> hasError (v rows))
              \<and> ad_Commit (en_adapter e) s \<lparr>ai_Job = (pr_Job request)\<lparr>job_State := ReadyToCommit\<rparr>, ai_Mapping = m, ai_Rows = rows\<rparr> = (s', True))
        else s' = s \<and> job_State (rn_Job rr) = (if pv_CanCommit (rn_Preview rr) then DryRunCompleted else ValidationFailed))"
proof (cases "prepare u e ctx s request")
  case (Inl err)
  then show ?thesis using assms(1) by (auto simp: Run_def)
next
  case (Inr p)
  note P = prepare_InrD [OF Inr] and C = prepared_commit [OF Inr]
  have trans: "Transition (pp_job p) to = Inr ((pp_job p)\<lparr>job_State := to\<rparr>)"
    if "to \<in> {ValidationFailed, DryRunCompleted, ReadyToCommit}" for to
    using P(1-3) that by (auto simp: Transition_def allowedTransition_def)
  have trans': "Transition ((pp_job p)\<lparr>job_State := ReadyToCommit\<rparr>) to = Inr ((pp_job p)\<lparr>job_State := to\<rparr>)"
    if "to \<in> {Failed, Committed_State}" for to
    using P(2,3) that by (auto simp: Transition_def allowedTransition_def)
  note T = trans [of ValidationFailed] trans [of DryRunCompleted] trans [of ReadyToCommit] trans' [of Failed] trans' [of Committed_State]
  show ?thesis
  proof (cases "pv_CanCommit (pp_preview p) \<and> \<not> pr_DryRun request \<and> \<not> ctx 3")
    case False
    then show ?thesis using assms(1) T(1-3)
      by (auto simp: Run_def Inr finish_def contextError_def split: if_splits sum.splits)
  next
    case True
    obtain t' ok where cm: "ad_Commit (en_adapter e) s \<lparr>ai_Job = (pr_Job request)\<lparr>job_State := ReadyToCommit\<rparr>,
      ai_Mapping = pp_mapping p, ai_Rows = pp_rows p\<rparr> = (t', ok)" by fastforce
    show ?thesis
    proof (cases ok)
      case True': True
      have "s' = t'" "out = RunOk (finish p ((pp_job p)\<lparr>job_State := Committed_State\<rparr>) True)"
        using assms(1) True T cm P(4) by (auto simp: Run_def Inr contextError_def True' split: bool.splits)
      then show ?thesis using True C P(5) cm True' by (auto simp: finish_def)
    next
      case False
      then have "s' = s" "out = CommitFailed (finish p ((pp_job p)\<lparr>job_State := Failed\<rparr>) False)"
        using assms True T cm P(4) by (auto simp: Run_def Inr contextError_def split: bool.splits)
      then show ?thesis by (simp add: finish_def)
    qed
  qed
qed

definition sample_engine :: "nat Engine" where
  "sample_engine = \<lparr>en_adapter = \<lparr>ad_Validate = (\<lambda>s i. Some []), ad_Commit = (\<lambda>s i. (s + length (ai_Rows i), True))\<rparr>,
     en_fields = sample_specs, en_validators = [DuplicateRule_Validate [''code'']]\<rparr>"

definition sample_request :: ProcessRequest where
  "sample_request = \<lparr>pr_Job = sample_job, pr_Table = sample_table, pr_Mapping = [(''Quantity'', ''ADET'')], pr_DryRun = False\<rparr>"

lemma sample_engine_atomic:
  "\<forall>t i t'. ad_Commit (en_adapter sample_engine) t i = (t', False) \<longrightarrow> t' = t"
  by (simp add: sample_engine_def)

lemma sample_trims: "trim_space '' 5'' = ''5''" "trim_space ''7'' = ''7''" "trim_space ''A1'' = ''A1''" "trim_space ''B2'' = ''B2''"
  "trim_space ''j1'' = ''j1''" "trim_space ''c1'' = ''c1''"
  by code_simp+

lemma sample_table_ok: "table_validate ascii sample_table = None"
  by code_simp

definition sample_rows :: "MappedRow list" where
  "sample_rows = [\<lparr>mr_RowNumber = 2, mr_Values = [''code'' \<mapsto> ''A1'', ''quantity'' \<mapsto> ''5'']\<rparr>,
     \<lparr>mr_RowNumber = 3, mr_Values = [''code'' \<mapsto> ''B2'', ''quantity'' \<mapsto> ''7'']\<rparr>]"

lemma sample_map_rows: "map_rows sample_mapping (tb_Rows sample_table) = Inr sample_rows"
  by (simp add: map_rows_def MapRow_def sample_mapping_def sample_table_def sample_rows_def rowNumber_def sample_trims bindE_def)

lemma sample_no_duplicates: "DuplicateRule_Validate [''code''] sample_rows = []"
  by (simp add: DuplicateRule_Validate_def sample_rows_def row_parts_def sample_trims)

lemma sample_run_state: "fst (Run ascii sample_engine (\<lambda>k. False) 0 sample_request) = 2"
  using sample_resolves sample_map_rows sample_no_duplicates sample_table_ok
  by (simp add: Run_def prepare_def sample_engine_def sample_request_def Transition_def sample_job_def sample_trims
      allowedTransition_def contextError_def buildPreview_def row_result_def sample_rows_def Let_def)

theorem import_commit_gated_witness:
  "\<exists>rr. Run ascii sample_engine (\<lambda>k. False) 0 sample_request = (2, RunOk rr) \<and> rn_Committed rr \<and> job_State (rn_Job rr) = Committed_State"
proof -
  obtain out where run: "Run ascii sample_engine (\<lambda>k. False) 0 sample_request = (2, out)"
    using sample_run_state by (metis prod.collapse)
  show ?thesis using import_commit_gated [OF run sample_engine_atomic] by (auto simp: run split: run_outcome.splits if_splits)
qed

end
