(* ===== verification/Stock_Decimal.thy ===== *)
theory Stock_Decimal
  imports Go_Rat
begin

text \<open>
  Stock quantities: the decimal helpers of \<^verbatim>\<open>src/internal/inventory/service.go\<close> and the count reconciliation of
  \<^verbatim>\<open>src/internal/inventory/reconcile.go\<close>.  Quantity columns are \<^verbatim>\<open>numeric(24,8)\<close>: an integer number of hundred-millionths
  whose \<^verbatim>\<open>::text\<close> has eight decimals.  The helpers work on texts; \<open>denotes\<close> says which number of hundred-millionths a
  text stands for, and under it every helper is exact integer arithmetic.
\<close>

section \<open>Helpers\<close>

definition formatRat :: "rat \<Rightarrow> string" where
  "formatRat value =
     (let text' = trim_right (CHR ''.'') (trim_right (CHR ''0'') (rat_FloatString 8 value)) in
      if text' = ''-0'' \<or> text' = [] then ''0'' else text')"

definition decimalRat :: "string \<Rightarrow> rat option" where
  "decimalRat input =
     (case ParseDecimal input 8 of Inl e \<Rightarrow> None | Inr parsed' \<Rightarrow> rat_SetString (dec_String parsed'))"

definition decimalCompare :: "string \<Rightarrow> string \<Rightarrow> int" where
  "decimalCompare left right =
     (case (rat_SetString left, rat_SetString right) of (Some l, Some r) \<Rightarrow> sgn (rat_num (l - r)) | _ \<Rightarrow> 0)"

definition decimalAbs :: "string \<Rightarrow> string" where
  "decimalAbs value = (case rat_SetString value of None \<Rightarrow> value | Some r \<Rightarrow> formatRat \<bar>r\<bar>)"

definition decimalSub :: "string \<Rightarrow> string \<Rightarrow> string" where
  "decimalSub left right =
     (case (rat_SetString left, rat_SetString right) of (Some l, Some r) \<Rightarrow> formatRat (l - r) | _ \<Rightarrow> ''0'')"

definition decimalAdd :: "string \<Rightarrow> string \<Rightarrow> string" where
  "decimalAdd left right =
     (case (rat_SetString left, rat_SetString right) of (Some l, Some r) \<Rightarrow> formatRat (l + r) | _ \<Rightarrow> ''0'')"

definition decimalMax :: "string \<Rightarrow> string \<Rightarrow> string" where
  "decimalMax left right =
     (case rat_SetString left of
        None \<Rightarrow> right
      | Some l \<Rightarrow> (case rat_SetString right of None \<Rightarrow> left | Some r \<Rightarrow> if r \<le> l then left else right))"

definition transferOutstandingQuantity :: "string \<Rightarrow> string \<Rightarrow> string \<Rightarrow> string" where
  "transferOutstandingQuantity shipped received resolved =
     (let remaining = decimalSub (decimalSub shipped received) resolved in
      if decimalCompare remaining ''0'' \<le> 0 then ''0'' else remaining)"

text \<open>A validation error is \<open>None\<close>.\<close>

definition cleanQuantity :: "string \<Rightarrow> bool \<Rightarrow> string option" where
  "cleanQuantity value positive =
     (case ParseDecimal (trim_space value) 8 of
        Inl e \<Rightarrow> None
      | Inr parsed' \<Rightarrow>
          if (positive \<and> dec_Sign parsed' \<le> 0) \<or> (\<not> positive \<and> dec_Sign parsed' < 0) then None else Some (dec_String parsed'))"

definition parseNonNegative :: "string \<Rightarrow> string option" where
  "parseNonNegative value = cleanQuantity value False"

section \<open>Count reconciliation\<close>

fun add_movements :: "rat \<Rightarrow> string list \<Rightarrow> rat option" where
  "add_movements expected [] = Some expected"
| "add_movements expected (m # ms) =
     (case decimalRat m of None \<Rightarrow> None | Some delta \<Rightarrow> add_movements (expected + delta) ms)"

definition ReconcileSnapshot :: "string \<Rightarrow> string list \<Rightarrow> string \<Rightarrow> (string \<times> string) option" where
  "ReconcileSnapshot snapshotQuantity movements countedQuantity =
     (case decimalRat snapshotQuantity of
        None \<Rightarrow> None
      | Some snapshot \<Rightarrow>
          if snapshot < 0 then None
          else (case add_movements snapshot movements of
              None \<Rightarrow> None
            | Some expected \<Rightarrow>
                (case decimalRat countedQuantity of
                   None \<Rightarrow> None
                 | Some counted \<Rightarrow> if counted < 0 then None else Some (formatRat expected, formatRat (counted - expected)))))"

section \<open>Texts and numbers\<close>

definition denotes :: "string \<Rightarrow> int \<Rightarrow> bool" where
  "denotes s n = (rat_SetString s = Some (of_int n / 10 ^ 8))"

definition qtext :: "int \<Rightarrow> string" where \<comment> \<open>\<^verbatim>\<open>::text\<close> of a \<^verbatim>\<open>numeric(24,8)\<close>\<close>
  "qtext n = formatScaled n 8"

text \<open>The column value a quantity text becomes when it is stored.\<close>

definition units :: "string \<Rightarrow> int" where
  "units s = (case rat_SetString s of None \<Rightarrow> 0 | Some r \<Rightarrow> round_half_away (r * 10 ^ 8))"

lemma trim_right_append: "s \<noteq> [] \<Longrightarrow> last s \<noteq> c \<Longrightarrow> trim_right c (s @ t) = s @ trim_right c t"
proof -
  assume "s \<noteq> []" "last s \<noteq> c"
  then have "dropWhile (\<lambda>x. x = c) (rev t @ rev s) = dropWhile (\<lambda>x. x = c) (rev t) @ rev s"
    by (cases s rule: rev_cases) (auto simp: dropWhile_append dropWhile_eq_Nil_conv)
  then show ?thesis by (simp add: trim_right_def)
qed

lemma trim_right_digits: "all_digits s \<Longrightarrow> trim_right (CHR ''.'') s = s"
proof (cases s rule: rev_cases)
  case (snoc ys y)
  moreover assume "all_digits s"
  ultimately have "y \<noteq> CHR ''.''" by (auto simp: all_digits_set is_digit_def)
  then show ?thesis by (simp add: snoc trim_right_def)
qed (simp add: trim_right_def)

lemma trim_right_point:
  assumes "all_digits t" "s \<noteq> []" "is_digit (last s)"
  shows "trim_right (CHR ''.'') ((s @ ''.'') @ t) = s @ (if t = [] then [] else ''.'' @ t)"
proof (cases "t = []")
  case True
  have "trim_right (CHR ''.'') (s @ ''.'') = s @ trim_right (CHR ''.'') ''.''"
    using assms(2,3) by (intro trim_right_append) (auto simp: is_digit_def)
  then show ?thesis using True by (simp add: trim_right_def)
next
  case False
  then obtain ys y where "t = ys @ [y]" "is_digit y" using assms(1) by (cases t rule: rev_cases) (auto simp: all_digits_set)
  then show ?thesis by (auto simp: trim_right_def is_digit_def)
qed

lemma formatRat_text:
  "formatRat (of_int n / 10 ^ 8) = (if n < 0 then ''-'' else []) @ unsigned_text (dec_of_nat (nat \<bar>n\<bar> div 10 ^ 8))
     (trim_right (CHR ''0'') (frac_digits 8 (nat \<bar>n\<bar> mod 10 ^ 8)))"
proof -
  let ?sg = "if n < 0 then ''-'' else []" and ?i = "dec_of_nat (nat \<bar>n\<bar> div 10 ^ 8)"
  let ?f = "frac_digits 8 (nat \<bar>n\<bar> mod 10 ^ 8)"
  let ?t = "trim_right (CHR ''0'') ?f"
  have f: "length ?f = 8" "all_digits ?f" "nat_of_dec ?f = nat \<bar>n\<bar> mod 10 ^ 8"
    using frac_digits_props [of 8 "nat \<bar>n\<bar> mod 10 ^ 8"] by auto
  have t: "all_digits ?t" using trim_right_zeros(1) [OF f(2)] .
  have last_i: "is_digit (last ?i)" by (rule dec_of_nat_digit)
  have "rat_FloatString 8 (of_int n / 10 ^ 8) = (?sg @ ?i @ ''.'') @ ?f"
    unfolding FloatString_scaled by (simp add: formatScaled_eq)
  then have "trim_right (CHR ''0'') (rat_FloatString 8 (of_int n / 10 ^ 8)) = (?sg @ ?i @ ''.'') @ ?t"
    using trim_right_append [of "?sg @ ?i @ ''.''" "CHR ''0''"] by simp
  moreover have "trim_right (CHR ''.'') ((?sg @ ?i @ ''.'') @ ?t) = ?sg @ unsigned_text ?i ?t"
    using trim_right_point [OF t, of "?sg @ ?i"] last_i by (simp add: unsigned_text_def)
  moreover have "?sg @ unsigned_text ?i ?t \<noteq> ''-0''"
  proof
    assume eq: "?sg @ unsigned_text ?i ?t = ''-0''"
    have hd: "is_digit (hd ?i)" "?i \<noteq> []" by (simp_all add: dec_of_nat_digit)
    then have neg: "n < 0" using eq by (cases ?i) (auto simp: unsigned_text_def is_digit_def split: if_splits)
    then have u: "unsigned_text ?i ?t = ''0''" using eq by simp
    then have i0: "?i = ''0''" "?t = []" using hd(2) by (cases ?i; auto simp: unsigned_text_def split: if_splits)+
    have "nat \<bar>n\<bar> div 10 ^ 8 = nat_of_dec ?i" by simp
    then have "nat \<bar>n\<bar> div 10 ^ 8 = 0" unfolding i0(1) by simp
    moreover have "nat \<bar>n\<bar> mod 10 ^ 8 = 0"
      using trim_right_zeros(3) [OF f(2)] unfolding i0(2) f(3) by simp
    ultimately have "nat \<bar>n\<bar> = 0" by (metis div_mult_mod_eq mult_0 add_0)
    then show False using neg by simp
  qed
  moreover have "?sg @ unsigned_text ?i ?t \<noteq> []" by (simp add: unsigned_text_def)
  ultimately show ?thesis by (simp add: formatRat_def Let_def)
qed

lemma sign_mag: "(if n < 0 then -1 else 1) * (of_nat (nat \<bar>n\<bar>) :: rat) = of_int n"
  by (simp add: of_nat_nat)

lemma denotes_formatRat [simp]: "denotes (formatRat (of_int n / 10 ^ 8)) n"
proof -
  let ?i = "dec_of_nat (nat \<bar>n\<bar> div 10 ^ 8)" and ?f = "frac_digits 8 (nat \<bar>n\<bar> mod 10 ^ 8)"
  let ?t = "trim_right (CHR ''0'') ?f"
  have f: "length ?f = 8" "all_digits ?f" "nat_of_dec ?f = nat \<bar>n\<bar> mod 10 ^ 8"
    using frac_digits_props [of 8 "nat \<bar>n\<bar> mod 10 ^ 8"] by auto
  note z = trim_right_zeros [OF f(2)]
  have "rat_SetString (formatRat (of_int n / 10 ^ 8))
    = Some ((if n < 0 then -1 else 1) * of_nat (nat_of_dec (?i @ ?t)) / 10 ^ length ?t)"
    unfolding formatRat_text using z(1) by (intro rat_SetString_text) simp_all
  moreover have "(of_nat (nat_of_dec (?i @ ?t)) / 10 ^ length ?t :: rat) = of_nat (nat \<bar>n\<bar>) / 10 ^ 8"
  proof -
    have "(of_nat (nat_of_dec (?i @ ?t)) / 10 ^ length ?t :: rat)
        = of_nat (nat \<bar>n\<bar> div 10 ^ 8) + of_nat (nat_of_dec ?t) / 10 ^ length ?t"
      by (simp add: nat_of_dec_append add_divide_distrib)
    also have "\<dots> = of_nat (nat \<bar>n\<bar> div 10 ^ 8) + of_nat (nat \<bar>n\<bar> mod 10 ^ 8) / 10 ^ 8"
      unfolding z(3) f(1,3) ..
    also have "\<dots> = of_nat (nat \<bar>n\<bar>) / 10 ^ 8" by (rule of_nat_div_mod [of "10 ^ 8" "nat \<bar>n\<bar>", unfolded of_nat_power of_nat_numeral, symmetric]) simp
    finally show ?thesis .
  qed
  ultimately have "rat_SetString (formatRat (of_int n / 10 ^ 8))
      = Some ((if n < 0 then -1 else 1) * (of_nat (nat \<bar>n\<bar>) / 10 ^ 8))"
    by (simp only: times_divide_eq_right [symmetric])
  then show ?thesis by (simp only: denotes_def times_divide_eq_right sign_mag)
qed

lemma denotes_qtext [simp]: "denotes (qtext n) n"
proof -
  have "rat_SetString (dec_String (fromScaledInt n 8)) = Some (decimal_rat (fromScaledInt n 8))"
    by (rule rat_SetString_decimal) simp
  moreover have "dec_String (fromScaledInt n 8) = formatScaled n 8"
    by (simp add: dec_String_def fromScaledInt_def formatScaled_eq)
  ultimately show ?thesis by (simp add: denotes_def qtext_def)
qed

lemma denotes_zero [simp]: "denotes ''0'' 0"
  using rat_SetString_text [of "''0''" "[]" False] by (simp add: denotes_def unsigned_text_def is_digit_def)

lemma denotes_fun: "denotes s a \<Longrightarrow> denotes s b \<Longrightarrow> a = b"
  by (simp add: denotes_def)

lemma units_denotes [simp]: "denotes s n \<Longrightarrow> units s = n"
  by (simp add: units_def denotes_def)

lemma rat_num_sgn: "sgn (rat_num x) = (if x < 0 then -1 else if x = 0 then 0 else 1)"
  using rat_num_nonneg [of x] rat_num_nonneg [of "- x"] rat_num_den [of x]
  by (auto simp: sgn_if not_le [symmetric] rat_num_def)

named_theorems quantity \<open>What the text helpers compute on texts of hundred-millionths.\<close>

lemma decimalCompare_denotes [quantity]:
  assumes "denotes a m" "denotes b n"
  shows "decimalCompare a b < 0 \<longleftrightarrow> m < n" "decimalCompare a b \<le> 0 \<longleftrightarrow> m \<le> n" "0 < decimalCompare a b \<longleftrightarrow> n < m"
proof -
  have "(of_int m / 10 ^ 8 - of_int n / 10 ^ 8 :: rat) = of_int (m - n) / 10 ^ 8" by (simp add: diff_divide_distrib)
  then have "decimalCompare a b = (if m < n then -1 else if m = n then 0 else 1)"
    using assms by (auto simp: decimalCompare_def denotes_def rat_num_sgn divide_less_0_iff)
  then show "decimalCompare a b < 0 \<longleftrightarrow> m < n" "decimalCompare a b \<le> 0 \<longleftrightarrow> m \<le> n" "0 < decimalCompare a b \<longleftrightarrow> n < m" by auto
qed

lemma decimalSub_denotes [quantity]: "denotes a m \<Longrightarrow> denotes b n \<Longrightarrow> denotes (decimalSub a b) (m - n)"
  using denotes_formatRat [of "m - n"] by (simp add: decimalSub_def denotes_def diff_divide_distrib)

lemma decimalAdd_denotes [quantity]: "denotes a m \<Longrightarrow> denotes b n \<Longrightarrow> denotes (decimalAdd a b) (m + n)"
  using denotes_formatRat [of "m + n"] by (simp add: decimalAdd_def denotes_def add_divide_distrib)

lemma decimalMax_denotes [quantity]: "denotes a m \<Longrightarrow> denotes b n \<Longrightarrow> denotes (decimalMax a b) (max m n)"
  by (auto simp: decimalMax_def denotes_def max_def divide_le_cancel)

lemma formatRat_zero_iff: "formatRat (of_int n / 10 ^ 8) = ''0'' \<longleftrightarrow> n = 0"
proof
  assume "formatRat (of_int n / 10 ^ 8) = ''0''"
  then show "n = 0" using denotes_formatRat [of n] denotes_zero denotes_fun by metis
next
  assume "n = 0"
  then show "formatRat (of_int n / 10 ^ 8) = ''0''"
    by (simp add: formatRat_text [of 0, simplified] unsigned_text_def frac_digits_zero trim_right_def dec_of_nat.simps [of 0] digit_char_0 dropWhile_eq_Nil_conv)
qed

lemma outstanding_denotes [quantity]:
  assumes "denotes a m" "denotes b n" "denotes c k"
  shows "denotes (transferOutstandingQuantity a b c) (max 0 (m - n - k))"
    "transferOutstandingQuantity a b c = ''0'' \<longleftrightarrow> m - n - k \<le> 0"
proof -
  have d: "denotes (decimalSub (decimalSub a b) c) (m - n - k)" using assms by (intro quantity)
  have le: "decimalCompare (decimalSub (decimalSub a b) c) ''0'' \<le> 0 \<longleftrightarrow> m - n - k \<le> 0"
    by (rule decimalCompare_denotes [OF d denotes_zero])
  show "denotes (transferOutstandingQuantity a b c) (max 0 (m - n - k))"
    using d le by (auto simp: transferOutstandingQuantity_def Let_def max_def)
  show "transferOutstandingQuantity a b c = ''0'' \<longleftrightarrow> m - n - k \<le> 0"
    using d le denotes_fun [OF denotes_zero, of "m - n - k"] by (auto simp: transferOutstandingQuantity_def Let_def)
qed

lemma ParseDecimal_denotes:
  assumes "ParseDecimal s 8 = Inr d"
  shows "\<exists>n. denotes (dec_String d) n \<and> decimal_rat d = of_int n / 10 ^ 8"
proof -
  have ok: "decimal_ok d" "int (dscale d) \<le> 8" using ParseDecimal_ok [OF assms] by auto
  define n where "n = dvalue d * 10 ^ (8 - dscale d)"
  have p: "10 ^ 8 = 10 ^ (8 - dscale d) * (10 ^ dscale d :: rat)"
    using ok(2) power_add [of "10 :: rat" "8 - dscale d" "dscale d"] by simp
  have "of_int n / 10 ^ 8 = (of_int (dvalue d) * 10 ^ (8 - dscale d)) / (10 ^ (8 - dscale d) * (10 ^ dscale d) :: rat)"
    unfolding p n_def of_int_mult of_int_power of_int_numeral ..
  also have "\<dots> = decimal_rat d" by (simp add: decimal_rat_def)
  finally have "decimal_rat d = of_int n / 10 ^ 8" by (rule sym)
  then show ?thesis using rat_SetString_decimal [OF ok(1)] by (auto simp: denotes_def)
qed

lemma cleanQuantity_denotes:
  assumes "cleanQuantity s pos = Some t"
  obtains n where "denotes t n" "0 \<le> n" "pos \<Longrightarrow> 0 < n" "units t = n"
proof -
  obtain d where d: "ParseDecimal (trim_space s) 8 = Inr d" "t = dec_String d"
    "pos \<Longrightarrow> 0 < dec_Sign d" "\<not> pos \<Longrightarrow> 0 \<le> dec_Sign d"
    using assms by (auto simp: cleanQuantity_def not_le not_less split: sum.splits if_splits)
  obtain n where n: "denotes t n" "decimal_rat d = of_int n / 10 ^ 8" using ParseDecimal_denotes [OF d(1)] d(2) by blast
  have sg: "dec_Sign d = sgn n"
  proof -
    have "(of_int n / 10 ^ 8 < (0 :: rat)) = (n < 0)" "(of_int n / 10 ^ 8 = (0 :: rat)) = (n = 0)"
      by (simp_all add: divide_less_0_iff)
    then show ?thesis unfolding dec_Sign_rat n(2) sgn_if by simp
  qed
  have "pos \<longrightarrow> 0 < sgn n" "\<not> pos \<longrightarrow> 0 \<le> sgn n" using d(3,4) unfolding sg by blast+
  then have "0 \<le> n" "pos \<Longrightarrow> 0 < n" by (cases pos; simp add: sgn_if split: if_splits)+
  then show ?thesis using that n(1) by simp
qed

lemma decimalRat_units: "decimalRat s = Some r \<Longrightarrow> \<exists>n. r = of_int n / 10 ^ 8"
  using ParseDecimal_denotes [of s] by (auto simp: decimalRat_def denotes_def split: sum.splits)

lemma add_movements_sum:
  "add_movements e ms = Some r \<Longrightarrow> \<exists>ds. list_all2 (\<lambda>m d. decimalRat m = Some (of_int d / 10 ^ 8)) ms ds \<and> r = e + of_int (sum_list ds) / 10 ^ 8"
proof (induction ms arbitrary: e)
  case (Cons m ms)
  then obtain x where x: "decimalRat m = Some x" "add_movements (e + x) ms = Some r" by (auto split: option.splits)
  obtain d where d: "x = of_int d / 10 ^ 8" using decimalRat_units [OF x(1)] by blast
  obtain ds where "list_all2 (\<lambda>m d. decimalRat m = Some (of_int d / 10 ^ 8)) ms ds" "r = e + x + of_int (sum_list ds) / 10 ^ 8"
    using Cons.IH [OF x(2)] by blast
  then have "list_all2 (\<lambda>m d. decimalRat m = Some (of_int d / 10 ^ 8)) (m # ms) (d # ds) \<and> r = e + of_int (sum_list (d # ds)) / 10 ^ 8"
    using x(1) by (simp add: d add_divide_distrib)
  then show ?case by blast
qed simp

text \<open>
  Reconciling a count is exact in hundred-millionths: the expected quantity is the snapshot plus every movement
  since, the difference is what was counted minus that, so posting the difference brings the expected quantity to the
  physical count; a negative snapshot or count is refused.
\<close>

theorem reconcile_exact:
  assumes "ReconcileSnapshot snapshot movements counted = Some (expected, difference)"
  shows "\<exists>s ds c. denotes expected (s + sum_list ds) \<and> denotes difference (c - (s + sum_list ds))
    \<and> units expected + units difference = c \<and> 0 \<le> s \<and> 0 \<le> c
    \<and> decimalRat snapshot = Some (of_int s / 10 ^ 8) \<and> decimalRat counted = Some (of_int c / 10 ^ 8)
    \<and> list_all2 (\<lambda>m d. decimalRat m = Some (of_int d / 10 ^ 8)) movements ds"
proof -
  obtain s' e' c' where v: "decimalRat snapshot = Some s'" "0 \<le> s'" "add_movements s' movements = Some e'"
    "decimalRat counted = Some c'" "0 \<le> c'" "expected = formatRat e'" "difference = formatRat (c' - e')"
    using assms by (auto simp: ReconcileSnapshot_def not_less split: option.splits if_splits)
  obtain s c where sc: "s' = of_int s / 10 ^ 8" "c' = of_int c / 10 ^ 8" using decimalRat_units v(1,4) by metis
  obtain ds where ds: "list_all2 (\<lambda>m d. decimalRat m = Some (of_int d / 10 ^ 8)) movements ds" "e' = s' + of_int (sum_list ds) / 10 ^ 8"
    using add_movements_sum [OF v(3)] by blast
  have e: "e' = of_int (s + sum_list ds) / 10 ^ 8" "c' - e' = of_int (c - (s + sum_list ds)) / 10 ^ 8"
    by (simp_all add: ds(2) sc add_divide_distrib diff_divide_distrib)
  have "0 \<le> s" "0 \<le> c" using v(2,5) by (simp_all add: sc zero_le_divide_iff)
  moreover have d: "denotes expected (s + sum_list ds)" "denotes difference (c - (s + sum_list ds))"
    unfolding v(6,7) e(2) unfolding e(1) by (rule denotes_formatRat)+
  moreover have "units expected + units difference = c" using d by simp
  ultimately show ?thesis using v(1,4) sc ds(1) by blast
qed

lemma sample_parses:
  "decimalRat ''10'' = Some 10" "decimalRat ''-2.5'' = Some (- 5 / 2)" "decimalRat ''7'' = Some 7"
proof -
  have "ParseDecimal ''10'' 8 = Inr (fromScaledInt 10 0)" "ParseDecimal ''-2.5'' 8 = Inr (fromScaledInt (-25) 1)" "ParseDecimal ''7'' 8 = Inr (fromScaledInt 7 0)"
    by code_simp+
  then show "decimalRat ''10'' = Some 10" "decimalRat ''-2.5'' = Some (- 5 / 2)" "decimalRat ''7'' = Some 7"
    using rat_SetString_decimal [of "fromScaledInt 10 0"] rat_SetString_decimal [of "fromScaledInt (-25) 1"] rat_SetString_decimal [of "fromScaledInt 7 0"]
    by (simp_all add: decimalRat_def)
qed

theorem reconcile_exact_witness:
  "\<exists>e d. ReconcileSnapshot ''10'' [''-2.5''] ''7'' = Some (e, d) \<and> units e + units d = 700000000"
proof -
  obtain e d where r: "ReconcileSnapshot ''10'' [''-2.5''] ''7'' = Some (e, d)"
    by (auto simp: ReconcileSnapshot_def sample_parses)
  obtain c where "units e + units d = c" "decimalRat ''7'' = Some (of_int c / 10 ^ 8)" using reconcile_exact [OF r] by blast
  then show ?thesis using r by (auto simp: sample_parses)
qed

end
