(* ===== verification/Stock_Transfer.thy ===== *)
theory Stock_Transfer
  imports Stock_Decimal Go_Sort Idempotency
begin

text \<open>
  Warehouse transfers of \<^verbatim>\<open>src/internal/inventory/service.go\<close> and \<^verbatim>\<open>state.go\<close>: creation, reservation, shipment into the transit
  warehouse, receipt, discrepancy resolution and cancellation, over the append-only stock ledger and the stock positions.
  The triggers and check constraints the commands rely on are those of
  \<^verbatim>\<open>src/internal/platform/migrations/sql/000001_baseline.sql\<close>.

  The tables are those of one company.  Identifiers are parsed UUIDs, a null reference is the empty text.  A command
  is one transaction: an error leaves the tables as they were.  Idempotency keys of transfer movements are
  built from UUIDs and decimals by \<^verbatim>\<open>fmt.Sprintf\<close> with colons between them, so they are kept as terms; the payload hash of a movement
  stands for the movement itself.  \<open>admits\<close> is the verdict of the guards that read other tables (warehouse and product rules,
  variants, lots, serials, locked counts, permissions): all they can do is reject.
\<close>

section \<open>State machine\<close>

datatype TransferState = DRAFT | REQUESTED | APPROVED | IN_TRANSIT | PARTIALLY_RECEIVED | RECEIVED | CANCELLED

fun CanTransitionTransfer :: "TransferState \<Rightarrow> TransferState \<Rightarrow> bool" where
  "CanTransitionTransfer from to =
     (from = to \<or>
      (case from of
         DRAFT \<Rightarrow> to = REQUESTED \<or> to = APPROVED \<or> to = CANCELLED
       | REQUESTED \<Rightarrow> to = APPROVED \<or> to = CANCELLED
       | APPROVED \<Rightarrow> to = IN_TRANSIT \<or> to = CANCELLED
       | IN_TRANSIT \<Rightarrow> to = PARTIALLY_RECEIVED \<or> to = RECEIVED \<or> to = CANCELLED
       | PARTIALLY_RECEIVED \<Rightarrow> to = RECEIVED \<or> to = CANCELLED
       | _ \<Rightarrow> False))"

section \<open>Tables\<close>

record position =
  ps_Warehouse :: string
  ps_Product :: string
  ps_Variant :: string
  ps_Location :: string
  ps_Lot :: string
  ps_Serial :: string

datatype direction = IN | OUT

datatype movement_key =
    ShipOut string string | TransitIn string string
  | ReceiveOut string string string string string | ReceiveIn string string string string string
  | ResolveOut string string string | ResolveIn string string string
  | CancelOut string string | CancelIn string string
  | QuickOut string string | QuickTransitIn string string | QuickDestinationOut string string | QuickDestinationIn string string
  | ClientKey string

datatype movement_type = TRANSFER_OUT | TRANSFER_IN | WASTE | OTHER_TYPE string

record MovementInput =
  mi_Position :: position
  mi_MovementType :: movement_type
  mi_Direction :: direction
  mi_Quantity :: string
  mi_SourceType :: string
  mi_SourceID :: string
  mi_SourceLineID :: string
  mi_IdempotencyKey :: movement_key
  mi_ActorUserID :: string
  mi_ReasonDescription :: string

record Transfer =
  tf_SourceWarehouseID :: string
  tf_DestinationWarehouseID :: string
  tf_TransitWarehouseID :: string
  tf_Quick :: bool
  tf_State :: TransferState
  tf_Version :: int

record TransferLine =
  ln_ID :: string
  ln_TransferID :: string
  ln_ProductID :: string
  ln_VariantID :: string
  ln_LotID :: string
  ln_SerialID :: string
  ln_SourceLocationID :: string
  ln_DestinationLocationID :: string
  ln_Quantity :: int
  ln_Shipped :: int
  ln_Received :: int
  ln_Damaged :: int

datatype reservation_state = ACTIVE | CONSUMED | RELEASED

record reservation =
  rv_LineID :: string
  rv_TransferID :: string
  rv_Position :: position
  rv_Quantity :: int
  rv_State :: reservation_state

datatype resolution_type = DELIVER | RETURN | WASTE_OFF

record resolution =
  rs_ID :: string
  rs_TransferID :: string
  rs_LineID :: string
  rs_Type :: resolution_type
  rs_Quantity :: int
  rs_Reason :: string
  rs_Key :: string

record stock =
  st_Company :: string
  st_Transfers :: "string \<rightharpoonup> Transfer"
  st_Lines :: "TransferLine list"
  st_Movements :: "MovementInput list"
  st_Positions :: "position \<rightharpoonup> int \<times> int" \<comment> \<open>physical and reserved quantity\<close>
  st_Reservations :: "reservation list"
  st_Resolutions :: "resolution list"
  st_Commands :: idem_table
  st_SystemTransit :: "string \<Rightarrow> bool"
  st_Block :: bool \<comment> \<open>negative stock policy \<^verbatim>\<open>BLOCK\<close>\<close>

datatype stock_error = NotFound | Validation | InvalidReason | InvalidState | Conflict | IdempotencyConflict | InsufficientStock
  | NotAllowed | CheckViolation | NotConserved | Rejected

definition mv_units :: "MovementInput \<Rightarrow> int" where "mv_units m = units (mi_Quantity m)"

definition lines_of :: "stock \<Rightarrow> string \<Rightarrow> TransferLine list" where \<comment> \<open>in the order of \<^verbatim>\<open>line_no\<close>\<close>
  "lines_of s tid = filter (\<lambda>l. ln_TransferID l = tid) (st_Lines s)"

definition line_of :: "stock \<Rightarrow> string \<Rightarrow> TransferLine option" where
  "line_of s lid = find (\<lambda>l. ln_ID l = lid) (st_Lines s)"

definition resolved_quantity :: "stock \<Rightarrow> string \<Rightarrow> int" where
  "resolved_quantity s lid = sum_list (map rs_Quantity (filter (\<lambda>r. rs_LineID r = lid) (st_Resolutions s)))"

definition resolved_text :: "stock \<Rightarrow> string \<Rightarrow> string" where \<comment> \<open>\<^verbatim>\<open>COALESCE(SUM(quantity),0)::text\<close>\<close>
  "resolved_text s lid =
     (if filter (\<lambda>r. rs_LineID r = lid) (st_Resolutions s) = [] then ''0'' else qtext (resolved_quantity s lid))"

text \<open>The movements of a transfer line in one warehouse, direction and kind, and their quantity.\<close>

definition moved :: "stock \<Rightarrow> string \<Rightarrow> string \<Rightarrow> string set \<Rightarrow> direction \<Rightarrow> movement_type set \<Rightarrow> int" where
  "moved s tid lid wh dir ty = sum_list (map mv_units (filter (\<lambda>m. mi_SourceType m = ''WAREHOUSE_TRANSFER''
     \<and> mi_SourceID m = tid \<and> mi_SourceLineID m = lid \<and> ps_Warehouse (mi_Position m) \<in> wh \<and> mi_Direction m = dir
     \<and> mi_MovementType m \<in> ty) (st_Movements s)))"

section \<open>The ledger\<close>

definition transfer_guard :: "stock \<Rightarrow> MovementInput \<Rightarrow> stock_error option" where \<comment> \<open>\<^verbatim>\<open>validate_transfer_stock_movement\<close>\<close>
  "transfer_guard s m =
     (let tid = mi_SourceID m; lid = mi_SourceLineID m; p = mi_Position m; w = ps_Warehouse p; q = mv_units m in
      if mi_SourceType m \<noteq> ''WAREHOUSE_TRANSFER'' then
        (if mi_MovementType m \<in> {TRANSFER_IN, TRANSFER_OUT} then Some NotAllowed else None)
      else if lid = [] then Some NotAllowed
      else (case (st_Transfers s tid, line_of s lid) of
          (Some t, Some l) \<Rightarrow>
            if ln_TransferID l \<noteq> tid \<or> ln_ProductID l \<noteq> ps_Product p \<or> ln_VariantID l \<noteq> ps_Variant p
              \<or> ln_LotID l \<noteq> ps_Lot p \<or> ln_SerialID l \<noteq> ps_Serial p then Some NotAllowed
            else
              let verdict =
                (if w = tf_SourceWarehouseID t \<and> mi_Direction m = OUT \<and> mi_MovementType m = TRANSFER_OUT then
                   (if tf_State t \<noteq> APPROVED \<or> ln_SourceLocationID l \<noteq> ps_Location p then Some InvalidState
                    else if moved s tid lid {tf_SourceWarehouseID t} OUT {TRANSFER_OUT} + q > ln_Quantity l
                      then Some InsufficientStock else None)
                 else if w = tf_TransitWarehouseID t \<and> mi_Direction m = IN \<and> mi_MovementType m = TRANSFER_IN then
                   (if tf_State t \<noteq> APPROVED \<or> ps_Location p \<noteq> [] then Some InvalidState
                    else if moved s tid lid {tf_TransitWarehouseID t} IN {TRANSFER_IN} + q > ln_Quantity l
                      then Some InsufficientStock else None)
                 else if w = tf_TransitWarehouseID t \<and> mi_Direction m = OUT \<and> mi_MovementType m \<in> {TRANSFER_OUT, WASTE} then
                   (if tf_State t \<notin> {IN_TRANSIT, PARTIALLY_RECEIVED} \<or> ps_Location p \<noteq> [] then Some InvalidState
                    else if moved s tid lid {tf_TransitWarehouseID t} OUT UNIV + q > ln_Shipped l
                      then Some InsufficientStock else None)
                 else if w \<in> {tf_SourceWarehouseID t, tf_DestinationWarehouseID t} \<and> mi_Direction m = IN
                   \<and> mi_MovementType m = TRANSFER_IN then
                   (if tf_State t \<notin> {IN_TRANSIT, PARTIALLY_RECEIVED} then Some InvalidState
                    else if (w = tf_SourceWarehouseID t \<and> ln_SourceLocationID l \<noteq> ps_Location p)
                      \<or> (w = tf_DestinationWarehouseID t \<and> ln_DestinationLocationID l \<noteq> ps_Location p) then Some NotAllowed
                    else if moved s tid lid {tf_SourceWarehouseID t, tf_DestinationWarehouseID t} IN {TRANSFER_IN} + q
                        > moved s tid lid {tf_TransitWarehouseID t} OUT {TRANSFER_OUT}
                      then Some InsufficientStock else None)
                 else Some NotAllowed);
                (physical, reserved) = (case st_Positions s p of None \<Rightarrow> (0, 0) | Some x \<Rightarrow> x) in
              (case verdict of
                 Some e \<Rightarrow> Some e
               | None \<Rightarrow>
                   if mi_MovementType m = TRANSFER_OUT \<and> mi_Direction m = OUT
                     \<and> (if w = tf_TransitWarehouseID t then physical < q else physical - reserved < q)
                   then Some InsufficientStock else None)
        | _ \<Rightarrow> Some NotAllowed))"

definition set_position :: "position \<Rightarrow> int \<times> int \<Rightarrow> stock \<Rightarrow> stock" where \<comment> \<open>system transit stock is never available\<close>
  "set_position p v s =
     s\<lparr>st_Positions := (st_Positions s)(p \<mapsto> (if st_SystemTransit s (ps_Warehouse p) then (fst v, fst v) else v))\<rparr>"

definition project :: "stock \<Rightarrow> MovementInput \<Rightarrow> stock_error + stock" where \<comment> \<open>\<^verbatim>\<open>apply_inventory_stock_projection\<close>\<close>
  "project s m =
     (let delta = (if mi_Direction m = IN then mv_units m else - mv_units m);
          (current, reserved) = (case st_Positions s (mi_Position m) of None \<Rightarrow> (0, 0) | Some x \<Rightarrow> x) in
      if current + delta < 0 \<and> st_Block s then Inl InsufficientStock
      else Inr (set_position (mi_Position m) (current + delta, reserved) s))"

definition postMovementTx :: "(stock \<Rightarrow> MovementInput \<Rightarrow> bool) \<Rightarrow> stock \<Rightarrow> MovementInput \<Rightarrow> stock_error + stock" where
  "postMovementTx admits s m =
     (case cleanQuantity (mi_Quantity m) True of
        None \<Rightarrow> Inl Validation
      | Some q \<Rightarrow>
          (case find (\<lambda>e. mi_IdempotencyKey e = mi_IdempotencyKey m) (st_Movements s) of
             Some existing \<Rightarrow> if existing = m then Inr s else Inl IdempotencyConflict
           | None \<Rightarrow>
               if \<not> admits s m then Inl Rejected
               else (case transfer_guard s m of
                   Some e \<Rightarrow> Inl e
                 | None \<Rightarrow> project (s\<lparr>st_Movements := st_Movements s @ [m]\<rparr>) m)))"

definition movementForTransfer ::
  "string \<Rightarrow> string \<Rightarrow> TransferLine \<Rightarrow> movement_type \<Rightarrow> direction \<Rightarrow> string \<Rightarrow> string \<Rightarrow> movement_key \<Rightarrow> string \<Rightarrow> MovementInput" where
  "movementForTransfer warehouse location l ty dir quantity actor key reason =
     \<lparr>mi_Position = \<lparr>ps_Warehouse = warehouse, ps_Product = ln_ProductID l, ps_Variant = ln_VariantID l, ps_Location = location,
        ps_Lot = ln_LotID l, ps_Serial = ln_SerialID l\<rparr>,
      mi_MovementType = ty, mi_Direction = dir, mi_Quantity = quantity, mi_SourceType = ''WAREHOUSE_TRANSFER'',
      mi_SourceID = ln_TransferID l, mi_SourceLineID = ln_ID l, mi_IdempotencyKey = key, mi_ActorUserID = actor,
      mi_ReasonDescription = reason\<rparr>"

section \<open>Updates\<close>

definition set_state :: "string \<Rightarrow> TransferState \<Rightarrow> stock \<Rightarrow> stock" where \<comment> \<open>with \<^verbatim>\<open>version=version+1\<close>\<close>
  "set_state tid to s =
     s\<lparr>st_Transfers := (st_Transfers s)(tid := map_option (\<lambda>t. t\<lparr>tf_State := to, tf_Version := tf_Version t + 1\<rparr>) (st_Transfers s tid))\<rparr>"

definition line_check :: "TransferLine \<Rightarrow> bool" where \<comment> \<open>the check constraints of \<^verbatim>\<open>warehouse_transfer_lines\<close>\<close>
  "line_check l = (ln_Shipped l \<le> ln_Quantity l \<and> ln_Received l + ln_Damaged l \<le> ln_Shipped l \<and> 0 \<le> ln_Damaged l
     \<and> 0 < ln_Quantity l \<and> 0 \<le> ln_Received l \<and> 0 \<le> ln_Shipped l)"

definition update_line :: "string \<Rightarrow> (TransferLine \<Rightarrow> TransferLine) \<Rightarrow> stock \<Rightarrow> stock_error + stock" where
  "update_line lid f s =
     (if list_all (\<lambda>l. ln_ID l = lid \<longrightarrow> line_check (f l)) (st_Lines s)
      then Inr (s\<lparr>st_Lines := map (\<lambda>l. if ln_ID l = lid then f l else l) (st_Lines s)\<rparr>)
      else Inl CheckViolation)"

definition conserved_line :: "stock \<Rightarrow> Transfer \<Rightarrow> TransferLine \<Rightarrow> bool" where
  "conserved_line s t l =
     (let source_out = moved s (ln_TransferID l) (ln_ID l) {tf_SourceWarehouseID t} OUT {TRANSFER_OUT};
          transit_in = moved s (ln_TransferID l) (ln_ID l) {tf_TransitWarehouseID t} IN {TRANSFER_IN};
          transit_out = moved s (ln_TransferID l) (ln_ID l) {tf_TransitWarehouseID t} OUT {TRANSFER_OUT};
          transit_waste = moved s (ln_TransferID l) (ln_ID l) {tf_TransitWarehouseID t} OUT {WASTE};
          endpoint_in = moved s (ln_TransferID l) (ln_ID l) {tf_SourceWarehouseID t, tf_DestinationWarehouseID t} IN {TRANSFER_IN} in
      \<not> (ln_Shipped l > 0 \<and> (source_out \<noteq> ln_Shipped l \<or> transit_in \<noteq> ln_Shipped l))
      \<and> transit_out = endpoint_in \<and> transit_out + transit_waste \<le> transit_in
      \<and> \<not> (tf_State t \<in> {RECEIVED, CANCELLED} \<and> ln_Shipped l > 0 \<and> transit_out + transit_waste \<noteq> transit_in))"

definition conserved :: "stock \<Rightarrow> string \<Rightarrow> bool" where \<comment> \<open>\<^verbatim>\<open>validate_transfer_stock_conservation\<close>, deferred to the commit\<close>
  "conserved s tid = (case st_Transfers s tid of None \<Rightarrow> True | Some t \<Rightarrow> list_all (conserved_line s t) (lines_of s tid))"

definition commit :: "string \<Rightarrow> stock \<Rightarrow> stock_error + stock" where
  "commit tid s = (if conserved s tid then Inr s else Inl NotConserved)"

section \<open>Reservations\<close>

definition source_position :: "Transfer \<Rightarrow> TransferLine \<Rightarrow> position" where
  "source_position t l = \<lparr>ps_Warehouse = tf_SourceWarehouseID t, ps_Product = ln_ProductID l, ps_Variant = ln_VariantID l,
     ps_Location = ln_SourceLocationID l, ps_Lot = ln_LotID l, ps_Serial = ln_SerialID l\<rparr>"

fun join_colon :: "string list \<Rightarrow> string" where
  "join_colon [] = []"
| "join_colon [x] = x"
| "join_colon (x # xs) = x @ '':'' @ join_colon xs"

definition reservationPositionKey :: "position \<Rightarrow> string" where
  "reservationPositionKey p =
     join_colon [ps_Warehouse p, ps_Product p, ps_Variant p, ps_Location p, ps_Lot p, ps_Serial p]"

definition reservation_less :: "Transfer \<Rightarrow> TransferLine \<Rightarrow> TransferLine \<Rightarrow> bool" where
  "reservation_less t x y =
     (let left = reservationPositionKey (source_position t x); right = reservationPositionKey (source_position t y) in
      if left = right then str_less (ln_ID x) (ln_ID y) else str_less left right)"

fun reserve_loop :: "Transfer \<Rightarrow> stock \<Rightarrow> TransferLine list \<Rightarrow> stock_error + stock" where
  "reserve_loop t s [] = Inr s"
| "reserve_loop t s (l # ls) =
     (case find (\<lambda>r. rv_LineID r = ln_ID l) (st_Reservations s) of
        Some r \<Rightarrow> if rv_State r = ACTIVE then reserve_loop t s ls else Inl Conflict
      | None \<Rightarrow>
          (case st_Positions s (source_position t l) of
             None \<Rightarrow> Inl InsufficientStock
           | Some (physical, reserved) \<Rightarrow>
               if decimalCompare (decimalSub (qtext physical) (qtext reserved)) (qtext (ln_Quantity l)) < 0 then Inl InsufficientStock
               else
                 let s1 = set_position (source_position t l) (physical, reserved + ln_Quantity l) s;
                     r = \<lparr>rv_LineID = ln_ID l, rv_TransferID = ln_TransferID l, rv_Position = source_position t l,
                          rv_Quantity = ln_Quantity l, rv_State = ACTIVE\<rparr> in
                 reserve_loop t (s1\<lparr>st_Reservations := st_Reservations s1 @ [r]\<rparr>) ls))"

definition reserveTransferLinesTx :: "(stock \<Rightarrow> TransferLine \<Rightarrow> bool) \<Rightarrow> stock \<Rightarrow> string \<Rightarrow> stock_error + stock" where
  "reserveTransferLinesTx variant_ok s tid =
     (if \<not> list_all (variant_ok s) (lines_of s tid) then Inl Rejected
      else (case st_Transfers s tid of
          None \<Rightarrow> Inl NotFound
        | Some t \<Rightarrow> reserve_loop t s (stable_sort (reservation_less t) (lines_of s tid))))"

text \<open>Consuming and releasing differ in the final state of the reservation; the order of the query only orders locks.\<close>

fun settle_loop :: "reservation_state \<Rightarrow> stock \<Rightarrow> reservation list \<Rightarrow> stock_error + stock" where
  "settle_loop final s [] = Inr s"
| "settle_loop final s (r # rs) =
     (case st_Positions s (rv_Position r) of
        None \<Rightarrow> Inl Conflict
      | Some (physical, reserved) \<Rightarrow>
          if reserved < rv_Quantity r then Inl Conflict
          else
            let s1 = set_position (rv_Position r) (physical, reserved - rv_Quantity r) s in
            settle_loop final (s1\<lparr>st_Reservations := map (\<lambda>x. if rv_LineID x = rv_LineID r \<and> rv_State x = ACTIVE
              then x\<lparr>rv_State := final\<rparr> else x) (st_Reservations s1)\<rparr>) rs)"

definition active_reservations :: "stock \<Rightarrow> string \<Rightarrow> reservation list" where
  "active_reservations s tid = filter (\<lambda>r. rv_TransferID r = tid \<and> rv_State r = ACTIVE) (st_Reservations s)"

definition consumeTransferReservationsTx :: "stock \<Rightarrow> string \<Rightarrow> stock_error + stock" where
  "consumeTransferReservationsTx s tid = settle_loop CONSUMED s (active_reservations s tid)"

definition releaseTransferReservationsTx :: "stock \<Rightarrow> string \<Rightarrow> stock_error + stock" where
  "releaseTransferReservationsTx s tid = settle_loop RELEASED s (active_reservations s tid)"

section \<open>Request, approve, ship\<close>

definition transitionTransfer ::
  "(stock \<Rightarrow> TransferLine \<Rightarrow> bool) \<Rightarrow> bool \<Rightarrow> stock \<Rightarrow> string \<Rightarrow> TransferState \<Rightarrow> int \<Rightarrow> stock_error + stock" where
  "transitionTransfer variant_ok may s tid to expectedVersion =
     (case st_Transfers s tid of
        None \<Rightarrow> Inl NotFound
      | Some t \<Rightarrow>
          if \<not> may then Inl Rejected
          else if \<not> CanTransitionTransfer (tf_State t) to then Inl InvalidState
          else
            let expectedVersion = (if expectedVersion < 1 then tf_Version t else expectedVersion) in
            bindE (if \<not> tf_Quick t \<and> (to = REQUESTED \<or> to = APPROVED) then reserveTransferLinesTx variant_ok s tid else Inr s) (\<lambda>s.
            if expectedVersion \<noteq> tf_Version t then Inl Conflict else commit tid (set_state tid to s)))"

definition RequestTransfer :: "(stock \<Rightarrow> TransferLine \<Rightarrow> bool) \<Rightarrow> bool \<Rightarrow> stock \<Rightarrow> string \<Rightarrow> int \<Rightarrow> stock_error + stock" where
  "RequestTransfer variant_ok may s tid expectedVersion = transitionTransfer variant_ok may s tid REQUESTED expectedVersion"

definition ApproveTransfer :: "(stock \<Rightarrow> TransferLine \<Rightarrow> bool) \<Rightarrow> bool \<Rightarrow> stock \<Rightarrow> string \<Rightarrow> int \<Rightarrow> stock_error + stock" where
  "ApproveTransfer variant_ok may s tid expectedVersion = transitionTransfer variant_ok may s tid APPROVED expectedVersion"

definition transfer_text :: string where "transfer_text = ''Depo transferi''"

text \<open>Both shipments move every line out of one warehouse and into another; they differ in warehouses, keys and the line column set.\<close>

fun leg_loop :: "(stock \<Rightarrow> MovementInput \<Rightarrow> bool) \<Rightarrow> (TransferLine \<Rightarrow> MovementInput) \<Rightarrow> (TransferLine \<Rightarrow> MovementInput)
    \<Rightarrow> (TransferLine \<Rightarrow> TransferLine) \<Rightarrow> stock \<Rightarrow> TransferLine list \<Rightarrow> stock_error + stock" where
  "leg_loop admits out into f s [] = Inr s"
| "leg_loop admits out into f s (l # ls) =
     bindE (postMovementTx admits s (out l)) (\<lambda>s.
     bindE (postMovementTx admits s (into l)) (\<lambda>s.
     bindE (update_line (ln_ID l) f s) (\<lambda>s. leg_loop admits out into f s ls)))"

definition transfer_out :: "string \<Rightarrow> string \<Rightarrow> (string \<Rightarrow> string \<Rightarrow> movement_key) \<Rightarrow> (TransferLine \<Rightarrow> string) \<Rightarrow> TransferLine \<Rightarrow> MovementInput" where
  "transfer_out actor warehouse key loc l =
     movementForTransfer warehouse (loc l) l TRANSFER_OUT OUT (qtext (ln_Quantity l)) actor (key (ln_TransferID l) (ln_ID l)) transfer_text"

definition transfer_in :: "string \<Rightarrow> string \<Rightarrow> (string \<Rightarrow> string \<Rightarrow> movement_key) \<Rightarrow> (TransferLine \<Rightarrow> string) \<Rightarrow> TransferLine \<Rightarrow> MovementInput" where
  "transfer_in actor warehouse key loc l =
     movementForTransfer warehouse (loc l) l TRANSFER_IN IN (qtext (ln_Quantity l)) actor (key (ln_TransferID l) (ln_ID l)) transfer_text"

definition ship_leg :: "(stock \<Rightarrow> MovementInput \<Rightarrow> bool) \<Rightarrow> string \<Rightarrow> Transfer \<Rightarrow> (string \<Rightarrow> string \<Rightarrow> movement_key) \<Rightarrow> (string \<Rightarrow> string \<Rightarrow> movement_key)
    \<Rightarrow> stock \<Rightarrow> TransferLine list \<Rightarrow> stock_error + stock" where
  "ship_leg admits actor t kout kin =
     leg_loop admits (transfer_out actor (tf_SourceWarehouseID t) kout ln_SourceLocationID)
       (transfer_in actor (tf_TransitWarehouseID t) kin (\<lambda>l. [])) (\<lambda>l. l\<lparr>ln_Shipped := ln_Quantity l\<rparr>)"

definition postWorkflowShipmentTx ::
  "(stock \<Rightarrow> MovementInput \<Rightarrow> bool) \<Rightarrow> (stock \<Rightarrow> TransferLine \<Rightarrow> bool) \<Rightarrow> string \<Rightarrow> stock \<Rightarrow> string \<Rightarrow> stock_error + stock" where
  "postWorkflowShipmentTx admits variant_ok actor s tid =
     (case st_Transfers s tid of
        None \<Rightarrow> Inl NotFound
      | Some t \<Rightarrow>
          if tf_State t \<noteq> APPROVED then (if CanTransitionTransfer (tf_State t) IN_TRANSIT then Inr s else Inl InvalidState)
          else
            bindE (reserveTransferLinesTx variant_ok s tid) (\<lambda>s.
            bindE (consumeTransferReservationsTx s tid) (\<lambda>s.
            bindE (ship_leg admits actor t ShipOut TransitIn s (lines_of s tid)) (\<lambda>s.
            Inr (set_state tid IN_TRANSIT s)))))"

definition ShipTransfer ::
  "(stock \<Rightarrow> MovementInput \<Rightarrow> bool) \<Rightarrow> (stock \<Rightarrow> TransferLine \<Rightarrow> bool) \<Rightarrow> bool \<Rightarrow> string \<Rightarrow> stock \<Rightarrow> string \<Rightarrow> int \<Rightarrow> stock_error + stock" where
  "ShipTransfer admits variant_ok may actor s tid expectedVersion =
     (case st_Transfers s tid of
        None \<Rightarrow> Inl NotFound
      | Some t \<Rightarrow>
          if \<not> may then Inl Rejected
          else if \<not> CanTransitionTransfer (tf_State t) IN_TRANSIT then Inl InvalidState
          else if expectedVersion > 0 \<and> expectedVersion \<noteq> tf_Version t then Inl Conflict
          else bindE (postWorkflowShipmentTx admits variant_ok actor s tid) (commit tid))"

text \<open>The code reads the lines once; the columns both legs use, identity and quantity, do not change in between.\<close>

definition postQuickTransferTx :: "(stock \<Rightarrow> MovementInput \<Rightarrow> bool) \<Rightarrow> string \<Rightarrow> stock \<Rightarrow> string \<Rightarrow> stock_error + stock" where
  "postQuickTransferTx admits actor s tid =
     (case st_Transfers s tid of
        None \<Rightarrow> Inl NotFound
      | Some t \<Rightarrow>
          bindE (let s = set_state tid APPROVED (set_state tid REQUESTED s) in
            ship_leg admits actor t QuickOut QuickTransitIn s (lines_of s tid)) (\<lambda>s.
          bindE (leg_loop admits (transfer_out actor (tf_TransitWarehouseID t) QuickDestinationOut (\<lambda>l. []))
              (transfer_in actor (tf_DestinationWarehouseID t) QuickDestinationIn ln_DestinationLocationID)
              (\<lambda>l. l\<lparr>ln_Received := ln_Quantity l\<rparr>) (set_state tid IN_TRANSIT s) (lines_of s tid)) (\<lambda>s.
          Inr (set_state tid RECEIVED s))))"

section \<open>Create\<close>

record TransferLineInput =
  li_ProductID :: string
  li_VariantID :: string
  li_LotID :: string
  li_SerialID :: string
  li_SourceLocationID :: string
  li_DestinationLocationID :: string
  li_Quantity :: string

record TransferInput =
  ti_SourceWarehouseID :: string
  ti_DestinationWarehouseID :: string
  ti_TransferType :: string
  ti_IdempotencyKey :: string
  ti_Lines :: "TransferLineInput list"

text \<open>\<open>new_id k\<close> is the UUID generated for the \<open>k\<close>-th line.\<close>

definition new_line :: "string \<Rightarrow> string \<Rightarrow> TransferLineInput \<Rightarrow> int \<Rightarrow> TransferLine" where
  "new_line tid lid i q =
     \<lparr>ln_ID = lid, ln_TransferID = tid, ln_ProductID = li_ProductID i, ln_VariantID = li_VariantID i, ln_LotID = li_LotID i,
      ln_SerialID = li_SerialID i, ln_SourceLocationID = li_SourceLocationID i, ln_DestinationLocationID = li_DestinationLocationID i,
      ln_Quantity = q, ln_Shipped = 0, ln_Received = 0, ln_Damaged = 0\<rparr>"

definition create_lines ::
  "(stock \<Rightarrow> TransferLine \<Rightarrow> bool) \<Rightarrow> stock \<Rightarrow> (nat \<Rightarrow> string) \<Rightarrow> string \<Rightarrow> TransferLineInput list \<Rightarrow> stock_error + TransferLine list" where
  "create_lines variant_ok s new_id tid inputs =
     mapE (\<lambda>(k, i). case cleanQuantity (li_Quantity i) True of
        None \<Rightarrow> Inl Validation
      | Some q \<Rightarrow> let l = new_line tid (new_id k) i (units q) in if variant_ok s l then Inr l else Inl Rejected) (enumerate 0 inputs)"

definition transfer_type :: "string \<Rightarrow> bool option" where \<comment> \<open>true for \<^verbatim>\<open>QUICK\<close>, false for \<^verbatim>\<open>WORKFLOW\<close>\<close>
  "transfer_type s = (let u = to_upper (trim_space s) in
     if u = ''QUICK'' then Some True else if u = [] \<or> u = ''WORKFLOW'' then Some False else None)"

text \<open>
  The command record of the client's key.  Its body is the text of the \<^verbatim>\<open>jsonb\<close> object the command stores, from which a
  replay reads the transfer's identifier.
\<close>

definition create_command :: string where "create_command = ''inventory.transfer.create''"

definition id_prefix :: string where
  "id_prefix = ''{'' @ [CHR 0x22] @ ''transfer_id'' @ [CHR 0x22] @ '': '' @ [CHR 0x22]"

definition create_body :: "string \<Rightarrow> string" where "create_body tid = id_prefix @ tid @ [CHR 0x22] @ ''}''"

definition read_create_body :: "string \<Rightarrow> string option" where
  "read_create_body body =
     (if take (length id_prefix) body = id_prefix then Some (takeWhile (\<lambda>c. c \<noteq> CHR 0x22) (drop (length id_prefix) body)) else None)"

definition reserveTransferCreateCommand ::
  "(TransferInput \<Rightarrow> string) \<Rightarrow> stock \<Rightarrow> TransferInput \<Rightarrow> stock_error + stock \<times> string option" where
  "reserveTransferCreateCommand digest s input =
     (let key = trim_space (ti_IdempotencyKey input) in
      if key = [] then Inr (s, None)
      else if length key > 255 then Inl Validation
      else
        let hash = digest (input\<lparr>ti_IdempotencyKey := []\<rparr>);
            (table, inserted) = insert_ignore (st_Commands s) (st_Company s, key) create_command hash in
        (case table (st_Company s, key) of
           None \<Rightarrow> Inl NotFound
         | Some row \<Rightarrow>
             if rw_command row \<noteq> create_command \<or> rw_hash row \<noteq> hash then Inl IdempotencyConflict
             else if inserted then Inr (s\<lparr>st_Commands := table\<rparr>, None)
             else if rw_status row \<noteq> COMPLETED then Inl Conflict
             else (case read_create_body (nullable [] (rw_response_body row)) of
                 None \<Rightarrow> Inl Conflict
               | Some replay \<Rightarrow> if trim_space replay = [] then Inl Conflict else Inr (s, Some replay))))"

definition complete_create :: "int \<Rightarrow> string \<Rightarrow> string \<Rightarrow> stock \<Rightarrow> stock_error + stock" where
  "complete_create now key tid s =
     (if trim_space key = [] then Inr s
      else let (table, affected) = complete_row (st_Commands s) (st_Company s, trim_space key) 201 (create_body tid) now in
        if affected then Inr (s\<lparr>st_Commands := table\<rparr>) else Inl Conflict)"

text \<open>
  \<open>transit\<close> is the transit warehouse named, found or created; identifiers that are not fresh violate a primary key.  A replay
  answers with the transfer of the first call and leaves the tables alone.
\<close>

definition CreateTransfer ::
  "(stock \<Rightarrow> MovementInput \<Rightarrow> bool) \<Rightarrow> (stock \<Rightarrow> TransferLine \<Rightarrow> bool) \<Rightarrow> (TransferInput \<Rightarrow> string) \<Rightarrow> bool \<Rightarrow> string \<Rightarrow> string \<Rightarrow> int \<Rightarrow> string
   \<Rightarrow> (nat \<Rightarrow> string) \<Rightarrow> stock \<Rightarrow> TransferInput \<Rightarrow> stock_error + stock" where
  "CreateTransfer admits variant_ok digest may transit actor now tid new_id s input =
     (if ti_SourceWarehouseID input = ti_DestinationWarehouseID input \<or> ti_Lines input = [] then Inl Validation
      else (case transfer_type (ti_TransferType input) of
          None \<Rightarrow> Inl Validation
        | Some quick \<Rightarrow>
            if \<not> may \<or> st_SystemTransit s (ti_SourceWarehouseID input) \<or> st_SystemTransit s (ti_DestinationWarehouseID input)
            then Inl Rejected
            else bindE (reserveTransferCreateCommand digest s input) (\<lambda>(s1, replay).
              if replay \<noteq> None then Inr s
              else if \<not> st_SystemTransit s1 transit then Inl Rejected
              else bindE (create_lines variant_ok s1 new_id tid (ti_Lines input)) (\<lambda>ls.
                if st_Transfers s1 tid \<noteq> None \<or> \<not> distinct (map ln_ID (st_Lines s1 @ ls)) \<or> [] \<in> set (map ln_ID ls) then Inl CheckViolation
                else
                  let t = \<lparr>tf_SourceWarehouseID = ti_SourceWarehouseID input, tf_DestinationWarehouseID = ti_DestinationWarehouseID input,
                        tf_TransitWarehouseID = transit, tf_Quick = quick, tf_State = DRAFT, tf_Version = 1\<rparr>;
                      s2 = s1\<lparr>st_Transfers := (st_Transfers s1)(tid \<mapsto> t), st_Lines := st_Lines s1 @ ls\<rparr> in
                  bindE (if quick then postQuickTransferTx admits actor s2 tid
                         else postWorkflowShipmentTx admits variant_ok actor (set_state tid APPROVED s2) tid) (\<lambda>s3.
                  bindE (complete_create now (ti_IdempotencyKey input) tid s3) (commit tid))))))"

section \<open>Receive\<close>

record ReceiveLineInput =
  rc_LineID :: string
  rc_ReceivedQuantity :: string
  rc_DamagedQuantity :: string
  rc_Reason :: string

definition receive_command :: string where "receive_command = ''inventory.transfer.receive''"

text \<open>\<open>digest\<close> is the hexadecimal SHA-256 of the JSON of its arguments; the flag of the result says replay.\<close>

definition reserveTransferReceiveCommand ::
  "(string \<Rightarrow> int \<Rightarrow> ReceiveLineInput list \<Rightarrow> string) \<Rightarrow> stock \<Rightarrow> string \<Rightarrow> int \<Rightarrow> ReceiveLineInput list \<Rightarrow> string \<Rightarrow> stock_error + stock \<times> bool" where
  "reserveTransferReceiveCommand digest s tid expectedVersion receives key =
     (let key = trim_space key in
      if key = [] then Inr (s, False)
      else if length key > 255 then Inl Validation
      else
        let hash = digest tid expectedVersion (stable_sort (\<lambda>x y. str_less (rc_LineID x) (rc_LineID y)) receives);
            (table, inserted) = insert_ignore (st_Commands s) (st_Company s, key) receive_command hash in
        (case table (st_Company s, key) of
           None \<Rightarrow> Inl NotFound
         | Some row \<Rightarrow>
             if rw_command row \<noteq> receive_command \<or> rw_hash row \<noteq> hash then Inl IdempotencyConflict
             else if \<not> inserted then (if rw_status row = COMPLETED then Inr (s, True) else Inl Conflict)
             else Inr (s\<lparr>st_Commands := table\<rparr>, False)))"

text \<open>What the transit warehouse still holds for the receiver: a resolution consumes the discrepancy that damage announced.\<close>

definition remaining_text :: "TransferLine \<times> string \<Rightarrow> string" where
  "remaining_text lr =
     decimalSub (decimalSub (qtext (ln_Shipped (fst lr))) (qtext (ln_Received (fst lr)))) (decimalMax (qtext (ln_Damaged (fst lr))) (snd lr))"

definition line_snapshot :: "stock \<Rightarrow> string \<Rightarrow> (TransferLine \<times> string) list" where
  "line_snapshot s tid = map (\<lambda>l. (l, resolved_text s (ln_ID l))) (lines_of s tid)"

definition receive_moves ::
  "(stock \<Rightarrow> MovementInput \<Rightarrow> bool) \<Rightarrow> string \<Rightarrow> Transfer \<Rightarrow> stock \<Rightarrow> TransferLine \<Rightarrow> string \<Rightarrow> string \<Rightarrow> stock_error + stock" where
  "receive_moves admits actor t s l received damaged =
     (let b = qtext (ln_Received l) in
      bindE (postMovementTx admits s (movementForTransfer (tf_TransitWarehouseID t) [] l TRANSFER_OUT OUT received actor
        (ReceiveOut (ln_TransferID l) (ln_ID l) b received damaged) transfer_text)) (\<lambda>s.
      postMovementTx admits s (movementForTransfer (tf_DestinationWarehouseID t) (ln_DestinationLocationID l) l TRANSFER_IN IN received actor
        (ReceiveIn (ln_TransferID l) (ln_ID l) b received damaged) transfer_text)))"

text \<open>One entry of the receipt; the line is the one read before the first entry.\<close>

definition receive_entry ::
  "(stock \<Rightarrow> MovementInput \<Rightarrow> bool) \<Rightarrow> string \<Rightarrow> Transfer \<Rightarrow> (TransferLine \<times> string) list \<Rightarrow> stock \<Rightarrow> ReceiveLineInput \<Rightarrow> stock_error + stock" where
  "receive_entry admits actor t snapshot s receive =
     (case find (\<lambda>lr. ln_ID (fst lr) = rc_LineID receive) snapshot of
        None \<Rightarrow> Inl NotFound
      | Some lr \<Rightarrow>
          (case (parseNonNegative (rc_ReceivedQuantity receive),
                 if trim_space (rc_DamagedQuantity receive) = [] then Some ''0'' else parseNonNegative (rc_DamagedQuantity receive)) of
             (Some received, Some damaged) \<Rightarrow>
               let handled = decimalAdd received damaged; remaining = remaining_text lr in
               if decimalCompare handled remaining > 0 then Inl Validation
               else if decimalCompare handled remaining < 0 \<and> trim_space (rc_Reason receive) = [] then Inl Validation
               else
                 bindE (if decimalCompare received ''0'' > 0 then receive_moves admits actor t s (fst lr) received damaged else Inr s) (\<lambda>s.
                 if decimalCompare damaged ''0'' > 0 \<and> trim_space (rc_Reason receive) = [] then Inl InvalidReason
                 else update_line (rc_LineID receive) (\<lambda>l. l\<lparr>ln_Received := ln_Received l + units received,
                        ln_Damaged := ln_Damaged l + units damaged\<rparr>) s)
           | _ \<Rightarrow> Inl Validation))"

fun receive_loop ::
  "(stock \<Rightarrow> MovementInput \<Rightarrow> bool) \<Rightarrow> string \<Rightarrow> Transfer \<Rightarrow> (TransferLine \<times> string) list \<Rightarrow> stock \<Rightarrow> ReceiveLineInput list \<Rightarrow> stock_error + stock" where
  "receive_loop admits actor t snapshot s [] = Inr s"
| "receive_loop admits actor t snapshot s (r # rs) =
     bindE (receive_entry admits actor t snapshot s r) (\<lambda>s. receive_loop admits actor t snapshot s rs)"

definition incomplete :: "stock \<Rightarrow> string \<Rightarrow> bool" where
  "incomplete s tid = list_ex (\<lambda>l. ln_Received l + resolved_quantity s (ln_ID l) < ln_Shipped l) (lines_of s tid)"

definition settle_state :: "string \<Rightarrow> stock \<Rightarrow> stock" where
  "settle_state tid s = set_state tid (if incomplete s tid then PARTIALLY_RECEIVED else RECEIVED) s"

definition receive_body :: "string \<Rightarrow> string" where \<comment> \<open>\<^verbatim>\<open>%q\<close> of a UUID\<close>
  "receive_body tid = ''{'' @ [CHR 0x22] @ ''transfer_id'' @ [CHR 0x22] @ '':'' @ [CHR 0x22] @ tid @ [CHR 0x22] @ ''}''"

definition complete_command :: "int \<Rightarrow> string \<Rightarrow> string \<Rightarrow> stock \<Rightarrow> stock" where
  "complete_command now key tid s =
     (if trim_space key = [] then s
      else s\<lparr>st_Commands := fst (complete_row (st_Commands s) (st_Company s, trim_space key) 200 (receive_body tid) now)\<rparr>)"

text \<open>Without entries the whole rest is received; the code builds these entries in the order of a Go map, one for each line.\<close>

definition receive_all :: "(TransferLine \<times> string) list \<Rightarrow> ReceiveLineInput list" where
  "receive_all = map (\<lambda>lr. \<lparr>rc_LineID = ln_ID (fst lr), rc_ReceivedQuantity = remaining_text lr, rc_DamagedQuantity = [], rc_Reason = []\<rparr>)"

definition receiveTransferWithKey ::
  "(stock \<Rightarrow> MovementInput \<Rightarrow> bool) \<Rightarrow> (string \<Rightarrow> int \<Rightarrow> ReceiveLineInput list \<Rightarrow> string) \<Rightarrow> bool \<Rightarrow> string \<Rightarrow> int \<Rightarrow> stock \<Rightarrow> string \<Rightarrow> int
   \<Rightarrow> ReceiveLineInput list \<Rightarrow> string \<Rightarrow> stock_error + stock" where
  "receiveTransferWithKey admits digest may actor now s tid expectedVersion receives key =
     (case st_Transfers s tid of
        None \<Rightarrow> Inl NotFound
      | Some t \<Rightarrow>
          if \<not> may then Inl Rejected
          else
            let snapshot = line_snapshot s tid;
                entries = (if receives = [] then receive_all snapshot else receives) in
            bindE (reserveTransferReceiveCommand digest s tid expectedVersion receives key) (\<lambda>(s1, replay).
            if replay then Inr s
            else if tf_State t \<notin> {IN_TRANSIT, PARTIALLY_RECEIVED} then Inl InvalidState
            else if expectedVersion > 0 \<and> expectedVersion \<noteq> tf_Version t then Inl Conflict
            else bindE (receive_loop admits actor t snapshot s1 entries) (\<lambda>s2.
              commit tid (complete_command now key tid (settle_state tid s2)))))"

section \<open>Resolve a discrepancy\<close>

record TransferResolutionInput =
  tr_LineID :: string
  tr_ResolutionType :: string
  tr_Quantity :: string
  tr_Reason :: string
  tr_IdempotencyKey :: string

definition resolution_of :: "string \<Rightarrow> resolution_type option" where
  "resolution_of s = (let u = to_upper (trim_space s) in
     if u = ''DELIVER'' then Some DELIVER else if u = ''RETURN'' then Some RETURN else if u = ''WASTE'' then Some WASTE_OFF else None)"

definition resolution_moves ::
  "(stock \<Rightarrow> MovementInput \<Rightarrow> bool) \<Rightarrow> string \<Rightarrow> Transfer \<Rightarrow> stock \<Rightarrow> TransferLine \<Rightarrow> resolution_type \<Rightarrow> string \<Rightarrow> string \<Rightarrow> string \<Rightarrow> stock_error + stock" where
  "resolution_moves admits actor t s l ty quantity reason rid =
     bindE (postMovementTx admits s (movementForTransfer (tf_TransitWarehouseID t) [] l (if ty = WASTE_OFF then WASTE else TRANSFER_OUT) OUT
       quantity actor (ResolveOut (ln_TransferID l) (ln_ID l) rid) (if ty = WASTE_OFF then reason else transfer_text))) (\<lambda>s.
     if ty = WASTE_OFF then Inr s
     else
       let (warehouse, location) = (if ty = RETURN then (tf_SourceWarehouseID t, ln_SourceLocationID l)
             else (tf_DestinationWarehouseID t, ln_DestinationLocationID l)) in
       postMovementTx admits s (movementForTransfer warehouse location l TRANSFER_IN IN quantity actor
         (ResolveIn (ln_TransferID l) (ln_ID l) rid) transfer_text))"

text \<open>\<open>default_key\<close> is the key built from the digest of the reason; \<open>rid\<close> is the UUID generated for the row.\<close>

definition ResolveTransferDiscrepancy ::
  "(stock \<Rightarrow> MovementInput \<Rightarrow> bool) \<Rightarrow> (string \<Rightarrow> string \<Rightarrow> resolution_type \<Rightarrow> string \<Rightarrow> string \<Rightarrow> string) \<Rightarrow> bool \<Rightarrow> string \<Rightarrow> string \<Rightarrow> stock
   \<Rightarrow> string \<Rightarrow> TransferResolutionInput \<Rightarrow> stock_error + stock" where
  "ResolveTransferDiscrepancy admits default_key may actor rid s tid input =
     (case resolution_of (tr_ResolutionType input) of
        None \<Rightarrow> Inl Validation
      | Some ty \<Rightarrow>
          let reason = trim_space (tr_Reason input); lid = tr_LineID input in
          if reason = [] then Inl InvalidReason
          else (case cleanQuantity (tr_Quantity input) True of
              None \<Rightarrow> Inl Validation
            | Some quantity \<Rightarrow>
                let key = (if trim_space (tr_IdempotencyKey input) = [] then default_key tid lid ty quantity reason
                      else trim_space (tr_IdempotencyKey input)) in
                (case st_Transfers s tid of
                   None \<Rightarrow> Inl NotFound
                 | Some t \<Rightarrow>
                     if \<not> may then Inl Rejected
                     else (case find (\<lambda>r. rs_Key r = key) (st_Resolutions s) of
                         Some r \<Rightarrow>
                           if rs_TransferID r \<noteq> tid \<or> rs_Type r \<noteq> ty \<or> qtext (rs_Quantity r) \<noteq> quantity \<or> rs_Reason r \<noteq> reason \<or> rs_LineID r \<noteq> lid
                           then Inl IdempotencyConflict else Inr s
                       | None \<Rightarrow>
                           if tf_State t \<notin> {IN_TRANSIT, PARTIALLY_RECEIVED} then Inl InvalidState
                           else (case find (\<lambda>l. ln_ID l = lid) (lines_of s tid) of
                               None \<Rightarrow> Inl NotFound
                             | Some l \<Rightarrow>
                                 if decimalCompare quantity (decimalSub (decimalSub (qtext (ln_Shipped l)) (qtext (ln_Received l))) (resolved_text s lid)) > 0
                                 then Inl Validation
                                 else if length key > 255 \<or> rid \<in> set (map rs_ID (st_Resolutions s))
                                   \<or> resolved_quantity s lid + units quantity > ln_Shipped l - ln_Received l then Inl CheckViolation
                                 else
                                   let r = \<lparr>rs_ID = rid, rs_TransferID = tid, rs_LineID = lid, rs_Type = ty, rs_Quantity = units quantity,
                                         rs_Reason = reason, rs_Key = key\<rparr> in
                                   bindE (resolution_moves admits actor t (s\<lparr>st_Resolutions := st_Resolutions s @ [r]\<rparr>) l ty quantity reason rid) (\<lambda>s.
                                   commit tid (settle_state tid s)))))))"

section \<open>Cancel\<close>

definition cancel_out_text :: string where
  "cancel_out_text = [CHR 0xC4, CHR 0xB0] @ ''ptal edilen sevkiyat'' @ [CHR 0xC4, CHR 0xB1] @ ''n transit depodan geri '' @ [CHR 0xC3, CHR 0xA7]
     @ [CHR 0xC4, CHR 0xB1] @ ''k'' @ [CHR 0xC4, CHR 0xB1, CHR 0xC5, CHR 0x9F, CHR 0xC4, CHR 0xB1]"

definition cancel_in_text :: string where
  "cancel_in_text = [CHR 0xC4, CHR 0xB0] @ ''ptal edilen sevkiyat'' @ [CHR 0xC4, CHR 0xB1] @ ''n '' @ [CHR 0xC3, CHR 0xA7] @ [CHR 0xC4, CHR 0xB1] @ ''k''
     @ [CHR 0xC4, CHR 0xB1, CHR 0xC5, CHR 0x9F] @ '' deposuna geri giri'' @ [CHR 0xC5, CHR 0x9F] @ ''i''"

fun return_loop :: "(stock \<Rightarrow> MovementInput \<Rightarrow> bool) \<Rightarrow> string \<Rightarrow> Transfer \<Rightarrow> stock \<Rightarrow> (TransferLine \<times> string) list \<Rightarrow> stock_error + stock" where
  "return_loop admits actor t s [] = Inr s"
| "return_loop admits actor t s ((l, resolved) # ls) =
     (let quantity = transferOutstandingQuantity (qtext (ln_Shipped l)) (qtext (ln_Received l)) resolved in
      if quantity = ''0'' then return_loop admits actor t s ls
      else
        bindE (postMovementTx admits s (movementForTransfer (tf_TransitWarehouseID t) [] l TRANSFER_OUT OUT quantity actor
          (CancelOut (ln_TransferID l) (ln_ID l)) cancel_out_text)) (\<lambda>s.
        bindE (postMovementTx admits s (movementForTransfer (tf_SourceWarehouseID t) (ln_SourceLocationID l) l TRANSFER_IN IN quantity actor
          (CancelIn (ln_TransferID l) (ln_ID l)) cancel_in_text)) (\<lambda>s.
        return_loop admits actor t s ls)))"

definition CancelTransfer ::
  "(stock \<Rightarrow> MovementInput \<Rightarrow> bool) \<Rightarrow> bool \<Rightarrow> string \<Rightarrow> stock \<Rightarrow> string \<Rightarrow> string \<Rightarrow> int \<Rightarrow> stock_error + stock" where
  "CancelTransfer admits may actor s tid reason expectedVersion =
     (if trim_space reason = [] then Inl Validation
      else (case st_Transfers s tid of
          None \<Rightarrow> Inl NotFound
        | Some t \<Rightarrow>
            if \<not> may then Inl Rejected
            else if tf_State t = CANCELLED then Inr s
            else if expectedVersion > 0 \<and> expectedVersion \<noteq> tf_Version t then Inl Conflict
            else if \<not> CanTransitionTransfer (tf_State t) CANCELLED then Inl InvalidState
            else
              bindE (if tf_State t \<in> {REQUESTED, APPROVED} then releaseTransferReservationsTx s tid else Inr s) (\<lambda>s.
              bindE (if tf_State t \<in> {IN_TRANSIT, PARTIALLY_RECEIVED} then return_loop admits actor t s (line_snapshot s tid) else Inr s) (\<lambda>s.
              commit tid (set_state tid CANCELLED s)))))"

end
