(* ===== verification/Transfer_Safety.thy ===== *)
theory Transfer_Safety
  imports Stock_Transfer
begin

text \<open>
  What transfers conserve.  The invariant gives each line an effective state, so that the lines a command has already moved
  and those it has not can be described inside its loops; between commands it is the state of the transfer.  One lemma
  carries the invariant over a step on one line; every command is a sequence of such steps.
\<close>

section \<open>Sums over the ledger\<close>

definition msum :: "MovementInput list \<Rightarrow> string \<Rightarrow> string \<Rightarrow> string set \<Rightarrow> direction \<Rightarrow> movement_type set \<Rightarrow> int" where
  "msum ms tid lid wh dir ty = sum_list (map mv_units (filter (\<lambda>m. mi_SourceType m = ''WAREHOUSE_TRANSFER''
     \<and> mi_SourceID m = tid \<and> mi_SourceLineID m = lid \<and> ps_Warehouse (mi_Position m) \<in> wh \<and> mi_Direction m = dir
     \<and> mi_MovementType m \<in> ty) ms))"

lemma moved_msum: "moved s = msum (st_Movements s)"
  by (intro ext) (simp add: moved_def msum_def)

lemma msum_simps [simp]:
  "msum [] tid lid wh dir ty = 0"
  "msum (m # ms) tid lid wh dir ty =
     (if mi_SourceType m = ''WAREHOUSE_TRANSFER'' \<and> mi_SourceID m = tid \<and> mi_SourceLineID m = lid
        \<and> ps_Warehouse (mi_Position m) \<in> wh \<and> mi_Direction m = dir \<and> mi_MovementType m \<in> ty then mv_units m else 0)
     + msum ms tid lid wh dir ty"
  "msum (xs @ ys) tid lid wh dir ty = msum xs tid lid wh dir ty + msum ys tid lid wh dir ty"
  by (simp_all add: msum_def)

definition of_line :: "MovementInput \<Rightarrow> string \<Rightarrow> bool" where
  "of_line m lid = (mi_SourceType m = ''WAREHOUSE_TRANSFER'' \<and> mi_SourceLineID m = lid)"

lemma msum_other: "(\<And>m. m \<in> set ms \<Longrightarrow> \<not> of_line m lid) \<Longrightarrow> msum ms tid lid wh dir ty = 0"
  by (induction ms) (auto simp: of_line_def)

lemma movementForTransfer_simps [simp]:
  "mi_Position (movementForTransfer w loc l ty d q a k r) = \<lparr>ps_Warehouse = w, ps_Product = ln_ProductID l, ps_Variant = ln_VariantID l,
     ps_Location = loc, ps_Lot = ln_LotID l, ps_Serial = ln_SerialID l\<rparr>"
  "mi_MovementType (movementForTransfer w loc l ty d q a k r) = ty"
  "mi_Direction (movementForTransfer w loc l ty d q a k r) = d"
  "mi_Quantity (movementForTransfer w loc l ty d q a k r) = q"
  "mi_SourceType (movementForTransfer w loc l ty d q a k r) = ''WAREHOUSE_TRANSFER''"
  "mi_SourceID (movementForTransfer w loc l ty d q a k r) = ln_TransferID l"
  "mi_SourceLineID (movementForTransfer w loc l ty d q a k r) = ln_ID l"
  "mi_IdempotencyKey (movementForTransfer w loc l ty d q a k r) = k"
  "mv_units (movementForTransfer w loc l ty d q a k r) = units q"
  "of_line (movementForTransfer w loc l ty d q a k r) lid \<longleftrightarrow> ln_ID l = lid"
  by (simp_all add: movementForTransfer_def mv_units_def of_line_def)

section \<open>The invariant\<close>

definition unshipped :: "TransferState set" where "unshipped = {DRAFT, REQUESTED, APPROVED}"

lemma unshipped_simps [simp]: "DRAFT \<in> unshipped" "REQUESTED \<in> unshipped" "APPROVED \<in> unshipped"
  "IN_TRANSIT \<notin> unshipped" "PARTIALLY_RECEIVED \<notin> unshipped" "RECEIVED \<notin> unshipped" "CANCELLED \<notin> unshipped"
  by (simp_all add: unshipped_def)

text \<open>The balance of a line: what left the source, entered transit, left transit and arrived, against its columns.\<close>

definition line_ok :: "MovementInput list \<Rightarrow> int \<Rightarrow> Transfer \<Rightarrow> TransferState \<Rightarrow> TransferLine \<Rightarrow> bool" where
  "line_ok ms resolved t st l =
     (let sum = msum ms (ln_TransferID l) (ln_ID l);
          so = sum {tf_SourceWarehouseID t} OUT {TRANSFER_OUT};
          ti = sum {tf_TransitWarehouseID t} IN {TRANSFER_IN};
          to = sum {tf_TransitWarehouseID t} OUT {TRANSFER_OUT};
          tw = sum {tf_TransitWarehouseID t} OUT {WASTE};
          ei = sum {tf_SourceWarehouseID t, tf_DestinationWarehouseID t} IN {TRANSFER_IN} in
      0 < ln_Quantity l \<and> 0 \<le> ln_Received l \<and> 0 \<le> ln_Damaged l \<and> 0 \<le> resolved
      \<and> so = ln_Shipped l \<and> ti = ln_Shipped l \<and> ei = to
      \<and> (st \<in> unshipped \<longrightarrow> ln_Shipped l = 0 \<and> ln_Received l = 0 \<and> resolved = 0 \<and> to = 0 \<and> tw = 0)
      \<and> (st \<in> {IN_TRANSIT, PARTIALLY_RECEIVED, RECEIVED} \<longrightarrow>
           ln_Shipped l = ln_Quantity l \<and> to + tw = ln_Received l + resolved \<and> ln_Received l + resolved \<le> ln_Shipped l)
      \<and> (st = RECEIVED \<longrightarrow> ln_Received l + resolved = ln_Shipped l)
      \<and> (st = CANCELLED \<longrightarrow> to + tw = ln_Shipped l))"

text \<open>A movement of a line carries a key that the command which posts it can never build again.\<close>

definition key_ok :: "(string \<Rightarrow> TransferState) \<Rightarrow> string set \<Rightarrow> TransferLine \<Rightarrow> MovementInput \<Rightarrow> bool" where
  "key_ok st rids l m =
     (mi_SourceID m = ln_TransferID l \<and> st (ln_ID l) \<notin> unshipped \<and>
      (case mi_IdempotencyKey m of
         ReceiveOut _ _ b _ _ \<Rightarrow> \<exists>n < ln_Received l. b = qtext n
       | ReceiveIn _ _ b _ _ \<Rightarrow> \<exists>n < ln_Received l. b = qtext n
       | ResolveOut _ _ r \<Rightarrow> r \<in> rids
       | ResolveIn _ _ r \<Rightarrow> r \<in> rids
       | CancelOut _ _ \<Rightarrow> st (ln_ID l) = CANCELLED
       | CancelIn _ _ \<Rightarrow> st (ln_ID l) = CANCELLED
       | QuickDestinationOut _ _ \<Rightarrow> st (ln_ID l) = RECEIVED
       | QuickDestinationIn _ _ \<Rightarrow> st (ln_ID l) = RECEIVED
       | ClientKey _ \<Rightarrow> False
       | _ \<Rightarrow> True))"

definition route_ok :: "stock \<Rightarrow> Transfer \<Rightarrow> bool" where
  "route_ok s t = (tf_SourceWarehouseID t \<noteq> tf_DestinationWarehouseID t \<and> \<not> st_SystemTransit s (tf_SourceWarehouseID t)
     \<and> \<not> st_SystemTransit s (tf_DestinationWarehouseID t) \<and> st_SystemTransit s (tf_TransitWarehouseID t))"

lemma route_distinct:
  assumes "route_ok s t"
  shows "tf_SourceWarehouseID t \<noteq> tf_DestinationWarehouseID t" "tf_TransitWarehouseID t \<noteq> tf_SourceWarehouseID t"
    "tf_TransitWarehouseID t \<noteq> tf_DestinationWarehouseID t" "tf_SourceWarehouseID t \<noteq> tf_TransitWarehouseID t"
    "tf_DestinationWarehouseID t \<noteq> tf_TransitWarehouseID t" "tf_DestinationWarehouseID t \<noteq> tf_SourceWarehouseID t"
  using assms by (auto simp: route_ok_def)

definition inv_at :: "(string \<Rightarrow> TransferState) \<Rightarrow> stock \<Rightarrow> bool" where
  "inv_at st s =
     (distinct (map ln_ID (st_Lines s))
      \<and> (\<forall>tid t. st_Transfers s tid = Some t \<longrightarrow> route_ok s t)
      \<and> (\<forall>l \<in> set (st_Lines s). \<exists>t. st_Transfers s (ln_TransferID l) = Some t
           \<and> line_ok (st_Movements s) (resolved_quantity s (ln_ID l)) t (st (ln_ID l)) l)
      \<and> (\<forall>m \<in> set (st_Movements s). mi_SourceType m = ''WAREHOUSE_TRANSFER'' \<longrightarrow>
           (\<exists>l \<in> set (st_Lines s). ln_ID l = mi_SourceLineID m \<and> key_ok st (set (map rs_ID (st_Resolutions s))) l m))
      \<and> (\<forall>r \<in> set (st_Resolutions s). rs_LineID r \<in> ln_ID ` set (st_Lines s)))"

definition state_of :: "stock \<Rightarrow> string \<Rightarrow> TransferState" where
  "state_of s lid =
     (case line_of s lid of None \<Rightarrow> DRAFT | Some l \<Rightarrow> (case st_Transfers s (ln_TransferID l) of None \<Rightarrow> DRAFT | Some t \<Rightarrow> tf_State t))"

definition transfer_inv :: "stock \<Rightarrow> bool" where
  "transfer_inv s = inv_at (state_of s) s"

lemma line_of_mem:
  "distinct (map ln_ID (st_Lines s)) \<Longrightarrow> l \<in> set (st_Lines s) \<Longrightarrow> line_of s (ln_ID l) = Some l"
proof -
  assume d: "distinct (map ln_ID (st_Lines s))" and l: "l \<in> set (st_Lines s)"
  obtain x where x: "find (\<lambda>y. ln_ID y = ln_ID l) (st_Lines s) = Some x" using l by (cases "find (\<lambda>y. ln_ID y = ln_ID l) (st_Lines s)") (auto simp: find_None_iff)
  then have "x \<in> set (st_Lines s)" "ln_ID x = ln_ID l" by (auto simp: find_Some_iff)
  then have "x = l" using d l by (auto simp: distinct_map inj_on_def)
  then show ?thesis using x by (simp add: line_of_def)
qed

lemma inv_line_unique: "inv_at st s \<Longrightarrow> l \<in> set (st_Lines s) \<Longrightarrow> x \<in> set (st_Lines s) \<Longrightarrow> ln_ID x = ln_ID l \<Longrightarrow> x = l"
  by (auto simp: inv_at_def distinct_map inj_on_def)

text \<open>A movement the invariant excludes is not in the ledger.\<close>

lemma fresh_movement:
  assumes "inv_at st s" "l \<in> set (st_Lines s)" "mi_SourceType m = ''WAREHOUSE_TRANSFER''" "mi_SourceLineID m = ln_ID l"
    "\<not> key_ok st (set (map rs_ID (st_Resolutions s))) l m"
  shows "m \<notin> set (st_Movements s)"
proof
  assume "m \<in> set (st_Movements s)"
  then obtain x where "x \<in> set (st_Lines s)" "ln_ID x = ln_ID l" "key_ok st (set (map rs_ID (st_Resolutions s))) x m"
    using assms(1,3,4) by (auto simp: inv_at_def)
  then show False using inv_line_unique [OF assms(1,2)] assms(5) by auto
qed

section \<open>One step on one line\<close>

lemma resolved_append:
  "resolved_quantity (s\<lparr>st_Resolutions := rs @ qs\<rparr>) lid
     = resolved_quantity (s\<lparr>st_Resolutions := rs\<rparr>) lid + sum_list (map rs_Quantity (filter (\<lambda>r. rs_LineID r = lid) qs))"
  by (simp add: resolved_quantity_def)

lemma line_ok_append:
  "(\<And>tid wh dir ty. msum ms tid (ln_ID l) wh dir ty = 0) \<Longrightarrow> line_ok (xs @ ms) r t st l = line_ok xs r t st l"
  by (simp add: line_ok_def Let_def)

lemma key_ok_mono:
  assumes "key_ok st rids l m" "ln_TransferID l' = ln_TransferID l" "ln_ID l' = ln_ID l" "ln_Received l \<le> ln_Received l'" "rids \<subseteq> rids'"
    "st (ln_ID l) \<notin> unshipped \<Longrightarrow> st' (ln_ID l) \<notin> unshipped"
    "st (ln_ID l) = CANCELLED \<Longrightarrow> st' (ln_ID l) = CANCELLED" "st (ln_ID l) = RECEIVED \<Longrightarrow> st' (ln_ID l) = RECEIVED"
  shows "key_ok st' rids' l' m"
proof -
  have n: "\<exists>n < ln_Received l'. b = qtext n" if ex: "\<exists>n < ln_Received l. b = qtext n" for b proof -
    obtain n where "n < ln_Received l" "b = qtext n" using ex by blast
    then show ?thesis using assms(4) by (intro exI [of _ n]) simp
  qed
  show ?thesis using assms n by (cases "mi_IdempotencyKey m") (auto simp: key_ok_def)
qed

lemma line_step:
  assumes inv: "inv_at st s" and l: "l \<in> set (st_Lines s)" and t: "st_Transfers s (ln_TransferID l) = Some t"
    and tr: "st_Transfers s' = st_Transfers s" and sy: "st_SystemTransit s' = st_SystemTransit s"
    and mv: "st_Movements s' = st_Movements s @ ms"
    and li: "st_Lines s' = map (\<lambda>x. if ln_ID x = ln_ID l then f x else x) (st_Lines s)"
    and re: "st_Resolutions s' = st_Resolutions s @ rs"
    and f: "ln_ID (f l) = ln_ID l" "ln_TransferID (f l) = ln_TransferID l" "ln_Received l \<le> ln_Received (f l)"
    and ms: "\<forall>m \<in> set ms. of_line m (ln_ID l)" and rs: "\<forall>r \<in> set rs. rs_LineID r = ln_ID l"
    and st: "st (ln_ID l) \<notin> unshipped \<Longrightarrow> x \<notin> unshipped" "st (ln_ID l) = CANCELLED \<Longrightarrow> x = CANCELLED"
      "st (ln_ID l) = RECEIVED \<Longrightarrow> x = RECEIVED"
    and ok: "line_ok (st_Movements s @ ms) (resolved_quantity s (ln_ID l) + sum_list (map rs_Quantity rs)) t x (f l)"
    and key: "\<forall>m \<in> set ms. key_ok (st(ln_ID l := x)) (set (map rs_ID (st_Resolutions s @ rs))) (f l) m"
  shows "inv_at (st(ln_ID l := x)) s'"
proof -
  let ?st = "st(ln_ID l := x)" and ?g = "\<lambda>y. if ln_ID y = ln_ID l then f y else y"
  have only: "y = l" if "y \<in> set (st_Lines s)" "ln_ID y = ln_ID l" for y using inv_line_unique [OF inv l that] .
  have gid: "ln_ID (?g y) = ln_ID y" "ln_TransferID (?g y) = ln_TransferID y" if "y \<in> set (st_Lines s)" for y
    using only [OF that] f by auto
  have ids: "map ln_ID (st_Lines s') = map ln_ID (st_Lines s)" using gid by (simp add: li)
  have rsl: "filter (\<lambda>r. rs_LineID r = ln_ID l) rs = rs" using rs by (simp add: filter_id_conv)
  have rsq: "resolved_quantity s' lid = resolved_quantity s lid + (if lid = ln_ID l then sum_list (map rs_Quantity rs) else 0)" for lid
    using rs rsl by (auto simp: resolved_quantity_def re filter_empty_conv)
  have lines: "\<exists>t. st_Transfers s' (ln_TransferID y') = Some t \<and> line_ok (st_Movements s') (resolved_quantity s' (ln_ID y')) t (?st (ln_ID y')) y'"
    if y': "y' \<in> set (st_Lines s')" for y'
  proof -
    obtain y where y: "y \<in> set (st_Lines s)" "y' = ?g y" using y' unfolding li set_map by blast
    show ?thesis
    proof (cases "ln_ID y = ln_ID l")
      case True
      then show ?thesis using only [OF y(1) True] y(2) ok t f by (simp add: tr mv rsq)
    next
      case False
      then have zero: "msum ms tid (ln_ID y) wh dir ty = 0" for tid wh dir ty
        using ms by (intro msum_other) (auto simp: of_line_def)
      obtain u where "st_Transfers s (ln_TransferID y) = Some u" "line_ok (st_Movements s) (resolved_quantity s (ln_ID y)) u (st (ln_ID y)) y"
        using inv y(1) by (auto simp: inv_at_def)
      then show ?thesis using False y(2) line_ok_append [OF zero] by (auto simp: tr mv rsq)
    qed
  qed
  have movs: "\<exists>y' \<in> set (st_Lines s'). ln_ID y' = mi_SourceLineID m \<and> key_ok ?st (set (map rs_ID (st_Resolutions s'))) y' m"
    if m: "m \<in> set (st_Movements s')" "mi_SourceType m = ''WAREHOUSE_TRANSFER''" for m
  proof (cases "m \<in> set ms")
    case True
    have "f l \<in> set (st_Lines s')" using l by (force simp: li)
    then show ?thesis using True ms key f by (auto simp: of_line_def re)
  next
    case False
    then obtain y where y: "y \<in> set (st_Lines s)" "ln_ID y = mi_SourceLineID m" "key_ok st (set (map rs_ID (st_Resolutions s))) y m"
      using m inv by (auto simp: mv inv_at_def)
    have "key_ok ?st (set (map rs_ID (st_Resolutions s'))) (?g y) m"
      using y(1,3) only [OF y(1)] gid [OF y(1)] f st by (intro key_ok_mono [OF y(3)]) (auto simp: re)
    moreover have "?g y \<in> set (st_Lines s')" using y(1) by (force simp: li)
    ultimately show ?thesis using y(2) gid [OF y(1)] by metis
  qed
  have "distinct (map ln_ID (st_Lines s'))" "\<forall>r \<in> set (st_Resolutions s'). rs_LineID r \<in> set (map ln_ID (st_Lines s'))"
    using inv rs l unfolding ids by (auto simp: inv_at_def re)
  moreover have "\<forall>tid t. st_Transfers s' tid = Some t \<longrightarrow> route_ok s' t" using inv by (auto simp: inv_at_def tr sy route_ok_def)
  ultimately show ?thesis using lines movs unfolding inv_at_def by simp
qed

section \<open>Posting\<close>

text \<open>What a successful posting does to the tables the invariant reads.\<close>

definition posted :: "stock \<Rightarrow> stock \<Rightarrow> MovementInput list \<Rightarrow> bool" where
  "posted s s' ms = (st_Transfers s' = st_Transfers s \<and> st_Lines s' = st_Lines s \<and> st_Resolutions s' = st_Resolutions s
     \<and> st_SystemTransit s' = st_SystemTransit s \<and> st_Movements s' = st_Movements s @ ms)"

lemma posted_refl [simp]: "posted s s []" by (simp add: posted_def)

lemma posted_trans: "posted s s1 ms \<Longrightarrow> posted s1 s2 ns \<Longrightarrow> posted s s2 (ms @ ns)" by (simp add: posted_def)

lemma post_fresh:
  assumes "postMovementTx admits s m = Inr s'" "m \<notin> set (st_Movements s)"
  shows "posted s s' [m]"
proof -
  have "find (\<lambda>e. mi_IdempotencyKey e = mi_IdempotencyKey m) (st_Movements s) = None"
    using assms by (auto simp: postMovementTx_def find_Some_iff split: option.splits if_splits)
  then show ?thesis
    using assms(1) by (auto simp: postMovementTx_def project_def set_position_def posted_def Let_def split: option.splits if_splits prod.splits)
qed

lemma post_pair:
  assumes "bindE (postMovementTx admits s a) (\<lambda>s. postMovementTx admits s b) = Inr s'"
    "a \<notin> set (st_Movements s)" "b \<notin> set (st_Movements s)" "a \<noteq> b"
  shows "posted s s' [a, b]"
proof -
  obtain s1 where s1: "postMovementTx admits s a = Inr s1" "postMovementTx admits s1 b = Inr s'" using assms(1) by (auto simp: bindE_Inr_iff)
  have p: "posted s s1 [a]" by (rule post_fresh [OF s1(1) assms(2)])
  then have "b \<notin> set (st_Movements s1)" using assms(3,4) by (simp add: posted_def)
  then show ?thesis using posted_trans [OF p post_fresh [OF s1(2)]] by simp
qed

lemma settle_loop_core: "settle_loop final s rs = Inr s' \<Longrightarrow> posted s s' []"
proof (induction rs arbitrary: s)
  case (Cons r rs)
  then show ?case
    by (auto simp: Let_def set_position_def posted_def split: option.splits if_splits)
qed simp

lemma reserve_loop_core: "reserve_loop t s ls = Inr s' \<Longrightarrow> posted s s' []"
proof (induction ls arbitrary: s)
  case (Cons l ls)
  then show ?case
    by (auto simp: Let_def set_position_def posted_def split: option.splits if_splits)
qed simp

lemma reserve_core: "reserveTransferLinesTx variant_ok s tid = Inr s' \<Longrightarrow> posted s s' []"
  by (auto simp: reserveTransferLinesTx_def split: if_splits option.splits intro: reserve_loop_core)

lemma inv_posted: "posted s s' [] \<Longrightarrow> inv_at st s' = inv_at st s"
  by (simp add: posted_def inv_at_def route_ok_def resolved_quantity_def)

lemma lines_of_posted: "posted s s' ms \<Longrightarrow> lines_of s' tid = lines_of s tid"
  by (simp add: posted_def lines_of_def)

lemma update_line_eq:
  "update_line lid f s = Inr s' \<Longrightarrow> s' = s\<lparr>st_Lines := map (\<lambda>l. if ln_ID l = lid then f l else l) (st_Lines s)\<rparr>
     \<and> (\<forall>l \<in> set (st_Lines s). ln_ID l = lid \<longrightarrow> line_check (f l))"
  by (auto simp: update_line_def list_all_iff split: if_splits)

section \<open>Legs of a shipment\<close>

lemma units_qtext [simp]: "units (qtext n) = n" by (rule units_denotes) simp

text \<open>
  A leg over the lines \<open>ls\<close>: if moving one line takes the invariant from effective state \<open>a\<close> to \<open>b\<close>, the loop does it for all of them.
\<close>

lemma leg_loop_inv:
  assumes "leg_loop admits out into f s ls = Inr s'" "inv_at st s" "distinct (map ln_ID ls)"
    "\<forall>l \<in> set ls. l \<in> set (st_Lines s) \<and> ln_TransferID l = tid \<and> st (ln_ID l) = a \<and> Q l" "st_Transfers s tid = Some t" "st_Resolutions s = R"
    and step: "\<And>st s l s1 s2. inv_at st s \<Longrightarrow> l \<in> set (st_Lines s) \<Longrightarrow> ln_TransferID l = tid \<Longrightarrow> st (ln_ID l) = a \<Longrightarrow> Q l \<Longrightarrow>
      st_Transfers s tid = Some t \<Longrightarrow> st_Resolutions s = R \<Longrightarrow>
      bindE (postMovementTx admits s (out l)) (\<lambda>s. postMovementTx admits s (into l)) = Inr s1 \<Longrightarrow> update_line (ln_ID l) f s1 = Inr s2 \<Longrightarrow>
      inv_at (st(ln_ID l := b)) s2 \<and> st_Transfers s2 = st_Transfers s \<and> st_Resolutions s2 = st_Resolutions s
        \<and> st_Lines s2 = map (\<lambda>x. if ln_ID x = ln_ID l then f x else x) (st_Lines s)"
    and keep: "\<And>l. ln_ID (f l) = ln_ID l"
  shows "inv_at (\<lambda>i. if i \<in> set (map ln_ID ls) then b else st i) s' \<and> st_Transfers s' = st_Transfers s \<and> st_Resolutions s' = R
    \<and> st_Lines s' = map (\<lambda>x. if ln_ID x \<in> set (map ln_ID ls) then f x else x) (st_Lines s)"
  using assms(1-6)
proof (induction ls arbitrary: s st)
  case Nil
  then show ?case by simp
next
  case (Cons l ls)
  obtain s1 s2 where s1: "bindE (postMovementTx admits s (out l)) (\<lambda>s. postMovementTx admits s (into l)) = Inr s1"
    and s2: "update_line (ln_ID l) f s1 = Inr s2" and rest: "leg_loop admits out into f s2 ls = Inr s'"
    using Cons.prems(1) by (auto simp: bindE_Inr_iff)
  have l: "l \<in> set (st_Lines s)" "ln_TransferID l = tid" "st (ln_ID l) = a" "Q l" using Cons.prems(4) by auto
  note S = step [OF Cons.prems(2) l Cons.prems(5,6) s1 s2]
  have others: "\<forall>x \<in> set ls. x \<in> set (st_Lines s2) \<and> ln_TransferID x = tid \<and> (st(ln_ID l := b)) (ln_ID x) = a \<and> Q x"
  proof
    fix x assume x: "x \<in> set ls"
    then have "ln_ID x \<noteq> ln_ID l" using Cons.prems(3) by (metis distinct.simps(2) image_eqI image_set list.simps(9))
    moreover have "x \<in> set (st_Lines s)" "ln_TransferID x = tid" "st (ln_ID x) = a" "Q x" using Cons.prems(4) x by auto
    ultimately show "x \<in> set (st_Lines s2) \<and> ln_TransferID x = tid \<and> (st(ln_ID l := b)) (ln_ID x) = a \<and> Q x" using S by force
  qed
  have IH: "inv_at (\<lambda>i. if i \<in> set (map ln_ID ls) then b else (st(ln_ID l := b)) i) s' \<and> st_Transfers s' = st_Transfers s2 \<and> st_Resolutions s' = R
    \<and> st_Lines s' = map (\<lambda>x. if ln_ID x \<in> set (map ln_ID ls) then f x else x) (st_Lines s2)"
    using Cons.prems(3,5,6) S by (intro Cons.IH [OF rest conjunct1 [OF S] _ others]) simp_all
  have "(\<lambda>i. if i \<in> set (map ln_ID ls) then b else (st(ln_ID l := b)) i) = (\<lambda>i. if i \<in> set (map ln_ID (l # ls)) then b else st i)" by auto
  moreover have "map (\<lambda>x. if ln_ID x \<in> set (map ln_ID ls) then f x else x) (st_Lines s2)
    = map (\<lambda>x. if ln_ID x \<in> set (map ln_ID (l # ls)) then f x else x) (st_Lines s)"
    using S Cons.prems(3) keep by auto
  ultimately show ?case using IH S by simp
qed

lemma inv_lineD:
  assumes "inv_at st s" "l \<in> set (st_Lines s)" "st_Transfers s (ln_TransferID l) = Some t"
  shows "line_ok (st_Movements s) (resolved_quantity s (ln_ID l)) t (st (ln_ID l)) l" "route_ok s t"
  using assms by (force simp: inv_at_def)+

lemma ship_step:
  assumes inv: "inv_at st s" and l: "l \<in> set (st_Lines s)" "ln_TransferID l = tid" "st (ln_ID l) = APPROVED" and t: "st_Transfers s tid = Some t"
    and post: "bindE (postMovementTx admits s (transfer_out actor (tf_SourceWarehouseID t) kout loc l))
      (\<lambda>s. postMovementTx admits s (transfer_in actor (tf_TransitWarehouseID t) kin loc' l)) = Inr s1"
    and upd: "update_line (ln_ID l) (\<lambda>l. l\<lparr>ln_Shipped := ln_Quantity l\<rparr>) s1 = Inr s2"
    and keys: "(kout, kin) \<in> {(ShipOut, TransitIn), (QuickOut, QuickTransitIn)}"
  shows "inv_at (st(ln_ID l := IN_TRANSIT)) s2 \<and> st_Transfers s2 = st_Transfers s \<and> st_Resolutions s2 = st_Resolutions s
    \<and> st_Lines s2 = map (\<lambda>x. if ln_ID x = ln_ID l then x\<lparr>ln_Shipped := ln_Quantity x\<rparr> else x) (st_Lines s)"
proof -
  let ?out = "transfer_out actor (tf_SourceWarehouseID t) kout loc l" and ?in = "transfer_in actor (tf_TransitWarehouseID t) kin loc' l"
  have t': "st_Transfers s (ln_TransferID l) = Some t" using t l(2) by simp
  note L = inv_lineD [OF inv l(1) t'] and D = route_distinct [OF inv_lineD(2) [OF inv l(1) t']]
  have "?out \<notin> set (st_Movements s)" "?in \<notin> set (st_Movements s)"
    using l(3) by (intro fresh_movement [OF inv l(1)]; simp add: transfer_out_def transfer_in_def key_ok_def)+
  moreover have "?out \<noteq> ?in" by (simp add: transfer_out_def transfer_in_def movementForTransfer_def)
  ultimately have p: "posted s s1 [?out, ?in]" using post by (intro post_pair)
  note u = update_line_eq [OF upd]
  have "inv_at (st(ln_ID l := IN_TRANSIT)) s2"
  proof (rule line_step [OF inv l(1) t', where ms = "[?out, ?in]" and rs = "[]" and f = "\<lambda>l. l\<lparr>ln_Shipped := ln_Quantity l\<rparr>"])
    show "line_ok (st_Movements s @ [?out, ?in]) (resolved_quantity s (ln_ID l) + sum_list (map rs_Quantity [])) t IN_TRANSIT (l\<lparr>ln_Shipped := ln_Quantity l\<rparr>)"
      using L(1) D l(3) by (simp add: line_ok_def Let_def transfer_out_def transfer_in_def)
    show "\<forall>m \<in> set [?out, ?in]. key_ok (st(ln_ID l := IN_TRANSIT)) (set (map rs_ID (st_Resolutions s @ []))) (l\<lparr>ln_Shipped := ln_Quantity l\<rparr>) m"
      using keys by (auto simp: key_ok_def transfer_out_def transfer_in_def)
  qed (use p u l(3) in \<open>simp_all add: posted_def transfer_out_def transfer_in_def\<close>)
  then show ?thesis using p u by (simp add: posted_def)
qed

lemma deliver_step:
  assumes inv: "inv_at st s" and l: "l \<in> set (st_Lines s)" "ln_TransferID l = tid" "st (ln_ID l) = IN_TRANSIT" and t: "st_Transfers s tid = Some t"
    and clean: "ln_Received l = 0 \<and> resolved_quantity s (ln_ID l) = 0"
    and post: "bindE (postMovementTx admits s (transfer_out actor (tf_TransitWarehouseID t) QuickDestinationOut loc l))
      (\<lambda>s. postMovementTx admits s (transfer_in actor (tf_DestinationWarehouseID t) QuickDestinationIn loc' l)) = Inr s1"
    and upd: "update_line (ln_ID l) (\<lambda>l. l\<lparr>ln_Received := ln_Quantity l\<rparr>) s1 = Inr s2"
  shows "inv_at (st(ln_ID l := RECEIVED)) s2 \<and> st_Transfers s2 = st_Transfers s \<and> st_Resolutions s2 = st_Resolutions s
    \<and> st_Lines s2 = map (\<lambda>x. if ln_ID x = ln_ID l then x\<lparr>ln_Received := ln_Quantity x\<rparr> else x) (st_Lines s)"
proof -
  let ?out = "transfer_out actor (tf_TransitWarehouseID t) QuickDestinationOut loc l"
    and ?in = "transfer_in actor (tf_DestinationWarehouseID t) QuickDestinationIn loc' l"
  have t': "st_Transfers s (ln_TransferID l) = Some t" using t l(2) by simp
  note L = inv_lineD [OF inv l(1) t'] and D = route_distinct [OF inv_lineD(2) [OF inv l(1) t']]
  have "?out \<notin> set (st_Movements s)" "?in \<notin> set (st_Movements s)"
    using l(3) by (intro fresh_movement [OF inv l(1)]; simp add: transfer_out_def transfer_in_def key_ok_def)+
  moreover have "?out \<noteq> ?in" by (simp add: transfer_out_def transfer_in_def movementForTransfer_def)
  ultimately have p: "posted s s1 [?out, ?in]" using post by (intro post_pair)
  note u = update_line_eq [OF upd]
  have q: "0 < ln_Quantity l" using L(1) by (simp add: line_ok_def Let_def)
  have "inv_at (st(ln_ID l := RECEIVED)) s2"
  proof (rule line_step [OF inv l(1) t', where ms = "[?out, ?in]" and rs = "[]" and f = "\<lambda>l. l\<lparr>ln_Received := ln_Quantity l\<rparr>"])
    show "line_ok (st_Movements s @ [?out, ?in]) (resolved_quantity s (ln_ID l) + sum_list (map rs_Quantity [])) t RECEIVED (l\<lparr>ln_Received := ln_Quantity l\<rparr>)"
      using L(1) D l(3) clean by (simp add: line_ok_def Let_def transfer_out_def transfer_in_def)
    show "\<forall>m \<in> set [?out, ?in]. key_ok (st(ln_ID l := RECEIVED)) (set (map rs_ID (st_Resolutions s @ []))) (l\<lparr>ln_Received := ln_Quantity l\<rparr>) m"
      by (auto simp: key_ok_def transfer_out_def transfer_in_def)
  qed (use p u l(3) clean q in \<open>simp_all add: posted_def transfer_out_def transfer_in_def\<close>)
  then show ?thesis using p u by (simp add: posted_def)
qed

section \<open>Effective states and transfer states\<close>

text \<open>Only the effective states of existing lines matter, and of two states that ask the same of a line either will do.\<close>

definition same_demand :: "TransferState \<Rightarrow> TransferState \<Rightarrow> bool" where
  "same_demand a b = (a = b \<or> (a \<in> unshipped \<and> b \<in> unshipped) \<or> (a \<in> {IN_TRANSIT, PARTIALLY_RECEIVED} \<and> b \<in> {IN_TRANSIT, PARTIALLY_RECEIVED}))"

lemma line_ok_demand: "same_demand a b \<Longrightarrow> line_ok ms r t a l = line_ok ms r t b l"
  by (cases a; cases b) (simp_all add: same_demand_def line_ok_def)

lemma inv_at_cong:
  assumes "inv_at st s" "\<And>l. l \<in> set (st_Lines s) \<Longrightarrow> same_demand (st (ln_ID l)) (st' (ln_ID l))"
  shows "inv_at st' s"
proof -
  have line: "line_ok ms r t (st' (ln_ID l)) l" if "l \<in> set (st_Lines s)" "line_ok ms r t (st (ln_ID l)) l" for l ms r t
    using line_ok_demand [OF assms(2) [OF that(1)]] that(2) by simp
  have key: "key_ok st' rids l m" if "l \<in> set (st_Lines s)" "key_ok st rids l m" for l m rids
    using that(2) assms(2) [OF that(1)] by (intro key_ok_mono [OF that(2)]) (auto simp: same_demand_def)
  show ?thesis using assms(1) line key unfolding inv_at_def by meson
qed

lemma set_state_simps [simp]:
  "st_Lines (set_state tid x s) = st_Lines s" "st_Movements (set_state tid x s) = st_Movements s"
  "st_Resolutions (set_state tid x s) = st_Resolutions s" "st_SystemTransit (set_state tid x s) = st_SystemTransit s"
  "st_Transfers (set_state tid x s) i = (if i = tid then map_option (\<lambda>t. t\<lparr>tf_State := x, tf_Version := tf_Version t + 1\<rparr>) (st_Transfers s tid) else st_Transfers s i)"
  by (simp_all add: set_state_def)

lemma inv_set_state [simp]: "inv_at st (set_state tid x s) = inv_at st s"
proof -
  have t: "line_ok ms r (t\<lparr>tf_State := x, tf_Version := v\<rparr>) y l = line_ok ms r t y l" for ms r t v y l
    by (simp add: line_ok_def)
  have ex: "(\<exists>t. st_Transfers (set_state tid x s) (ln_TransferID l) = Some t \<and> line_ok ms r t y l)
    \<longleftrightarrow> (\<exists>t. st_Transfers s (ln_TransferID l) = Some t \<and> line_ok ms r t y l)" for l ms r y
    using t by (auto simp: map_option_case split: option.splits)
  have ro: "route_ok s (t\<lparr>tf_State := x, tf_Version := v\<rparr>) = route_ok s t" for t v by (simp add: route_ok_def)
  have route: "(\<forall>i t. st_Transfers (set_state tid x s) i = Some t \<longrightarrow> route_ok s t) \<longleftrightarrow> (\<forall>i t. st_Transfers s i = Some t \<longrightarrow> route_ok s t)"
    using ro by (auto simp: map_option_case split: option.splits if_splits) (metis option.distinct(1))
  have r: "route_ok (set_state tid x s) = route_ok s" by (intro ext) (simp add: route_ok_def)
  have q: "resolved_quantity (set_state tid x s) = resolved_quantity s" by (intro ext) (simp add: resolved_quantity_def)
  show ?thesis unfolding inv_at_def r q route ex set_state_simps(1-3) ..
qed

lemma state_of_line:
  assumes "distinct (map ln_ID (st_Lines s))" "l \<in> set (st_Lines s)" "st_Transfers s (ln_TransferID l) = Some t"
  shows "state_of s (ln_ID l) = tf_State t"
  using line_of_mem [OF assms(1,2)] assms(3) by (simp add: state_of_def)

text \<open>From effective states that agree with the transfers' to the invariant between commands.\<close>

lemma transfer_invI:
  assumes "inv_at st s" "\<And>l t. l \<in> set (st_Lines s) \<Longrightarrow> st_Transfers s (ln_TransferID l) = Some t \<Longrightarrow> same_demand (st (ln_ID l)) (tf_State t)"
  shows "transfer_inv s"
  unfolding transfer_inv_def
proof (rule inv_at_cong [OF assms(1)])
  fix l assume l: "l \<in> set (st_Lines s)"
  then obtain t where t: "st_Transfers s (ln_TransferID l) = Some t" using assms(1) by (auto simp: inv_at_def)
  have "distinct (map ln_ID (st_Lines s))" using assms(1) by (simp add: inv_at_def)
  then show "same_demand (st (ln_ID l)) (state_of s (ln_ID l))" using assms(2) [OF l t] state_of_line l t by simp
qed

lemma transfer_invD:
  assumes "transfer_inv s"
  shows "inv_at (state_of s) s" "distinct (map ln_ID (st_Lines s))"
    "\<And>l t. l \<in> set (st_Lines s) \<Longrightarrow> st_Transfers s (ln_TransferID l) = Some t \<Longrightarrow> state_of s (ln_ID l) = tf_State t"
  using assms state_of_line by (auto simp: transfer_inv_def inv_at_def)

lemma lines_of_set: "set (lines_of s tid) = {l \<in> set (st_Lines s). ln_TransferID l = tid}"
  by (auto simp: lines_of_def)

lemma distinct_lines_of: "distinct (map ln_ID (st_Lines s)) \<Longrightarrow> distinct (map ln_ID (lines_of s tid))"
  by (simp add: lines_of_def distinct_map_filter)

text \<open>A conserved transfer passes the deferred check of the database.\<close>

lemma inv_conserved: "transfer_inv s \<Longrightarrow> conserved s tid"
proof (cases "st_Transfers s tid")
  case (Some t)
  assume inv: "transfer_inv s"
  have "conserved_line s t l" if "l \<in> set (st_Lines s)" "ln_TransferID l = tid" for l
  proof -
    have t: "st_Transfers s (ln_TransferID l) = Some t" using Some that(2) by simp
    have ok: "line_ok (st_Movements s) (resolved_quantity s (ln_ID l)) t (tf_State t) l"
      using inv_lineD(1) [OF transfer_invD(1) [OF inv] that(1) t] transfer_invD(3) [OF inv that(1) t] by simp
    then show ?thesis by (cases "tf_State t") (auto simp: conserved_line_def line_ok_def Let_def moved_msum)
  qed
  then show ?thesis by (auto simp: conserved_def Some list_all_iff lines_of_set)
qed (simp add: conserved_def)

section \<open>Shipments keep the balance\<close>

definition line_ids :: "stock \<Rightarrow> (string \<times> string) list" where
  "line_ids s = map (\<lambda>l. (ln_ID l, ln_TransferID l)) (st_Lines s)"

lemma line_ids_map: "(\<And>x. ln_ID (f x) = ln_ID x \<and> ln_TransferID (f x) = ln_TransferID x) \<Longrightarrow>
    st_Lines s' = map (\<lambda>x. if ln_ID x \<in> ids then f x else x) (st_Lines s) \<Longrightarrow> line_ids s' = line_ids s"
  by (auto simp: line_ids_def)

lemma line_ids_mem: "line_ids s' = line_ids s \<Longrightarrow> l \<in> set (st_Lines s') \<Longrightarrow> \<exists>x \<in> set (st_Lines s). ln_ID x = ln_ID l \<and> ln_TransferID x = ln_TransferID l"
proof -
  assume eq: "line_ids s' = line_ids s" and l: "l \<in> set (st_Lines s')"
  have "(ln_ID l, ln_TransferID l) \<in> set (line_ids s')" using l by (auto simp: line_ids_def)
  then show ?thesis unfolding eq by (auto simp: line_ids_def)
qed

text \<open>When a command has moved every line of its transfer to \<open>b\<close>, it may set the transfer's state.\<close>

lemma finish_transfer:
  assumes inv: "inv_at (\<lambda>i. if i \<in> set (map ln_ID (lines_of s0 tid)) then b else state_of s0 i) s" and inv0: "transfer_inv s0"
    and tr: "st_Transfers s = st_Transfers s0" and ids: "line_ids s = line_ids s0" and b: "same_demand b x"
  shows "transfer_inv (set_state tid x s)"
proof (rule transfer_invI)
  show "inv_at (\<lambda>i. if i \<in> set (map ln_ID (lines_of s0 tid)) then b else state_of s0 i) (set_state tid x s)" using inv by simp
  fix l t assume l: "l \<in> set (st_Lines (set_state tid x s))" and t: "st_Transfers (set_state tid x s) (ln_TransferID l) = Some t"
  obtain y where y: "y \<in> set (st_Lines s0)" "ln_ID y = ln_ID l" "ln_TransferID y = ln_TransferID l"
    using line_ids_mem [OF ids] l by auto
  show "same_demand (if ln_ID l \<in> set (map ln_ID (lines_of s0 tid)) then b else state_of s0 (ln_ID l)) (tf_State t)"
  proof (cases "ln_TransferID l = tid")
    case True
    then have "y \<in> set (lines_of s0 tid)" using y by (simp add: lines_of_set)
    then have "ln_ID l \<in> set (map ln_ID (lines_of s0 tid))" using y(2) by (metis image_eqI list.set_map)
    moreover have "tf_State t = x" using t True by auto
    ultimately show ?thesis using b by simp
  next
    case False
    have "ln_ID l \<notin> set (map ln_ID (lines_of s0 tid))"
    proof
      assume "ln_ID l \<in> set (map ln_ID (lines_of s0 tid))"
      then obtain z where "z \<in> set (st_Lines s0)" "ln_TransferID z = tid" "ln_ID z = ln_ID l" by (auto simp: lines_of_set)
      then show False using inv_line_unique [OF transfer_invD(1) [OF inv0] y(1)] y False by auto
    qed
    moreover have "state_of s0 (ln_ID l) = tf_State t" using transfer_invD(3) [OF inv0 y(1)] y t tr False by simp
    ultimately show ?thesis by (simp add: same_demand_def)
  qed
qed

lemma inv_lines:
  assumes "transfer_inv s" "st_Transfers s tid = Some t" "l \<in> set (lines_of s tid)"
  shows "l \<in> set (st_Lines s)" "ln_TransferID l = tid" "state_of s (ln_ID l) = tf_State t"
    "line_ok (st_Movements s) (resolved_quantity s (ln_ID l)) t (tf_State t) l"
proof -
  show l: "l \<in> set (st_Lines s)" "ln_TransferID l = tid" using assms(3) by (auto simp: lines_of_set)
  show st: "state_of s (ln_ID l) = tf_State t" using transfer_invD(3) [OF assms(1) l(1)] l(2) assms(2) by simp
  show "line_ok (st_Movements s) (resolved_quantity s (ln_ID l)) t (tf_State t) l"
    using inv_lineD(1) [OF transfer_invD(1) [OF assms(1)] l(1)] l(2) assms(2) st by simp
qed

lemma ship_leg_inv:
  assumes "ship_leg admits actor t kout kin s (lines_of s tid) = Inr s'" "transfer_inv s0" "inv_at (state_of s0) s"
    "st_Transfers s = st_Transfers s0" "st_Lines s = st_Lines s0" "st_Transfers s0 tid = Some t0" "tf_State t0 = APPROVED"
    "tf_SourceWarehouseID t = tf_SourceWarehouseID t0" "tf_TransitWarehouseID t = tf_TransitWarehouseID t0"
    "(kout, kin) \<in> {(ShipOut, TransitIn), (QuickOut, QuickTransitIn)}"
  shows "inv_at (\<lambda>i. if i \<in> set (map ln_ID (lines_of s0 tid)) then IN_TRANSIT else state_of s0 i) s'" "st_Transfers s' = st_Transfers s0"
    "st_Lines s' = map (\<lambda>x. if ln_ID x \<in> set (map ln_ID (lines_of s0 tid)) then x\<lparr>ln_Shipped := ln_Quantity x\<rparr> else x) (st_Lines s0)"
    "st_Resolutions s' = st_Resolutions s"
proof -
  have ls: "lines_of s tid = lines_of s0 tid" using assms(5) by (simp add: lines_of_def)
  have d: "distinct (map ln_ID (lines_of s tid))" unfolding ls using transfer_invD(2) [OF assms(2)] by (rule distinct_lines_of)
  have a: "\<forall>l \<in> set (lines_of s tid). l \<in> set (st_Lines s) \<and> ln_TransferID l = tid \<and> state_of s0 (ln_ID l) = APPROVED \<and> True"
    using inv_lines [OF assms(2,6)] assms(5,7) unfolding ls by auto
  have "inv_at (\<lambda>i. if i \<in> set (map ln_ID (lines_of s tid)) then IN_TRANSIT else state_of s0 i) s' \<and> st_Transfers s' = st_Transfers s
    \<and> st_Resolutions s' = st_Resolutions s
    \<and> st_Lines s' = map (\<lambda>x. if ln_ID x \<in> set (map ln_ID (lines_of s tid)) then x\<lparr>ln_Shipped := ln_Quantity x\<rparr> else x) (st_Lines s)"
  proof (rule leg_loop_inv [OF assms(1) [unfolded ship_leg_def] assms(3) d a])
    show "st_Transfers s tid = Some t0" using assms(4,6) by simp
    fix st s l s1 s2
    assume "inv_at st s" "l \<in> set (st_Lines s)" "ln_TransferID l = tid" "st (ln_ID l) = APPROVED" "st_Transfers s tid = Some t0"
      "bindE (postMovementTx admits s (transfer_out actor (tf_SourceWarehouseID t) kout ln_SourceLocationID l))
        (\<lambda>s. postMovementTx admits s (transfer_in actor (tf_TransitWarehouseID t) kin (\<lambda>l. []) l)) = Inr s1"
      "update_line (ln_ID l) (\<lambda>l. l\<lparr>ln_Shipped := ln_Quantity l\<rparr>) s1 = Inr s2"
    then show "inv_at (st(ln_ID l := IN_TRANSIT)) s2 \<and> st_Transfers s2 = st_Transfers s \<and> st_Resolutions s2 = st_Resolutions s
      \<and> st_Lines s2 = map (\<lambda>x. if ln_ID x = ln_ID l then x\<lparr>ln_Shipped := ln_Quantity x\<rparr> else x) (st_Lines s)"
      using assms(8-10) by (intro ship_step [where t = t0]) simp_all
  qed simp_all
  then show "inv_at (\<lambda>i. if i \<in> set (map ln_ID (lines_of s0 tid)) then IN_TRANSIT else state_of s0 i) s'" "st_Transfers s' = st_Transfers s0"
    "st_Lines s' = map (\<lambda>x. if ln_ID x \<in> set (map ln_ID (lines_of s0 tid)) then x\<lparr>ln_Shipped := ln_Quantity x\<rparr> else x) (st_Lines s0)"
    "st_Resolutions s' = st_Resolutions s"
    using assms(4,5) unfolding ls by simp_all
qed

lemma workflow_shipment_inv:
  assumes "postWorkflowShipmentTx admits variant_ok actor s tid = Inr s'" "transfer_inv s"
  shows "transfer_inv s'"
proof -
  obtain t where t: "st_Transfers s tid = Some t" using assms(1) by (auto simp: postWorkflowShipmentTx_def split: option.splits)
  show ?thesis
  proof (cases "tf_State t = APPROVED")
    case False
    then show ?thesis using assms t by (auto simp: postWorkflowShipmentTx_def simp del: CanTransitionTransfer.simps split: if_splits)
  next
    case True
    obtain s1 s2 s3 where s1: "reserveTransferLinesTx variant_ok s tid = Inr s1" and s2: "consumeTransferReservationsTx s1 tid = Inr s2"
      and s3: "ship_leg admits actor t ShipOut TransitIn s2 (lines_of s2 tid) = Inr s3" and s': "s' = set_state tid IN_TRANSIT s3"
      using assms(1) t True by (auto simp: postWorkflowShipmentTx_def bindE_Inr_iff)
    have p: "posted s s2 []"
      using posted_trans [OF reserve_core [OF s1] settle_loop_core [OF s2 [unfolded consumeTransferReservationsTx_def]]] by simp
    have inv2: "inv_at (state_of s) s2" using transfer_invD(1) [OF assms(2)] inv_posted [OF p] by simp
    have same: "st_Transfers s2 = st_Transfers s" "st_Lines s2 = st_Lines s" using p by (simp_all add: posted_def)
    have keys: "(ShipOut, TransitIn) \<in> {(ShipOut, TransitIn), (QuickOut, QuickTransitIn)}" by simp
    note S = ship_leg_inv [OF s3 assms(2) inv2 same t True refl refl keys]
    show ?thesis
      unfolding s' by (rule finish_transfer [OF S(1) assms(2) S(2) line_ids_map [OF _ S(3)]]) (simp_all add: same_demand_def)
  qed
qed

lemma transition_state_inv:
  assumes "transfer_inv s" "st_Transfers s tid = Some t" "same_demand (tf_State t) x"
  shows "transfer_inv (set_state tid x s)"
proof (rule finish_transfer [where s0 = s])
  have st: "(\<lambda>i. if i \<in> set (map ln_ID (lines_of s tid)) then tf_State t else state_of s i) = state_of s"
    using inv_lines(3) [OF assms(1,2)] by (auto simp: fun_eq_iff)
  show "inv_at (\<lambda>i. if i \<in> set (map ln_ID (lines_of s tid)) then tf_State t else state_of s i) s"
    unfolding st by (rule transfer_invD(1) [OF assms(1)])
qed (use assms in simp_all)

lemma quick_transfer_inv:
  assumes "postQuickTransferTx admits actor s tid = Inr s'" "transfer_inv s" "st_Transfers s tid = Some t" "tf_State t \<in> unshipped"
  shows "transfer_inv s'"
proof -
  let ?a = "set_state tid APPROVED (set_state tid REQUESTED s)"
  obtain s1 s2 where s1: "ship_leg admits actor t QuickOut QuickTransitIn ?a (lines_of ?a tid) = Inr s1"
    and s2: "leg_loop admits (transfer_out actor (tf_TransitWarehouseID t) QuickDestinationOut (\<lambda>l. []))
      (transfer_in actor (tf_DestinationWarehouseID t) QuickDestinationIn ln_DestinationLocationID)
      (\<lambda>l. l\<lparr>ln_Received := ln_Quantity l\<rparr>) (set_state tid IN_TRANSIT s1) (lines_of s1 tid) = Inr s2"
    and s': "s' = set_state tid RECEIVED s2"
    using assms(1,3) by (auto simp: postQuickTransferTx_def Let_def bindE_Inr_iff)
  have r: "transfer_inv (set_state tid REQUESTED s)"
    using assms(4) by (intro transition_state_inv [OF assms(2,3)]) (simp add: same_demand_def)
  have a: "transfer_inv ?a" by (rule transition_state_inv [OF r]) (simp add: assms(3), simp add: same_demand_def)
  let ?t = "t\<lparr>tf_State := APPROVED, tf_Version := tf_Version t + 1 + 1\<rparr>"
  have ta: "st_Transfers ?a tid = Some ?t" by (simp add: assms(3))
  have keys: "(QuickOut, QuickTransitIn) \<in> {(ShipOut, TransitIn), (QuickOut, QuickTransitIn)}" by simp
  have leg1: "ship_leg admits actor t QuickOut QuickTransitIn ?a (lines_of ?a tid) = Inr s1 \<Longrightarrow> tf_State ?t = APPROVED"
    "tf_SourceWarehouseID t = tf_SourceWarehouseID ?t" "tf_TransitWarehouseID t = tf_TransitWarehouseID ?t" by simp_all
  note S = ship_leg_inv [OF s1 a transfer_invD(1) [OF a] refl refl ta leg1 keys, OF s1]
  let ?b = "set_state tid IN_TRANSIT s1"
  have b: "transfer_inv ?b"
    by (rule finish_transfer [OF S(1) a S(2) line_ids_map [OF _ S(3)]]) (simp_all add: same_demand_def)
  let ?u = "?t\<lparr>tf_State := IN_TRANSIT, tf_Version := tf_Version ?t + 1\<rparr>"
  have "st_Transfers s1 tid = Some ?t" using ta unfolding S(2) .
  then have tb: "st_Transfers ?b tid = Some ?u" by simp
  have lb: "lines_of s1 tid = lines_of ?b tid" by (simp add: lines_of_def)
  have clean: "ln_Received l = 0 \<and> resolved_quantity ?b (ln_ID l) = 0" if l: "l \<in> set (lines_of ?b tid)" for l
  proof -
    have "l \<in> set (st_Lines s1)" "ln_TransferID l = tid" using l by (simp_all add: lines_of_set)
    then obtain x where x: "x \<in> set (st_Lines ?a)" "ln_ID x = ln_ID l" "ln_TransferID x = tid" "ln_Received x = ln_Received l"
      unfolding S(3) by (auto split: if_splits)
    then have "x \<in> set (lines_of ?a tid)" by (simp add: lines_of_set)
    then have "line_ok (st_Movements ?a) (resolved_quantity ?a (ln_ID x)) ?t (tf_State ?t) x" by (rule inv_lines(4) [OF a ta])
    moreover have "resolved_quantity ?a (ln_ID x) = resolved_quantity ?b (ln_ID l)" using x(2) S(4) by (simp add: resolved_quantity_def)
    ultimately show ?thesis using x(4) by (simp add: line_ok_def Let_def)
  qed
  have "inv_at (\<lambda>i. if i \<in> set (map ln_ID (lines_of ?b tid)) then RECEIVED else state_of ?b i) s2 \<and> st_Transfers s2 = st_Transfers ?b
    \<and> st_Resolutions s2 = st_Resolutions ?b
    \<and> st_Lines s2 = map (\<lambda>x. if ln_ID x \<in> set (map ln_ID (lines_of ?b tid)) then x\<lparr>ln_Received := ln_Quantity x\<rparr> else x) (st_Lines ?b)"
  proof (rule leg_loop_inv [where tid = tid and t = ?u, OF s2 [unfolded lb] transfer_invD(1) [OF b] distinct_lines_of [OF transfer_invD(2) [OF b]]])
    show "\<forall>l \<in> set (lines_of ?b tid). l \<in> set (st_Lines ?b) \<and> ln_TransferID l = tid \<and> state_of ?b (ln_ID l) = IN_TRANSIT
        \<and> (ln_Received l = 0 \<and> resolved_quantity ?b (ln_ID l) = 0)"
      using inv_lines [OF b tb] clean by auto
    show "st_Transfers ?b tid = Some ?u" by (fact tb)
    fix st s l s1 s2
    assume "inv_at st s" "l \<in> set (st_Lines s)" "ln_TransferID l = tid" "st (ln_ID l) = IN_TRANSIT"
      "ln_Received l = 0 \<and> resolved_quantity ?b (ln_ID l) = 0" "st_Transfers s tid = Some ?u" "st_Resolutions s = st_Resolutions ?b"
      "bindE (postMovementTx admits s (transfer_out actor (tf_TransitWarehouseID t) QuickDestinationOut (\<lambda>l. []) l))
        (\<lambda>s. postMovementTx admits s (transfer_in actor (tf_DestinationWarehouseID t) QuickDestinationIn ln_DestinationLocationID l)) = Inr s1"
      "update_line (ln_ID l) (\<lambda>l. l\<lparr>ln_Received := ln_Quantity l\<rparr>) s1 = Inr s2"
    then show "inv_at (st(ln_ID l := RECEIVED)) s2 \<and> st_Transfers s2 = st_Transfers s \<and> st_Resolutions s2 = st_Resolutions s
      \<and> st_Lines s2 = map (\<lambda>x. if ln_ID x = ln_ID l then x\<lparr>ln_Received := ln_Quantity x\<rparr> else x) (st_Lines s)"
      by (intro deliver_step [where t = ?u]) (simp_all add: resolved_quantity_def)
  qed simp_all
  then have Q: "inv_at (\<lambda>i. if i \<in> set (map ln_ID (lines_of ?b tid)) then RECEIVED else state_of ?b i) s2" "st_Transfers s2 = st_Transfers ?b"
    "st_Lines s2 = map (\<lambda>x. if ln_ID x \<in> set (map ln_ID (lines_of ?b tid)) then x\<lparr>ln_Received := ln_Quantity x\<rparr> else x) (st_Lines ?b)" by blast+
  have "line_ids s2 = line_ids ?b" by (rule line_ids_map [OF _ Q(3)]) simp
  then show ?thesis unfolding s' by (intro finish_transfer [OF Q(1) b Q(2)]) (simp_all add: same_demand_def)
qed

end
