(* ===== verification/Transfer_Receipt.thy ===== *)
theory Transfer_Receipt
  imports Transfer_Safety
begin

text \<open>
  The second half of a transfer's life keeps the balance as well: receipts entry by entry, resolutions of a discrepancy and
  the return of a cancelled transfer.
\<close>

section \<open>Receipts and resolutions keep the balance\<close>

lemma qtext_inj: "qtext a = qtext b \<longleftrightarrow> a = b"
  using denotes_fun [of "qtext a" a b] by auto

definition moving :: "TransferState set" where "moving = {IN_TRANSIT, PARTIALLY_RECEIVED}"

lemma receive_step:
  assumes inv: "inv_at st s" and l: "l \<in> set (st_Lines s)" and t: "st_Transfers s (ln_TransferID l) = Some t" and mv: "st (ln_ID l) \<in> moving"
    and n: "denotes received n" "0 \<le> n" "denotes damaged d" "0 \<le> d" "n + ln_Received l + resolved_quantity s (ln_ID l) \<le> ln_Shipped l"
    and post: "(if decimalCompare received ''0'' > 0 then receive_moves admits actor t s l received damaged else Inr s) = Inr s1"
    and upd: "update_line (ln_ID l) (\<lambda>l. l\<lparr>ln_Received := ln_Received l + units received, ln_Damaged := ln_Damaged l + units damaged\<rparr>) s1 = Inr s2"
  shows "inv_at st s2 \<and> st_Transfers s2 = st_Transfers s \<and> st_Resolutions s2 = st_Resolutions s
    \<and> st_Lines s2 = map (\<lambda>x. if ln_ID x = ln_ID l then x\<lparr>ln_Received := ln_Received x + n, ln_Damaged := ln_Damaged x + d\<rparr> else x) (st_Lines s)"
proof -
  let ?out = "movementForTransfer (tf_TransitWarehouseID t) [] l TRANSFER_OUT OUT received actor
        (ReceiveOut (ln_TransferID l) (ln_ID l) (qtext (ln_Received l)) received damaged) transfer_text"
  let ?in = "movementForTransfer (tf_DestinationWarehouseID t) (ln_DestinationLocationID l) l TRANSFER_IN IN received actor
        (ReceiveIn (ln_TransferID l) (ln_ID l) (qtext (ln_Received l)) received damaged) transfer_text"
  let ?ms = "if 0 < n then [?out, ?in] else []"
  let ?f = "\<lambda>l. l\<lparr>ln_Received := ln_Received l + n, ln_Damaged := ln_Damaged l + d\<rparr>"
  note L = inv_lineD [OF inv l t] and D = route_distinct [OF inv_lineD(2) [OF inv l t]]
  have u: "units received = n" "units damaged = d" using n by simp_all
  have "?out \<notin> set (st_Movements s)" "?in \<notin> set (st_Movements s)"
    by (rule fresh_movement [OF inv l]; simp add: key_ok_def qtext_inj)+
  moreover have "?out \<noteq> ?in" by (simp add: movementForTransfer_def)
  moreover have "decimalCompare received ''0'' > 0 \<longleftrightarrow> 0 < n" by (rule decimalCompare_denotes(3) [OF n(1) denotes_zero])
  ultimately have p: "posted s s1 ?ms"
    using post by (auto simp: receive_moves_def Let_def split: if_splits intro: post_pair)
  note u' = update_line_eq [OF upd, unfolded u]
  have stl: "st(ln_ID l := st (ln_ID l)) = st" by simp
  have "inv_at (st(ln_ID l := st (ln_ID l))) s2"
  proof (rule line_step [OF inv l t, where ms = ?ms and rs = "[]" and f = ?f])
    show "line_ok (st_Movements s @ ?ms) (resolved_quantity s (ln_ID l) + sum_list (map rs_Quantity [])) t (st (ln_ID l)) (?f l)"
      using L(1) D mv n(2,4,5) u by (auto simp: line_ok_def Let_def moving_def)
    show "\<forall>m \<in> set ?ms. key_ok (st(ln_ID l := st (ln_ID l))) (set (map rs_ID (st_Resolutions s @ []))) (?f l) m"
      using mv by (auto simp: key_ok_def moving_def qtext_inj)
    show "\<forall>m \<in> set ?ms. of_line m (ln_ID l)" by auto
  qed (use p u' n(2) in \<open>simp_all add: posted_def\<close>)
  then show ?thesis using p u' unfolding stl by (simp add: posted_def)
qed

lemma resolved_text_denotes [simp]: "denotes (resolved_text s lid) (resolved_quantity s lid)"
  by (simp add: resolved_text_def resolved_quantity_def)

lemma remaining_denotes:
  "denotes res q \<Longrightarrow> denotes (remaining_text (l, res)) (ln_Shipped l - ln_Received l - max (ln_Damaged l) q)"
  by (simp add: remaining_text_def) (intro quantity; simp)

text \<open>The snapshot still shows the entry's line as it is.\<close>

definition current :: "stock \<Rightarrow> string \<Rightarrow> (TransferLine \<times> string) list \<Rightarrow> ReceiveLineInput \<Rightarrow> bool" where
  "current s tid snapshot r =
     (case find (\<lambda>lr. ln_ID (fst lr) = rc_LineID r) snapshot of
        None \<Rightarrow> True
      | Some (l, res) \<Rightarrow> l \<in> set (st_Lines s) \<and> ln_TransferID l = tid \<and> denotes res (resolved_quantity s (ln_ID l)))"

lemma find_Some_D: "find P xs = Some x \<Longrightarrow> P x"
  by (induction xs) (auto split: if_splits)

lemma receive_entry_inv:
  assumes entry: "receive_entry admits actor t snapshot s r = Inr s'" and inv: "inv_at st s" and t: "st_Transfers s tid = Some t"
    and cur: "current s tid snapshot r" and mv: "\<forall>l \<in> set (st_Lines s). ln_TransferID l = tid \<longrightarrow> st (ln_ID l) \<in> moving"
  shows "inv_at st s' \<and> st_Transfers s' = st_Transfers s \<and> st_Resolutions s' = st_Resolutions s \<and> line_ids s' = line_ids s
    \<and> (\<forall>x \<in> set (st_Lines s). ln_ID x \<noteq> rc_LineID r \<longrightarrow> x \<in> set (st_Lines s'))"
proof -
  obtain l res where f: "find (\<lambda>lr. ln_ID (fst lr) = rc_LineID r) snapshot = Some (l, res)"
    using entry by (auto simp: receive_entry_def split: option.splits)
  have id: "ln_ID l = rc_LineID r" using find_Some_D [OF f] by simp
  have l: "l \<in> set (st_Lines s)" "ln_TransferID l = tid" "denotes res (resolved_quantity s (ln_ID l))" using cur by (simp_all add: current_def f)
  obtain received damaged s1 where
    c: "parseNonNegative (rc_ReceivedQuantity r) = Some received"
      "(if trim_space (rc_DamagedQuantity r) = [] then Some ''0'' else parseNonNegative (rc_DamagedQuantity r)) = Some damaged"
    and le: "\<not> decimalCompare (decimalAdd received damaged) (remaining_text (l, res)) > 0"
    and s1: "(if decimalCompare received ''0'' > 0 then receive_moves admits actor t s l received damaged else Inr s) = Inr s1"
    and s2: "update_line (ln_ID l) (\<lambda>l. l\<lparr>ln_Received := ln_Received l + units received, ln_Damaged := ln_Damaged l + units damaged\<rparr>) s1 = Inr s'"
    using entry unfolding receive_entry_def f id by (auto simp: Let_def bindE_Inr_iff split: option.splits if_splits)
  obtain n where n: "denotes received n" "0 \<le> n" using c(1) unfolding parseNonNegative_def by (rule cleanQuantity_denotes)
  have "\<exists>d. denotes damaged d \<and> 0 \<le> d"
  proof (cases "trim_space (rc_DamagedQuantity r) = []")
    case True
    then show ?thesis using c(2) denotes_zero by (intro exI [of _ 0]) simp
  next
    case False
    then have "cleanQuantity (rc_DamagedQuantity r) False = Some damaged" using c(2) by (simp add: parseNonNegative_def)
    then show ?thesis by (rule cleanQuantity_denotes) blast
  qed
  then obtain d where d: "denotes damaged d" "0 \<le> d" by blast
  have "n + d \<le> ln_Shipped l - ln_Received l - max (ln_Damaged l) (resolved_quantity s (ln_ID l))"
    using le decimalCompare_denotes(3) [OF decimalAdd_denotes [OF n(1) d(1)] remaining_denotes [OF l(3)]] by simp
  then have le': "n + ln_Received l + resolved_quantity s (ln_ID l) \<le> ln_Shipped l" using d(2) by linarith
  have "inv_at st s' \<and> st_Transfers s' = st_Transfers s \<and> st_Resolutions s' = st_Resolutions s
    \<and> st_Lines s' = map (\<lambda>x. if ln_ID x = ln_ID l then x\<lparr>ln_Received := ln_Received x + n, ln_Damaged := ln_Damaged x + d\<rparr> else x) (st_Lines s)"
    using mv l t by (intro receive_step [OF inv l(1) _ _ n d le' s1 s2]) simp_all
  then show ?thesis using id by (force simp: line_ids_def)
qed

lemma receive_loop_inv:
  assumes "receive_loop admits actor t snapshot s rs = Inr s'" "inv_at st s" "st_Transfers s tid = Some t" "distinct (map rc_LineID rs)"
    "\<forall>r \<in> set rs. current s tid snapshot r" "\<forall>l \<in> set (st_Lines s). ln_TransferID l = tid \<longrightarrow> st (ln_ID l) \<in> moving"
  shows "inv_at st s' \<and> st_Transfers s' = st_Transfers s \<and> st_Resolutions s' = st_Resolutions s \<and> line_ids s' = line_ids s"
  using assms
proof (induction rs arbitrary: s)
  case Nil
  then show ?case by simp
next
  case (Cons r rs)
  obtain s1 where s1: "receive_entry admits actor t snapshot s r = Inr s1" and rest: "receive_loop admits actor t snapshot s1 rs = Inr s'"
    using Cons.prems(1) by (auto simp: bindE_Inr_iff)
  have E: "inv_at st s1 \<and> st_Transfers s1 = st_Transfers s \<and> st_Resolutions s1 = st_Resolutions s \<and> line_ids s1 = line_ids s
    \<and> (\<forall>x \<in> set (st_Lines s). ln_ID x \<noteq> rc_LineID r \<longrightarrow> x \<in> set (st_Lines s1))"
    using Cons.prems by (intro receive_entry_inv [OF s1]) simp_all
  have cur: "\<forall>x \<in> set rs. current s1 tid snapshot x"
  proof
    fix x assume x: "x \<in> set rs"
    then have ne: "rc_LineID x \<noteq> rc_LineID r" using Cons.prems(4) by (metis distinct.simps(2) image_eqI image_set list.simps(9))
    have "current s tid snapshot x" using Cons.prems(5) x by simp
    moreover have "resolved_quantity s1 = resolved_quantity s" using E by (simp add: fun_eq_iff resolved_quantity_def)
    ultimately show "current s1 tid snapshot x"
      using E ne find_Some_D [of "\<lambda>lr. ln_ID (fst lr) = rc_LineID x" snapshot]
      by (cases "find (\<lambda>lr. ln_ID (fst lr) = rc_LineID x) snapshot") (auto simp: current_def)
  qed
  have mv: "\<forall>l \<in> set (st_Lines s1). ln_TransferID l = tid \<longrightarrow> st (ln_ID l) \<in> moving"
    using Cons.prems(6) E line_ids_mem [of s1 s] by metis
  show ?case using Cons.IH [OF rest _ _ _ cur mv] E Cons.prems(3,4) by simp
qed

lemma line_ok_received: "line_ok ms r t IN_TRANSIT l \<Longrightarrow> ln_Shipped l \<le> ln_Received l + r \<Longrightarrow> line_ok ms r t RECEIVED l"
  by (simp add: line_ok_def Let_def)

text \<open>Lines whose goods have all been accounted for count as received.\<close>

lemma inv_received:
  assumes inv: "inv_at st s" and all: "\<And>l. l \<in> set (st_Lines s) \<Longrightarrow> ln_ID l \<in> ids \<Longrightarrow>
      st (ln_ID l) \<in> moving \<and> ln_Shipped l \<le> ln_Received l + resolved_quantity s (ln_ID l)"
  shows "inv_at (\<lambda>i. if i \<in> ids then RECEIVED else st i) s"
proof -
  let ?st = "\<lambda>i. if i \<in> ids then RECEIVED else st i"
  have line: "line_ok ms (resolved_quantity s (ln_ID l)) t (?st (ln_ID l)) l"
    if "l \<in> set (st_Lines s)" "line_ok ms (resolved_quantity s (ln_ID l)) t (st (ln_ID l)) l" for l ms t
  proof (cases "ln_ID l \<in> ids")
    case True
    then have "same_demand (st (ln_ID l)) IN_TRANSIT" using all [OF that(1)] by (auto simp: same_demand_def moving_def)
    then have "line_ok ms (resolved_quantity s (ln_ID l)) t IN_TRANSIT l" using line_ok_demand that(2) by blast
    then show ?thesis using True all [OF that(1) True] by (simp add: line_ok_received)
  qed (use that(2) in simp)
  have key: "key_ok ?st rids l m" if "l \<in> set (st_Lines s)" "key_ok st rids l m" for l m rids
    using all [OF that(1)] by (intro key_ok_mono [OF that(2)]) (auto simp: moving_def)
  show ?thesis using inv line key unfolding inv_at_def by meson
qed

lemma settle_inv:
  assumes inv: "inv_at (state_of s0) s" and inv0: "transfer_inv s0" and tr: "st_Transfers s = st_Transfers s0" and ids: "line_ids s = line_ids s0"
    and t: "st_Transfers s0 tid = Some t" and mv: "tf_State t \<in> moving"
  shows "transfer_inv (settle_state tid s)"
proof -
  let ?ids = "set (map ln_ID (lines_of s0 tid))"
  have mine: "l \<in> set (lines_of s tid) \<and> state_of s0 (ln_ID l) = tf_State t" if l: "l \<in> set (st_Lines s)" "ln_ID l \<in> ?ids" for l
  proof -
    obtain y where y: "y \<in> set (lines_of s0 tid)" "ln_ID y = ln_ID l" using l(2) by auto
    obtain x where x: "x \<in> set (st_Lines s0)" "ln_ID x = ln_ID l" "ln_TransferID x = ln_TransferID l" using line_ids_mem [OF ids l(1)] by blast
    have y': "y \<in> set (st_Lines s0)" "ln_TransferID y = tid" "state_of s0 (ln_ID y) = tf_State t" using inv_lines(1-3) [OF inv0 t y(1)] .
    have "x = y" by (rule inv_line_unique [OF transfer_invD(1) [OF inv0] y'(1) x(1)]) (simp add: x y)
    then have "ln_TransferID l = tid" using x(3) y'(2) by simp
    then show ?thesis using l(1) y'(3) unfolding y(2) by (simp add: lines_of_set)
  qed
  show ?thesis
  proof (cases "incomplete s tid")
    case True
    have st: "(\<lambda>i. if i \<in> ?ids then tf_State t else state_of s0 i) = state_of s0"
      using inv_lines(3) [OF inv0 t] by (auto simp: fun_eq_iff)
    have "same_demand (tf_State t) PARTIALLY_RECEIVED" using mv by (auto simp: moving_def same_demand_def)
    moreover have "inv_at (\<lambda>i. if i \<in> ?ids then tf_State t else state_of s0 i) s" unfolding st by (rule inv)
    ultimately have "transfer_inv (set_state tid PARTIALLY_RECEIVED s)" by (intro finish_transfer [OF _ inv0 tr ids])
    then show ?thesis using True by (simp add: settle_state_def)
  next
    case False
    have "inv_at (\<lambda>i. if i \<in> ?ids then RECEIVED else state_of s0 i) s"
    proof (rule inv_received [OF inv])
      fix l assume "l \<in> set (st_Lines s)" "ln_ID l \<in> ?ids"
      then have "l \<in> set (lines_of s tid)" "state_of s0 (ln_ID l) = tf_State t" using mine by blast+
      then show "state_of s0 (ln_ID l) \<in> moving \<and> ln_Shipped l \<le> ln_Received l + resolved_quantity s (ln_ID l)"
        using False mv by (auto simp: incomplete_def list_ex_iff not_less)
    qed
    moreover have "same_demand RECEIVED RECEIVED" by (simp add: same_demand_def)
    ultimately have "transfer_inv (set_state tid RECEIVED s)" by (rule finish_transfer [OF _ inv0 tr ids])
    then show ?thesis using False by (simp add: settle_state_def)
  qed
qed

lemma current_snapshot:
  assumes "transfer_inv s" "st_Lines s' = st_Lines s" "st_Resolutions s' = st_Resolutions s"
  shows "current s' tid (line_snapshot s tid) r"
proof (cases "find (\<lambda>lr. ln_ID (fst lr) = rc_LineID r) (line_snapshot s tid)")
  case (Some lr)
  then have "lr \<in> set (line_snapshot s tid)" by (auto simp: find_Some_iff)
  moreover have "resolved_quantity s' = resolved_quantity s" using assms(3) by (simp add: fun_eq_iff resolved_quantity_def)
  ultimately show ?thesis using Some assms(2) by (auto simp: current_def line_snapshot_def lines_of_set)
qed (simp add: current_def)

lemma receive_inv:
  assumes body: "receive_loop admits actor t (line_snapshot s tid) s1 rs = Inr s2" and inv: "transfer_inv s" and p: "posted s s1 []"
    and t: "st_Transfers s tid = Some t" and mv: "tf_State t \<in> moving" and d: "distinct (map rc_LineID rs)"
  shows "transfer_inv (settle_state tid s2)"
proof -
  have same: "st_Transfers s1 = st_Transfers s" "st_Lines s1 = st_Lines s" "st_Resolutions s1 = st_Resolutions s" using p by (simp_all add: posted_def)
  have R: "inv_at (state_of s) s2 \<and> st_Transfers s2 = st_Transfers s1 \<and> st_Resolutions s2 = st_Resolutions s1 \<and> line_ids s2 = line_ids s1"
  proof (rule receive_loop_inv [OF body _ _ d])
    show "inv_at (state_of s) s1" using transfer_invD(1) [OF inv] inv_posted [OF p] by simp
    show "st_Transfers s1 tid = Some t" using t same by simp
    show "\<forall>r \<in> set rs. current s1 tid (line_snapshot s tid) r" using current_snapshot [OF inv same(2,3)] by blast
    show "\<forall>l \<in> set (st_Lines s1). ln_TransferID l = tid \<longrightarrow> state_of s (ln_ID l) \<in> moving"
      using inv_lines(3) [OF inv t] mv same(2) by (auto simp: lines_of_set)
  qed
  then have "inv_at (state_of s) s2" "st_Transfers s2 = st_Transfers s" "line_ids s2 = line_ids s"
    using same by (simp_all add: line_ids_def)
  then show ?thesis using settle_inv inv t mv by blast
qed

lemma resolve_step:
  assumes inv: "inv_at st s" and l: "l \<in> set (st_Lines s)" and t: "st_Transfers s (ln_TransferID l) = Some t" and mv: "st (ln_ID l) \<in> moving"
    and n: "denotes quantity n" "0 < n" "resolved_quantity s (ln_ID l) + n \<le> ln_Shipped l - ln_Received l"
    and r: "rs_LineID r = ln_ID l" "rs_Quantity r = n" "rs_ID r = rid" "rid \<notin> set (map rs_ID (st_Resolutions s))"
    and post: "resolution_moves admits actor t (s\<lparr>st_Resolutions := st_Resolutions s @ [r]\<rparr>) l ty quantity reason rid = Inr s'"
  shows "inv_at st s' \<and> st_Transfers s' = st_Transfers s \<and> st_Lines s' = st_Lines s"
proof -
  let ?s = "s\<lparr>st_Resolutions := st_Resolutions s @ [r]\<rparr>"
  let ?out = "movementForTransfer (tf_TransitWarehouseID t) [] l (if ty = WASTE_OFF then WASTE else TRANSFER_OUT) OUT
       quantity actor (ResolveOut (ln_TransferID l) (ln_ID l) rid) (if ty = WASTE_OFF then reason else transfer_text)"
  let ?in = "movementForTransfer (if ty = RETURN then tf_SourceWarehouseID t else tf_DestinationWarehouseID t)
       (if ty = RETURN then ln_SourceLocationID l else ln_DestinationLocationID l) l TRANSFER_IN IN quantity actor
       (ResolveIn (ln_TransferID l) (ln_ID l) rid) transfer_text"
  let ?ms = "if ty = WASTE_OFF then [?out] else [?out, ?in]"
  note L = inv_lineD [OF inv l t] and D = route_distinct [OF inv_lineD(2) [OF inv l t]]
  have "?out \<notin> set (st_Movements s)" "?in \<notin> set (st_Movements s)"
    using r(4) by (intro fresh_movement [OF inv l]; simp add: key_ok_def)+
  moreover have "?out \<noteq> ?in" by (simp add: movementForTransfer_def)
  ultimately have p: "posted ?s s' ?ms"
  proof (cases "ty = WASTE_OFF")
    case True
    moreover assume "?out \<notin> set (st_Movements s)"
    ultimately show ?thesis using post by (auto simp: resolution_moves_def bindE_Inr_iff intro!: post_fresh)
  next
    case False
    assume *: "?out \<notin> set (st_Movements s)" "?in \<notin> set (st_Movements s)" "?out \<noteq> ?in"
    have "bindE (postMovementTx admits ?s ?out) (\<lambda>s. postMovementTx admits s ?in) = Inr s'"
      using post False by (auto simp: resolution_moves_def Let_def split: if_splits)
    then show ?thesis using False * by (simp add: post_pair)
  qed
  have stl: "st(ln_ID l := st (ln_ID l)) = st" by simp
  have "inv_at (st(ln_ID l := st (ln_ID l))) s'"
  proof (rule line_step [OF inv l t, where ms = ?ms and rs = "[r]" and f = "\<lambda>l. l"])
    show "line_ok (st_Movements s @ ?ms) (resolved_quantity s (ln_ID l) + sum_list (map rs_Quantity [r])) t (st (ln_ID l)) l"
      using L(1) D mv n r(2) by (cases ty) (auto simp: line_ok_def Let_def moving_def)
    show "\<forall>m \<in> set ?ms. key_ok (st(ln_ID l := st (ln_ID l))) (set (map rs_ID (st_Resolutions s @ [r]))) l m"
      using mv r(3) by (auto simp: key_ok_def moving_def)
    show "\<forall>m \<in> set ?ms. of_line m (ln_ID l)" by auto
  qed (use p r(1) in \<open>simp_all add: posted_def\<close>)
  then show ?thesis using p unfolding stl by (simp add: posted_def)
qed

section \<open>Returning what is in transit\<close>

lemma return_step:
  assumes inv: "inv_at st s" and l: "l \<in> set (st_Lines s)" and t: "st_Transfers s (ln_TransferID l) = Some t" and mv: "st (ln_ID l) \<in> moving"
    and post: "(let quantity = transferOutstandingQuantity (qtext (ln_Shipped l)) (qtext (ln_Received l)) (resolved_text s (ln_ID l)) in
      if quantity = ''0'' then Inr s
      else bindE (postMovementTx admits s (movementForTransfer (tf_TransitWarehouseID t) [] l TRANSFER_OUT OUT quantity actor
            (CancelOut (ln_TransferID l) (ln_ID l)) cancel_out_text))
          (\<lambda>s. postMovementTx admits s (movementForTransfer (tf_SourceWarehouseID t) (ln_SourceLocationID l) l TRANSFER_IN IN quantity actor
            (CancelIn (ln_TransferID l) (ln_ID l)) cancel_in_text))) = Inr s'"
  shows "inv_at (st(ln_ID l := CANCELLED)) s' \<and> st_Transfers s' = st_Transfers s \<and> st_Lines s' = st_Lines s
    \<and> st_Resolutions s' = st_Resolutions s"
proof -
  let ?q = "transferOutstandingQuantity (qtext (ln_Shipped l)) (qtext (ln_Received l)) (resolved_text s (ln_ID l))"
  let ?out = "movementForTransfer (tf_TransitWarehouseID t) [] l TRANSFER_OUT OUT ?q actor (CancelOut (ln_TransferID l) (ln_ID l)) cancel_out_text"
    and ?in = "movementForTransfer (tf_SourceWarehouseID t) (ln_SourceLocationID l) l TRANSFER_IN IN ?q actor
      (CancelIn (ln_TransferID l) (ln_ID l)) cancel_in_text"
  let ?n = "ln_Shipped l - ln_Received l - resolved_quantity s (ln_ID l)"
  let ?ms = "if ?q = ''0'' then [] else [?out, ?in]"
  note L = inv_lineD [OF inv l t] and D = route_distinct [OF inv_lineD(2) [OF inv l t]]
  note O = outstanding_denotes [OF denotes_qtext denotes_qtext resolved_text_denotes, of "ln_Shipped l" "ln_Received l" s "ln_ID l"]
  have n: "0 \<le> ?n" using L(1) mv by (auto simp: line_ok_def Let_def moving_def)
  have q: "units ?q = ?n" "?q = ''0'' \<longleftrightarrow> ?n = 0" using O n by simp_all
  have nc: "st (ln_ID l) \<noteq> CANCELLED" using mv by (auto simp: moving_def)
  have "?out \<notin> set (st_Movements s)" "?in \<notin> set (st_Movements s)"
    using nc by (intro fresh_movement [OF inv l]; simp add: key_ok_def)+
  moreover have "?out \<noteq> ?in" by (simp add: movementForTransfer_def)
  ultimately have p: "posted s s' ?ms"
    using post by (auto simp: Let_def split: if_splits intro: post_pair)
  have "inv_at (st(ln_ID l := CANCELLED)) s'"
  proof (rule line_step [OF inv l t, where ms = ?ms and rs = "[]" and f = "\<lambda>l. l"])
    show "line_ok (st_Movements s @ ?ms) (resolved_quantity s (ln_ID l) + sum_list (map rs_Quantity [])) t CANCELLED l"
    proof (cases "?q = ''0''")
      case True
      then show ?thesis using L(1) mv q(2) by (auto simp: line_ok_def Let_def moving_def)
    next
      case False
      then show ?thesis using L(1) D mv q(1) by (auto simp: line_ok_def Let_def moving_def)
    qed
    show "\<forall>m \<in> set ?ms. key_ok (st(ln_ID l := CANCELLED)) (set (map rs_ID (st_Resolutions s @ []))) l m"
      by (auto simp: key_ok_def)
    show "\<forall>m \<in> set ?ms. of_line m (ln_ID l)" by auto
  qed (use p nc mv in \<open>auto simp: posted_def moving_def\<close>)
  then show ?thesis using p by (simp add: posted_def)
qed

lemma return_loop_inv:
  assumes "return_loop admits actor t s ls = Inr s'" "inv_at st s" "st_Transfers s tid = Some t" "distinct (map (ln_ID \<circ> fst) ls)"
    "\<forall>(l, res) \<in> set ls. l \<in> set (st_Lines s) \<and> ln_TransferID l = tid \<and> st (ln_ID l) \<in> moving \<and> res = resolved_text s (ln_ID l)"
  shows "inv_at (\<lambda>i. if i \<in> set (map (ln_ID \<circ> fst) ls) then CANCELLED else st i) s' \<and> st_Transfers s' = st_Transfers s
    \<and> st_Lines s' = st_Lines s \<and> st_Resolutions s' = st_Resolutions s"
  using assms
proof (induction ls arbitrary: s st)
  case Nil
  then show ?case by simp
next
  case (Cons lr ls)
  obtain l res where lr: "lr = (l, res)" by (cases lr)
  have l: "l \<in> set (st_Lines s)" "ln_TransferID l = tid" "st (ln_ID l) \<in> moving" "res = resolved_text s (ln_ID l)"
    using Cons.prems(5) by (simp_all add: lr)
  have t: "st_Transfers s (ln_TransferID l) = Some t" using Cons.prems(3) l(2) by simp
  let ?q = "transferOutstandingQuantity (qtext (ln_Shipped l)) (qtext (ln_Received l)) (resolved_text s (ln_ID l))"
  obtain s1 where s1: "(let quantity = ?q in
      if quantity = ''0'' then Inr s
      else bindE (postMovementTx admits s (movementForTransfer (tf_TransitWarehouseID t) [] l TRANSFER_OUT OUT quantity actor
            (CancelOut (ln_TransferID l) (ln_ID l)) cancel_out_text))
          (\<lambda>s. postMovementTx admits s (movementForTransfer (tf_SourceWarehouseID t) (ln_SourceLocationID l) l TRANSFER_IN IN quantity actor
            (CancelIn (ln_TransferID l) (ln_ID l)) cancel_in_text))) = Inr s1"
    and rest: "return_loop admits actor t s1 ls = Inr s'"
    using Cons.prems(1) by (cases "?q = ''0''") (auto simp: lr l(4) Let_def bindE_Inr_iff)
  note S = return_step [OF Cons.prems(2) l(1) t l(3) s1]
  have others: "\<forall>(x, res) \<in> set ls. x \<in> set (st_Lines s1) \<and> ln_TransferID x = tid \<and> (st(ln_ID l := CANCELLED)) (ln_ID x) \<in> moving
      \<and> res = resolved_text s1 (ln_ID x)"
  proof clarify
    fix x r assume x: "(x, r) \<in> set ls"
    then have "ln_ID x \<noteq> ln_ID l" using Cons.prems(4) by (force simp: lr)
    moreover have "x \<in> set (st_Lines s)" "ln_TransferID x = tid" "st (ln_ID x) \<in> moving" "r = resolved_text s (ln_ID x)"
      using Cons.prems(5) x by auto
    moreover have "resolved_text s1 = resolved_text s" using S by (simp add: fun_eq_iff resolved_text_def resolved_quantity_def)
    ultimately show "x \<in> set (st_Lines s1) \<and> ln_TransferID x = tid \<and> (st(ln_ID l := CANCELLED)) (ln_ID x) \<in> moving
      \<and> r = resolved_text s1 (ln_ID x)" using S by simp
  qed
  have IH: "inv_at (\<lambda>i. if i \<in> set (map (ln_ID \<circ> fst) ls) then CANCELLED else (st(ln_ID l := CANCELLED)) i) s' \<and> st_Transfers s' = st_Transfers s1
    \<and> st_Lines s' = st_Lines s1 \<and> st_Resolutions s' = st_Resolutions s1"
    using Cons.prems(3,4) S by (intro Cons.IH [OF rest conjunct1 [OF S] _ _ others]) simp_all
  have "(\<lambda>i. if i \<in> set (map (ln_ID \<circ> fst) ls) then CANCELLED else (st(ln_ID l := CANCELLED)) i)
    = (\<lambda>i. if i \<in> set (map (ln_ID \<circ> fst) (lr # ls)) then CANCELLED else st i)" by (auto simp: lr)
  then show ?case using IH S by simp
qed

end
