(* ===== verification/Transfer_Commands.thy ===== *)
theory Transfer_Commands
  imports Transfer_Receipt
begin

text \<open>
  Whole commands, and what every sequence of them keeps.
\<close>

section \<open>Outcomes\<close>

text \<open>A good outcome is a state that keeps the balance, or an error other than the deferred check of the database.\<close>

definition quiet :: "stock_error + 'a \<Rightarrow> bool" where "quiet r = (r \<noteq> Inl NotConserved)"

definition good :: "stock_error + stock \<Rightarrow> bool" where
  "good r = (case r of Inl e \<Rightarrow> e \<noteq> NotConserved | Inr s \<Rightarrow> transfer_inv s)"

lemma quiet_simps [simp]: "quiet (Inr x)" "quiet (Inl e) = (e \<noteq> NotConserved)"
  by (simp_all add: quiet_def)

lemma good_simps [simp]: "good (Inr s) = transfer_inv s" "good (Inl e) = (e \<noteq> NotConserved)"
  by (simp_all add: good_def)

lemma quiet_bind: "quiet m \<Longrightarrow> (\<And>x. m = Inr x \<Longrightarrow> quiet (f x)) \<Longrightarrow> quiet (bindE m f)"
  by (cases m) simp_all

lemma good_bind: "quiet m \<Longrightarrow> (\<And>x. m = Inr x \<Longrightarrow> good (f x)) \<Longrightarrow> good (bindE m f)"
  by (cases m) simp_all

lemma good_if: "(b \<Longrightarrow> good x) \<Longrightarrow> (\<not> b \<Longrightarrow> good y) \<Longrightarrow> good (if b then x else y)"
  by simp

lemma good_option: "(x = None \<Longrightarrow> good y) \<Longrightarrow> (\<And>z. x = Some z \<Longrightarrow> good (f z)) \<Longrightarrow> good (case x of None \<Rightarrow> y | Some z \<Rightarrow> f z)"
  by (cases x) simp_all

lemma good_quiet: "good r \<Longrightarrow> quiet r"
  by (cases r) simp_all

lemma good_commit: "transfer_inv s \<Longrightarrow> good (commit tid s)"
  by (simp add: commit_def inv_conserved)

lemma no_rejection:
  "x \<noteq> Some NotConserved \<Longrightarrow> y \<noteq> Some NotConserved \<Longrightarrow> (if b then x else y) \<noteq> Some NotConserved"
  "x \<noteq> Some NotConserved \<Longrightarrow> y \<noteq> Some NotConserved \<Longrightarrow> (case x of None \<Rightarrow> y | Some e \<Rightarrow> Some e) \<noteq> Some NotConserved"
  "(\<And>a b. g a b \<noteq> Some NotConserved) \<Longrightarrow> (case p of (a, b) \<Rightarrow> g a b) \<noteq> Some NotConserved"
  "f x' \<noteq> Some NotConserved \<Longrightarrow> Let x' f \<noteq> Some NotConserved"
  "e \<noteq> NotConserved \<Longrightarrow> Some e \<noteq> Some NotConserved"
  by (auto split: option.split prod.split)

lemma quiet_guard: "transfer_guard s m \<noteq> Some NotConserved"
  unfolding transfer_guard_def
  by (cases "st_Transfers s (mi_SourceID m)"; cases "line_of s (mi_SourceLineID m)"; simp only: option.case prod.case Let_def)
    (intro no_rejection; simp)+

lemma quiet_post: "quiet (postMovementTx admits s m)"
  using quiet_guard [of s m] by (auto simp: postMovementTx_def project_def Let_def quiet_def split: option.split prod.split)

lemma quiet_update: "quiet (update_line lid f s)"
  by (simp add: update_line_def)

lemma quiet_reserve_loop: "quiet (reserve_loop t s ls)"
  by (induction t s ls rule: reserve_loop.induct) (auto simp: Let_def split: option.split)

lemma quiet_reserve: "quiet (reserveTransferLinesTx variant_ok s tid)"
  by (auto simp: reserveTransferLinesTx_def quiet_reserve_loop split: option.split)

lemma quiet_settle: "quiet (settle_loop final s rs)"
  by (induction final s rs rule: settle_loop.induct) (auto simp: Let_def split: option.split)

lemma quiet_leg: "quiet (leg_loop admits out into f s ls)"
  by (induction ls arbitrary: s) (auto intro!: quiet_bind quiet_post quiet_update)

lemma quiet_receive_loop: "quiet (receive_loop admits actor t snapshot s rs)"
proof (induction rs arbitrary: s)
  case (Cons r rs)
  have "quiet (receive_entry admits actor t snapshot s r)"
    by (auto simp: receive_entry_def receive_moves_def Let_def split: option.split intro!: quiet_bind quiet_post quiet_update)
  then show ?case using Cons.IH by (auto intro!: quiet_bind)
qed simp

lemma quiet_resolution: "quiet (resolution_moves admits actor t s l ty quantity reason rid)"
  by (auto simp: resolution_moves_def intro!: quiet_bind quiet_post)

lemma quiet_return_loop: "quiet (return_loop admits actor t s ls)"
  by (induction admits actor t s ls rule: return_loop.induct) (auto simp: Let_def intro!: quiet_bind quiet_post)

lemma quiet_create_lines: "quiet (create_lines variant_ok s new_id tid inputs)"
proof -
  have "quiet (mapE f xs)" if "\<And>x. quiet (f x)" for f :: "nat \<times> TransferLineInput \<Rightarrow> stock_error + TransferLine" and xs
    by (induction xs) (auto intro!: quiet_bind that)
  note loop = this
  show ?thesis unfolding create_lines_def by (rule loop) (auto simp: Let_def split: option.split)
qed

lemmas quiet_steps = quiet_post quiet_update quiet_reserve quiet_settle quiet_leg quiet_receive_loop quiet_resolution quiet_return_loop
  quiet_create_lines

section \<open>Commands\<close>

lemma inv_same: "transfer_inv s \<Longrightarrow> posted s s' [] \<Longrightarrow> transfer_inv s'"
proof -
  assume inv: "transfer_inv s" and p: "posted s s' []"
  have "state_of s' = state_of s" using p by (intro ext) (simp only: state_of_def line_of_def posted_def)
  then show ?thesis using inv inv_posted [OF p] by (simp add: transfer_inv_def)
qed

lemma transition_good:
  assumes inv: "transfer_inv s" and to: "to = REQUESTED \<or> to = APPROVED"
  shows "good (transitionTransfer variant_ok may s tid to expectedVersion)"
proof (cases "st_Transfers s tid")
  case (Some t)
  have fin: "good (commit tid (set_state tid to s1))"
    if p: "posted s s1 []" and ok: "CanTransitionTransfer (tf_State t) to" for s1
  proof -
    have "st_Transfers s1 tid = Some t" using p Some by (simp add: posted_def)
    moreover have "same_demand (tf_State t) to" using ok to by (cases "tf_State t") (auto simp: same_demand_def)
    ultimately show ?thesis using transition_state_inv [OF inv_same [OF inv p]] good_commit by blast
  qed
  let ?r = "if \<not> tf_Quick t \<and> (to = REQUESTED \<or> to = APPROVED) then reserveTransferLinesTx variant_ok s tid else Inr s"
  have q: "quiet ?r" by (simp add: quiet_reserve)
  have p: "posted s s1 []" if "?r = Inr s1" for s1 using that reserve_core by (auto split: if_splits)
  have "good (bindE ?r (\<lambda>s. if e \<noteq> tf_Version t then Inl Conflict else commit tid (set_state tid to s)))"
    if "CanTransitionTransfer (tf_State t) to" for e
    by (rule good_bind [OF q]) (use fin [OF p that] in \<open>simp\<close>)
  then show ?thesis by (simp add: transitionTransfer_def Some Let_def del: CanTransitionTransfer.simps)
qed (simp add: transitionTransfer_def)

lemma quiet_workflow: "quiet (postWorkflowShipmentTx admits variant_ok actor s tid)"
  by (auto simp: postWorkflowShipmentTx_def consumeTransferReservationsTx_def ship_leg_def simp del: CanTransitionTransfer.simps
      split: option.split intro!: quiet_bind quiet_steps)

lemma workflow_good: "transfer_inv s \<Longrightarrow> good (postWorkflowShipmentTx admits variant_ok actor s tid)"
  using quiet_workflow [of admits variant_ok actor s tid] workflow_shipment_inv [of admits variant_ok actor s tid]
  by (cases "postWorkflowShipmentTx admits variant_ok actor s tid") simp_all

lemma ship_good:
  assumes "transfer_inv s"
  shows "good (ShipTransfer admits variant_ok may actor s tid expectedVersion)"
proof -
  have "good (bindE (postWorkflowShipmentTx admits variant_ok actor s tid) (commit tid))"
    by (rule good_bind [OF quiet_workflow]) (rule good_commit, rule workflow_shipment_inv [OF _ assms])
  then show ?thesis by (simp add: ShipTransfer_def del: CanTransitionTransfer.simps split: option.split)
qed

lemma receive_all_distinct: "transfer_inv s \<Longrightarrow> distinct (map rc_LineID (receive_all (line_snapshot s tid)))"
  using distinct_lines_of [OF transfer_invD(2)] by (simp add: receive_all_def line_snapshot_def comp_def)

lemma command_tables: "reserveTransferReceiveCommand digest s tid v rs key = Inr (s1, replay) \<Longrightarrow> posted s s1 []"
  by (auto simp: reserveTransferReceiveCommand_def Let_def posted_def split: option.splits if_splits prod.splits)

lemma quiet_command: "quiet (reserveTransferReceiveCommand digest s tid v rs key)"
  by (auto simp: reserveTransferReceiveCommand_def Let_def split: option.split prod.split)

lemma complete_tables: "posted s (complete_command now key tid s) []"
  by (simp add: complete_command_def posted_def)

lemma receive_good:
  assumes inv: "transfer_inv s" and d: "distinct (map rc_LineID receives)"
  shows "good (receiveTransferWithKey admits digest may actor now s tid expectedVersion receives key)"
proof (cases "st_Transfers s tid")
  case (Some t)
  let ?rs = "if receives = [] then receive_all (line_snapshot s tid) else receives"
  have dr: "distinct (map rc_LineID ?rs)" using d receive_all_distinct [OF inv] by simp
  have body: "good (bindE (receive_loop admits actor t (line_snapshot s tid) s1 ?rs) (\<lambda>s2. commit tid (complete_command now key tid (settle_state tid s2))))"
    if p: "posted s s1 []" and mv: "tf_State t \<in> moving" for s1
  proof (rule good_bind [OF quiet_receive_loop])
    fix s2 assume "receive_loop admits actor t (line_snapshot s tid) s1 ?rs = Inr s2"
    then have "transfer_inv (settle_state tid s2)" by (rule receive_inv [OF _ inv p Some mv dr])
    then show "good (commit tid (complete_command now key tid (settle_state tid s2)))"
      using inv_same complete_tables good_commit by blast
  qed
  have "good (bindE (reserveTransferReceiveCommand digest s tid expectedVersion receives key) (\<lambda>(s1, replay).
      if replay then Inr s else if tf_State t \<notin> {IN_TRANSIT, PARTIALLY_RECEIVED} then Inl InvalidState
      else if expectedVersion > 0 \<and> expectedVersion \<noteq> tf_Version t then Inl Conflict
      else bindE (receive_loop admits actor t (line_snapshot s tid) s1 ?rs) (\<lambda>s2. commit tid (complete_command now key tid (settle_state tid s2)))))"
  proof (rule good_bind [OF quiet_command], clarify)
    fix s1 replay assume "reserveTransferReceiveCommand digest s tid expectedVersion receives key = Inr (s1, replay)"
    note b = body [OF command_tables [OF this]]
    show "good (if replay then Inr s else if tf_State t \<notin> {IN_TRANSIT, PARTIALLY_RECEIVED} then Inl InvalidState
      else if expectedVersion > 0 \<and> expectedVersion \<noteq> tf_Version t then Inl Conflict
      else bindE (receive_loop admits actor t (line_snapshot s tid) s1 ?rs) (\<lambda>s2. commit tid (complete_command now key tid (settle_state tid s2))))"
      using b inv by (cases "tf_State t \<in> moving") (simp_all add: moving_def)
  qed
  then show ?thesis by (simp add: receiveTransferWithKey_def Some Let_def)
qed (simp add: receiveTransferWithKey_def)

lemma unshipped_cancelled: "line_ok ms r t st l \<Longrightarrow> st \<in> unshipped \<Longrightarrow> line_ok ms r t CANCELLED l"
  by (simp add: line_ok_def Let_def)

lemma cancel_unshipped:
  assumes "transfer_inv s" "st_Transfers s tid = Some t" "tf_State t \<in> unshipped"
  shows "inv_at (\<lambda>i. if i \<in> set (map ln_ID (lines_of s tid)) then CANCELLED else state_of s i) s"
proof -
  let ?st = "\<lambda>i. if i \<in> set (map ln_ID (lines_of s tid)) then CANCELLED else state_of s i"
  have un: "state_of s (ln_ID l) \<in> unshipped" if l: "ln_ID l \<in> set (map ln_ID (lines_of s tid))" for l
  proof -
    obtain y where y: "y \<in> set (lines_of s tid)" "ln_ID y = ln_ID l" using l by auto
    then show ?thesis using inv_lines(3) [OF assms(1,2) y(1)] assms(3) by simp
  qed
  have line: "line_ok ms r t (?st (ln_ID l)) l" if "line_ok ms r t (state_of s (ln_ID l)) l" for ms r t l
    using unshipped_cancelled [OF that] un that by auto
  have key: "key_ok ?st rids l m" if "key_ok (state_of s) rids l m" for rids l m
    using un [of l] by (intro key_ok_mono [OF that]) (auto simp: unshipped_def)
  show ?thesis using transfer_invD(1) [OF assms(1)] line key unfolding inv_at_def by meson
qed

lemma cancel_good:
  assumes inv: "transfer_inv s"
  shows "good (CancelTransfer admits may actor s tid reason expectedVersion)"
proof (cases "st_Transfers s tid")
  case (Some t)
  let ?rel = "if tf_State t \<in> {REQUESTED, APPROVED} then releaseTransferReservationsTx s tid else Inr s"
  let ?ret = "\<lambda>s. if tf_State t \<in> {IN_TRANSIT, PARTIALLY_RECEIVED} then return_loop admits actor t s (line_snapshot s tid) else Inr s"
  let ?ids = "set (map ln_ID (lines_of s tid))"
  have rel: "posted s s1 []" if "?rel = Inr s1" for s1
    using that settle_loop_core by (auto simp: releaseTransferReservationsTx_def split: if_splits)
  have body: "transfer_inv (set_state tid CANCELLED s2)"
    if p: "posted s s1 []" and r: "?ret s1 = Inr s2" and ok: "CanTransitionTransfer (tf_State t) CANCELLED" "tf_State t \<noteq> CANCELLED" for s1 s2
  proof -
    have same: "st_Transfers s1 = st_Transfers s" "st_Lines s1 = st_Lines s" using p by (simp_all add: posted_def)
    have ls: "lines_of s1 tid = lines_of s tid" using same by (simp add: lines_of_def)
    have inv1: "inv_at (state_of s) s1" using transfer_invD(1) [OF inv] inv_posted [OF p] by simp
    have "inv_at (\<lambda>i. if i \<in> ?ids then CANCELLED else state_of s i) s2 \<and> st_Transfers s2 = st_Transfers s \<and> st_Lines s2 = st_Lines s"
    proof (cases "tf_State t \<in> moving")
      case True
      then have loop: "return_loop admits actor t s1 (line_snapshot s1 tid) = Inr s2" using r by (auto simp: moving_def)
      have ids: "map (ln_ID \<circ> fst) (line_snapshot s1 tid) = map ln_ID (lines_of s tid)" by (simp add: line_snapshot_def ls comp_def)
      have "inv_at (\<lambda>i. if i \<in> set (map (ln_ID \<circ> fst) (line_snapshot s1 tid)) then CANCELLED else state_of s i) s2 \<and> st_Transfers s2 = st_Transfers s1
        \<and> st_Lines s2 = st_Lines s1 \<and> st_Resolutions s2 = st_Resolutions s1"
      proof (rule return_loop_inv [OF loop inv1])
        show "st_Transfers s1 tid = Some t" using Some same by simp
        show "distinct (map (ln_ID \<circ> fst) (line_snapshot s1 tid))" unfolding ids by (rule distinct_lines_of [OF transfer_invD(2) [OF inv]])
        show "\<forall>(l, res) \<in> set (line_snapshot s1 tid). l \<in> set (st_Lines s1) \<and> ln_TransferID l = tid \<and> state_of s (ln_ID l) \<in> moving
            \<and> res = resolved_text s1 (ln_ID l)"
          using inv_lines(1-3) [OF inv Some] True same(2) by (auto simp: line_snapshot_def ls)
      qed
      then show ?thesis unfolding ids same by blast
    next
      case False
      then have un: "tf_State t \<in> unshipped" and s2: "s2 = s1" using ok r by (cases "tf_State t"; simp add: moving_def)+
      have "inv_at (\<lambda>i. if i \<in> ?ids then CANCELLED else state_of s i) s" by (rule cancel_unshipped [OF inv Some un])
      then show ?thesis using inv_posted [OF p] same unfolding s2 by simp
    qed
    then have R: "inv_at (\<lambda>i. if i \<in> ?ids then CANCELLED else state_of s i) s2" "st_Transfers s2 = st_Transfers s" "line_ids s2 = line_ids s"
      by (simp_all add: line_ids_def)
    show ?thesis by (rule finish_transfer [OF R(1) inv R(2,3)]) (simp add: same_demand_def)
  qed
  have "good (bindE ?rel (\<lambda>s. bindE (?ret s) (\<lambda>s. commit tid (set_state tid CANCELLED s))))"
    if ok: "CanTransitionTransfer (tf_State t) CANCELLED" "tf_State t \<noteq> CANCELLED"
  proof (rule good_bind)
    show "quiet ?rel" by (simp add: releaseTransferReservationsTx_def quiet_settle)
    fix s1 assume s1: "?rel = Inr s1"
    show "good (bindE (?ret s1) (\<lambda>s. commit tid (set_state tid CANCELLED s)))"
    proof (rule good_bind)
      show "quiet (?ret s1)" by (simp add: quiet_return_loop)
      fix s2 assume "?ret s1 = Inr s2"
      then show "good (commit tid (set_state tid CANCELLED s2))" using body [OF rel [OF s1] _ ok] good_commit by blast
    qed
  qed
  then show ?thesis using inv by (simp add: CancelTransfer_def Some del: CanTransitionTransfer.simps)
qed (simp add: CancelTransfer_def)

lemma resolve_good:
  assumes inv: "transfer_inv s"
  shows "good (ResolveTransferDiscrepancy admits default_key may actor rid s tid input)"
proof -
  have body: "good (bindE (resolution_moves admits actor t (s\<lparr>st_Resolutions := st_Resolutions s @ [r]\<rparr>) l ty quantity reason rid)
      (\<lambda>s. commit tid (settle_state tid s)))"
    if t: "st_Transfers s tid = Some t" "tf_State t \<in> moving" and l: "find (\<lambda>l. ln_ID l = lid) (lines_of s tid) = Some l"
      and q: "cleanQuantity raw True = Some quantity" "resolved_quantity s lid + units quantity \<le> ln_Shipped l - ln_Received l"
      and r: "r = \<lparr>rs_ID = rid, rs_TransferID = tid, rs_LineID = lid, rs_Type = ty, rs_Quantity = units quantity, rs_Reason = reason, rs_Key = key\<rparr>"
        "rid \<notin> set (map rs_ID (st_Resolutions s))" for t l lid raw quantity r ty reason key
  proof (rule good_bind [OF quiet_resolution])
    fix s2 assume post: "resolution_moves admits actor t (s\<lparr>st_Resolutions := st_Resolutions s @ [r]\<rparr>) l ty quantity reason rid = Inr s2"
    have mem: "l \<in> set (lines_of s tid)" and id: "ln_ID l = lid" using l by (auto simp: find_Some_iff)
    note m = inv_lines [OF inv t(1) mem]
    obtain n where n: "denotes quantity n" "0 < n" "units quantity = n" using cleanQuantity_denotes [OF q(1)] by metis
    have R: "inv_at (state_of s) s2 \<and> st_Transfers s2 = st_Transfers s \<and> st_Lines s2 = st_Lines s"
      by (rule resolve_step [OF transfer_invD(1) [OF inv] m(1) _ _ n(1,2) _ _ _ _ r(2) post])
        (use t m(2,3) id q(2) n(3) r(1) in simp_all)
    then have ids: "line_ids s2 = line_ids s" by (simp add: line_ids_def)
    show "good (commit tid (settle_state tid s2))"
      by (rule good_commit, rule settle_inv [OF conjunct1 [OF R] inv _ ids t]) (use R in simp)
  qed
  show ?thesis
    unfolding ResolveTransferDiscrepancy_def Let_def
    by (intro good_if good_option;
      ((simp add: inv; fail) | (rule body, assumption, simp add: moving_def, assumption, assumption, simp, simp, simp)))
qed

section \<open>Creation\<close>

lemma create_lines_new:
  assumes "create_lines variant_ok s new_id tid inputs = Inr ls" "l \<in> set ls"
  shows "ln_TransferID l = tid \<and> 0 < ln_Quantity l \<and> ln_Shipped l = 0 \<and> ln_Received l = 0 \<and> ln_Damaged l = 0"
proof -
  obtain k i where "(case cleanQuantity (li_Quantity i) True of
      None \<Rightarrow> Inl Validation
    | Some q \<Rightarrow> let l = new_line tid (new_id k) i (units q) in if variant_ok s l then Inr l else Inl Rejected) = Inr l"
    using mapE_mem [OF assms(1) [unfolded create_lines_def] assms(2)] by auto
  then obtain q where q: "cleanQuantity (li_Quantity i) True = Some q" "l = new_line tid (new_id k) i (units q)"
    by (auto simp: Let_def split: option.splits if_splits)
  obtain n where "0 < n" "units q = n" using cleanQuantity_denotes [OF q(1)] by metis
  then show ?thesis unfolding q(2) by (simp add: new_line_def)
qed

lemma create_inv:
  assumes inv: "transfer_inv s" and new: "st_Transfers s tid = None" and t: "route_ok s t" "tf_State t = DRAFT"
    and ls: "\<forall>l \<in> set ls. ln_TransferID l = tid \<and> 0 < ln_Quantity l \<and> ln_Shipped l = 0 \<and> ln_Received l = 0 \<and> ln_Damaged l = 0"
    and d: "distinct (map ln_ID (st_Lines s @ ls))"
  shows "transfer_inv (s\<lparr>st_Transfers := (st_Transfers s)(tid \<mapsto> t), st_Lines := st_Lines s @ ls\<rparr>)"
proof -
  let ?s = "s\<lparr>st_Transfers := (st_Transfers s)(tid \<mapsto> t), st_Lines := st_Lines s @ ls\<rparr>"
  have I: "inv_at (state_of s) s" by (rule transfer_invD(1) [OF inv])
  have old: "ln_TransferID l \<noteq> tid" if "l \<in> set (st_Lines s)" for l using I that new by (auto simp: inv_at_def)
  have q: "resolved_quantity ?s = resolved_quantity s" by (intro ext) (simp add: resolved_quantity_def)
  have fresh: "ln_ID l \<notin> ln_ID ` set (st_Lines s)" if "l \<in> set ls" for l using d that by auto
  have state: "state_of s (ln_ID l) = DRAFT" if "l \<in> set ls" for l
  proof -
    have "line_of s (ln_ID l) = None" unfolding line_of_def find_None_iff using fresh [OF that] by (metis image_eqI)
    then show ?thesis by (simp add: state_of_def)
  qed
  have line: "line_ok (st_Movements s) (resolved_quantity s (ln_ID l)) t DRAFT l" if l: "l \<in> set ls" for l
  proof -
    have z: "msum (st_Movements s) i (ln_ID l) wh dir ty = 0" for i wh dir ty
    proof (rule msum_other)
      fix m assume m: "m \<in> set (st_Movements s)"
      show "\<not> of_line m (ln_ID l)"
      proof
        assume "of_line m (ln_ID l)"
        then have "mi_SourceType m = ''WAREHOUSE_TRANSFER''" "mi_SourceLineID m = ln_ID l" by (simp_all add: of_line_def)
        then obtain y where "y \<in> set (st_Lines s)" "ln_ID y = ln_ID l" using I m unfolding inv_at_def by metis
        then show False using fresh [OF l] by (metis image_eqI)
      qed
    qed
    have "filter (\<lambda>r. rs_LineID r = ln_ID l) (st_Resolutions s) = []"
      using I fresh [OF l] unfolding inv_at_def filter_empty_conv by metis
    then have "resolved_quantity s (ln_ID l) = 0" by (simp add: resolved_quantity_def)
    then show ?thesis using ls l z by (simp add: line_ok_def Let_def)
  qed
  have "inv_at (state_of s) ?s"
    unfolding inv_at_def q
  proof (intro conjI)
    show "\<forall>i u. st_Transfers ?s i = Some u \<longrightarrow> route_ok ?s u" using I t(1) by (auto simp: inv_at_def route_ok_def)
    show "\<forall>l \<in> set (st_Lines ?s). \<exists>t. st_Transfers ?s (ln_TransferID l) = Some t
        \<and> line_ok (st_Movements ?s) (resolved_quantity s (ln_ID l)) t (state_of s (ln_ID l)) l"
    proof
      fix l assume "l \<in> set (st_Lines ?s)"
      then consider "l \<in> set (st_Lines s)" | "l \<in> set ls" by auto
      then show "\<exists>t. st_Transfers ?s (ln_TransferID l) = Some t \<and> line_ok (st_Movements ?s) (resolved_quantity s (ln_ID l)) t (state_of s (ln_ID l)) l"
      proof cases
        case 1
        then show ?thesis using I old [OF 1] by (auto simp: inv_at_def)
      next
        case 2
        then show ?thesis using line [OF 2] state [OF 2] ls by simp
      qed
    qed
    show "\<forall>m \<in> set (st_Movements ?s). mi_SourceType m = ''WAREHOUSE_TRANSFER'' \<longrightarrow>
        (\<exists>l \<in> set (st_Lines ?s). ln_ID l = mi_SourceLineID m \<and> key_ok (state_of s) (set (map rs_ID (st_Resolutions ?s))) l m)"
      using I by (auto simp: inv_at_def)
    show "\<forall>r \<in> set (st_Resolutions ?s). rs_LineID r \<in> ln_ID ` set (st_Lines ?s)" using I by (auto simp: inv_at_def)
  qed (use d in simp)
  then show ?thesis
  proof (rule transfer_invI)
    fix l u assume l: "l \<in> set (st_Lines ?s)" "st_Transfers ?s (ln_TransferID l) = Some u"
    show "same_demand (state_of s (ln_ID l)) (tf_State u)"
    proof (cases "l \<in> set ls")
      case True
      then show ?thesis using state [OF True] l(2) ls t(2) by (auto simp: same_demand_def)
    next
      case False
      then have "l \<in> set (st_Lines s)" using l(1) by simp
      then show ?thesis using transfer_invD(3) [OF inv] l(2) old by (simp add: same_demand_def)
    qed
  qed
qed

lemma quiet_quick: "quiet (postQuickTransferTx admits actor s tid)"
  by (auto simp: postQuickTransferTx_def ship_leg_def Let_def split: option.split intro!: quiet_bind quiet_steps)

lemma quiet_create_command: "quiet (reserveTransferCreateCommand digest s input)"
  by (auto simp: reserveTransferCreateCommand_def Let_def split: option.split prod.split)

lemma create_command_tables: "reserveTransferCreateCommand digest s input = Inr (s1, replay) \<Longrightarrow> posted s s1 []"
  by (auto simp: reserveTransferCreateCommand_def Let_def posted_def split: option.splits if_splits prod.splits)

lemma quiet_complete_create: "quiet (complete_create now key tid s)"
  by (simp add: complete_create_def Let_def split: prod.split)

lemma complete_create_tables: "complete_create now key tid s = Inr s' \<Longrightarrow> posted s s' []"
  by (auto simp: complete_create_def Let_def posted_def split: prod.splits if_splits)

text \<open>Creation from the state in which the command record is reserved.\<close>

lemma create_body_good:
  fixes s t tid defines "s2 \<equiv> \<lambda>ls. s\<lparr>st_Transfers := (st_Transfers s)(tid \<mapsto> t), st_Lines := st_Lines s @ ls\<rparr>"
  assumes inv: "transfer_inv s" and t: "route_ok s t" "tf_State t = DRAFT" and ls: "create_lines variant_ok s new_id tid inputs = Inr ls"
    and new: "st_Transfers s tid = None" and d: "distinct (map ln_ID (st_Lines s @ ls))"
  shows "good (bindE (if quick then postQuickTransferTx admits actor (s2 ls) tid
      else postWorkflowShipmentTx admits variant_ok actor (set_state tid APPROVED (s2 ls)) tid) (\<lambda>s3.
      bindE (complete_create now key tid s3) (commit tid)))"
proof -
  have C: "transfer_inv (s2 ls)"
    using create_lines_new [OF ls] unfolding s2_def by (intro create_inv [OF inv new t _ d]) blast
  have t2: "st_Transfers (s2 ls) tid = Some t" by (simp add: s2_def)
  have A: "transfer_inv (set_state tid APPROVED (s2 ls))" by (rule transition_state_inv [OF C t2]) (simp add: t same_demand_def)
  let ?post = "if quick then postQuickTransferTx admits actor (s2 ls) tid
      else postWorkflowShipmentTx admits variant_ok actor (set_state tid APPROVED (s2 ls)) tid"
  show ?thesis
  proof (rule good_bind)
    show "quiet ?post" by (simp add: quiet_quick quiet_workflow)
    fix s3 assume "?post = Inr s3"
    then have s3: "transfer_inv s3"
      using quick_transfer_inv [OF _ C t2] workflow_shipment_inv [OF _ A] t(2) by (cases quick) simp_all
    show "good (bindE (complete_create now key tid s3) (commit tid))"
      by (rule good_bind [OF quiet_complete_create]) (rule good_commit, rule inv_same [OF s3], rule complete_create_tables)
  qed
qed

lemma create_good:
  assumes inv: "transfer_inv s"
  shows "good (CreateTransfer admits variant_ok digest may transit actor now tid new_id s input)"
proof -
  have body: "good (bindE (reserveTransferCreateCommand digest s input) (\<lambda>(s1, replay).
      if replay \<noteq> None then Inr s
      else if \<not> st_SystemTransit s1 transit then Inl Rejected
      else bindE (create_lines variant_ok s1 new_id tid (ti_Lines input)) (\<lambda>ls.
        if st_Transfers s1 tid \<noteq> None \<or> \<not> distinct (map ln_ID (st_Lines s1 @ ls)) \<or> [] \<in> set (map ln_ID ls) then Inl CheckViolation
        else
          let t = \<lparr>tf_SourceWarehouseID = ti_SourceWarehouseID input, tf_DestinationWarehouseID = ti_DestinationWarehouseID input,
                tf_TransitWarehouseID = transit, tf_Quick = quick, tf_State = DRAFT, tf_Version = 1\<rparr>;
              s2 = s1\<lparr>st_Transfers := (st_Transfers s1)(tid \<mapsto> t), st_Lines := st_Lines s1 @ ls\<rparr> in
          bindE (if quick then postQuickTransferTx admits actor s2 tid
                 else postWorkflowShipmentTx admits variant_ok actor (set_state tid APPROVED s2) tid) (\<lambda>s3.
          bindE (complete_create now (ti_IdempotencyKey input) tid s3) (commit tid)))))"
    (is "good (bindE _ ?rest)")
    if ends: "ti_SourceWarehouseID input \<noteq> ti_DestinationWarehouseID input" "\<not> st_SystemTransit s (ti_SourceWarehouseID input)"
      "\<not> st_SystemTransit s (ti_DestinationWarehouseID input)" for quick
  proof (rule good_bind [OF quiet_create_command])
    fix x assume x: "reserveTransferCreateCommand digest s input = Inr x"
    obtain s1 replay where sp: "x = (s1, replay)" by (cases x)
    have p: "posted s s1 []" using create_command_tables x unfolding sp by blast
    have inv1: "transfer_inv s1" by (rule inv_same [OF inv p])
    have route: "route_ok s1 \<lparr>tf_SourceWarehouseID = ti_SourceWarehouseID input, tf_DestinationWarehouseID = ti_DestinationWarehouseID input,
          tf_TransitWarehouseID = transit, tf_Quick = quick, tf_State = DRAFT, tf_Version = 1\<rparr>" if "st_SystemTransit s1 transit"
      using ends that p by (simp add: route_ok_def posted_def)
    show "good (?rest x)"
      unfolding sp prod.case
      by (rule good_if, simp add: inv, rule good_if, simp, rule good_bind [OF quiet_create_lines], rule good_if, simp, unfold Let_def)
        (rule create_body_good [OF inv1 route]; simp)
  qed
  show ?thesis
    unfolding CreateTransfer_def by (intro good_if good_option body) simp_all
qed

text \<open>Movements of every other document leave the balance of transfers alone.\<close>

lemma other_good:
  assumes inv: "transfer_inv s" and m: "mi_SourceType m \<noteq> ''WAREHOUSE_TRANSFER''"
  shows "good (postMovementTx admits s m)"
proof (cases "postMovementTx admits s m")
  case (Inl e)
  then show ?thesis using quiet_post [of admits s m] by simp
next
  case (Inr s')
  then have "s' = s \<or> posted s s' [m]"
    by (auto simp: postMovementTx_def project_def set_position_def posted_def Let_def split: option.splits if_splits prod.splits)
  moreover have "transfer_inv s'" if p: "posted s s' [m]"
  proof -
    have z: "\<not> of_line m i" for i using m by (simp add: of_line_def)
    have line: "line_ok (st_Movements s @ [m]) r t st l = line_ok (st_Movements s) r t st l" for r t st l
      by (rule line_ok_append) (rule msum_other, simp add: z)
    have st: "state_of s' = state_of s" using p by (intro ext) (simp only: state_of_def line_of_def posted_def)
    have q: "resolved_quantity s' = resolved_quantity s" using p by (intro ext) (simp only: resolved_quantity_def posted_def)
    have ro: "route_ok s' = route_ok s" using p by (intro ext) (simp only: route_ok_def posted_def)
    have "inv_at (state_of s) s'" using transfer_invD(1) [OF inv] p m unfolding inv_at_def q ro by (auto simp: posted_def line)
    then show ?thesis by (simp add: transfer_inv_def st)
  qed
  ultimately show ?thesis using Inr inv by auto
qed

section \<open>Histories\<close>

text \<open>
  What one command may answer in a state, with the entries of its receipt (none for the other commands).  Everything the code
  reads elsewhere, the verdict of its guards, the clock, generated identifiers and digests, is arbitrary, and so are the entries
  of a receipt: the code accepts two entries for one line.
\<close>

inductive attempt :: "stock \<Rightarrow> ReceiveLineInput list \<Rightarrow> stock_error + stock \<Rightarrow> bool" where
  create: "attempt s [] (CreateTransfer admits variant_ok digest may transit actor now tid new_id s input)"
| request: "attempt s [] (RequestTransfer variant_ok may s tid expectedVersion)"
| approve: "attempt s [] (ApproveTransfer variant_ok may s tid expectedVersion)"
| ship: "attempt s [] (ShipTransfer admits variant_ok may actor s tid expectedVersion)"
| receive: "attempt s receives (receiveTransferWithKey admits digest may actor now s tid expectedVersion receives key)"
| resolve: "attempt s [] (ResolveTransferDiscrepancy admits default_key may actor rid s tid resolution)"
| cancel: "attempt s [] (CancelTransfer admits may actor s tid reason expectedVersion)"
| other: "mi_SourceType m \<noteq> ''WAREHOUSE_TRANSFER'' \<Longrightarrow> attempt s [] (postMovementTx admits s m)"

text \<open>A history of successful commands, with the receipts it holds in order.\<close>

inductive history :: "stock \<Rightarrow> ReceiveLineInput list list \<Rightarrow> stock \<Rightarrow> bool" where
  start: "history s [] s"
| command: "history s0 receipts s \<Longrightarrow> attempt s rs (Inr s') \<Longrightarrow> history s0 (receipts @ [rs]) s'"

text \<open>The discipline of the clients: a receipt names each line at most once.  The code does not check it.\<close>

definition names_lines_once :: "ReceiveLineInput list \<Rightarrow> bool" where
  "names_lines_once receives = distinct (map rc_LineID receives)"

definition before_transfers :: "stock \<Rightarrow> bool" where
  "before_transfers s = (st_Transfers s = (\<lambda>_. None) \<and> st_Lines s = [] \<and> st_Resolutions s = []
     \<and> (\<forall>m \<in> set (st_Movements s). mi_SourceType m \<noteq> ''WAREHOUSE_TRANSFER''))"

lemma attempt_good: "attempt s rs r \<Longrightarrow> transfer_inv s \<Longrightarrow> names_lines_once rs \<Longrightarrow> good r"
  by (induction rule: attempt.induct)
    (simp_all only: create_good RequestTransfer_def ApproveTransfer_def transition_good ship_good receive_good resolve_good cancel_good other_good
      names_lines_once_def simp_thms)

lemma before_inv: "before_transfers s \<Longrightarrow> transfer_inv s"
  by (auto simp: before_transfers_def transfer_inv_def inv_at_def)

lemma transfer_history_inv: "history s0 receipts s \<Longrightarrow> before_transfers s0 \<Longrightarrow> list_all names_lines_once receipts \<Longrightarrow> transfer_inv s"
proof (induction rule: history.induct)
  case (command s0 receipts s rs s')
  then show ?case using attempt_good [of s rs "Inr s'"] by simp
qed (rule before_inv)


text \<open>
  Claim C31.  As long as no receipt names a line twice, the deferred conservation check of the database is a second line of defence that
  no command runs into: after any history of such commands from a ledger without transfers, no transfer command (a receipt naming each
  line at most once, again) answers with its rejection.
\<close>

theorem conservation_never_rejects:
  assumes "before_transfers s0" "history s0 receipts s" "list_all names_lines_once receipts"
    and "attempt s rs r" "names_lines_once rs"
  shows "r \<noteq> Inl NotConserved"
  using good_quiet [OF attempt_good [OF assms(4) transfer_history_inv [OF assms(2,1,3)] assms(5)]] by (simp add: quiet_def)

section \<open>A concrete transfer\<close>

definition sample_position :: "string \<Rightarrow> position" where
  "sample_position w = \<lparr>ps_Warehouse = w, ps_Product = ''p'', ps_Variant = [], ps_Location = [], ps_Lot = [], ps_Serial = []\<rparr>"

definition sample_stock :: stock where
  "sample_stock = \<lparr>st_Company = ''c'', st_Transfers = (\<lambda>_. None), st_Lines = [], st_Movements = [],
     st_Positions = [sample_position ''shop'' \<mapsto> (10, 0)], st_Reservations = [], st_Resolutions = [], st_Commands = (\<lambda>_. None),
     st_SystemTransit = (\<lambda>w. w = ''transit''), st_Block = True\<rparr>"

definition sample_input :: TransferInput where
  "sample_input = \<lparr>ti_SourceWarehouseID = ''shop'', ti_DestinationWarehouseID = ''depot'', ti_TransferType = ''workflow'', ti_IdempotencyKey = ''k'', ti_Lines =
     [\<lparr>li_ProductID = ''p'', li_VariantID = [], li_LotID = [], li_SerialID = [], li_SourceLocationID = [], li_DestinationLocationID = [],
       li_Quantity = ''0.00000005''\<rparr>]\<rparr>"

definition sample_create :: "stock_error + stock" where
  "sample_create = CreateTransfer (\<lambda>_ _. True) (\<lambda>_ _. True) (\<lambda>_. ''digest'') True ''transit'' ''user'' 0 ''t'' (\<lambda>_. ''l'') sample_stock sample_input"

lemma sample_quantity: "cleanQuantity ''0.00000005'' True = Some ''0.00000005''" "qtext 5 = ''0.00000005''" 
  by code_simp+

lemma sample_texts: "transfer_type ''workflow'' = Some False" "trim_space ''k'' = ''k''"
  by code_simp+

lemma sample_units: "units ''0.00000005'' = 5"
  using units_qtext [of 5] by (simp only: sample_quantity)

lemma sample_free: "\<not> decimalCompare (decimalSub (qtext 10) (qtext 0)) (qtext 5) < 0"
  by (simp add: decimalCompare_denotes [OF decimalSub_denotes [OF denotes_qtext denotes_qtext] denotes_qtext])

lemma sample_created: "\<exists>s. sample_create = Inr s \<and> st_Lines s \<noteq> []"
  using sample_free
  by (simp add: sample_create_def CreateTransfer_def sample_input_def sample_stock_def sample_texts reserveTransferCreateCommand_def insert_ignore_def
    new_row_def complete_create_def complete_row_def create_lines_def sample_quantity sample_units new_line_def
    postWorkflowShipmentTx_def set_state_def reserveTransferLinesTx_def stable_sort_def lines_of_def source_position_def sample_position_def
    set_position_def consumeTransferReservationsTx_def active_reservations_def ship_leg_def transfer_out_def transfer_in_def
    movementForTransfer_def postMovementTx_def transfer_guard_def line_of_def moved_def mv_units_def project_def update_line_def line_check_def
    commit_def conserved_def conserved_line_def Let_def)

lemma sample_reach: "sample_create = Inr s \<Longrightarrow> history sample_stock [[]] s"
  using history.command [OF history.start, of sample_stock "[]" s]
    attempt.create [of sample_stock "\<lambda>_ _. True" "\<lambda>_ _. True" "\<lambda>_. ''digest''" True "''transit''" "''user''" 0 "''t''" "\<lambda>_. ''l''" sample_input]
  by (simp add: sample_create_def)

lemma sample_before: "before_transfers sample_stock" "list_all names_lines_once [[]]" "names_lines_once []"
  by (simp_all add: before_transfers_def sample_stock_def names_lines_once_def)


theorem conservation_never_rejects_witness:
  "\<exists>s. sample_create = Inr s \<and> CancelTransfer (\<lambda>_ _. True) True ''user'' s ''t'' ''lost'' 0 \<noteq> Inl NotConserved"
proof -
  obtain s where s: "sample_create = Inr s" using sample_created by blast
  from conservation_never_rejects [OF sample_before(1) sample_reach [OF s] sample_before(2) attempt.cancel sample_before(3)]
  show ?thesis using s by blast
qed

section \<open>Two entries for one line\<close>

definition half_entry :: ReceiveLineInput where
  "half_entry = \<lparr>rc_LineID = ''l'', rc_ReceivedQuantity = ''0.00000002'', rc_DamagedQuantity = [], rc_Reason = ''short''\<rparr>"

definition sample_line :: TransferLine where
  "sample_line = \<lparr>ln_ID = ''l'', ln_TransferID = ''t'', ln_ProductID = ''p'', ln_VariantID = [], ln_LotID = [], ln_SerialID = [],
     ln_SourceLocationID = [], ln_DestinationLocationID = [], ln_Quantity = 5, ln_Shipped = 5, ln_Received = 0, ln_Damaged = 0\<rparr>"

definition sample_out :: "string \<Rightarrow> movement_type \<Rightarrow> direction \<Rightarrow> movement_key \<Rightarrow> MovementInput" where
  "sample_out w ty d k = movementForTransfer w [] sample_line ty d ''0.00000005'' ''user'' k transfer_text"

lemma sample_shipped:
  obtains s where "sample_create = Inr s" "st_Lines s = [sample_line]"
    "st_Transfers s = [''t'' \<mapsto> \<lparr>tf_SourceWarehouseID = ''shop'', tf_DestinationWarehouseID = ''depot'', tf_TransitWarehouseID = ''transit'',
       tf_Quick = False, tf_State = IN_TRANSIT, tf_Version = 3\<rparr>]"
    "st_Movements s = [sample_out ''shop'' TRANSFER_OUT OUT (ShipOut ''t'' ''l''), sample_out ''transit'' TRANSFER_IN IN (TransitIn ''t'' ''l'')]"
    "st_Positions s (sample_position ''transit'') = Some (5, 5)" "st_Positions s (sample_position ''depot'') = None"
    "st_Resolutions s = []" "st_SystemTransit s = (\<lambda>w. w = ''transit'')"
proof -
  have "\<exists>s. sample_create = Inr s \<and> st_Lines s = [sample_line] \<and> 
    st_Transfers s = [''t'' \<mapsto> \<lparr>tf_SourceWarehouseID = ''shop'', tf_DestinationWarehouseID = ''depot'', tf_TransitWarehouseID = ''transit'',
       tf_Quick = False, tf_State = IN_TRANSIT, tf_Version = 3\<rparr>] \<and>
    st_Movements s = [sample_out ''shop'' TRANSFER_OUT OUT (ShipOut ''t'' ''l''), sample_out ''transit'' TRANSFER_IN IN (TransitIn ''t'' ''l'')] \<and>
    st_Positions s (sample_position ''transit'') = Some (5, 5) \<and> st_Positions s (sample_position ''depot'') = None \<and>
    st_Resolutions s = [] \<and> st_SystemTransit s = (\<lambda>w. w = ''transit'')"
  using sample_free
  by (simp add: sample_create_def CreateTransfer_def sample_input_def sample_stock_def sample_texts reserveTransferCreateCommand_def insert_ignore_def
    new_row_def complete_create_def complete_row_def create_lines_def sample_quantity sample_units new_line_def sample_line_def sample_out_def
    postWorkflowShipmentTx_def set_state_def reserveTransferLinesTx_def stable_sort_def lines_of_def source_position_def sample_position_def
    set_position_def consumeTransferReservationsTx_def active_reservations_def ship_leg_def transfer_out_def transfer_in_def
    movementForTransfer_def postMovementTx_def transfer_guard_def line_of_def moved_def mv_units_def project_def update_line_def line_check_def
    commit_def conserved_def conserved_line_def Let_def)
  then show thesis using that by blast
qed

lemma half_texts: "parseNonNegative ''0.00000002'' = Some ''0.00000002''" "cleanQuantity ''0.00000002'' True = Some ''0.00000002''"
  "qtext 2 = ''0.00000002''" "trim_space [] = []" "trim_space ''short'' = ''short''"
  by code_simp+

lemma half_denotes: "denotes ''0.00000002'' 2" "units ''0.00000002'' = 2" "units ''0'' = 0"
  using denotes_qtext [of 2] units_qtext [of 2] units_denotes [OF denotes_zero] unfolding half_texts(3) by simp_all

lemma half_remaining:
  assumes "denotes resolved 0"
  shows "decimalCompare (decimalAdd ''0.00000002'' ''0'') (remaining_text (sample_line, resolved)) < 0"
proof -
  have "denotes (remaining_text (sample_line, resolved)) ((5 - 0) - max 0 0)"
    using assms by (simp only: remaining_text_def fst_conv snd_conv sample_line_def TransferLine.select_convs)
      (intro decimalSub_denotes decimalMax_denotes denotes_qtext)
  from decimalCompare_denotes(1) [OF decimalAdd_denotes [OF half_denotes(1) denotes_zero] this] show ?thesis by simp
qed

text \<open>
  Why the hypothesis is needed: a receipt with two equal entries for one line counts both, 4 of the 5 units shipped, but moves
  one of them, since the second movement carries the key of the first and is taken for its repetition.
\<close>

lemma duplicate_entries_unbalance:
  "\<exists>s s' l. sample_create = Inr s
     \<and> receiveTransferWithKey (\<lambda>_ _. True) (\<lambda>_ _ _. ''digest'') True ''user'' 0 s ''t'' 0 [half_entry, half_entry] [] = Inr s'
     \<and> st_Lines s' = [l] \<and> ln_Received l = 4 \<and> moved s' ''t'' ''l'' {''transit''} OUT {TRANSFER_OUT} = 2"
proof -
  obtain s where s: "sample_create = Inr s" "st_Lines s = [sample_line]"
    "st_Transfers s = [''t'' \<mapsto> \<lparr>tf_SourceWarehouseID = ''shop'', tf_DestinationWarehouseID = ''depot'', tf_TransitWarehouseID = ''transit'',
       tf_Quick = False, tf_State = IN_TRANSIT, tf_Version = 3\<rparr>]"
    "st_Movements s = [sample_out ''shop'' TRANSFER_OUT OUT (ShipOut ''t'' ''l''), sample_out ''transit'' TRANSFER_IN IN (TransitIn ''t'' ''l'')]"
    "st_Positions s (sample_position ''transit'') = Some (5, 5)" "st_Positions s (sample_position ''depot'') = None"
    "st_Resolutions s = []" "st_SystemTransit s = (\<lambda>w. w = ''transit'')"
    by (rule sample_shipped)
  have remaining: "decimalCompare (decimalAdd ''0.00000002'' ''0'') (remaining_text (sample_line, resolved_text s ''l'')) < 0"
    using resolved_text_denotes [of s "''l''"] s(7) by (intro half_remaining) (simp add: resolved_quantity_def)
  have pos: "decimalCompare ''0.00000002'' ''0'' > 0" "\<not> decimalCompare ''0'' ''0'' > 0"
    using decimalCompare_denotes(3) [OF half_denotes(1) denotes_zero] decimalCompare_denotes(3) [OF denotes_zero denotes_zero] by simp_all
  have "\<exists>s' l. receiveTransferWithKey (\<lambda>_ _. True) (\<lambda>_ _ _. ''digest'') True ''user'' 0 s ''t'' 0 [half_entry, half_entry] [] = Inr s'
     \<and> st_Lines s' = [l] \<and> ln_Received l = 4 \<and> moved s' ''t'' ''l'' {''transit''} OUT {TRANSFER_OUT} = 2"
    using remaining pos s(5,6)
    by (simp add: receiveTransferWithKey_def s reserveTransferReceiveCommand_def half_texts half_denotes half_entry_def receive_entry_def
       line_snapshot_def lines_of_def sample_line_def receive_moves_def sample_out_def sample_units sample_position_def
       postMovementTx_def movementForTransfer_def transfer_guard_def line_of_def moved_def mv_units_def project_def set_position_def update_line_def
       line_check_def settle_state_def incomplete_def set_state_def resolved_quantity_def complete_command_def commit_def conserved_def conserved_line_def Let_def)
  then show ?thesis using s(1) by blast
qed

end
