(* ===== verification/Purchase_Common.thy ===== *)
theory Purchase_Common
  imports Allocation_Ledger Stock_Decimal
begin

text \<open>
  What the purchasing service shares between its documents (\<^verbatim>\<open>src/internal/purchasing/service.go\<close>): decimal texts and
  their validation, currency codes, the branch, warehouse and supplier guards, exchange rates, document numbers and the
  frame of an idempotent command.  The uuid package, the digest, JSON, the clock, fresh ids, the rate resolver and the
  commit are parameters; the state holds the rows of the session's company.
\<close>

section \<open>Decimal texts\<close>

fun literal_scan :: "nat \<Rightarrow> bool \<Rightarrow> string \<Rightarrow> bool" where
  "literal_scan digits dot [] = (0 < digits)"
| "literal_scan digits dot (ch # rest) =
     (if is_digit ch then literal_scan (digits + 1) dot rest
      else if ch = CHR ''.'' \<and> \<not> dot then literal_scan digits True rest
      else False)"

definition without_sign :: "string \<Rightarrow> string" where
  "without_sign value =
     (case value of [] \<Rightarrow> [] | c # cs \<Rightarrow> if c = CHR ''-'' \<or> c = CHR ''+'' then cs else value)"

definition validPurchaseDecimalLiteral :: "string \<Rightarrow> bool" where
  "validPurchaseDecimalLiteral value =
     (value \<noteq> [] \<and> without_sign value \<noteq> [] \<and> literal_scan 0 False (without_sign value))"

definition parsePurchaseDecimal :: "string \<Rightarrow> rat option" where
  "parsePurchaseDecimal value =
     (let value = trim_space value;
          unsigned = without_sign value;
          dot = length (takeWhile (\<lambda>c. c \<noteq> CHR ''.'') unsigned) in
      if value = [] \<or> \<not> validPurchaseDecimalLiteral value then None
      else if dot < length unsigned \<and> length unsigned - dot - 1 > 8 then None
      else (case rat_SetString value of
          None \<Rightarrow> None
        | Some ratio \<Rightarrow> if ratio < 0 then None else Some ratio))"

definition validPurchaseDecimal :: "string \<Rightarrow> bool \<Rightarrow> bool" where
  "validPurchaseDecimal value allowZero =
     (case parsePurchaseDecimal value of
        None \<Rightarrow> False
      | Some ratio \<Rightarrow> if \<not> allowZero \<and> ratio \<le> 0 then False else allowZero \<or> 0 < ratio)"

definition zero_text :: "string \<Rightarrow> string" where
  "zero_text value = (if trim_space value = [] then ''0'' else value)"

definition compare :: "string \<Rightarrow> string \<Rightarrow> int" where
  "compare left right =
     (case (rat_SetString (zero_text left), rat_SetString (zero_text right)) of
        (Some a, Some b) \<Rightarrow> if a < b then -1 else if a = b then 0 else 1
      | _ \<Rightarrow> 0)"

definition canonical :: "rat \<Rightarrow> string" where
  "canonical value = rat_FloatString 8 value"

definition validCurrency :: "string \<Rightarrow> bool" where
  "validCurrency value =
     (length value = 3 \<and> list_all (\<lambda>c. 65 \<le> (of_char c :: nat) \<and> (of_char c :: nat) \<le> 90) value)"

text \<open>A text or a fraction stored in a \<^verbatim>\<open>numeric(24,8)\<close> column: rounded, refused beyond sixteen digits.\<close>

definition column :: "rat \<Rightarrow> int option" where
  "column r = (let n = round_half_away (r * 10 ^ 8) in if \<bar>n\<bar> < 10 ^ 24 then Some n else None)"

definition column_text :: "string \<Rightarrow> int option" where
  "column_text s = (case rat_SetString s of None \<Rightarrow> None | Some r \<Rightarrow> column r)"

section \<open>The company's rows every document needs\<close>

datatype pur_error = ErrForbidden | ErrValidation | ErrNotFound | ErrConflict | ErrInvalidTransition
  | ErrExchangeRateUnavailable | ErrSupplierInactive | ErrLandedCostNoLines | ErrReplayUnreadable | ErrDatabase | ErrCommit
  | ErrIdempotency idem_error

record warehouse_row =
  wh_is_system :: bool
  wh_branch :: "string option"

record company_db =
  co_base_currency :: string
  co_branches :: "string \<rightharpoonup> bool" \<comment> \<open>is it active\<close>
  co_warehouses :: "string \<rightharpoonup> warehouse_row"
  co_warehouse_scopes :: "(string \<times> string) list" \<comment> \<open>user and warehouse\<close>
  co_suppliers :: "string \<rightharpoonup> bool \<times> bool" \<comment> \<open>a party: is it a supplier, is it active\<close>
  co_sequences :: "string \<times> int \<rightharpoonup> int"

record pur_env =
  pe_parse_uuid :: "string \<Rightarrow> string option"
  pe_valid_uuid :: "string \<Rightarrow> bool"
  pe_digest :: "string \<Rightarrow> string"
  pe_new_id :: "nat \<Rightarrow> string"
  pe_now :: int
  pe_year :: int
  pe_resolver :: "(string \<Rightarrow> int \<Rightarrow> string option) option"
  pe_encode :: "string \<Rightarrow> string option" \<comment> \<open>the JSON object holding an entity id\<close>
  pe_decode :: "string \<Rightarrow> string option"
  pe_commit :: bool

section \<open>Guards\<close>

definition ensurePurchaseBranch :: "'a company_db_scheme \<Rightarrow> fin_session \<Rightarrow> string \<Rightarrow> pur_error + unit" where
  "ensurePurchaseBranch db s branchID = need (co_branches db branchID = Some True \<and> in_scope s branchID) ErrForbidden"

definition ensurePurchaseReadBranch :: "'a company_db_scheme \<Rightarrow> fin_session \<Rightarrow> string \<Rightarrow> pur_error + unit" where
  "ensurePurchaseReadBranch db s branchID = need (co_branches db branchID \<noteq> None \<and> in_scope s branchID) ErrForbidden"

definition warehouse_readable :: "'a company_db_scheme \<Rightarrow> fin_session \<Rightarrow> string \<Rightarrow> string \<Rightarrow> bool" where
  "warehouse_readable db s branchID warehouseID =
     (case co_warehouses db warehouseID of
        None \<Rightarrow> False
      | Some w \<Rightarrow>
          (wh_is_system w \<or> wh_branch w = None \<or> wh_branch w = Some branchID)
          \<and> (wh_is_system w
             \<or> ((case wh_branch w of None \<Rightarrow> True | Some b \<Rightarrow> in_scope s b)
                \<and> ((\<forall>(u, x) \<in> set (co_warehouse_scopes db). u \<noteq> fs_UserID s)
                   \<or> (fs_UserID s, warehouseID) \<in> set (co_warehouse_scopes db)))))"

definition ensurePurchaseReadScope :: "'a company_db_scheme \<Rightarrow> fin_session \<Rightarrow> string \<Rightarrow> string \<Rightarrow> pur_error + unit" where
  "ensurePurchaseReadScope db s branchID warehouseID =
     bindE (ensurePurchaseReadBranch db s branchID) (\<lambda>_.
       if trim_space warehouseID = [] then Inr ()
       else need (warehouse_readable db s branchID warehouseID) ErrForbidden)"

definition ensureSupplier :: "pur_env \<Rightarrow> 'a company_db_scheme \<Rightarrow> string \<Rightarrow> pur_error + unit" where
  "ensureSupplier env db supplierID =
     bindE (found (pe_parse_uuid env supplierID) ErrDatabase) (\<lambda>supplierID.
       (case co_suppliers db supplierID of
          None \<Rightarrow> Inl ErrForbidden
        | Some (supplier, active) \<Rightarrow>
            if \<not> supplier then Inl ErrForbidden else need active ErrSupplierInactive))"

text \<open>The rate of a document: resolved for its day, or taken from the client when no resolver is wired.\<close>

definition ensureExchangeRate :: "pur_env \<Rightarrow> 'a company_db_scheme \<Rightarrow> string \<Rightarrow> int \<Rightarrow> string \<Rightarrow> pur_error + string" where
  "ensureExchangeRate env db currency on target =
     (let currency = to_upper (trim_space currency) in
      bindE (case pe_resolver env of
               Some ResolveRate \<Rightarrow> found (ResolveRate currency on) ErrExchangeRateUnavailable
             | None \<Rightarrow> bindE (need (equal_fold currency (co_base_currency db)) ErrExchangeRateUnavailable) (\<lambda>_. Inr target))
        (\<lambda>target.
          let target = trim_space target;
              target = (if target = [] then ''1'' else target) in
          bindE (need (validPurchaseDecimal target False \<and> 0 < compare target ''0'') ErrValidation) (\<lambda>_. Inr target)))"

section \<open>Document numbers\<close>

definition lpad :: "nat \<Rightarrow> string \<Rightarrow> string" where \<comment> \<open>SQL \<^verbatim>\<open>lpad(s, n, '0')\<close>, which also cuts a longer text\<close>
  "lpad n s = (if length s < n then replicate (n - length s) (CHR ''0'') @ s else take n s)"

definition sequence_prefix :: "string \<Rightarrow> string" where
  "sequence_prefix kind =
     (case map_of [(''SALES_QUOTE'', ''TKL''), (''SALES_ORDER'', ''SIP''), (''SALES_DELIVERY'', ''IRS''),
        (''SALES_INVOICE'', ''FTR''), (''SALES_RETURN_INVOICE'', ''IAD''), (''PURCHASE_ORDER'', ''ASIP''),
        (''PURCHASE_DELIVERY'', ''AIRS''), (''PURCHASE_INVOICE'', ''AFTR''), (''PURCHASE_RETURN_INVOICE'', ''AIAD'')] kind of
        None \<Rightarrow> ''BEL'' | Some p \<Rightarrow> p)"

definition allocate_commercial_document_number :: "string \<Rightarrow> int \<Rightarrow> 'a company_db_scheme \<Rightarrow> ('a company_db_scheme \<times> string) option" where
  "allocate_commercial_document_number kind year db =
     (if year < 2000 \<or> 9999 < year then None
      else
        let allocated = (case co_sequences db (kind, year) of None \<Rightarrow> 1 | Some n \<Rightarrow> n) in
        Some (db\<lparr>co_sequences := (co_sequences db)((kind, year) \<mapsto> allocated + 1)\<rparr>,
              sequence_prefix kind @ ''-'' @ dec_of_nat (nat year) @ ''-'' @ lpad 6 (dec_of_nat (nat allocated))))"

definition number :: "string \<Rightarrow> string \<Rightarrow> int \<Rightarrow> 'a company_db_scheme \<Rightarrow> pur_error + 'a company_db_scheme \<times> string" where
  "number kind supplied year db =
     (if trim_space supplied \<noteq> [] then Inr (db, trim_space supplied)
      else found (allocate_commercial_document_number kind year db) ErrDatabase)"

text \<open>The millionth number of a year repeats the hundred thousandth.\<close>

lemma document_number_repeats:
  assumes "2000 \<le> year" "year \<le> 9999" "co_sequences db (kind, year) = Some 100000" "co_sequences db' (kind, year) = Some 1000000"
  shows "map_option snd (allocate_commercial_document_number kind year db)
    = map_option snd (allocate_commercial_document_number kind year db')"
  using assms by (simp add: allocate_commercial_document_number_def lpad_def dec_of_nat.simps)

section \<open>Commands\<close>

text \<open>
  The frame from \<^verbatim>\<open>reserveCommand\<close> to the commit.  The body runs on the company's rows; a refused command rolls
  back.  A replay reads the entity of the first run.
\<close>

definition reserveCommand :: "pur_env \<Rightarrow> fin_session \<Rightarrow> string \<Rightarrow> string \<Rightarrow> string \<Rightarrow> idem_table \<Rightarrow>
    pur_error + idem_table \<times> string option" where
  "reserveCommand env s key command payload t =
     (let (t, r) = ReserveTx (pe_parse_uuid env) (pe_digest env) t (fs_CompanyID s) key command payload in
      case r of
        Inl e \<Rightarrow> Inl (ErrIdempotency e)
      | Inr reservation \<Rightarrow>
          if \<not> tx_Completed reservation then Inr (t, None)
          else (case pe_decode env (tx_ResponseBody reservation) of
              None \<Rightarrow> Inl (ErrIdempotency ErrCommandInProgress)
            | Some entity \<Rightarrow>
                if pe_valid_uuid env entity then Inr (t, Some entity) else Inl (ErrIdempotency ErrCommandInProgress)))"

definition completeCommand :: "pur_env \<Rightarrow> fin_session \<Rightarrow> string \<Rightarrow> string \<Rightarrow> idem_table \<Rightarrow> pur_error + idem_table" where
  "completeCommand env s key entity t =
     (let (t, e) = CompleteTx (pe_parse_uuid env) t (fs_CompanyID s) key 201 (pe_encode env entity) (pe_now env) in
      case e of Some e \<Rightarrow> Inl (ErrIdempotency e) | None \<Rightarrow> Inr t)"

definition pur_command :: "pur_env \<Rightarrow> fin_session \<Rightarrow> string \<Rightarrow> string \<Rightarrow> string \<Rightarrow>
    ('a company_db_scheme \<Rightarrow> pur_error + 'a company_db_scheme \<times> string) \<Rightarrow>
    'a company_db_scheme \<times> idem_table \<Rightarrow> ('a company_db_scheme \<times> idem_table) \<times> (pur_error + string)" where
  "pur_command env s key command payload body w =
     (case reserveCommand env s key command payload (snd w) of
        Inl e \<Rightarrow> (w, Inl e)
      | Inr (t, Some entity) \<Rightarrow> (w, Inr entity)
      | Inr (t, None) \<Rightarrow>
          (case body (fst w) of
             Inl e \<Rightarrow> (w, Inl e)
           | Inr (db, entity) \<Rightarrow>
               (case completeCommand env s key entity t of
                  Inl e \<Rightarrow> (w, Inl e)
                | Inr t \<Rightarrow> if pe_commit env then ((db, t), Inr entity) else (w, Inl ErrCommit))))"

text \<open>Only a body that succeeded changes rows.\<close>

lemma pur_command_cases:
  assumes "pur_command env s key command payload body w = (w', r)"
  obtains "fst w' = fst w" | db e where "body (fst w) = Inr (db, e)" "fst w' = db" "r = Inr e"
  using assms by (auto simp: pur_command_def split: sum.splits option.splits prod.splits if_splits)

section \<open>What a valid decimal denotes\<close>

text \<open>A text \<^verbatim>\<open>SetString\<close> reads has no white space to trim.\<close>

lemma take_sign_plain: "take_sign s = (neg, t) \<Longrightarrow> list_all plain_char t \<Longrightarrow> list_all plain_char s"
  by (cases s) (auto simp: take_sign_def plain_char_def split: if_splits)

lemma digits_plain: "all_digits s \<Longrightarrow> list_all plain_char s"
  by (auto simp: all_digits_set list_all_iff)

lemma split_on_plain: "list_all plain_char a \<Longrightarrow> list_all plain_char b \<Longrightarrow> plain_char c \<Longrightarrow> split_on c s = [a, b] \<Longrightarrow> list_all plain_char s"
  by (drule split_on_two) simp

lemma read_mantissa_plain: "read_mantissa s = Some x \<Longrightarrow> list_all plain_char s"
proof -
  assume r: "read_mantissa s = Some x"
  then consider ip where "split_on (CHR ''.'') s = [ip]" "all_digits ip"
    | ip fp where "split_on (CHR ''.'') s = [ip, fp]" "all_digits ip" "all_digits fp"
    unfolding read_mantissa_def by (auto split: list.splits if_splits)
  then show ?thesis
    by cases (auto dest: split_on_singleton digits_plain intro: split_on_plain [where c = "CHR ''.''"] simp: plain_char_def)
qed

lemma read_decimal_plain: "read_decimal s = Some r \<Longrightarrow> list_all plain_char s"
proof -
  assume r: "read_decimal s = Some r"
  obtain neg body where b: "take_sign s = (neg, body)" by fastforce
  define mant where "mant = takeWhile (\<lambda>c. c \<noteq> CHR ''e'' \<and> c \<noteq> CHR ''E'') body"
  define rest where "rest = drop (length mant) body"
  have body: "body = mant @ rest" by (metis append_take_drop_id mant_def rest_def takeWhile_eq_take)
  have r': "(case read_mantissa mant of None \<Rightarrow> None | Some (ip, fp) \<Rightarrow>
      (case (if rest = [] then Some 0 else read_exponent (tl rest)) of None \<Rightarrow> None
       | Some e \<Rightarrow> Some ((if neg then -1 else 1) * of_nat (nat_of_dec (ip @ fp)) * pow10_rat (e - int (length fp))))) = Some r"
    using r unfolding read_decimal_def b Let_def prod.case mant_def [symmetric] rest_def [symmetric] .
  have m: "\<exists>x. read_mantissa mant = Some x"
    using r' by (cases "read_mantissa mant") simp_all
  have m': "rest \<noteq> [] \<Longrightarrow> \<exists>e. read_exponent (tl rest) = Some e"
    using r' by (cases "read_mantissa mant"; cases "read_exponent (tl rest)") (simp_all add: prod.case_eq_if)
  have "rest = [] \<or> list_all plain_char rest"
  proof (cases rest)
    case (Cons c t)
    have "rest = dropWhile (\<lambda>c. c \<noteq> CHR ''e'' \<and> c \<noteq> CHR ''E'') body"
      unfolding rest_def mant_def by (rule dropWhile_eq_drop [symmetric])
    then have "dropWhile (\<lambda>c. c \<noteq> CHR ''e'' \<and> c \<noteq> CHR ''E'') body = c # t" using Cons by simp
    from this [THEN dropWhile_eq_Cons_conv [THEN iffD1]] have c: "c = CHR ''e'' \<or> c = CHR ''E''" by blast
    obtain e where "read_exponent t = Some e" using m' Cons by auto
    then obtain n' t' where "take_sign t = (n', t')" "all_digits t'"
      unfolding read_exponent_def by (auto split: prod.splits if_splits)
    then have "list_all plain_char t" by (metis take_sign_plain digits_plain)
    then show ?thesis using c Cons by (auto simp: plain_char_def)
  qed simp
  then show ?thesis using m b by (intro take_sign_plain [OF b]) (auto simp: body dest: read_mantissa_plain)
qed

lemma rat_SetString_plain: "rat_SetString s = Some r \<Longrightarrow> list_all plain_char s \<and> s \<noteq> []"
proof -
  assume r: "rat_SetString s = Some r"
  then consider x where "split_on (CHR ''/'') s = [x]" "read_decimal s = Some r"
    | a b where "split_on (CHR ''/'') s = [a, b]" "read_fraction a b = Some r"
    unfolding rat_SetString_def by (auto split: list.splits)
  then have "list_all plain_char s"
  proof cases
    case 2
    obtain neg ds where t: "take_sign a = (neg, ds)" by fastforce
    with 2(2) have "all_digits ds" "all_digits b" unfolding read_fraction_def by (auto split: if_splits)
    then show ?thesis
      by (intro split_on_plain [OF _ _ _ 2(1)] take_sign_plain [OF t] digits_plain) (auto simp: plain_char_def)
  qed (rule read_decimal_plain)
  moreover have "rat_SetString [] = None"
    by (simp add: rat_SetString_def read_decimal_def take_sign_def read_mantissa_def)
  ultimately show ?thesis using r by auto
qed

lemma rat_SetString_trim: "rat_SetString s = Some r \<Longrightarrow> trim_space s = s"
  using rat_SetString_plain [of s r] by (intro trim_space_plain) (auto simp: list_all_iff)

text \<open>A literal of at most eight decimals lies on the grid of the columns.\<close>

lemma literal_scan_shape:
  "literal_scan d dot s \<Longrightarrow> if dot then all_digits s else all_digits s \<or> (\<exists>ip fp. s = ip @ CHR ''.'' # fp \<and> all_digits ip \<and> all_digits fp)"
proof (induction d dot s rule: literal_scan.induct)
  case (2 d dot ch rest)
  show ?case
  proof (cases "is_digit ch")
    case True
    with 2(1,3) have IH: "if dot then all_digits rest else all_digits rest \<or> (\<exists>ip fp. rest = ip @ CHR ''.'' # fp \<and> all_digits ip \<and> all_digits fp)"
      by simp
    show ?thesis
    proof (cases "dot \<or> all_digits rest")
      case False
      then obtain ip fp where "rest = ip @ CHR ''.'' # fp" "all_digits ip" "all_digits fp" using IH by auto
      then have "ch # rest = (ch # ip) @ CHR ''.'' # fp" "all_digits (ch # ip)" using True by simp_all
      then have "\<exists>ip fp. ch # rest = ip @ CHR ''.'' # fp \<and> all_digits ip \<and> all_digits fp"
        using \<open>all_digits fp\<close> by (intro exI conjI)
      then show ?thesis using False by simp
    qed (use True IH in \<open>auto split: if_splits\<close>)
  next
    case False
    then have "ch = CHR ''.''" "\<not> dot" "literal_scan d True rest" using 2(3) by (auto split: if_splits)
    then have "all_digits rest" using 2(2) False by simp
    then show ?thesis using \<open>ch = CHR ''.''\<close> \<open>\<not> dot\<close> by (auto intro: exI [of _ "[]"])
  qed
qed simp

lemma digits_no_point: "all_digits s \<Longrightarrow> c \<notin> set s" if "\<not> is_digit c"
  using that by (auto simp: all_digits_set)

lemma SetString_literal:
  assumes "validPurchaseDecimalLiteral v" "\<not> (length (takeWhile (\<lambda>c. c \<noteq> CHR ''.'') (without_sign v)) < length (without_sign v)
    \<and> length (without_sign v) - length (takeWhile (\<lambda>c. c \<noteq> CHR ''.'') (without_sign v)) - 1 > 8)"
  shows "\<exists>n. denotes v n \<or> rat_SetString v = None"
proof -
  define body where "body = without_sign v"
  have nd: "\<not> is_digit (CHR ''.'')" "\<not> is_digit (CHR ''/'')" "\<not> is_digit (CHR ''e'')" "\<not> is_digit (CHR ''E'')"
    "\<not> is_digit (CHR ''-'')" "\<not> is_digit (CHR ''+'')" by (simp_all add: is_digit_def)
  from assms(1) have ne: "body \<noteq> []" "all_digits body \<or> (\<exists>ip fp. body = ip @ CHR ''.'' # fp \<and> all_digits ip \<and> all_digits fp)"
    using literal_scan_shape [of 0 False body] by (auto simp: validPurchaseDecimalLiteral_def body_def)
  then obtain ip fp where m: "read_mantissa body = Some (ip, fp) \<or> read_mantissa body = None" "length fp \<le> 8"
    and chars: "CHR ''/'' \<notin> set body" "CHR ''e'' \<notin> set body" "CHR ''E'' \<notin> set body"
  proof (elim disjE exE conjE)
    assume "all_digits body"
    then show thesis using ne(1) nd
      by (intro that [of body "[]"]) (simp_all add: read_mantissa_def split_on_no_sep digits_no_point)
  next
    fix ip fp assume b: "body = ip @ CHR ''.'' # fp" "all_digits ip" "all_digits fp"
    then have "split_on (CHR ''.'') body = [ip, fp]" using nd by (simp add: split_on_sep split_on_no_sep digits_no_point)
    moreover have "takeWhile (\<lambda>c. c \<noteq> CHR ''.'') body = ip"
      unfolding b(1) by (subst takeWhile_append2) (use b(2) nd in \<open>auto simp: all_digits_set\<close>)
    ultimately show thesis using assms(2) b nd unfolding body_def [symmetric]
      by (intro that [of ip fp]) (auto simp: read_mantissa_def digits_no_point)
  qed
  obtain neg where sg: "take_sign v = (neg, body)" using ne(1)
    by (auto simp: take_sign_def body_def without_sign_def split: list.splits if_splits)
  have "set v \<subseteq> {CHR ''-'', CHR ''+''} \<union> set body"
    using sg by (cases v) (auto simp: take_sign_def split: if_splits)
  then have "CHR ''/'' \<notin> set v" using chars by auto
  then have sp: "split_on (CHR ''/'') v = [v]" by (rule split_on_no_sep)
  have tw: "takeWhile (\<lambda>c. c \<noteq> CHR ''e'' \<and> c \<noteq> CHR ''E'') body = body"
    using chars by (auto simp: takeWhile_eq_all_conv)
  have frac: "c = a * b \<Longrightarrow> a \<noteq> 0 \<Longrightarrow> c \<noteq> 0 \<Longrightarrow> 1 / a = b / c" for a b c :: rat by (simp add: field_simps)
  have p: "pow10_rat (0 - int (length fp)) = 10 ^ (8 - length fp) / 10 ^ 8"
  proof -
    have "(10 :: rat) ^ 8 = 10 ^ length fp * 10 ^ (8 - length fp)" using m(2) by (simp add: power_add [symmetric])
    then have "1 / 10 ^ length fp = (10 ^ (8 - length fp) / 10 ^ 8 :: rat)"
      by (intro frac) simp_all
    then show ?thesis unfolding pow10_rat_def by simp
  qed
  define n :: int where "n = (if neg then -1 else 1) * int (nat_of_dec (ip @ fp)) * 10 ^ (8 - length fp)"
  from m(1) show ?thesis
  proof
    assume "read_mantissa body = Some (ip, fp)"
    then have "rat_SetString v = Some (of_int n / 10 ^ 8)"
      unfolding rat_SetString_def sp read_decimal_def using p by (simp add: sg tw n_def)
    then show ?thesis by (auto simp: denotes_def)
  qed (simp add: rat_SetString_def sp read_decimal_def sg tw)
qed

text \<open>A positive amount that passed the guards is a positive column value.\<close>

lemma compare_zero: "0 < compare s ''0'' \<longleftrightarrow> (\<exists>r. rat_SetString (zero_text s) = Some r \<and> 0 < r)"
proof -
  have "rat_SetString (zero_text ''0'') = Some 0" by code_simp
  then show ?thesis by (auto simp: compare_def split: option.split)
qed

lemma compare_zero_text [simp]: "compare (zero_text s) t = compare s t"
proof -
  have "zero_text ''0'' = ''0''" by code_simp
  then show ?thesis by (simp add: compare_def zero_text_def)
qed

lemma valid_amount:
  assumes "validPurchaseDecimal s allow" "0 < compare s ''0''"
  obtains n where "denotes s n" "0 < n"
proof -
  from assms(1) obtain r where p: "parsePurchaseDecimal s = Some r"
    by (auto simp: validPurchaseDecimal_def split: option.splits)
  then have ne: "trim_space s \<noteq> []" by (auto simp: parsePurchaseDecimal_def Let_def split: if_splits)
  then obtain q where q: "rat_SetString s = Some q" "0 < q" using assms(2) by (auto simp: compare_zero zero_text_def)
  then have t: "trim_space s = s" by (intro rat_SetString_trim)
  from p have "\<exists>n. denotes s n \<or> rat_SetString s = None"
    unfolding parsePurchaseDecimal_def Let_def t by (intro SetString_literal) (auto split: if_splits)
  then obtain n where n: "denotes s n" using q by auto
  then have "q = of_int n / 10 ^ 8" using q by (simp add: denotes_def)
  then have "0 < n" using q(2) by (simp add: zero_less_divide_iff)
  with n show thesis by (rule that)
qed

lemma column_grid: "column (of_int n / 10 ^ 8) = (if \<bar>n\<bar> < 10 ^ 24 then Some n else None)"
  by (simp add: column_def Let_def)

lemma column_text_denotes: "denotes s n \<Longrightarrow> column_text s = (if \<bar>n\<bar> < 10 ^ 24 then Some n else None)"
  unfolding column_text_def denotes_def by (simp only: option.case column_grid)

end
