(* ===== verification/Landed_Cost.thy ===== *)
theory Landed_Cost
  imports Purchase_Common Apportion "HOL-Library.Code_Target_Nat"
begin

text \<open>
  Landed costs (\<^verbatim>\<open>src/internal/purchasing/landed_cost.go\<close>): a freight or customs charge is split over the lines of a goods
  receipt when the document is drafted, and posted as cost adjustments of the stock layers those lines opened.  Quantities
  and amounts are \<^verbatim>\<open>numeric(24,8)\<close> columns, counted in hundred-millionths.  The rows' own uuids, except a document's, are
  not kept; a primary key that is already taken is a database error.
\<close>

section \<open>Rows\<close>

record LandedCostInput =
  lci_DocumentNo :: string
  lci_GoodsReceiptID :: string
  lci_SupplierID :: string
  lci_Description :: string
  lci_Amount :: string
  lci_Currency :: string
  lci_ExchangeRate :: string
  lci_AllocationMethod :: string

record receipt_line =
  rl_ID :: string
  rl_accepted :: int
  rl_unit_cost :: int

record goods_receipt =
  gr_branch :: string
  gr_warehouse :: string \<comment> \<open>empty when it has none\<close>
  gr_status :: string
  gr_date :: int
  gr_lines :: "receipt_line list" \<comment> \<open>by \<^verbatim>\<open>line_no\<close>\<close>

record LandedCost =
  lc_DocumentNo :: string
  lc_GoodsReceiptID :: string
  lc_SupplierID :: "string option"
  lc_Description :: string
  lc_Amount :: int
  lc_Currency :: string
  lc_ExchangeRate :: int
  lc_AllocationMethod :: string
  lc_Status :: string
  lc_PostedAt :: "int option"
  lc_CreatedBy :: string
  lc_UpdatedBy :: string
  lc_Version :: int

record LandedCostLine =
  ll_landed_cost :: string
  ll_GoodsReceiptLineID :: string
  ll_allocated :: int
  ll_base_allocated :: int
  ll_base_currency :: string

record cost_layer =
  ly_ID :: string
  ly_source_line :: string \<comment> \<open>of the movement that opened it\<close>
  ly_direction :: string

record cost_adjustment =
  ad_layer :: string
  ad_reason :: string
  ad_amount :: int
  ad_currency :: string
  ad_base_amount :: int
  ad_base_currency :: string
  ad_source_type :: string
  ad_source :: string
  ad_created_by :: string

record cost_db = company_db +
  cd_receipts :: "string \<rightharpoonup> goods_receipt"
  cd_costs :: "(string \<times> LandedCost) list"
  cd_lines :: "LandedCostLine list"
  cd_layers :: "cost_layer list"
  cd_adjustments :: "cost_adjustment list"

definition LandedCostByAmount :: string where "LandedCostByAmount = ''BY_AMOUNT''"
definition LandedCostByQuantity :: string where "LandedCostByQuantity = ''BY_QUANTITY''"

section \<open>The split\<close>

definition line_weight :: "string \<Rightarrow> receipt_line \<Rightarrow> rat" where
  "line_weight lc_method l =
     (let quantity = of_int (rl_accepted l) / 10 ^ 8 in
      if lc_method = LandedCostByAmount then quantity * (of_int (rl_unit_cost l) / 10 ^ 8) else quantity)"

definition candidates :: "string \<Rightarrow> receipt_line list \<Rightarrow> (string \<times> rat) list" where
  "candidates lc_method ls =
     map (\<lambda>l. (rl_ID l, line_weight lc_method l)) (filter (\<lambda>l. 0 < rl_accepted l \<and> 0 < line_weight lc_method l) ls)"

definition truncate8 :: "rat \<Rightarrow> rat" where
  "truncate8 exact =
     (let scaled = exact * 10 ^ 8; q = \<bar>rat_num scaled\<bar> div rat_den scaled in
      of_int (if rat_num scaled < 0 then - q else q) / 10 ^ 8)"

text \<open>The loop over the leftover, cut off after \<open>n\<close> rounds.\<close>

definition split_rounds :: "nat \<Rightarrow> rat list \<Rightarrow> rat \<Rightarrow> rat list option" where
  "split_rounds n weights target =
     (let exact = map (\<lambda>w. target * w / sum_list weights) weights;
          shares = map truncate8 exact in
      hand_out_rounds n (1 / 10 ^ 8) shares (map2 (\<lambda>e s. e - s) exact shares) (target - sum_list shares))"

definition landedShares :: "rat list \<Rightarrow> rat \<Rightarrow> rat \<Rightarrow> rat list" where
  "landedShares weights tot target = largest_remainder truncate8 (1 / 10 ^ 8) weights tot target"

definition allocateLandedCostLinesTx :: "receipt_line list \<Rightarrow> string \<Rightarrow> string \<Rightarrow> pur_error + (string \<times> string) list" where
  "allocateLandedCostLinesTx ls amount lc_method =
     (let cands = candidates lc_method ls; tot = sum_list (map snd cands) in
      if cands = [] \<or> tot \<le> 0 then Inl ErrLandedCostNoLines
      else (case rat_SetString amount of
          None \<Rightarrow> Inl ErrValidation
        | Some target \<Rightarrow> Inr (zip (map fst cands) (map canonical (landedShares (map snd cands) tot target)))))"

section \<open>Drafting\<close>

definition normalize_input :: "LandedCostInput \<Rightarrow> LandedCostInput" where
  "normalize_input i =
     (let lc_method = to_upper (trim_space (lci_AllocationMethod i)) in
      i\<lparr>lci_Currency := to_upper (trim_space (lci_Currency i)),
        lci_AllocationMethod := (if lc_method = [] then LandedCostByAmount else lc_method)\<rparr>)"

definition input_valid :: "pur_env \<Rightarrow> LandedCostInput \<Rightarrow> bool" where
  "input_valid env i =
     (pe_valid_uuid env (trim_space (lci_GoodsReceiptID i)) \<and> validCurrency (lci_Currency i)
      \<and> (lci_AllocationMethod i = LandedCostByAmount \<or> lci_AllocationMethod i = LandedCostByQuantity)
      \<and> validPurchaseDecimal (lci_Amount i) False \<and> 0 < compare (zero_text (lci_Amount i)) ''0'')"

definition lines_of :: "cost_db \<Rightarrow> string \<Rightarrow> LandedCostLine list" where
  "lines_of db i = filter (\<lambda>l. ll_landed_cost l = i) (cd_lines db)"

text \<open>The inserts with the keys, checks and trigger of their tables.\<close>

definition insert_cost :: "string \<Rightarrow> LandedCost \<Rightarrow> cost_db \<Rightarrow> pur_error + cost_db" where
  "insert_cost i d db =
     bindE (need (map_of (cd_costs db) i = None \<and> lc_DocumentNo d \<notin> lc_DocumentNo ` snd ` set (cd_costs db)
                  \<and> 0 < lc_Amount d \<and> 0 < lc_ExchangeRate d) ErrDatabase)
       (\<lambda>_. Inr (db\<lparr>cd_costs := cd_costs db @ [(i, d)]\<rparr>))"

definition cost_status :: "cost_db \<Rightarrow> string \<Rightarrow> string option" where
  "cost_status db i = map_option lc_Status (map_of (cd_costs db) i)"

definition insert_line :: "LandedCostLine \<Rightarrow> cost_db \<Rightarrow> pur_error + cost_db" where
  "insert_line l db =
     bindE (need (cost_status db (ll_landed_cost l) = Some ''DRAFT''
                  \<and> ll_GoodsReceiptLineID l \<notin> ll_GoodsReceiptLineID ` set (lines_of db (ll_landed_cost l))
                  \<and> 0 \<le> ll_allocated l \<and> 0 \<le> ll_base_allocated l) ErrDatabase)
       (\<lambda>_. Inr (db\<lparr>cd_lines := cd_lines db @ [l]\<rparr>))"

definition base_text :: "bool \<Rightarrow> rat \<Rightarrow> string \<Rightarrow> string" where
  "base_text sameCurrency rate allocated =
     (if sameCurrency then allocated
      else (case rat_SetString allocated of None \<Rightarrow> allocated | Some alloc \<Rightarrow> canonical (alloc * rate)))"

definition usable_rate :: "rat option \<Rightarrow> rat" where
  "usable_rate r = (case r of None \<Rightarrow> 1 | Some rate \<Rightarrow> if rate \<le> 0 then 1 else rate)"

fun insert_lines :: "string \<Rightarrow> (string \<Rightarrow> string) \<Rightarrow> string \<Rightarrow> (string \<times> string) list \<Rightarrow> cost_db \<Rightarrow> pur_error + cost_db" where
  "insert_lines i base baseCurrency [] db = Inr db"
| "insert_lines i base baseCurrency ((lineID, allocated) # rest) db =
     bindE (found (column_text allocated) ErrDatabase) (\<lambda>a.
     bindE (found (column_text (base allocated)) ErrDatabase) (\<lambda>b.
     bindE (insert_line \<lparr>ll_landed_cost = i, ll_GoodsReceiptLineID = lineID, ll_allocated = a, ll_base_allocated = b,
              ll_base_currency = baseCurrency\<rparr> db) (\<lambda>db.
       insert_lines i base baseCurrency rest db)))"

text \<open>The checks up to the document's row, and the inserts.\<close>

definition draft_row :: "pur_env \<Rightarrow> fin_session \<Rightarrow> LandedCostInput \<Rightarrow> cost_db \<Rightarrow>
    pur_error + cost_db \<times> goods_receipt \<times> string \<times> LandedCost" where
  "draft_row env s input db =
     bindE (found (pe_parse_uuid env (lci_GoodsReceiptID input)) ErrDatabase) (\<lambda>receiptID.
     bindE (found (cd_receipts db receiptID) ErrNotFound) (\<lambda>receipt.
     bindE (need (gr_status receipt = ''POSTED'') ErrValidation) (\<lambda>_.
     bindE (ensureExchangeRate env db (lci_Currency input) (gr_date receipt) (lci_ExchangeRate input)) (\<lambda>exchangeRate.
     bindE (ensurePurchaseBranch db s (gr_branch receipt)) (\<lambda>_.
     bindE (if trim_space (lci_SupplierID input) \<noteq> [] then ensureSupplier env db (lci_SupplierID input) else Inr ()) (\<lambda>_.
     bindE (number ''PURCHASE_LANDED_COST'' (lci_DocumentNo input) (pe_year env) db) (\<lambda>(db, documentNo).
     bindE (found (column_text (lci_Amount input)) ErrDatabase) (\<lambda>amount.
     bindE (found (column_text exchangeRate) ErrDatabase) (\<lambda>rate.
     bindE (if lci_SupplierID input = [] then Inr None
            else bindE (found (pe_parse_uuid env (lci_SupplierID input)) ErrDatabase) (\<lambda>x. Inr (Some x))) (\<lambda>supplier.
     Inr (db, receipt, exchangeRate,
       \<lparr>lc_DocumentNo = documentNo, lc_GoodsReceiptID = receiptID, lc_SupplierID = supplier,
        lc_Description = trim_space (lci_Description input), lc_Amount = amount, lc_Currency = lci_Currency input,
        lc_ExchangeRate = rate, lc_AllocationMethod = lci_AllocationMethod input, lc_Status = ''DRAFT'',
        lc_PostedAt = None, lc_CreatedBy = fs_UserID s, lc_UpdatedBy = fs_UserID s, lc_Version = 1\<rparr>)))))))))))"

definition create_landed_cost :: "pur_env \<Rightarrow> fin_session \<Rightarrow> LandedCostInput \<Rightarrow> cost_db \<Rightarrow> pur_error + cost_db \<times> string" where
  "create_landed_cost env s input db =
     bindE (draft_row env s input db) (\<lambda>(db, receipt, exchangeRate, d).
     let i = pe_new_id env 0 in
     bindE (insert_cost i d db) (\<lambda>db.
     let baseCurrency = co_base_currency db;
         sameCurrency = equal_fold (lci_Currency input) baseCurrency in
     bindE (allocateLandedCostLinesTx (gr_lines receipt) (lci_Amount input) (lci_AllocationMethod input)) (\<lambda>lines.
     bindE (insert_lines i (base_text sameCurrency (usable_rate (rat_SetString exchangeRate))) baseCurrency lines db) (\<lambda>db.
     Inr (db, i)))))"

section \<open>Reading\<close>

definition GetLandedCost :: "pur_env \<Rightarrow> fin_session \<Rightarrow> cost_db \<Rightarrow> string \<Rightarrow> pur_error + LandedCost \<times> (string \<times> string) list" where
  "GetLandedCost env s db i =
     bindE (need (''purchase.landed_cost.manage'' \<in> set (fs_Permissions s)
                  \<or> ''purchase.landed_cost.post'' \<in> set (fs_Permissions s)) ErrForbidden) (\<lambda>_.
     bindE (found (pe_parse_uuid env i) ErrDatabase) (\<lambda>i.
     bindE (found (map_of (cd_costs db) i) ErrNotFound) (\<lambda>d.
     bindE (found (cd_receipts db (lc_GoodsReceiptID d)) ErrNotFound) (\<lambda>receipt.
     bindE (ensurePurchaseReadScope db s (gr_branch receipt) (gr_warehouse receipt)) (\<lambda>_.
     Inr (d, map (\<lambda>l. (ll_GoodsReceiptLineID l, qtext (ll_allocated l)))
               (stable_sort (\<lambda>a b. str_less (ll_GoodsReceiptLineID a) (ll_GoodsReceiptLineID b)) (lines_of db i))))))))"

section \<open>Posting\<close>

definition layer_for :: "cost_db \<Rightarrow> string \<Rightarrow> cost_layer option" where
  "layer_for db lineID = find (\<lambda>y. ly_source_line y = lineID \<and> ly_direction y = ''IN'') (cd_layers db)"

fun post_targets :: "(int \<Rightarrow> rat) \<Rightarrow> (string \<Rightarrow> int \<Rightarrow> int \<Rightarrow> cost_adjustment) \<Rightarrow> LandedCostLine list \<Rightarrow> cost_db \<Rightarrow>
    pur_error + cost_db" where
  "post_targets base row [] db = Inr db"
| "post_targets base row (t # rest) db =
     bindE (found (layer_for db (ll_GoodsReceiptLineID t)) ErrValidation) (\<lambda>layer.
     bindE (found (column_text (canonical (base (ll_allocated t)))) ErrDatabase) (\<lambda>b.
       post_targets base row rest
         (db\<lparr>cd_adjustments := cd_adjustments db @ [row (ly_ID layer) (ll_allocated t) b]\<rparr>)))"

definition set_cost :: "string \<Rightarrow> (LandedCost \<Rightarrow> LandedCost) \<Rightarrow> cost_db \<Rightarrow> cost_db" where
  "set_cost i f db = db\<lparr>cd_costs := map (\<lambda>(j, d). (j, if j = i then f d else d)) (cd_costs db)\<rparr>"

definition landed_row :: "LandedCost \<Rightarrow> string \<Rightarrow> string \<Rightarrow> string \<Rightarrow> string \<Rightarrow> int \<Rightarrow> int \<Rightarrow> cost_adjustment" where
  "landed_row d i user baseCurrency layerID allocated b =
     \<lparr>ad_layer = layerID, ad_reason = ''LANDED_COST'', ad_amount = allocated, ad_currency = lc_Currency d,
      ad_base_amount = b, ad_base_currency = baseCurrency, ad_source_type = ''PURCHASE_LANDED_COST'', ad_source = i,
      ad_created_by = user\<rparr>"

definition mark_posted :: "pur_env \<Rightarrow> string \<Rightarrow> LandedCost \<Rightarrow> LandedCost" where
  "mark_posted env user d =
     d\<lparr>lc_Status := ''POSTED'', lc_PostedAt := Some (pe_now env), lc_UpdatedBy := user, lc_Version := lc_Version d + 1\<rparr>"

definition base_allocated :: "bool \<Rightarrow> rat \<Rightarrow> int \<Rightarrow> rat" where
  "base_allocated sameCurrency rate allocated =
     (if sameCurrency then of_int allocated / 10 ^ 8 else of_int allocated / 10 ^ 8 * rate)"

definition post_landed_cost :: "pur_env \<Rightarrow> fin_session \<Rightarrow> string \<Rightarrow> int \<Rightarrow> cost_db \<Rightarrow> pur_error + cost_db \<times> string" where
  "post_landed_cost env s i0 expectedVersion db =
     bindE (found (pe_parse_uuid env i0) ErrDatabase) (\<lambda>i.
     bindE (found (map_of (cd_costs db) i) ErrNotFound) (\<lambda>d.
     bindE (found (cd_receipts db (lc_GoodsReceiptID d)) ErrNotFound) (\<lambda>receipt.
     bindE (need (lc_Status d = ''DRAFT'') ErrInvalidTransition) (\<lambda>_.
     bindE (need (gr_status receipt = ''POSTED'') ErrValidation) (\<lambda>_.
     bindE (ensurePurchaseBranch db s (gr_branch receipt)) (\<lambda>_.
     let baseCurrency = co_base_currency db;
         rate = usable_rate (Some (of_int (lc_ExchangeRate d) / 10 ^ 8));
         sameCurrency = equal_fold (lc_Currency d) baseCurrency in
     bindE (post_targets (base_allocated sameCurrency rate) (landed_row d i (fs_UserID s) baseCurrency) (lines_of db i) db) (\<lambda>db.
     bindE (need (lc_Version d = expectedVersion) ErrConflict) (\<lambda>_.
     Inr (set_cost i (mark_posted env (fs_UserID s)) db, i0)))))))))"

section \<open>Commands\<close>

definition answer_cost :: "pur_env \<Rightarrow> fin_session \<Rightarrow> (cost_db \<times> idem_table) \<times> (pur_error + string) \<Rightarrow>
    (cost_db \<times> idem_table) \<times> (pur_error + LandedCost \<times> (string \<times> string) list)" where
  "answer_cost env s r = (fst r, bindE (snd r) (GetLandedCost env s (fst (fst r))))"

definition CreateLandedCost :: "pur_env \<Rightarrow> (LandedCostInput \<Rightarrow> string) \<Rightarrow> fin_session \<Rightarrow> LandedCostInput \<Rightarrow> string \<Rightarrow>
    cost_db \<times> idem_table \<Rightarrow> (cost_db \<times> idem_table) \<times> (pur_error + LandedCost \<times> (string \<times> string) list)" where
  "CreateLandedCost env json s input key w =
     (if \<not> can (pe_parse_uuid env) s ''purchase.landed_cost.manage'' then (w, Inl ErrForbidden)
      else
        let input = normalize_input input in
        if \<not> input_valid env input then (w, Inl ErrValidation)
        else answer_cost env s (pur_command env s key ''purchasing.landed_cost.create'' (json input)
               (create_landed_cost env s input) w))"

definition PostLandedCost :: "pur_env \<Rightarrow> (string \<Rightarrow> int \<Rightarrow> string) \<Rightarrow> fin_session \<Rightarrow> string \<Rightarrow> int \<Rightarrow> string \<Rightarrow>
    cost_db \<times> idem_table \<Rightarrow> (cost_db \<times> idem_table) \<times> (pur_error + LandedCost \<times> (string \<times> string) list)" where
  "PostLandedCost env json s i expectedVersion key w =
     (if \<not> can (pe_parse_uuid env) s ''purchase.landed_cost.post'' then (w, Inl ErrForbidden)
      else answer_cost env s (pur_command env s key ''purchasing.landed_cost.post'' (json i expectedVersion)
             (post_landed_cost env s i expectedVersion) w))"

section \<open>The split is exact\<close>

lemma truncate8_eq: "0 \<le> x \<Longrightarrow> truncate8 x = of_int \<lfloor>x / (1 / 10 ^ 8)\<rfloor> * (1 / 10 ^ 8)"
proof -
  assume "0 \<le> x"
  then have "0 \<le> rat_num (x * 10 ^ 8)" by simp
  then have "truncate8 x = of_int (rat_num (x * 10 ^ 8) div rat_den (x * 10 ^ 8)) / 10 ^ 8"
    unfolding truncate8_def Let_def by (simp only: abs_of_nonneg not_less [symmetric] if_False)
  then show ?thesis by (simp add: num_div_den)
qed

interpretation lc: exact_split "1 / 10 ^ 8" "\<lambda>ws t. landedShares ws (sum_list ws) t"
  unfolding landedShares_def by (rule exact_split_largest) (simp, rule truncate8_eq)

lemma candidates_weights:
  "w \<in> set (map snd (candidates lc_method ls)) \<Longrightarrow> 0 < w"
  by (auto simp: candidates_def)

lemma sum_list_pos: "ws \<noteq> [] \<Longrightarrow> (\<And>w. w \<in> set ws \<Longrightarrow> 0 < w) \<Longrightarrow> 0 < (sum_list ws :: rat)"
proof (induction ws)
  case (Cons w ws)
  then show ?case by (cases ws) (auto intro: add_pos_pos)
qed simp

text \<open>Shares in column units, one for each candidate line.\<close>

definition proportional :: "int \<Rightarrow> rat list \<Rightarrow> int list \<Rightarrow> bool" where
  "proportional n ws as =
     (length as = length ws \<and> sum_list as = n
      \<and> (\<forall>i < length ws. 0 \<le> as ! i \<and> \<bar>of_int (as ! i) - of_int n * ws ! i / sum_list ws\<bar> < 1))"

lemma landedShares_units:
  assumes "ws \<noteq> []" "\<And>w. w \<in> set ws \<Longrightarrow> 0 < w" "0 \<le> n"
  obtains as where "landedShares ws (sum_list ws) (of_int n / 10 ^ 8) = map (\<lambda>a. of_int a / 10 ^ 8) as" "proportional n ws as"
proof -
  let ?t = "of_int n / 10 ^ 8 :: rat" and ?xs = "landedShares ws (sum_list ws) (of_int n / 10 ^ 8)"
  have "0 < sum_list ws" using assms(1,2) by (rule sum_list_pos)
  then have sp: "splittable (1 / 10 ^ 8) ws ?t" using assms by (auto simp: splittable_def less_imp_le)
  define as where "as = map (\<lambda>x. \<lfloor>x * 10 ^ 8\<rfloor>) ?xs"
  have len: "length ?xs = length ws" by (rule lc.split_length [OF sp])
  have grid: "?xs ! i = of_int (as ! i) / 10 ^ 8" if "i < length ws" for i
    using lc.share_grid [OF sp that] that len by (auto simp: as_def)
  have eq: "?xs = map (\<lambda>a. of_int a / 10 ^ 8) as"
    using grid len by (intro nth_equalityI) (simp_all add: as_def)
  have "sum_list (map (\<lambda>a. of_int a / 10 ^ 8) as) = (of_int (sum_list as) / 10 ^ 8 :: rat)"
    by (induction as) (simp_all add: add_divide_distrib)
  then have "of_int (sum_list as) / 10 ^ 8 = ?t" using lc.split_sum [OF sp] eq by simp
  then have sum: "sum_list as = n" by simp
  have "0 \<le> as ! i \<and> \<bar>of_int (as ! i) - of_int n * ws ! i / sum_list ws\<bar> < 1" if i: "i < length ws" for i
  proof
    show "0 \<le> as ! i" using lc.share_nonneg [OF sp i] grid [OF i] by (simp add: zero_le_divide_iff)
    have "of_int (as ! i) - of_int n * ws ! i / sum_list ws = (of_int (as ! i) / 10 ^ 8 - ?t * ws ! i / sum_list ws) * 10 ^ 8"
      by (simp add: left_diff_distrib)
    then have "\<bar>of_int (as ! i) - of_int n * ws ! i / sum_list ws\<bar> = \<bar>of_int (as ! i) / 10 ^ 8 - ?t * ws ! i / sum_list ws\<bar> * 10 ^ 8"
      by (simp only: abs_mult) simp
    also have "\<dots> < 1 / 10 ^ 8 * 10 ^ 8"
      using lc.share_near [OF sp i] unfolding grid [OF i] by (rule mult_strict_right_mono) simp
    finally show "\<bar>of_int (as ! i) - of_int n * ws ! i / sum_list ws\<bar> < 1" by simp
  qed
  then have "proportional n ws as" using len sum by (simp add: proportional_def as_def)
  with eq show thesis by (rule that)
qed

lemma canonical_units: "canonical (of_int a / 10 ^ 8) = qtext a"
  unfolding canonical_def qtext_def by (rule FloatString_scaled)

lemma allocate_exact:
  assumes "allocateLandedCostLinesTx ls amount lc_method = Inr lines" "denotes amount n" "0 \<le> n"
  obtains as where "lines = zip (map fst (candidates lc_method ls)) (map qtext as)"
    "proportional n (map snd (candidates lc_method ls)) as"
proof -
  let ?c = "candidates lc_method ls"
  have l: "?c \<noteq> []" "lines = zip (map fst ?c) (map canonical (landedShares (map snd ?c) (sum_list (map snd ?c)) (of_int n / 10 ^ 8)))"
    using assms(1,2) by (auto simp: allocateLandedCostLinesTx_def Let_def denotes_def split: if_splits)
  obtain as where as: "landedShares (map snd ?c) (sum_list (map snd ?c)) (of_int n / 10 ^ 8) = map (\<lambda>a. of_int a / 10 ^ 8) as"
      "proportional n (map snd ?c) as"
    by (rule landedShares_units [of "map snd ?c" n]) (use l candidates_weights [of _ lc_method ls] assms(3) in auto)
  have "map canonical (map (\<lambda>a. of_int a / 10 ^ 8) as) = map qtext as"
    by (simp only: map_map o_def canonical_units)
  with l(2) have "lines = zip (map fst ?c) (map qtext as)" unfolding as(1) by (simp only:)
  then show thesis using as(2) by (rule that)
qed

section \<open>What the operations change\<close>

lemma column_text_qtext: "column_text (qtext a) = (if \<bar>a\<bar> < 10 ^ 24 then Some a else None)"
  by (rule column_text_denotes) simp

lemma insert_lines_Inr:
  assumes "insert_lines i base bc lines db = Inr db'"
  obtains new where "db' = db\<lparr>cd_lines := cd_lines db @ new\<rparr>"
    "list_all2 (\<lambda>(lineID, tx) l. ll_landed_cost l = i \<and> ll_GoodsReceiptLineID l = lineID \<and> column_text tx = Some (ll_allocated l)
       \<and> column_text (base tx) = Some (ll_base_allocated l)) lines new"
  using assms
proof (induction lines arbitrary: db thesis)
  case Nil
  then show ?case by (auto intro: Nil(1) [of "[]"])
next
  case (Cons x rest)
  obtain lineID tx where x: "x = (lineID, tx)" by fastforce
  obtain a b db1 where s: "column_text tx = Some a" "column_text (base tx) = Some b"
    "insert_line \<lparr>ll_landed_cost = i, ll_GoodsReceiptLineID = lineID, ll_allocated = a, ll_base_allocated = b, ll_base_currency = bc\<rparr> db = Inr db1"
    "insert_lines i base bc rest db1 = Inr db'"
    using Cons.prems(2) by (auto simp: x bindE_Inr_iff)
  obtain new where n: "db' = db1\<lparr>cd_lines := cd_lines db1 @ new\<rparr>"
    "list_all2 (\<lambda>(lineID, tx) l. ll_landed_cost l = i \<and> ll_GoodsReceiptLineID l = lineID \<and> column_text tx = Some (ll_allocated l)
       \<and> column_text (base tx) = Some (ll_base_allocated l)) rest new"
    by (rule Cons.IH [OF _ s(4)])
  have "db1 = db\<lparr>cd_lines := cd_lines db @ [\<lparr>ll_landed_cost = i, ll_GoodsReceiptLineID = lineID, ll_allocated = a,
      ll_base_allocated = b, ll_base_currency = bc\<rparr>]\<rparr>"
    using s(3) by (auto simp: insert_line_def bindE_Inr_iff)
  then show ?case using n s(1,2) x by (intro Cons.prems(1) [of "_ # new"]) auto
qed

lemma post_targets_Inr:
  assumes "post_targets base row targets db = Inr db'"
  obtains new where "db' = db\<lparr>cd_adjustments := cd_adjustments db @ new\<rparr>"
    "list_all2 (\<lambda>t a. \<exists>y b. layer_for db (ll_GoodsReceiptLineID t) = Some y \<and> column_text (canonical (base (ll_allocated t))) = Some b
       \<and> a = row (ly_ID y) (ll_allocated t) b) targets new"
  using assms
proof (induction targets arbitrary: db thesis)
  case Nil
  then show ?case by (auto intro: Nil(1) [of "[]"])
next
  case (Cons t rest)
  obtain y b where s: "layer_for db (ll_GoodsReceiptLineID t) = Some y" "column_text (canonical (base (ll_allocated t))) = Some b"
    "post_targets base row rest (db\<lparr>cd_adjustments := cd_adjustments db @ [row (ly_ID y) (ll_allocated t) b]\<rparr>) = Inr db'"
    using Cons.prems(2) by (auto simp: bindE_Inr_iff)
  have lf: "layer_for (db\<lparr>cd_adjustments := x\<rparr>) = layer_for db" for x by (simp add: layer_for_def fun_eq_iff)
  obtain new where n: "db' = db\<lparr>cd_adjustments := (cd_adjustments db @ [row (ly_ID y) (ll_allocated t) b]) @ new\<rparr>"
    "list_all2 (\<lambda>t a. \<exists>y b. layer_for db (ll_GoodsReceiptLineID t) = Some y \<and> column_text (canonical (base (ll_allocated t))) = Some b
       \<and> a = row (ly_ID y) (ll_allocated t) b) rest new"
    by (rule Cons.IH [OF _ s(3)]) (simp add: lf)
  then show ?case using s by (intro Cons.prems(1) [of "_ # new"]) auto
qed

text \<open>The company's rows a number may change are not among the documents.\<close>

lemma number_Inr:
  assumes "number kind supplied year db = Inr (db', n)"
  obtains q where "db' = (db :: cost_db)\<lparr>co_sequences := q\<rparr>"
proof -
  have "db' = db \<or> (\<exists>x. db' = db\<lparr>co_sequences := x\<rparr>)"
    using assms by (auto simp: number_def allocate_commercial_document_number_def Let_def split: if_splits)
  then show thesis using that [of "co_sequences db"] that by auto
qed

lemma draft_row_Inr:
  assumes "draft_row env s input db = Inr (db', receipt, rate, d)"
  shows "\<exists>receiptID. pe_parse_uuid env (lci_GoodsReceiptID input) = Some receiptID \<and> cd_receipts db receiptID = Some receipt
      \<and> lc_GoodsReceiptID d = receiptID"
    "gr_status receipt = ''POSTED''" "column_text (lci_Amount input) = Some (lc_Amount d)" "lc_Status d = ''DRAFT''"
    "\<exists>q. db' = db\<lparr>co_sequences := q\<rparr>" "lc_Currency d = lci_Currency input" "column_text rate = Some (lc_ExchangeRate d)"
  using assms unfolding draft_row_def
  by - (elim bindE_InrE, clarsimp, (auto elim: number_Inr elim!: bindE_InrE)[1])+

lemma create_Inr:
  assumes "create_landed_cost env s input db = Inr (db', i)" "input_valid env input"
  obtains receiptID receipt d as q new where "pe_parse_uuid env (lci_GoodsReceiptID input) = Some receiptID"
    "cd_receipts db receiptID = Some receipt" "gr_status receipt = ''POSTED''" "denotes (lci_Amount input) (lc_Amount d)"
    "lc_Status d = ''DRAFT''" "lc_GoodsReceiptID d = receiptID" "i = pe_new_id env 0" "map_of (cd_costs db) i = None"
    "db' = db\<lparr>co_sequences := q, cd_costs := cd_costs db @ [(i, d)], cd_lines := cd_lines db @ new\<rparr>"
    "proportional (lc_Amount d) (map snd (candidates (lci_AllocationMethod input) (gr_lines receipt))) as"
    "map ll_GoodsReceiptLineID new = map fst (candidates (lci_AllocationMethod input) (gr_lines receipt))"
    "map ll_allocated new = as" "\<forall>l \<in> set new. ll_landed_cost l = i"
proof -
  obtain db1 receipt rate d db2 lines base bc where c: "draft_row env s input db = Inr (db1, receipt, rate, d)"
      "insert_cost (pe_new_id env 0) d db1 = Inr db2" "i = pe_new_id env 0"
      "allocateLandedCostLinesTx (gr_lines receipt) (lci_Amount input) (lci_AllocationMethod input) = Inr lines"
      "insert_lines i base bc lines db2 = Inr db'"
    using assms(1) unfolding create_landed_cost_def Let_def by (fastforce elim!: bindE_InrE)
  note dr = draft_row_Inr [OF c(1)]
  obtain n where n: "denotes (lci_Amount input) n" "0 < n"
    using assms(2) unfolding input_valid_def compare_zero_text by (elim conjE) (rule valid_amount)
  have d: "lc_Amount d = n" using dr(3) column_text_denotes [OF n(1)] by (simp split: if_splits)
  have fits: "n < 10 ^ 24" using dr(3) column_text_denotes [OF n(1)] n(2) by (simp split: if_splits)
  let ?c = "candidates (lci_AllocationMethod input) (gr_lines receipt)"
  obtain as where as: "lines = zip (map fst ?c) (map qtext as)" "proportional n (map snd ?c) as"
    using allocate_exact [OF c(4) n(1)] n(2) by auto
  obtain new where new: "db' = db2\<lparr>cd_lines := cd_lines db2 @ new\<rparr>"
    "list_all2 (\<lambda>(lineID, tx) l. ll_landed_cost l = i \<and> ll_GoodsReceiptLineID l = lineID \<and> column_text tx = Some (ll_allocated l)
       \<and> column_text (base tx) = Some (ll_base_allocated l)) lines new"
    by (rule insert_lines_Inr [OF c(5)])
  have len: "length lines = length ?c" "length as = length ?c" using as by (simp_all add: proportional_def)
  have nth: "ll_landed_cost (new ! k) = i \<and> ll_GoodsReceiptLineID (new ! k) = fst (?c ! k) \<and> ll_allocated (new ! k) = as ! k"
    if "k < length new" for k
    using list_all2_nthD2 [OF new(2) that] list_all2_lengthD [OF new(2)] len that as(1)
    by (auto simp: column_text_qtext split: if_splits)
  have ln: "length new = length ?c" using list_all2_lengthD [OF new(2)] len by simp
  obtain q where q: "db1 = db\<lparr>co_sequences := q\<rparr>" using dr(5) by auto
  have db2: "db2 = db1\<lparr>cd_costs := cd_costs db1 @ [(i, d)]\<rparr>" "map_of (cd_costs db1) i = None"
    using c(2,3) by (auto simp: insert_cost_def bindE_Inr_iff)
  show thesis
  proof (rule that)
    show "map ll_GoodsReceiptLineID new = map fst ?c" "map ll_allocated new = as"
      using nth ln len by (auto intro: nth_equalityI)
    show "\<forall>l \<in> set new. ll_landed_cost l = i" using nth by (auto simp: in_set_conv_nth)
    show "db' = db\<lparr>co_sequences := q, cd_costs := cd_costs db @ [(i, d)], cd_lines := cd_lines db @ new\<rparr>"
      using new(1) db2(1) q by simp
    show "map_of (cd_costs db) i = None" using db2(2) q by simp
  qed (use dr n d as c in auto)
qed

lemma post_Inr:
  assumes "post_landed_cost env s i0 expectedVersion db = Inr (db', r)"
  obtains i d new base bc where "map_of (cd_costs db) i = Some d" "lc_Status d = ''DRAFT''" "lc_Version d = expectedVersion"
    "db' = set_cost i (mark_posted env (fs_UserID s)) (db\<lparr>cd_adjustments := cd_adjustments db @ new\<rparr>)"
    "list_all2 (\<lambda>t a. \<exists>y b. layer_for db (ll_GoodsReceiptLineID t) = Some y \<and> column_text (canonical (base (ll_allocated t))) = Some b
       \<and> a = landed_row d i (fs_UserID s) bc (ly_ID y) (ll_allocated t) b) (lines_of db i) new"
proof -
  obtain i d db1 base bc where c: "map_of (cd_costs db) i = Some d" "lc_Status d = ''DRAFT''" "lc_Version d = expectedVersion"
      "post_targets base (landed_row d i (fs_UserID s) bc) (lines_of db i) db = Inr db1"
      "db' = set_cost i (mark_posted env (fs_UserID s)) db1"
    using assms unfolding post_landed_cost_def Let_def by (fastforce elim!: bindE_InrE)
  obtain new where n: "db1 = db\<lparr>cd_adjustments := cd_adjustments db @ new\<rparr>"
    "list_all2 (\<lambda>t a. \<exists>y b. layer_for db (ll_GoodsReceiptLineID t) = Some y \<and> column_text (canonical (base (ll_allocated t))) = Some b
       \<and> a = landed_row d i (fs_UserID s) bc (ly_ID y) (ll_allocated t) b) (lines_of db i) new"
    by (rule post_targets_Inr [OF c(4)])
  show thesis by (rule that [OF c(1-3) _ n(2)]) (simp add: c(5) n(1))
qed

section \<open>Posted exactly once\<close>

definition landed :: "cost_db \<Rightarrow> cost_adjustment list" where
  "landed db = filter (\<lambda>a. ad_source_type a = ''PURCHASE_LANDED_COST'') (cd_adjustments db)"

definition landed_of :: "cost_db \<Rightarrow> string \<Rightarrow> cost_adjustment list" where
  "landed_of db i = filter (\<lambda>a. ad_source a = i) (landed db)"

text \<open>The adjustment of a line goes to a layer the line's goods opened.\<close>

definition adjusts :: "cost_db \<Rightarrow> LandedCostLine \<Rightarrow> cost_adjustment \<Rightarrow> bool" where
  "adjusts db l a =
     (ad_amount a = ll_allocated l
      \<and> (\<exists>y \<in> set (cd_layers db). ly_ID y = ad_layer a \<and> ly_source_line y = ll_GoodsReceiptLineID l \<and> ly_direction y = ''IN''))"

definition cost_ok :: "cost_db \<Rightarrow> string \<Rightarrow> LandedCost \<Rightarrow> bool" where
  "cost_ok db i d =
     (sum_list (map ll_allocated (lines_of db i)) = lc_Amount d
      \<and> (if lc_Status d = ''DRAFT'' then landed_of db i = []
         else lc_Status d = ''POSTED'' \<and> list_all2 (adjusts db) (lines_of db i) (landed_of db i)))"

definition costs_ok :: "cost_db \<Rightarrow> bool" where
  "costs_ok db =
     ((\<forall>i d. map_of (cd_costs db) i = Some d \<longrightarrow> cost_ok db i d)
      \<and> (\<forall>i. map_of (cd_costs db) i = None \<longrightarrow> lines_of db i = [] \<and> landed_of db i = []))"

lemma map_of_update:
  "map_of (map (\<lambda>(j, d). (j, if j = i then f d else d)) xs) j = (if j = i then map_option f (map_of xs i) else map_of xs j)"
  by (induction xs) auto

lemma map_of_set_cost [simp]:
  "map_of (cd_costs (set_cost i f db)) j = (if j = i then map_option f (map_of (cd_costs db) i) else map_of (cd_costs db) j)"
  by (simp add: set_cost_def map_of_update)

lemma set_cost_rows [simp]:
  "lines_of (set_cost i f db) = lines_of db" "landed_of (set_cost i f db) = landed_of db" "adjusts (set_cost i f db) = adjusts db"
  by (simp_all add: fun_eq_iff lines_of_def landed_of_def landed_def adjusts_def set_cost_def)

lemma sum_adjusts: "list_all2 (adjusts db) ls xs \<Longrightarrow> sum_list (map ad_amount xs) = sum_list (map ll_allocated ls)"
  by (induction rule: list_all2_induct) (simp_all add: adjusts_def)

lemma create_ok:
  assumes "create_landed_cost env s input db = Inr (db', i)" "input_valid env input" "costs_ok db"
  shows "costs_ok db'"
proof (rule create_Inr [OF assms(1,2)])
  fix receiptID receipt d as q new
  assume c: "lc_Status d = ''DRAFT''" "map_of (cd_costs db) i = None" "map ll_allocated new = as" "\<forall>l \<in> set new. ll_landed_cost l = i"
    "db' = db\<lparr>co_sequences := q, cd_costs := cd_costs db @ [(i, d)], cd_lines := cd_lines db @ new\<rparr>"
    "proportional (lc_Amount d) (map snd (candidates (lci_AllocationMethod input) (gr_lines receipt))) as"
  have old: "lines_of db i = []" "landed_of db i = []" using assms(3) c(2) by (simp_all add: costs_ok_def)
  have lines: "lines_of db' j = lines_of db j @ (if j = i then new else [])" for j
    using c(4) by (auto simp: c(5) lines_of_def filter_id_conv filter_empty_conv)
  have rest: "landed_of db' = landed_of db" "adjusts db' = adjusts db"
    by (simp_all add: fun_eq_iff c(5) landed_of_def landed_def adjusts_def)
  have costs: "map_of (cd_costs db') j = (if j = i then Some d else map_of (cd_costs db) j)" for j
    using c(2) by (auto simp: c(5) map_add_def split: option.split)
  have "sum_list (map ll_allocated new) = lc_Amount d" using c(3,6) by (simp add: proportional_def)
  then show ?thesis using assms(3) old c(1)
    by (auto simp: costs_ok_def cost_ok_def costs lines rest split: if_splits)
qed

lemma post_ok:
  assumes "post_landed_cost env s i0 v db = Inr (db', r)" "costs_ok db"
  shows "costs_ok db'"
proof (rule post_Inr [OF assms(1)])
  fix i d new base bc
  assume p: "map_of (cd_costs db) i = Some d" "lc_Status d = ''DRAFT''"
    "db' = set_cost i (mark_posted env (fs_UserID s)) (db\<lparr>cd_adjustments := cd_adjustments db @ new\<rparr>)"
    "list_all2 (\<lambda>t a. \<exists>y b. layer_for db (ll_GoodsReceiptLineID t) = Some y \<and> column_text (canonical (base (ll_allocated t))) = Some b
       \<and> a = landed_row d i (fs_UserID s) bc (ly_ID y) (ll_allocated t) b) (lines_of db i) new"
  let ?db1 = "db\<lparr>cd_adjustments := cd_adjustments db @ new\<rparr>"
  have src: "ad_source_type a = ''PURCHASE_LANDED_COST'' \<and> ad_source a = i" if "a \<in> set new" for a
    using p(4) that by (auto simp: list_all2_conv_all_nth in_set_conv_nth landed_row_def)
  have landed: "landed_of ?db1 j = landed_of db j @ (if j = i then new else [])" for j
    using src by (auto simp: landed_of_def landed_def filter_id_conv filter_empty_conv)
  have rows: "lines_of ?db1 = lines_of db" "adjusts ?db1 = adjusts db" "cd_costs ?db1 = cd_costs db"
    by (simp_all add: fun_eq_iff lines_of_def adjusts_def)
  have adj: "list_all2 (adjusts db) (lines_of db i) new"
    using p(4) by (rule list_all2_mono) (auto simp: adjusts_def landed_row_def layer_for_def find_Some_iff)
  have ok: "cost_ok db i d" using assms(2) p(1) by (simp add: costs_ok_def)
  have "landed_of db i = []" using ok p(2) by (simp add: cost_ok_def)
  then have "cost_ok db' i (mark_posted env (fs_UserID s) d)"
    using ok adj by (simp add: cost_ok_def p(3) rows landed mark_posted_def)
  moreover have "cost_ok db' j e = cost_ok db j e" if "j \<noteq> i" for j e
    using that by (simp add: cost_ok_def p(3) rows landed)
  ultimately show ?thesis using assms(2) p(1)
    by (auto simp: costs_ok_def p(3) rows landed)
qed

text \<open>
  The commands in any order and as often as they are sent, between any other changes to the company that leave the
  landed cost documents and their adjustments alone and remove no cost layer (both tables are append-only).
\<close>

definition elsewhere :: "cost_db \<Rightarrow> cost_db \<Rightarrow> bool" where
  "elsewhere db db' =
     (cd_costs db' = cd_costs db \<and> cd_lines db' = cd_lines db \<and> landed db' = landed db \<and> set (cd_layers db) \<subseteq> set (cd_layers db'))"

inductive cost_run :: "cost_db \<times> idem_table \<Rightarrow> bool" where
  start: "cd_costs db = [] \<Longrightarrow> cd_lines db = [] \<Longrightarrow> landed db = [] \<Longrightarrow> cost_run (db, t)"
| create: "cost_run w \<Longrightarrow> cost_run (fst (CreateLandedCost env json s input key w))"
| post: "cost_run w \<Longrightarrow> cost_run (fst (PostLandedCost env json s i v key w))"
| other: "cost_run (db, t) \<Longrightarrow> elsewhere db db' \<Longrightarrow> cost_run (db', t')"

lemma elsewhere_ok: "costs_ok db \<Longrightarrow> elsewhere db db' \<Longrightarrow> costs_ok db'"
proof -
  assume ok: "costs_ok db" and e: "elsewhere db db'"
  have rows: "lines_of db' = lines_of db" "landed_of db' = landed_of db"
    using e by (simp_all add: fun_eq_iff elsewhere_def lines_of_def landed_of_def)
  have "adjusts db l a \<Longrightarrow> adjusts db' l a" for l a using e by (auto simp: elsewhere_def adjusts_def)
  then have "list_all2 (adjusts db) ls xs \<Longrightarrow> list_all2 (adjusts db') ls xs" for ls xs by (auto elim: list_all2_mono)
  then show ?thesis using ok e unfolding costs_ok_def cost_ok_def rows by (auto simp: elsewhere_def split: if_splits)
qed

lemma command_ok:
  assumes "\<And>db' e. body (fst w) = Inr (db', e) \<Longrightarrow> costs_ok db'" "costs_ok (fst w)"
  shows "costs_ok (fst (fst (answer_cost env s (pur_command env s key command payload body w))))"
proof -
  obtain w' r where eq: "pur_command env s key command payload body w = (w', r)" by fastforce
  from eq show ?thesis by (rule pur_command_cases) (use assms in \<open>auto simp: answer_cost_def eq\<close>)
qed

lemma cost_run_ok: "cost_run w \<Longrightarrow> costs_ok (fst w)"
proof (induction rule: cost_run.induct)
  case (start db t)
  then show ?case by (simp add: costs_ok_def lines_of_def landed_of_def)
next
  case (create w env json s input key)
  show ?case
  proof (cases "can (pe_parse_uuid env) s ''purchase.landed_cost.manage'' \<and> input_valid env (normalize_input input)")
    case True
    then show ?thesis unfolding CreateLandedCost_def Let_def
      using command_ok [of "create_landed_cost env s (normalize_input input)" w] create_ok create by auto
  qed (use create in \<open>auto simp: CreateLandedCost_def Let_def\<close>)
next
  case (post w env json s i v key)
  show ?case
  proof (cases "can (pe_parse_uuid env) s ''purchase.landed_cost.post''")
    case True
    then show ?thesis unfolding PostLandedCost_def
      using command_ok [of "post_landed_cost env s i v" w] post_ok post by auto
  qed (use post in \<open>auto simp: PostLandedCost_def\<close>)
qed (auto dest: elsewhere_ok)

section \<open>Properties\<close>

text \<open>
  Claim C32.  A landed cost that is drafted on a posted receipt gets one line for every receipt line with a positive weight, in
  their order; the lines add up to the document's amount to the last digit, and none is off its proportional share by a whole
  unit of the last decimal.
\<close>

theorem landed_cost_split:
  assumes "create_landed_cost env s input db = Inr (db', i)" "input_valid env input"
  shows "\<exists>receiptID receipt d new. pe_parse_uuid env (lci_GoodsReceiptID input) = Some receiptID
    \<and> cd_receipts db receiptID = Some receipt \<and> gr_status receipt = ''POSTED''
    \<and> map_of (cd_costs db') i = Some d \<and> lc_Status d = ''DRAFT'' \<and> denotes (lci_Amount input) (lc_Amount d)
    \<and> cd_lines db' = cd_lines db @ new \<and> (\<forall>l \<in> set new. ll_landed_cost l = i)
    \<and> map ll_GoodsReceiptLineID new = map fst (candidates (lci_AllocationMethod input) (gr_lines receipt))
    \<and> proportional (lc_Amount d) (map snd (candidates (lci_AllocationMethod input) (gr_lines receipt))) (map ll_allocated new)"
  by (rule create_Inr [OF assms]) (simp add: map_add_def)

definition sample_env :: pur_env where
  "sample_env = \<lparr>pe_parse_uuid = Some, pe_valid_uuid = (\<lambda>_. True), pe_digest = (\<lambda>x. x), pe_new_id = (\<lambda>_. ''c1''), pe_now = 7,
     pe_year = 2026, pe_resolver = None, pe_encode = Some, pe_decode = Some, pe_commit = True\<rparr>"

definition sample_session :: fin_session where
  "sample_session = \<lparr>fs_CompanyID = ''co'', fs_UserID = ''u'',
     fs_Permissions = [''purchase.landed_cost.manage'', ''purchase.landed_cost.post''], fs_scopes = []\<rparr>"

definition sample_receipt :: goods_receipt where
  "sample_receipt = \<lparr>gr_branch = ''b'', gr_warehouse = [], gr_status = ''POSTED'', gr_date = 0,
     gr_lines = [\<lparr>rl_ID = ''l1'', rl_accepted = 100000000, rl_unit_cost = 500000000\<rparr>,
                 \<lparr>rl_ID = ''l2'', rl_accepted = 0, rl_unit_cost = 500000000\<rparr>,
                 \<lparr>rl_ID = ''l3'', rl_accepted = 200000000, rl_unit_cost = 500000000\<rparr>]\<rparr>"

definition sample_db :: cost_db where
  "sample_db = \<lparr>co_base_currency = ''TRY'', co_branches = [''b'' \<mapsto> True], co_warehouses = Map.empty, co_warehouse_scopes = [],
     co_suppliers = Map.empty, co_sequences = Map.empty, cd_receipts = [''r1'' \<mapsto> sample_receipt], cd_costs = [], cd_lines = [],
     cd_layers = [\<lparr>ly_ID = ''y1'', ly_source_line = ''l1'', ly_direction = ''IN''\<rparr>, \<lparr>ly_ID = ''y3'', ly_source_line = ''l3'', ly_direction = ''IN''\<rparr>],
     cd_adjustments = []\<rparr>"

definition sample_input :: LandedCostInput where
  "sample_input = \<lparr>lci_DocumentNo = ''M-1'', lci_GoodsReceiptID = ''r1'', lci_SupplierID = [], lci_Description = ''freight'',
     lci_Amount = ''100.00'', lci_Currency = '' try'', lci_ExchangeRate = [], lci_AllocationMethod = []\<rparr>"

lemma sample_cost_created:
  "case create_landed_cost sample_env sample_session (normalize_input sample_input) sample_db of
     Inl e \<Rightarrow> False | Inr (db', i) \<Rightarrow> i = ''c1'' \<and> map ll_allocated (cd_lines db') = [3333333333, 6666666667]"
  "input_valid sample_env (normalize_input sample_input)"
  by code_simp+

theorem landed_cost_split_witness:
  "\<exists>db' d. create_landed_cost sample_env sample_session (normalize_input sample_input) sample_db = Inr (db', ''c1'')
     \<and> map_of (cd_costs db') ''c1'' = Some d \<and> sum_list (map ll_allocated (cd_lines db')) = lc_Amount d
     \<and> map ll_allocated (cd_lines db') = [3333333333, 6666666667]"
proof -
  obtain db' where c: "create_landed_cost sample_env sample_session (normalize_input sample_input) sample_db = Inr (db', ''c1'')"
    "map ll_allocated (cd_lines db') = [3333333333, 6666666667]"
    using sample_cost_created(1) by (auto split: sum.splits)
  from landed_cost_split [OF c(1) sample_cost_created(2)] obtain d where "map_of (cd_costs db') ''c1'' = Some d"
    "sum_list (map ll_allocated (cd_lines db')) = lc_Amount d"
    by (elim exE conjE) (rule that, simp_all add: proportional_def sample_db_def)
  then show ?thesis using c by (intro exI conjI)
qed

text \<open>
  Claim C8.  Whatever commands are sent and whatever else happens in the company, the lines of a landed cost document add up to its amount; while it
  is a draft no stock layer is adjusted for it, and once it is posted every line has adjusted exactly once a layer its goods
  opened, the adjustments adding up to the amount of the document.  No adjustment belongs to anything else.
\<close>

theorem landed_cost_posted_once:
  assumes "cost_run w"
  shows "(case map_of (cd_costs (fst w)) i of
      None \<Rightarrow> landed_of (fst w) i = []
    | Some d \<Rightarrow> sum_list (map ll_allocated (lines_of (fst w) i)) = lc_Amount d
        \<and> (if lc_Status d = ''DRAFT'' then landed_of (fst w) i = []
           else lc_Status d = ''POSTED'' \<and> list_all2 (adjusts (fst w)) (lines_of (fst w) i) (landed_of (fst w) i)
             \<and> sum_list (map ad_amount (landed_of (fst w) i)) = lc_Amount d))"
proof (cases "map_of (cd_costs (fst w)) i")
  case None
  then show ?thesis using cost_run_ok [OF assms] by (simp add: costs_ok_def)
next
  case (Some d)
  have ok: "cost_ok (fst w) i d" using cost_run_ok [OF assms] Some by (simp add: costs_ok_def)
  then have sums: "lc_Status d \<noteq> ''DRAFT'' \<Longrightarrow> sum_list (map ad_amount (landed_of (fst w) i)) = lc_Amount d"
    using sum_adjusts [of "fst w" "lines_of (fst w) i" "landed_of (fst w) i"] by (simp add: cost_ok_def)
  show ?thesis using ok sums unfolding Some cost_ok_def by (simp split: if_splits)
qed

definition sample_world :: "cost_db \<times> idem_table" where
  "sample_world = fst (PostLandedCost sample_env (\<lambda>i v. i) sample_session ''c1'' 1 ''k2''
     (fst (CreateLandedCost sample_env lci_Amount sample_session sample_input ''k1'' (sample_db, Map.empty))))"

lemma sample_run: "cost_run sample_world"
  unfolding sample_world_def by (intro cost_run.intros) (simp_all add: sample_db_def landed_def)

lemma sample_world_eq:
  "sample_world = fst (pur_command sample_env sample_session ''k2'' ''purchasing.landed_cost.post'' ''c1''
     (post_landed_cost sample_env sample_session ''c1'' 1)
     (fst (pur_command sample_env sample_session ''k1'' ''purchasing.landed_cost.create'' ''100.00''
        (create_landed_cost sample_env sample_session (normalize_input sample_input)) (sample_db, Map.empty))))"
proof -
  have "can (pe_parse_uuid sample_env) sample_session ''purchase.landed_cost.manage''"
    "can (pe_parse_uuid sample_env) sample_session ''purchase.landed_cost.post''" by code_simp+
  moreover have "lci_Amount (normalize_input sample_input) = ''100.00''" by code_simp
  ultimately show ?thesis using sample_cost_created(2)
    by (simp add: sample_world_def CreateLandedCost_def PostLandedCost_def Let_def answer_cost_def)
qed

lemma sample_posted:
  "map (\<lambda>(i, d). (i, lc_Status d, lc_Amount d)) (cd_costs (fst sample_world)) = [(''c1'', ''POSTED'', 10000000000)]"
  "map (\<lambda>a. (ad_layer a, ad_amount a)) (landed_of (fst sample_world) ''c1'') = [(''y1'', 3333333333), (''y3'', 6666666667)]"
proof -
  have "(case sample_world of (db, t) \<Rightarrow> map (\<lambda>(i, d). (i, lc_Status d, lc_Amount d)) (cd_costs db) = [(''c1'', ''POSTED'', 10000000000)]
      \<and> map (\<lambda>a. (ad_layer a, ad_amount a)) (landed_of db ''c1'') = [(''y1'', 3333333333), (''y3'', 6666666667)])"
    unfolding sample_world_eq by code_simp
  then show "map (\<lambda>(i, d). (i, lc_Status d, lc_Amount d)) (cd_costs (fst sample_world)) = [(''c1'', ''POSTED'', 10000000000)]"
    "map (\<lambda>a. (ad_layer a, ad_amount a)) (landed_of (fst sample_world) ''c1'') = [(''y1'', 3333333333), (''y3'', 6666666667)]"
    by (simp_all add: case_prod_beta)
qed

theorem landed_cost_posted_once_witness:
  "sum_list (map ad_amount (landed_of (fst sample_world) ''c1'')) = 10000000000 \<and> landed_of (fst sample_world) ''c2'' = []
   \<and> map (\<lambda>a. (ad_layer a, ad_amount a)) (landed_of (fst sample_world) ''c1'') = [(''y1'', 3333333333), (''y3'', 6666666667)]"
proof -
  obtain d where d: "cd_costs (fst sample_world) = [(''c1'', d)]" "lc_Status d = ''POSTED''" "lc_Amount d = 10000000000"
    using sample_posted(1) by (auto simp: map_eq_Cons_conv)
  then have "map_of (cd_costs (fst sample_world)) ''c1'' = Some d" "map_of (cd_costs (fst sample_world)) ''c2'' = None" by simp_all
  with landed_cost_posted_once [OF sample_run, of "''c1''"] landed_cost_posted_once [OF sample_run, of "''c2''"]
  show ?thesis using d sample_posted(2) by simp
qed

text \<open>
  Claim C33.  The loop that hands out the leftover of a split ends: for a receipt with product lines it returns the shares after
  at most one round for each line.
\<close>

theorem landed_cost_loop_ends:
  assumes "candidates lc_method ls \<noteq> []" "0 \<le> target"
  shows "split_rounds (length (candidates lc_method ls)) (map snd (candidates lc_method ls)) target
    = Some (landedShares (map snd (candidates lc_method ls)) (sum_list (map snd (candidates lc_method ls))) target)"
proof -
  let ?ws = "map snd (candidates lc_method ls)"
  have "0 < sum_list ?ws"
    using sum_list_pos [of ?ws] candidates_weights [of _ lc_method ls] assms(1) by auto
  then show ?thesis
    using largest_remainder_rounds [of "1 / 10 ^ 8" ?ws target truncate8, OF _ _ _ assms(2) truncate8_eq] candidates_weights [of _ lc_method ls]
    unfolding split_rounds_def landedShares_def by (auto simp: less_imp_le)
qed

theorem landed_cost_loop_ends_witness:
  "split_rounds 2 [5, 10] 100 = Some (landedShares [5, 10] 15 100) \<and> candidates LandedCostByAmount (gr_lines sample_receipt) = [(''l1'', 5), (''l3'', 10)]"
proof -
  have c: "candidates LandedCostByAmount (gr_lines sample_receipt) = [(''l1'', 5), (''l3'', 10)]"
    by code_simp
  show ?thesis using landed_cost_loop_ends [of LandedCostByAmount "gr_lines sample_receipt" 100] c by (simp add: eval_nat_numeral)
qed

end
