(* ===== verification/Calendar.thy ===== *)
theory Calendar
  imports Money "HOL-Library.Code_Target_Nat"
begin

text \<open>
  Days of the Gregorian calendar as the services use them: the order of days, \<^verbatim>\<open>time.Parse\<close> and \<^verbatim>\<open>Format\<close> with the layout
  \<^verbatim>\<open>2006-01-02\<close>, weekdays and the length of a month.  A moment of the sources stands for its day.
\<close>

section \<open>Days\<close>

record date =
  dt_year :: nat
  dt_month :: nat
  dt_day :: nat

definition date_num :: "date \<Rightarrow> nat" where
  "date_num x = dt_year x * 10000 + dt_month x * 100 + dt_day x"

definition Before :: "date \<Rightarrow> date \<Rightarrow> bool" where
  "Before x y = (date_num x < date_num y)"

definition leap :: "nat \<Rightarrow> bool" where
  "leap y = (4 dvd y \<and> (\<not> 100 dvd y \<or> 400 dvd y))"

definition days_in_month :: "nat \<Rightarrow> nat \<Rightarrow> nat" where
  "days_in_month y m = (if m = 2 then (if leap y then 29 else 28) else if m \<in> {4, 6, 9, 11} then 30 else 31)"

text \<open>Days since 31 December of the year 0, a Sunday; \<^verbatim>\<open>time.Sunday\<close> is 0.\<close>

definition day_number :: "date \<Rightarrow> nat" where
  "day_number x =
     (let y = dt_year x - 1 in
      365 * y + y div 4 - y div 100 + y div 400 + sum_list (map (days_in_month (dt_year x)) [1..<dt_month x]) + dt_day x)"

definition weekday :: "date \<Rightarrow> nat" where
  "weekday x = day_number x mod 7"

text \<open>\<^verbatim>\<open>Format("2006-01-02")\<close> for a year of four digits.\<close>

definition date_text :: "date \<Rightarrow> string" where
  "date_text x = frac_digits 4 (dt_year x) @ ''-'' @ frac_digits 2 (dt_month x) @ ''-'' @ frac_digits 2 (dt_day x)"

definition parse_date :: "string \<Rightarrow> date option" where \<comment> \<open>\<^verbatim>\<open>time.Parse("2006-01-02", s)\<close>\<close>
  "parse_date s =
     (case split_on (CHR ''-'') s of
        [y, m, d] \<Rightarrow>
          let x = \<lparr>dt_year = nat_of_dec y, dt_month = nat_of_dec m, dt_day = nat_of_dec d\<rparr> in
          if length y = 4 \<and> length m = 2 \<and> length d = 2 \<and> all_digits y \<and> all_digits m \<and> all_digits d
             \<and> 1 \<le> dt_month x \<and> dt_month x \<le> 12 \<and> 1 \<le> dt_day x \<and> dt_day x \<le> days_in_month (dt_year x) (dt_month x)
          then Some x else None
      | _ \<Rightarrow> None)"

lemma parse_date_range:
  "parse_date x = Some d \<Longrightarrow> 1 \<le> dt_day d \<and> dt_day d \<le> days_in_month (dt_year d) (dt_month d)"
  by (auto simp: parse_date_def Let_def split: list.splits if_splits)

end
