(* ===== verification/Timesheet.thy ===== *)
theory Timesheet
  imports Calendar Go_Sort
begin

text \<open>
  Attendance months (\<^verbatim>\<open>src/internal/hr/timesheet/generator.go\<close>): the days generated from a work schedule, the public
  holidays and the days marked by hand, and what the payroll run reads off them
  (\<^verbatim>\<open>src/internal/payroll/run/calculate.go\<close>).  The digest of the serialised days is a parameter.
\<close>

section \<open>Generating a month\<close>

record Holiday =
  ho_Date :: date
  ho_HalfDay :: bool

record Day =
  dy_Date :: string
  dy_Source :: string
  dy_PlannedMinutes :: int
  dy_WorkedMinutes :: int
  dy_PaidLeaveMinutes :: int
  dy_UnpaidLeaveMinutes :: int
  dy_PublicHolidayMinutes :: int
  dy_WeekRestMinutes :: int

record gen_input =
  gi_Year :: nat
  gi_Month :: nat
  gi_EmploymentFrom :: date
  gi_EmploymentTo :: "date option"
  gi_Schedule :: "nat \<rightharpoonup> int" \<comment> \<open>planned minutes by weekday\<close>
  gi_Holidays :: "Holiday list"
  gi_ExistingManual :: "Day list"

definition DefaultRestMinutes :: int where "DefaultRestMinutes = 480"

text \<open>A later entry of a day replaces an earlier one.\<close>

definition manual_day :: "gen_input \<Rightarrow> string \<Rightarrow> Day option" where
  "manual_day i key = find (\<lambda>d. dy_Source d = ''MANUAL'' \<and> dy_Date d = key) (rev (gi_ExistingManual i))"

definition holiday_on :: "gen_input \<Rightarrow> string \<Rightarrow> Holiday option" where
  "holiday_on i key = find (\<lambda>h. date_text (ho_Date h) = key) (rev (gi_Holidays i))"

definition planned_on :: "gen_input \<Rightarrow> nat \<Rightarrow> int" where
  "planned_on i w = (case gi_Schedule i w of None \<Rightarrow> 0 | Some p \<Rightarrow> p)"

definition rest_minutes :: "gen_input \<Rightarrow> int" where
  "rest_minutes i =
     (let rest = fold (\<lambda>w rest. if planned_on i w > rest then planned_on i w else rest) [0..<7] 0 in
      if rest \<le> 0 then DefaultRestMinutes else rest)"

definition half :: "int \<Rightarrow> int" where \<comment> \<open>Go's division truncates\<close>
  "half n = sgn n * (\<bar>n\<bar> div 2)"

definition month_day :: "gen_input \<Rightarrow> nat \<Rightarrow> date" where
  "month_day i n = \<lparr>dt_year = gi_Year i, dt_month = gi_Month i, dt_day = n\<rparr>"

definition employed_on :: "gen_input \<Rightarrow> date \<Rightarrow> bool" where
  "employed_on i x =
     (\<not> (Before x (gi_EmploymentFrom i) \<or> (case gi_EmploymentTo i of None \<Rightarrow> False | Some e \<Rightarrow> Before e x)))"

definition generated_day :: "gen_input \<Rightarrow> date \<Rightarrow> Day" where
  "generated_day i x =
     (let planned = planned_on i (weekday x);
          day = \<lparr>dy_Date = date_text x, dy_Source = ''GENERATED'', dy_PlannedMinutes = planned, dy_WorkedMinutes = planned,
                 dy_PaidLeaveMinutes = 0, dy_UnpaidLeaveMinutes = 0, dy_PublicHolidayMinutes = 0, dy_WeekRestMinutes = 0\<rparr> in
      if planned = 0 then day\<lparr>dy_WorkedMinutes := 0, dy_WeekRestMinutes := rest_minutes i\<rparr>
      else (case holiday_on i (date_text x) of
          None \<Rightarrow> day
        | Some item \<Rightarrow>
            let minutes = (if ho_HalfDay item then half planned else planned) in
            day\<lparr>dy_PublicHolidayMinutes := minutes, dy_WorkedMinutes := planned - minutes\<rparr>))"

definition day_for :: "gen_input \<Rightarrow> nat \<Rightarrow> Day option" where
  "day_for i n =
     (let x = month_day i n in
      case manual_day i (date_text x) of
        Some existing \<Rightarrow> Some existing
      | None \<Rightarrow> if employed_on i x then Some (generated_day i x) else None)"

definition date_before :: "Day \<Rightarrow> Day \<Rightarrow> bool" where
  "date_before a b = str_less (dy_Date a) (dy_Date b)"

definition Generate :: "(Day list \<Rightarrow> string) \<Rightarrow> gen_input \<Rightarrow> Day list \<times> string" where
  "Generate digest i =
     (let last = days_in_month (gi_Year i) (gi_Month i);
          days = stable_sort date_before (List.map_filter (day_for i) [1..<last + 1]) in
      (days, digest days))"

section \<open>What the payroll run reads\<close>

definition paid_day :: "'a Day_scheme \<Rightarrow> bool" where
  "paid_day d = (0 < dy_WorkedMinutes d \<or> 0 < dy_PaidLeaveMinutes d \<or> 0 < dy_PublicHolidayMinutes d \<or> 0 < dy_WeekRestMinutes d)"

definition checkAttendance :: "int \<Rightarrow> int \<Rightarrow> int \<Rightarrow> bool" where \<comment> \<open>no error\<close>
  "checkAttendance paidDays unpaidDays recordedDays =
     (if recordedDays = 0 then False else if paidDays = 0 \<and> unpaidDays = 0 then False else True)"

definition attendanceDays :: "int \<Rightarrow> int \<Rightarrow> int \<Rightarrow> int \<Rightarrow> int \<times> bool" where
  "attendanceDays paidDays unpaidDays recordedDays daysInMonth =
     (if paidDays > 30 then 30 else paidDays,
      unpaidDays = 0 \<and> paidDays \<ge> daysInMonth \<and> recordedDays \<ge> daysInMonth)"

definition pickDays :: "bool \<Rightarrow> int \<Rightarrow> int" where
  "pickDays fullMonth workDays = (if fullMonth then 30 else workDays)"

section \<open>Days in order\<close>

lemma frac_digits_two: "d < 100 \<Longrightarrow> frac_digits 2 d = [digit_char (d div 10), digit_char (d mod 10)]"
proof -
  assume d: "d < 100"
  show ?thesis
  proof (cases "d < 10")
    case True
    then have "dec_of_nat d = [digit_char d]" by (subst dec_of_nat.simps) simp
    then show ?thesis using True by (simp add: frac_digits_def digit_char_0)
  next
    case False
    have "dec_of_nat (d div 10) = [digit_char (d div 10)]" using d by (subst dec_of_nat.simps) simp
    then have "dec_of_nat d = [digit_char (d div 10), digit_char (d mod 10)]"
      using False by (subst dec_of_nat.simps) simp
    then show ?thesis by (simp add: frac_digits_def)
  qed
qed

lemma str_less_append [simp]: "str_less (p @ s) (p @ t) \<longleftrightarrow> str_less s t"
  by (induction p) auto

lemma digit_char_less: "a < 10 \<Longrightarrow> b < 10 \<Longrightarrow> digit_char a = digit_char b \<longleftrightarrow> a = b"
  by (metis digit_val_char)

lemma date_text_less:
  assumes "m < n" "n < 100"
  shows "str_less (date_text (month_day i m)) (date_text (month_day i n))"
proof -
  have "m div 10 \<le> n div 10" using assms by (intro div_le_mono) simp
  moreover have "m mod 10 < n mod 10" if "m div 10 = n div 10"
    using that assms(1) div_mult_mod_eq [of m 10] div_mult_mod_eq [of n 10] by linarith
  ultimately have "m div 10 < n div 10 \<or> (m div 10 = n div 10 \<and> m mod 10 < n mod 10)"
    by (cases "m div 10 = n div 10") auto
  moreover have "m div 10 < 10" "n div 10 < 10" using assms by simp_all
  ultimately have "str_less (frac_digits 2 m) (frac_digits 2 n)"
    using assms by (auto simp: frac_digits_two digit_char_less)
  then show ?thesis by (simp add: date_text_def month_day_def)
qed

lemma stable_sort_sorted:
  "sorted_wrt (\<lambda>x y. \<not> lt y x) xs \<Longrightarrow> stable_sort lt xs = xs"
proof (induction xs)
  case (Cons x xs)
  then show ?case by (cases xs) auto
qed simp

lemma day_for_date: "day_for i n = Some d \<Longrightarrow> dy_Date d = date_text (month_day i n)"
  by (auto simp: day_for_def manual_day_def generated_day_def Let_def find_Some_iff split: option.splits if_splits)

lemma days_in_month_bounds: "28 \<le> days_in_month y m" "days_in_month y m \<le> 31"
  by (simp_all add: days_in_month_def)

definition month_list :: "gen_input \<Rightarrow> Day list" where
  "month_list i = List.map_filter (day_for i) [1..<days_in_month (gi_Year i) (gi_Month i) + 1]"

lemma map_filter_sorted:
  assumes "sorted_wrt (<) ns" "\<And>n. n \<in> set ns \<Longrightarrow> n < 100"
  shows "sorted_wrt date_before (List.map_filter (day_for i) ns)"
  using assms
proof (induction ns)
  case (Cons n ns)
  have "date_before d e" if "day_for i n = Some d" "e \<in> set (List.map_filter (day_for i) ns)" for d e
  proof -
    note de = that
    obtain k where k: "k \<in> set ns" "day_for i k = Some e" using de(2) by (auto simp: List.map_filter_def)
    then have "n < k" "k < 100" using Cons.prems by auto
    then show ?thesis using date_text_less de(1) k(2) by (simp add: date_before_def day_for_date)
  qed
  then show ?case using Cons by (auto simp: List.map_filter_simps split: option.split)
qed (simp add: List.map_filter_simps)

lemma Generate_days: "fst (Generate digest i) = month_list i" "sorted_wrt date_before (month_list i)"
proof -
  show s: "sorted_wrt date_before (month_list i)"
    unfolding month_list_def using days_in_month_bounds(2) [of "gi_Year i" "gi_Month i"]
    by (intro map_filter_sorted) (auto simp del: upt_Suc)
  then have "sorted_wrt (\<lambda>x y. \<not> date_before y x) (month_list i)"
    by (rule sorted_wrt_mono_rel [rotated]) (auto simp: date_before_def dest: ids.asym)
  then show "fst (Generate digest i) = month_list i"
    unfolding Generate_def Let_def fst_conv month_list_def by (rule stable_sort_sorted)
qed

section \<open>The generated month\<close>

lemma rest_minutes_pos: "0 < rest_minutes i"
  by (simp add: rest_minutes_def Let_def DefaultRestMinutes_def)

definition schedule_ok :: "gen_input \<Rightarrow> bool" where
  "schedule_ok i = (\<forall>w p. gi_Schedule i w = Some p \<longrightarrow> 0 \<le> p)"

text \<open>A generated day records its whole plan as worked or holiday minutes, or is a paid rest; it is never unpaid.\<close>

definition settled :: "Day \<Rightarrow> bool" where
  "settled d =
     (dy_Source d = ''GENERATED'' \<and> paid_day d \<and> dy_PaidLeaveMinutes d = 0 \<and> dy_UnpaidLeaveMinutes d = 0
      \<and> 0 \<le> dy_WorkedMinutes d \<and> 0 \<le> dy_PublicHolidayMinutes d
      \<and> dy_WorkedMinutes d + dy_PublicHolidayMinutes d = dy_PlannedMinutes d
      \<and> (if dy_PlannedMinutes d = 0 then 0 < dy_WeekRestMinutes d else dy_WeekRestMinutes d = 0))"

lemma half_bounds: "0 \<le> n \<Longrightarrow> 0 \<le> half n \<and> half n \<le> n"
  by (cases "n = 0") (auto simp: half_def sgn_if)

lemma generated_day_settled: "schedule_ok i \<Longrightarrow> settled (generated_day i x)"
proof -
  assume ok: "schedule_ok i"
  have p: "0 \<le> planned_on i (weekday x)" using ok by (auto simp: planned_on_def schedule_ok_def split: option.split)
  show ?thesis
  proof (cases "planned_on i (weekday x) = 0")
    case True
    then show ?thesis using rest_minutes_pos [of i] by (simp add: generated_day_def Let_def settled_def paid_day_def)
  next
    case False
    then show ?thesis using p half_bounds [OF p]
      by (auto simp: generated_day_def Let_def settled_def paid_day_def split: option.split)
  qed
qed

definition covered :: "gen_input \<Rightarrow> nat \<Rightarrow> bool" where
  "covered i n = (manual_day i (date_text (month_day i n)) \<noteq> None \<or> employed_on i (month_day i n))"

lemma month_list_dates:
  "map dy_Date (month_list i)
    = map (\<lambda>n. date_text (month_day i n)) (filter (covered i) [1..<days_in_month (gi_Year i) (gi_Month i) + 1])"
proof -
  have "day_for i n \<noteq> None \<longleftrightarrow> covered i n" for n
    by (auto simp: day_for_def covered_def Let_def split: option.split)
  moreover have "dy_Date (the (day_for i n)) = date_text (month_day i n)" if "day_for i n \<noteq> None" for n
    using that day_for_date by auto
  ultimately show ?thesis by (simp add: month_list_def List.map_filter_def cong: map_cong)
qed

lemma month_list_mem:
  assumes "schedule_ok i" "d \<in> set (month_list i)"
  shows "manual_day i (dy_Date d) = Some d \<or> (manual_day i (dy_Date d) = None \<and> settled d)"
proof -
  obtain n where n: "day_for i n = Some d" using assms(2) by (auto simp: month_list_def List.map_filter_def)
  then have "dy_Date d = date_text (month_day i n)" by (rule day_for_date)
  then show ?thesis using n generated_day_settled [OF assms(1)]
    by (auto simp: day_for_def Let_def split: option.splits if_splits)
qed

text \<open>
  Claim C36.  A generated month holds every day of the month that is marked by hand or falls into the employment, each once and in
  order, and no other; a day marked by hand is kept as it is, and any other day carries its whole plan as worked or holiday
  minutes, or a paid weekly rest, so payroll counts it as paid.
\<close>

theorem generated_month:
  assumes "schedule_ok i"
  shows "map dy_Date (fst (Generate digest i))
      = map (\<lambda>n. date_text (month_day i n)) (filter (covered i) [1..<days_in_month (gi_Year i) (gi_Month i) + 1])
    \<and> sorted_wrt str_less (map dy_Date (fst (Generate digest i)))
    \<and> (\<forall>d \<in> set (fst (Generate digest i)).
         manual_day i (dy_Date d) = Some d \<or> (manual_day i (dy_Date d) = None \<and> settled d))"
proof -
  have "sorted_wrt str_less (map dy_Date (month_list i))"
    using Generate_days(2) [of i] by (simp add: sorted_wrt_map date_before_def [abs_def])
  then show ?thesis
    unfolding Generate_days(1) using month_list_mem [OF assms] month_list_dates by blast
qed

definition sample_month :: gen_input where \<comment> \<open>April 2026, hired on the 20th\<close>
  "sample_month = \<lparr>gi_Year = 2026, gi_Month = 4, gi_EmploymentFrom = \<lparr>dt_year = 2026, dt_month = 4, dt_day = 20\<rparr>, gi_EmploymentTo = None,
     gi_Schedule = [1 \<mapsto> 480, 2 \<mapsto> 480, 3 \<mapsto> 480, 4 \<mapsto> 480, 5 \<mapsto> 480],
     gi_Holidays = [\<lparr>ho_Date = \<lparr>dt_year = 2026, dt_month = 4, dt_day = 23\<rparr>, ho_HalfDay = True\<rparr>],
     gi_ExistingManual = [\<lparr>dy_Date = ''2026-04-22'', dy_Source = ''MANUAL'', dy_PlannedMinutes = 480, dy_WorkedMinutes = 0,
       dy_PaidLeaveMinutes = 480, dy_UnpaidLeaveMinutes = 0, dy_PublicHolidayMinutes = 0, dy_WeekRestMinutes = 0\<rparr>]\<rparr>"

lemma sample_month_days:
  "map (\<lambda>d. (dy_Date d, dy_WorkedMinutes d, dy_PaidLeaveMinutes d, dy_PublicHolidayMinutes d, dy_WeekRestMinutes d))
     (take 7 (fst (Generate (\<lambda>_. []) sample_month)))
   = [(''2026-04-20'', 480, 0, 0, 0), (''2026-04-21'', 480, 0, 0, 0), (''2026-04-22'', 0, 480, 0, 0), (''2026-04-23'', 240, 0, 240, 0),
      (''2026-04-24'', 480, 0, 0, 0), (''2026-04-25'', 0, 0, 0, 480), (''2026-04-26'', 0, 0, 0, 480)]"
  by code_simp

theorem generated_month_witness:
  "length (fst (Generate (\<lambda>_. []) sample_month)) = 11
   \<and> sorted_wrt str_less (map dy_Date (fst (Generate (\<lambda>_. []) sample_month)))"
proof -
  have "schedule_ok sample_month" by (auto simp: schedule_ok_def sample_month_def split: if_splits)
  note m = generated_month [OF this, of "\<lambda>_. []"]
  have "length (filter (covered sample_month) [1..<days_in_month (gi_Year sample_month) (gi_Month sample_month) + 1]) = 11"
    by code_simp
  then have "length (map dy_Date (fst (Generate (\<lambda>_. []) sample_month))) = 11"
    unfolding m [THEN conjunct1] by (simp only: length_map)
  then show ?thesis using m [THEN conjunct2, THEN conjunct1] by (simp only: length_map)
qed

end
