(* ===== verification/Timesheet_Service.thy ===== *)
theory Timesheet_Service
  imports Timesheet
begin

text \<open>
  Attendance periods (\<^verbatim>\<open>src/internal/hr/timesheet/service.go\<close>) with the constraints and triggers of their tables.  Every
  command first reads through the pool and then runs one transaction, so it takes two states: \<open>r\<close>, the rows it read, and
  \<open>db\<close>, the rows its transaction meets; \<open>r\<close> is any earlier state when other commands commit in between.
  Parameters stand for the uuid package, fresh ids, the clock and the digest of the serialised days; a date column holds
  the text of the date.
\<close>

section \<open>Rows\<close>

datatype ts_error = TSForbidden | TSValidation | ErrPeriodNotFound | ErrDayNotFound | ErrFinalized | ErrNotFinalized
  | ErrUsedByPayroll | ErrPeriodExists | ErrEmployeeNotReady | TSConflict | TSDatabase

record ts_session =
  ss_Permissions :: "string list"
  ss_UserID :: string

record Period =
  pd_Year :: int
  pd_Month :: int
  pd_Status :: string
  pd_Generation :: int
  pd_Checksum :: "string option"
  pd_FinalizedBy :: "string option"
  pd_ReopenReason :: "string option"
  pd_Version :: int

record day_row = Day +
  dr_ID :: string
  dr_Period :: string
  dr_Employee :: string
  dr_ScheduleVersion :: "string option"
  dr_Overtime :: int
  dr_Absence :: int
  dr_Explanation :: string
  dr_LeaveType :: "string option"
  dr_Version :: int

record employee_row =
  em_ID :: string
  em_Name :: string
  em_Active :: bool

record span_row = \<comment> \<open>employments, schedule assignments and template versions: an owner, a range of days, a value\<close>
  sp_Owner :: string
  sp_From :: date
  sp_To :: "date option"
  sp_Value :: string

record ts_db =
  td_periods :: "(string \<times> Period) list"
  td_days :: "day_row list"
  td_employees :: "employee_row list"
  td_employments :: "span_row list"
  td_assignments :: "span_row list"
  td_versions :: "span_row list"
  td_schedule_days :: "(string \<times> nat \<times> int) list" \<comment> \<open>version, ISO weekday, planned minutes\<close>
  td_holidays :: "(int \<times> Holiday) list" \<comment> \<open>of the active calendar of a year\<close>
  td_leave_types :: "string \<rightharpoonup> string \<times> bool" \<comment> \<open>payroll treatment, is it active\<close>
  td_payroll_final :: "string \<Rightarrow> bool" \<comment> \<open>a finalized payroll run refers to the period\<close>

record ts_env =
  te_parse_uuid :: "string \<Rightarrow> string option"
  te_new_id :: "nat \<Rightarrow> string"
  te_digest :: "day_row list \<Rightarrow> string"

section \<open>Dates\<close>

definition month_start :: "Period \<Rightarrow> date" where
  "month_start p = \<lparr>dt_year = nat (pd_Year p), dt_month = nat (pd_Month p), dt_day = 1\<rparr>"

definition month_end :: "Period \<Rightarrow> date" where
  "month_end p = (month_start p)\<lparr>dt_day := days_in_month (nat (pd_Year p)) (nat (pd_Month p))\<rparr>"

definition overlaps :: "date \<Rightarrow> date \<Rightarrow> span_row \<Rightarrow> bool" where
  "overlaps x y sp = (\<not> Before y (sp_From sp) \<and> (case sp_To sp of None \<Rightarrow> True | Some e \<Rightarrow> \<not> Before e x))"

section \<open>Loaders\<close>

definition period_by_id :: "ts_env \<Rightarrow> ts_db \<Rightarrow> string \<Rightarrow> ts_error + string \<times> Period" where
  "period_by_id env db i =
     (if i = [] then Inl ErrPeriodNotFound
      else bindE (found (te_parse_uuid env i) TSDatabase) (\<lambda>i.
           bindE (found (map_of (td_periods db) i) ErrPeriodNotFound) (\<lambda>p. Inr (i, p))))"

definition name_of :: "ts_db \<Rightarrow> string \<Rightarrow> string" where
  "name_of db e = (case find (\<lambda>x. em_ID x = e) (td_employees db) of None \<Rightarrow> [] | Some x \<Rightarrow> em_Name x)"

definition period_days :: "ts_db \<Rightarrow> string \<Rightarrow> day_row list" where
  "period_days db i = filter (\<lambda>d. dr_Period d = i) (td_days db)"

definition row_before :: "ts_db \<Rightarrow> day_row \<Rightarrow> day_row \<Rightarrow> bool" where
  "row_before db a b =
     (str_less (name_of db (dr_Employee a)) (name_of db (dr_Employee b))
      \<or> (name_of db (dr_Employee a) = name_of db (dr_Employee b) \<and> str_less (dy_Date a) (dy_Date b)))"

definition GetPeriod :: "ts_env \<Rightarrow> ts_session \<Rightarrow> ts_db \<Rightarrow> string \<Rightarrow> ts_error + string \<times> Period \<times> day_row list" where
  "GetPeriod env s db i =
     bindE (need (''hr.timesheet.read'' \<in> set (ss_Permissions s)) TSForbidden) (\<lambda>_.
     bindE (period_by_id env db i) (\<lambda>(i, p).
     Inr (i, p, stable_sort (row_before db) (period_days db i))))"

definition min_date :: "date list \<Rightarrow> date" where
  "min_date xs = fold (\<lambda>x m. if Before x m then x else m) xs (hd xs)"

definition max_date :: "date list \<Rightarrow> date" where
  "max_date xs = fold (\<lambda>x m. if Before m x then x else m) xs (hd xs)"

definition no_end :: date where
  "no_end = \<lparr>dt_year = 9999, dt_month = 12, dt_day = 31\<rparr>"

definition end_of :: "span_row \<Rightarrow> date" where
  "end_of sp = (case sp_To sp of None \<Rightarrow> no_end | Some e \<Rightarrow> e)"

definition employment_span :: "ts_db \<Rightarrow> date \<Rightarrow> date \<Rightarrow> string \<Rightarrow> (date \<times> date option) option" where
  "employment_span db x y e =
     (let xs = filter (\<lambda>sp. sp_Owner sp = e \<and> overlaps x y sp) (td_employments db); t = max_date (map end_of xs) in
      if xs = [] then None
      else Some (min_date (map sp_From xs), if dt_year t < 9999 then Some t else None))"

definition loadEmployments :: "ts_db \<Rightarrow> date \<Rightarrow> date \<Rightarrow> (string \<times> date \<times> date option) list" where
  "loadEmployments db x y =
     stable_sort (\<lambda>a b. str_less (fst a) (fst b))
       (List.map_filter (\<lambda>e. map_option (Pair (em_ID e)) (employment_span db x y (em_ID e))) (filter em_Active (td_employees db)))"

definition DefaultSchedule :: "nat \<rightharpoonup> int" where
  "DefaultSchedule w = (if 1 \<le> w \<and> w \<le> 5 then Some 480 else None)"

definition isoWeekdayToTime :: "nat \<Rightarrow> nat" where
  "isoWeekdayToTime w = (if w = 7 then 0 else w)"

text \<open>\<^verbatim>\<open>ORDER BY effective_from DESC LIMIT 1\<close>.\<close>

definition latest :: "span_row list \<Rightarrow> span_row option" where
  "latest xs = fold (\<lambda>x m. case m of None \<Rightarrow> Some x | Some y \<Rightarrow> if Before (sp_From y) (sp_From x) then Some x else m) xs None"

definition schedule_of :: "ts_db \<Rightarrow> string \<Rightarrow> nat \<rightharpoonup> int" where
  "schedule_of db v w =
     map_option (\<lambda>(_, _, p). p) (find (\<lambda>(v', w', p). v' = v \<and> isoWeekdayToTime w' = w) (rev (td_schedule_days db)))"

definition loadSchedule :: "ts_db \<Rightarrow> string \<Rightarrow> date \<Rightarrow> date \<Rightarrow> (nat \<rightharpoonup> int) \<times> string option" where
  "loadSchedule db e x y =
     (case latest (filter (\<lambda>sp. sp_Owner sp = e \<and> overlaps x y sp) (td_assignments db)) of
        None \<Rightarrow> (DefaultSchedule, None)
      | Some a \<Rightarrow>
          (case latest (filter (\<lambda>sp. sp_Owner sp = sp_Value a \<and> overlaps x y sp) (td_versions db)) of
             None \<Rightarrow> (DefaultSchedule, None)
           | Some v \<Rightarrow> (schedule_of db (sp_Value v), Some (sp_Value v))))"

definition loadHolidays :: "ts_db \<Rightarrow> int \<Rightarrow> Holiday list" where
  "loadHolidays db y = map snd (filter (\<lambda>h. fst h = y) (td_holidays db))"

definition loadManualDays :: "ts_db \<Rightarrow> string \<Rightarrow> string \<Rightarrow> Day list" where
  "loadManualDays db i e =
     map Day.truncate (filter (\<lambda>d. dr_Employee d = e \<and> dy_Source d = ''MANUAL'') (period_days db i))"

section \<open>Writing days\<close>

definition finalized :: "ts_db \<Rightarrow> string \<Rightarrow> bool" where
  "finalized db i = (case map_of (td_periods db) i of None \<Rightarrow> False | Some p \<Rightarrow> pd_Status p = ''FINALIZED'')"

definition minutes_ok :: "day_row \<Rightarrow> bool" where
  "minutes_ok d =
     (0 \<le> dy_PlannedMinutes d \<and> dy_PlannedMinutes d \<le> 1440 \<and> 0 \<le> dy_WorkedMinutes d \<and> dy_WorkedMinutes d \<le> 1440
      \<and> 0 \<le> dy_PaidLeaveMinutes d \<and> dy_PaidLeaveMinutes d \<le> 1440 \<and> 0 \<le> dy_UnpaidLeaveMinutes d \<and> dy_UnpaidLeaveMinutes d \<le> 1440
      \<and> 0 \<le> dr_Overtime d \<and> 0 \<le> dy_WeekRestMinutes d \<and> 0 \<le> dy_PublicHolidayMinutes d \<and> 0 \<le> dr_Absence d
      \<and> dy_Source d \<in> {''GENERATED'', ''MANUAL''} \<and> 0 < dr_Version d)"

definition same_day :: "day_row \<Rightarrow> day_row \<Rightarrow> bool" where
  "same_day a b = (dr_Period a = dr_Period b \<and> dr_Employee a = dr_Employee b \<and> dy_Date a = dy_Date b)"

definition leave_known :: "ts_db \<Rightarrow> day_row \<Rightarrow> bool" where
  "leave_known db d = (case dr_LeaveType d of None \<Rightarrow> True | Some t \<Rightarrow> td_leave_types db t \<noteq> None)"

text \<open>The trigger fires before the checks, the keys come last.\<close>

definition insert_day :: "day_row \<Rightarrow> ts_db \<Rightarrow> ts_error + ts_db" where
  "insert_day d db =
     bindE (need (\<not> finalized db (dr_Period d)) ErrFinalized) (\<lambda>_.
     bindE (need (minutes_ok d) TSValidation) (\<lambda>_.
     bindE (need (\<not> list_ex (\<lambda>x. same_day d x \<or> dr_ID x = dr_ID d) (td_days db) \<and> map_of (td_periods db) (dr_Period d) \<noteq> None
                  \<and> list_ex (\<lambda>e. em_ID e = dr_Employee d) (td_employees db) \<and> leave_known db d) TSDatabase) (\<lambda>_.
     Inr (db\<lparr>td_days := td_days db @ [d]\<rparr>))))"

definition update_day :: "(day_row \<Rightarrow> bool) \<Rightarrow> (day_row \<Rightarrow> day_row) \<Rightarrow> ts_db \<Rightarrow> ts_error + ts_db" where
  "update_day sel f db =
     bindE (need (list_all (\<lambda>d. sel d \<longrightarrow> \<not> finalized db (dr_Period d)) (td_days db)) ErrFinalized) (\<lambda>_.
     bindE (need (list_all (\<lambda>d. sel d \<longrightarrow> minutes_ok (f d)) (td_days db)) TSValidation) (\<lambda>_.
     bindE (need (list_all (\<lambda>d. sel d \<longrightarrow> leave_known db (f d)) (td_days db)) TSDatabase) (\<lambda>_.
     Inr (db\<lparr>td_days := map (\<lambda>d. if sel d then f d else d) (td_days db)\<rparr>))))"

definition delete_days :: "(day_row \<Rightarrow> bool) \<Rightarrow> ts_db \<Rightarrow> ts_error + ts_db" where
  "delete_days sel db =
     bindE (need (list_all (\<lambda>d. sel d \<longrightarrow> \<not> finalized db (dr_Period d)) (td_days db)) ErrFinalized) (\<lambda>_.
     Inr (db\<lparr>td_days := filter (\<lambda>d. \<not> sel d) (td_days db)\<rparr>))"

definition set_period :: "string \<Rightarrow> (Period \<Rightarrow> Period) \<Rightarrow> ts_db \<Rightarrow> ts_db" where
  "set_period i f db = db\<lparr>td_periods := map (\<lambda>(j, p). (j, if j = i then f p else p)) (td_periods db)\<rparr>"

section \<open>Commands\<close>

definition may :: "ts_session \<Rightarrow> string \<Rightarrow> ts_error + unit" where
  "may s permission = need (permission \<in> set (ss_Permissions s)) TSForbidden"

definition CreatePeriod :: "ts_env \<Rightarrow> ts_session \<Rightarrow> int \<Rightarrow> int \<Rightarrow> ts_db \<Rightarrow> ts_error + ts_db" where
  "CreatePeriod env s year month db =
     bindE (may s ''hr.timesheet.edit'') (\<lambda>_.
     bindE (need (\<not> (year < 2000 \<or> 2200 < year \<or> month < 1 \<or> 12 < month)) TSValidation) (\<lambda>_.
     bindE (need (map_of (td_periods db) (te_new_id env 0) = None) TSDatabase) (\<lambda>_.
     bindE (need (\<not> list_ex (\<lambda>(_, p). pd_Year p = year \<and> pd_Month p = month) (td_periods db)) ErrPeriodExists) (\<lambda>_.
     Inr (db\<lparr>td_periods := td_periods db @ [(te_new_id env 0,
       \<lparr>pd_Year = year, pd_Month = month, pd_Status = ''DRAFT'', pd_Generation = 1, pd_Checksum = None, pd_FinalizedBy = None,
        pd_ReopenReason = None, pd_Version = 1\<rparr>)]\<rparr>)))))"

definition month_input :: "ts_db \<Rightarrow> ts_db \<Rightarrow> string \<Rightarrow> Period \<Rightarrow> string \<times> date \<times> date option \<Rightarrow> gen_input" where
  "month_input r db i p emp =
     \<lparr>gi_Year = nat (pd_Year p), gi_Month = nat (pd_Month p), gi_EmploymentFrom = fst (snd emp), gi_EmploymentTo = snd (snd emp),
      gi_Schedule = fst (loadSchedule r (fst emp) (month_start p) (month_end p)), gi_Holidays = loadHolidays r (pd_Year p),
      gi_ExistingManual = loadManualDays db i (fst emp)\<rparr>"

definition generated_row :: "string \<Rightarrow> string \<Rightarrow> string \<Rightarrow> string option \<Rightarrow> Day \<Rightarrow> day_row" where
  "generated_row new i e v d =
     \<lparr>dy_Date = dy_Date d, dy_Source = ''GENERATED'', dy_PlannedMinutes = dy_PlannedMinutes d, dy_WorkedMinutes = dy_WorkedMinutes d,
      dy_PaidLeaveMinutes = dy_PaidLeaveMinutes d, dy_UnpaidLeaveMinutes = dy_UnpaidLeaveMinutes d,
      dy_PublicHolidayMinutes = dy_PublicHolidayMinutes d, dy_WeekRestMinutes = dy_WeekRestMinutes d,
      dr_ID = new, dr_Period = i, dr_Employee = e, dr_ScheduleVersion = v, dr_Overtime = 0, dr_Absence = 0, dr_Explanation = [],
      dr_LeaveType = None, dr_Version = 1\<rparr>"

fun insert_rows :: "ts_env \<Rightarrow> string \<Rightarrow> string \<Rightarrow> string option \<Rightarrow> nat \<Rightarrow> Day list \<Rightarrow> ts_db \<Rightarrow> ts_error + ts_db \<times> nat" where
  "insert_rows env i e v k [] db = Inr (db, k)"
| "insert_rows env i e v k (d # ds) db =
     (if dy_Source d \<noteq> ''GENERATED'' then insert_rows env i e v k ds db
      else bindE (insert_day (generated_row (te_new_id env k) i e v d) db) (\<lambda>db. insert_rows env i e v (k + 1) ds db))"

fun generate_employees :: "ts_env \<Rightarrow> ts_db \<Rightarrow> string \<Rightarrow> Period \<Rightarrow> nat \<Rightarrow> (string \<times> date \<times> date option) list \<Rightarrow> ts_db \<Rightarrow> ts_error + ts_db" where
  "generate_employees env r i p k [] db = Inr db"
| "generate_employees env r i p k (emp # emps) db =
     bindE (insert_rows env i (fst emp) (snd (loadSchedule r (fst emp) (month_start p) (month_end p))) k
              (fst (Generate (\<lambda>_. []) (month_input r db i p emp))) db) (\<lambda>(db, k).
     generate_employees env r i p k emps db)"

definition GenerateDays :: "ts_env \<Rightarrow> ts_session \<Rightarrow> string \<Rightarrow> ts_db \<Rightarrow> ts_db \<Rightarrow> ts_error + ts_db" where
  "GenerateDays env s periodID r db =
     bindE (may s ''hr.timesheet.edit'') (\<lambda>_.
     bindE (GetPeriod env s r periodID) (\<lambda>(i, p, _).
     bindE (need (pd_Status p \<noteq> ''FINALIZED'') ErrFinalized) (\<lambda>_.
     bindE (delete_days (\<lambda>d. dr_Period d = i \<and> dy_Source d = ''GENERATED'') db) (\<lambda>db.
     bindE (generate_employees env r i p 0 (loadEmployments r (month_start p) (month_end p)) db) (\<lambda>db.
     Inr (set_period i (\<lambda>p. p\<lparr>pd_Generation := pd_Generation p + 1, pd_Version := pd_Version p + 1\<rparr>) db))))))"

record DayInput =
  di_WorkedMinutes :: int
  di_PaidLeaveMinutes :: int
  di_UnpaidLeaveMinutes :: int
  di_OvertimeMinutes :: int
  di_WeekRestMinutes :: int
  di_PublicHolidayMinutes :: int
  di_AbsenceMinutes :: int
  di_Explanation :: string
  di_LeaveTypeID :: "string option"

definition nullif_uuid :: "ts_env \<Rightarrow> string \<Rightarrow> ts_error + string option" where
  "nullif_uuid env t = (if t = [] then Inr None else bindE (found (te_parse_uuid env t) TSDatabase) (\<lambda>t. Inr (Some t)))"

definition trimmed :: "string option \<Rightarrow> string" where
  "trimmed t = (case t of None \<Rightarrow> [] | Some t \<Rightarrow> trim_space t)"

definition manual_update :: "DayInput \<Rightarrow> string option \<Rightarrow> day_row \<Rightarrow> day_row" where
  "manual_update i leave d =
     d\<lparr>dy_Source := ''MANUAL'', dy_WorkedMinutes := di_WorkedMinutes i, dy_PaidLeaveMinutes := di_PaidLeaveMinutes i,
       dy_UnpaidLeaveMinutes := di_UnpaidLeaveMinutes i, dr_Overtime := di_OvertimeMinutes i,
       dy_WeekRestMinutes := di_WeekRestMinutes i, dy_PublicHolidayMinutes := di_PublicHolidayMinutes i,
       dr_Absence := di_AbsenceMinutes i, dr_Explanation := trim_space (di_Explanation i), dr_LeaveType := leave,
       dr_Version := dr_Version d + 1\<rparr>"

definition UpdateDay :: "ts_env \<Rightarrow> ts_session \<Rightarrow> string \<Rightarrow> string \<Rightarrow> int \<Rightarrow> DayInput \<Rightarrow> ts_db \<Rightarrow> ts_error + ts_db" where
  "UpdateDay env s periodID dayID version i db =
     bindE (may s ''hr.timesheet.edit'') (\<lambda>_.
     bindE (need (list_all (\<lambda>v. \<not> (v < 0 \<or> 1440 < v)) [di_WorkedMinutes i, di_PaidLeaveMinutes i, di_UnpaidLeaveMinutes i,
              di_OvertimeMinutes i, di_WeekRestMinutes i, di_PublicHolidayMinutes i, di_AbsenceMinutes i]) TSValidation) (\<lambda>_.
     bindE (nullif_uuid env (trimmed (di_LeaveTypeID i))) (\<lambda>leave.
     bindE (nullif_uuid env periodID) (\<lambda>pid.
     bindE (nullif_uuid env dayID) (\<lambda>did.
     let sel = (\<lambda>d. Some (dr_Period d) = pid \<and> Some (dr_ID d) = did \<and> dr_Version d = version) in
     bindE (update_day sel (manual_update i leave) db) (\<lambda>db'.
     bindE (need (list_ex sel (td_days db)) ErrDayNotFound) (\<lambda>_. Inr db')))))))"

record DayUpsertInput =
  ui_EmployeeID :: string
  ui_WorkDate :: string
  ui_Kind :: string
  ui_Minutes :: int
  ui_OvertimeMinutes :: "int option"
  ui_Explanation :: string
  ui_LeaveTypeID :: "string option"

definition dayKinds :: "string list" where
  "dayKinds = [''WORKED'', ''HALF_DAY'', ''PAID_LEAVE'', ''UNPAID_LEAVE'', ''PUBLIC_HOLIDAY'', ''ABSENT'', ''WEEK_REST'']"

definition leaveDayKinds :: "string list" where "leaveDayKinds = [''PAID_LEAVE'', ''UNPAID_LEAVE'']"

definition absentDayKinds :: "string list" where
  "absentDayKinds = [''PAID_LEAVE'', ''UNPAID_LEAVE'', ''ABSENT'', ''WEEK_REST'']"

definition bucketsForKind :: "string \<Rightarrow> int \<Rightarrow> string \<Rightarrow> DayInput" where
  "bucketsForKind kind planned leaveTypeID =
     (let d = \<lparr>di_WorkedMinutes = 0, di_PaidLeaveMinutes = 0, di_UnpaidLeaveMinutes = 0, di_OvertimeMinutes = 0, di_WeekRestMinutes = 0,
               di_PublicHolidayMinutes = 0, di_AbsenceMinutes = 0, di_Explanation = [], di_LeaveTypeID = None\<rparr>;
          d = (if kind = ''WORKED'' then d\<lparr>di_WorkedMinutes := planned\<rparr>
               else if kind = ''HALF_DAY'' then d\<lparr>di_WorkedMinutes := half planned\<rparr>
               else if kind = ''PAID_LEAVE'' then d\<lparr>di_PaidLeaveMinutes := planned\<rparr>
               else if kind = ''UNPAID_LEAVE'' then d\<lparr>di_UnpaidLeaveMinutes := planned\<rparr>
               else if kind = ''PUBLIC_HOLIDAY'' then d\<lparr>di_PublicHolidayMinutes := planned\<rparr>
               else if kind = ''ABSENT'' then d\<lparr>di_AbsenceMinutes := planned\<rparr>
               else if kind = ''WEEK_REST'' then d\<lparr>di_WeekRestMinutes := planned\<rparr>
               else d) in
      if kind \<in> set leaveDayKinds \<and> leaveTypeID \<noteq> [] then d\<lparr>di_LeaveTypeID := Some leaveTypeID\<rparr> else d)"

text \<open>An employee can be entered when active and employed at some day of the month.\<close>

definition checkEmployee :: "ts_db \<Rightarrow> string \<Rightarrow> Period \<Rightarrow> ts_error + unit" where
  "checkEmployee r e p =
     need (list_ex (\<lambda>x. em_ID x = e \<and> em_Active x) (td_employees r)
           \<and> list_ex (\<lambda>sp. sp_Owner sp = e \<and> overlaps (month_start p) (month_end p) sp) (td_employments r)) ErrEmployeeNotReady"

definition leave_for :: "ts_env \<Rightarrow> ts_db \<Rightarrow> string \<Rightarrow> string \<Rightarrow> ts_error + string option" where
  "leave_for env r kind leaveTypeID =
     (if kind \<notin> set leaveDayKinds then Inr None
      else bindE (need (leaveTypeID \<noteq> []) TSValidation) (\<lambda>_.
           bindE (found (te_parse_uuid env leaveTypeID) TSDatabase) (\<lambda>t.
           bindE (found (td_leave_types r t) TSValidation) (\<lambda>(treatment, active).
           bindE (need (active \<and> (treatment = ''UNPAID'') = (kind = ''UNPAID_LEAVE'')) TSValidation) (\<lambda>_. Inr (Some t))))))"

definition planned_minutes :: "ts_db \<Rightarrow> string \<Rightarrow> string \<Rightarrow> date \<Rightarrow> int \<Rightarrow> int" where
  "planned_minutes r i e x minutes =
     (let planned = minutes;
          planned = (if planned \<le> 0 then
                       (case find (\<lambda>d. dr_Employee d = e \<and> dy_Date d = date_text x) (period_days r i) of
                          None \<Rightarrow> planned | Some d \<Rightarrow> dy_PlannedMinutes d)
                     else planned);
          planned = (if planned \<le> 0 then
                       (case fst (loadSchedule r e x x) (weekday x) of None \<Rightarrow> 0 | Some m \<Rightarrow> m)
                     else planned);
          planned = (if planned \<le> 0 then 480 else planned) in
      if planned > 1440 then 1440 else planned)"

definition upsert_row :: "DayInput \<Rightarrow> string option \<Rightarrow> int \<Rightarrow> int \<Rightarrow> day_row \<Rightarrow> day_row" where
  "upsert_row b leave planned overtime d =
     d\<lparr>dy_Source := ''MANUAL'', dy_PlannedMinutes := planned, dy_WorkedMinutes := di_WorkedMinutes b,
       dy_PaidLeaveMinutes := di_PaidLeaveMinutes b, dy_UnpaidLeaveMinutes := di_UnpaidLeaveMinutes b,
       dy_WeekRestMinutes := di_WeekRestMinutes b, dy_PublicHolidayMinutes := di_PublicHolidayMinutes b,
       dr_Absence := di_AbsenceMinutes b, dr_Overtime := overtime, dr_LeaveType := leave\<rparr>"

definition blank_row :: "string \<Rightarrow> string \<Rightarrow> string \<Rightarrow> string \<Rightarrow> day_row" where
  "blank_row new i e date =
     \<lparr>dy_Date = date, dy_Source = ''MANUAL'', dy_PlannedMinutes = 0, dy_WorkedMinutes = 0, dy_PaidLeaveMinutes = 0,
      dy_UnpaidLeaveMinutes = 0, dy_PublicHolidayMinutes = 0, dy_WeekRestMinutes = 0, dr_ID = new, dr_Period = i, dr_Employee = e,
      dr_ScheduleVersion = None, dr_Overtime = 0, dr_Absence = 0, dr_Explanation = [], dr_LeaveType = None, dr_Version = 1\<rparr>"

definition upsert_write :: "ts_env \<Rightarrow> DayUpsertInput \<Rightarrow> string \<Rightarrow> string \<Rightarrow> date \<Rightarrow> DayInput \<Rightarrow> string option \<Rightarrow> int \<Rightarrow> int option \<Rightarrow> ts_db \<Rightarrow> ts_error + ts_db" where
  "upsert_write env u i e x b leave planned overtime db =
     (let sel = same_day (blank_row [] i e (date_text x));
          f = (\<lambda>stored d. (upsert_row b leave planned (case overtime of None \<Rightarrow> stored | Some m \<Rightarrow> m) d)
                 \<lparr>dr_Explanation := trim_space (ui_Explanation u)\<rparr>) in
      if list_ex sel (td_days db) then update_day sel (\<lambda>d. (f (dr_Overtime d) d)\<lparr>dr_Version := dr_Version d + 1\<rparr>) db
      else insert_day (f 0 (blank_row (te_new_id env 0) i e (date_text x))) db)"

definition UpsertDay :: "ts_env \<Rightarrow> ts_session \<Rightarrow> string \<Rightarrow> DayUpsertInput \<Rightarrow> ts_db \<Rightarrow> ts_db \<Rightarrow> ts_error + ts_db" where
  "UpsertDay env s periodID u r db =
     bindE (may s ''hr.timesheet.edit'') (\<lambda>_.
     bindE (GetPeriod env s r periodID) (\<lambda>(i, p, _).
     bindE (need (pd_Status p \<noteq> ''FINALIZED'') ErrFinalized) (\<lambda>_.
     let kind = to_upper (trim_space (ui_Kind u)) in
     bindE (need (trim_space (ui_EmployeeID u) \<noteq> [] \<and> kind \<in> set dayKinds) TSValidation) (\<lambda>_.
     bindE (found (parse_date (trim_space (ui_WorkDate u))) TSValidation) (\<lambda>x.
     bindE (need (int (dt_year x) = pd_Year p \<and> int (dt_month x) = pd_Month p) TSValidation) (\<lambda>_.
     bindE (found (te_parse_uuid env (trim_space (ui_EmployeeID u))) TSDatabase) (\<lambda>e.
     bindE (checkEmployee r e p) (\<lambda>_.
     bindE (leave_for env r kind (trimmed (ui_LeaveTypeID u))) (\<lambda>leave.
     let planned = planned_minutes r i e x (ui_Minutes u);
         b = bucketsForKind kind planned (if leave = None then [] else trimmed (ui_LeaveTypeID u)) in
     bindE (if kind \<in> set absentDayKinds then Inr (Some 0)
            else (case ui_OvertimeMinutes u of
                None \<Rightarrow> Inr None
              | Some m \<Rightarrow> bindE (need (\<not> (m < 0 \<or> 1440 < m)) TSValidation) (\<lambda>_. Inr (Some m)))) (\<lambda>overtime.
     upsert_write env u i e x b leave planned overtime db))))))))))"

definition DeleteDay :: "ts_env \<Rightarrow> ts_session \<Rightarrow> string \<Rightarrow> string \<Rightarrow> ts_db \<Rightarrow> ts_error + ts_db" where
  "DeleteDay env s periodID dayID db =
     bindE (may s ''hr.timesheet.edit'') (\<lambda>_.
     bindE (nullif_uuid env periodID) (\<lambda>pid.
     bindE (nullif_uuid env dayID) (\<lambda>did.
     let sel = (\<lambda>d. Some (dr_Period d) = pid \<and> Some (dr_ID d) = did) in
     bindE (delete_days sel db) (\<lambda>db'.
     bindE (need (list_ex sel (td_days db)) ErrDayNotFound) (\<lambda>_. Inr db')))))"

definition close_period :: "string \<Rightarrow> string \<Rightarrow> Period \<Rightarrow> Period" where
  "close_period user checksum q =
     q\<lparr>pd_Status := ''FINALIZED'', pd_Checksum := Some checksum, pd_FinalizedBy := Some user, pd_Version := pd_Version q + 1\<rparr>"

definition open_period :: "string \<Rightarrow> Period \<Rightarrow> Period" where
  "open_period reason q =
     q\<lparr>pd_Status := ''DRAFT'', pd_Checksum := None, pd_FinalizedBy := None, pd_ReopenReason := Some reason,
       pd_Version := pd_Version q + 1\<rparr>"

definition Finalize :: "ts_env \<Rightarrow> ts_session \<Rightarrow> string \<Rightarrow> int \<Rightarrow> ts_db \<Rightarrow> ts_db \<Rightarrow> ts_error + ts_db" where
  "Finalize env s periodID version r db =
     bindE (may s ''hr.timesheet.finalize'') (\<lambda>_.
     bindE (GetPeriod env s r periodID) (\<lambda>(i, p, days).
     if pd_Status p = ''FINALIZED'' then Inr db
     else
       let checksum = te_digest env days in
       bindE (found (map_of (td_periods db) i) TSConflict) (\<lambda>q.
       bindE (need (pd_Status q = ''DRAFT'' \<and> pd_Version q = version) TSConflict) (\<lambda>_.
       Inr (set_period i (close_period (ss_UserID s) checksum) db)))))"

definition Reopen :: "ts_env \<Rightarrow> ts_session \<Rightarrow> string \<Rightarrow> int \<Rightarrow> string \<Rightarrow> ts_db \<Rightarrow> ts_error + ts_db" where
  "Reopen env s periodID version reason db =
     bindE (may s ''hr.timesheet.reopen'') (\<lambda>_.
     bindE (need (trim_space reason \<noteq> []) TSValidation) (\<lambda>_.
     bindE (nullif_uuid env periodID) (\<lambda>pid.
     bindE (found (case pid of None \<Rightarrow> None | Some i \<Rightarrow> map_option (Pair i) (map_of (td_periods db) i)) ErrNotFinalized) (\<lambda>(i, q).
     bindE (need (pd_Status q = ''FINALIZED'' \<and> pd_Version q = version) ErrNotFinalized) (\<lambda>_.
     bindE (need (\<not> td_payroll_final db i) ErrUsedByPayroll) (\<lambda>_.
     Inr (set_period i (open_period (trim_space reason)) db)))))))"

section \<open>Runs\<close>

datatype ts_cmd =
    CmdCreate int int
  | CmdGenerate string
  | CmdUpdate string string int DayInput
  | CmdUpsert string DayUpsertInput
  | CmdDelete string string
  | CmdFinalize string int
  | CmdReopen string int string

fun ts_exec :: "ts_env \<Rightarrow> ts_session \<Rightarrow> ts_cmd \<Rightarrow> ts_db \<Rightarrow> ts_db \<Rightarrow> ts_error + ts_db" where
  "ts_exec env s (CmdCreate y m) r db = CreatePeriod env s y m db"
| "ts_exec env s (CmdGenerate i) r db = GenerateDays env s i r db"
| "ts_exec env s (CmdUpdate i d v x) r db = UpdateDay env s i d v x db"
| "ts_exec env s (CmdUpsert i u) r db = UpsertDay env s i u r db"
| "ts_exec env s (CmdDelete i d) r db = DeleteDay env s i d db"
| "ts_exec env s (CmdFinalize i v) r db = Finalize env s i v r db"
| "ts_exec env s (CmdReopen i v reason) r db = Reopen env s i v reason db"

definition ts_after :: "ts_env \<Rightarrow> ts_session \<Rightarrow> ts_cmd \<Rightarrow> ts_db \<Rightarrow> ts_db \<Rightarrow> ts_db" where
  "ts_after env s cmd r db = (case ts_exec env s cmd r db of Inl e \<Rightarrow> db | Inr db' \<Rightarrow> db')"

text \<open>A command that runs alone reads what its transaction meets.\<close>

definition ts_alone :: "ts_env \<Rightarrow> ts_session \<Rightarrow> ts_cmd \<Rightarrow> ts_db \<Rightarrow> ts_db" where
  "ts_alone env s cmd db = ts_after env s cmd db db"

section \<open>A finalized month is frozen\<close>

definition frozen :: "string \<Rightarrow> ts_db \<Rightarrow> ts_db \<Rightarrow> bool" where
  "frozen i db db' =
     (period_days db' i = period_days db i \<and> td_payroll_final db' = td_payroll_final db
      \<and> (\<exists>p p'. map_of (td_periods db) i = Some p \<and> map_of (td_periods db') i = Some p' \<and> pd_Status p' = ''FINALIZED''
           \<and> pd_Checksum p' = pd_Checksum p \<and> pd_FinalizedBy p' = pd_FinalizedBy p \<and> pd_Year p' = pd_Year p \<and> pd_Month p' = pd_Month p))"

lemma finalized_iff: "finalized db i \<longleftrightarrow> (\<exists>p. map_of (td_periods db) i = Some p \<and> pd_Status p = ''FINALIZED'')"
  by (auto simp: finalized_def split: option.splits)

lemma frozen_refl: "finalized db i \<Longrightarrow> frozen i db db"
  by (auto simp: frozen_def finalized_iff)

lemma frozen_trans: "frozen i a b \<Longrightarrow> frozen i b c \<Longrightarrow> frozen i a c"
  by (auto simp: frozen_def)

lemma frozen_finalized: "frozen i a b \<Longrightarrow> finalized b i"
  by (auto simp: frozen_def finalized_iff)

lemma map_of_set_period [simp]:
  "map_of (td_periods (set_period i f db)) j = (if j = i then map_option f (map_of (td_periods db) i) else map_of (td_periods db) j)"
proof -
  have "map_of (map (\<lambda>(j, p). (j, if j = i then f p else p)) xs) j = (if j = i then map_option f (map_of xs i) else map_of xs j)" for xs
    by (induction xs) auto
  then show ?thesis by (simp add: set_period_def)
qed

lemma set_period_days [simp]: "period_days (set_period i f db) = period_days db" "td_payroll_final (set_period i f db) = td_payroll_final db"
  by (simp_all add: fun_eq_iff period_days_def set_period_def)

lemma filter_map_keep:
  "(\<And>d. d \<in> set xs \<Longrightarrow> P (g d) = P d \<and> (P d \<longrightarrow> g d = d)) \<Longrightarrow> filter P (map g xs) = filter P xs"
  by (induction xs) auto

lemma insert_day_frozen:
  assumes "insert_day d db = Inr db'" "finalized db i" shows "frozen i db db'"
proof -
  have "dr_Period d \<noteq> i" "db' = db\<lparr>td_days := td_days db @ [d]\<rparr>" using assms by (auto simp: insert_day_def bindE_Inr_iff)
  then show ?thesis using assms(2) by (auto simp: frozen_def finalized_iff period_days_def)
qed

lemma update_day_frozen:
  assumes "update_day sel f db = Inr db'" "finalized db i" "\<And>d. dr_Period (f d) = dr_Period d"
  shows "frozen i db db'"
proof -
  have u: "\<forall>d \<in> set (td_days db). sel d \<longrightarrow> \<not> finalized db (dr_Period d)"
    "db' = db\<lparr>td_days := map (\<lambda>d. if sel d then f d else d) (td_days db)\<rparr>"
    using assms(1) by (auto simp: update_day_def bindE_Inr_iff list_all_iff)
  have "period_days db' i = period_days db i"
    unfolding period_days_def u(2) using u(1) assms(2,3) by (auto intro!: filter_map_keep)
  then show ?thesis using assms(2) u(2) by (auto simp: frozen_def finalized_iff)
qed

lemma delete_days_frozen:
  assumes "delete_days sel db = Inr db'" "finalized db i" shows "frozen i db db'"
proof -
  have u: "\<forall>d \<in> set (td_days db). sel d \<longrightarrow> \<not> finalized db (dr_Period d)" "db' = db\<lparr>td_days := filter (\<lambda>d. \<not> sel d) (td_days db)\<rparr>"
    using assms(1) by (auto simp: delete_days_def bindE_Inr_iff list_all_iff)
  have "period_days db' i = period_days db i"
    unfolding period_days_def u(2) using u(1) assms(2) by (auto simp: conj_commute intro!: filter_cong)
  then show ?thesis using assms(2) u(2) by (auto simp: frozen_def finalized_iff)
qed

lemma set_period_frozen:
  assumes "finalized db i" "\<And>p. pd_Status (f p) = pd_Status p \<and> pd_Checksum (f p) = pd_Checksum p \<and> pd_FinalizedBy (f p) = pd_FinalizedBy p
    \<and> pd_Year (f p) = pd_Year p \<and> pd_Month (f p) = pd_Month p \<or> j \<noteq> i"
  shows "frozen i db (set_period j f db)"
  using assms by (auto simp: frozen_def finalized_iff)

lemma insert_rows_frozen: "insert_rows env j e v k ds db = Inr (db', k') \<Longrightarrow> finalized db i \<Longrightarrow> frozen i db db'"
proof (induction ds arbitrary: db k)
  case (Cons d ds)
  show ?case
  proof (cases "dy_Source d = ''GENERATED''")
    case True
    then obtain db1 where s: "insert_day (generated_row (te_new_id env k) j e v d) db = Inr db1" "insert_rows env j e v (k + 1) ds db1 = Inr (db', k')"
      using Cons.prems(1) by (auto simp: bindE_Inr_iff)
    have f: "frozen i db db1" using s(1) Cons.prems(2) by (rule insert_day_frozen)
    then show ?thesis using Cons.IH [OF s(2) frozen_finalized [OF f]] by (rule frozen_trans)
  qed (use Cons in simp)
qed (simp add: frozen_refl)

lemma generate_employees_frozen: "generate_employees env r j p k emps db = Inr db' \<Longrightarrow> finalized db i \<Longrightarrow> frozen i db db'"
proof (induction emps arbitrary: db k)
  case (Cons emp emps)
  obtain db1 k1 where s: "insert_rows env j (fst emp) (snd (loadSchedule r (fst emp) (month_start p) (month_end p))) k
      (fst (Generate (\<lambda>_. []) (month_input r db j p emp))) db = Inr (db1, k1)" "generate_employees env r j p k1 emps db1 = Inr db'"
    using Cons.prems(1) by (auto simp: bindE_Inr_iff)
  have f: "frozen i db db1" using s(1) Cons.prems(2) by (rule insert_rows_frozen)
  then show ?case using Cons.IH [OF s(2) frozen_finalized [OF f]] by (rule frozen_trans)
qed (simp add: frozen_refl)

lemma generate_frozen:
  assumes "GenerateDays env s pid r db = Inr db'" "finalized db i" shows "frozen i db db'"
proof -
  obtain j p db1 db2 where s: "delete_days (\<lambda>d. dr_Period d = j \<and> dy_Source d = ''GENERATED'') db = Inr db1"
    "generate_employees env r j p 0 (loadEmployments r (month_start p) (month_end p)) db1 = Inr db2"
    "db' = set_period j (\<lambda>p. p\<lparr>pd_Generation := pd_Generation p + 1, pd_Version := pd_Version p + 1\<rparr>) db2"
    using assms(1) unfolding GenerateDays_def by (fastforce elim!: bindE_InrE)
  have f1: "frozen i db db1" using s(1) assms(2) by (rule delete_days_frozen)
  have f2: "frozen i db1 db2" using s(2) frozen_finalized [OF f1] by (rule generate_employees_frozen)
  have "frozen i db2 db'" unfolding s(3) using frozen_finalized [OF f2] by (rule set_period_frozen) simp
  with f1 f2 show ?thesis by (blast intro: frozen_trans)
qed

lemma UpsertDay_Inr:
  "UpsertDay env s pid u r db = Inr db' \<Longrightarrow> \<exists>i p ds x e b leave planned overtime.
     GetPeriod env s r pid = Inr (i, p, ds) \<and> parse_date (trim_space (ui_WorkDate u)) = Some x
     \<and> int (dt_year x) = pd_Year p \<and> int (dt_month x) = pd_Month p \<and> upsert_write env u i e x b leave planned overtime db = Inr db'"
  unfolding UpsertDay_def Let_def by (fastforce elim!: bindE_InrE)

lemma upsert_frozen:
  assumes "UpsertDay env s pid u r db = Inr db'" "finalized db i" shows "frozen i db db'"
proof -
  obtain j e x b leave planned overtime where "upsert_write env u j e x b leave planned overtime db = Inr db'"
    using UpsertDay_Inr [OF assms(1)] by blast
  then show ?thesis using assms(2)
    by (auto simp: upsert_write_def Let_def upsert_row_def split: if_splits intro: update_day_frozen insert_day_frozen)
qed

lemma UpdateDay_Inr: "UpdateDay env s p d v x db = Inr db' \<Longrightarrow> \<exists>sel leave. update_day sel (manual_update x leave) db = Inr db'"
  unfolding UpdateDay_def Let_def by (elim bindE_InrE) auto

lemma DeleteDay_Inr: "DeleteDay env s p d db = Inr db' \<Longrightarrow> \<exists>sel. delete_days sel db = Inr db'"
  unfolding DeleteDay_def Let_def by (elim bindE_InrE) auto

lemma Finalize_Inr:
  "Finalize env s pid v r db = Inr db' \<Longrightarrow> db' = db \<or> (\<exists>j q c. map_of (td_periods db) j = Some q \<and> pd_Status q = ''DRAFT''
     \<and> db' = set_period j (close_period (ss_UserID s) c) db)"
  unfolding Finalize_def Let_def by (fastforce split: if_splits elim!: bindE_InrE)

lemma Reopen_Inr:
  "Reopen env s pid v reason db = Inr db' \<Longrightarrow> \<exists>j q. map_of (td_periods db) j = Some q \<and> pd_Status q = ''FINALIZED'' \<and> \<not> td_payroll_final db j
     \<and> db' = set_period j (open_period (trim_space reason)) db"
  unfolding Reopen_def by (fastforce elim!: bindE_InrE split: option.splits)

lemma exec_frozen:
  assumes "ts_exec env s cmd r db = Inr db'" "finalized db i" "td_payroll_final db i \<or> (\<forall>p v reason. cmd \<noteq> CmdReopen p v reason)"
  shows "frozen i db db'"
proof (cases cmd)
  case (CmdCreate y m)
  then show ?thesis using assms(1,2) by (auto simp: CreatePeriod_def bindE_Inr_iff frozen_def finalized_iff period_days_def map_add_def split: option.splits)
next
  case (CmdGenerate p)
  then show ?thesis using assms by (auto intro: generate_frozen)
next
  case (CmdUpdate p d v x)
  then obtain sel leave where "update_day sel (manual_update x leave) db = Inr db'"
    using assms(1) UpdateDay_Inr by fastforce
  then show ?thesis using assms(2) by (rule update_day_frozen) (simp add: manual_update_def)
next
  case (CmdUpsert p u)
  then show ?thesis using assms by (auto intro: upsert_frozen)
next
  case (CmdDelete p d)
  then obtain sel where "delete_days sel db = Inr db'"
    using assms(1) DeleteDay_Inr by fastforce
  then show ?thesis using assms(2) by (rule delete_days_frozen)
next
  case (CmdFinalize p v)
  then consider "db' = db" | j q c where "map_of (td_periods db) j = Some q" "pd_Status q = ''DRAFT''"
      "db' = set_period j (close_period (ss_UserID s) c) db"
    using assms(1) Finalize_Inr by fastforce
  then show ?thesis
  proof cases
    case (2 j q c)
    then have "j \<noteq> i" using assms(2) by (auto simp: finalized_iff)
    then show ?thesis unfolding 2(3) using assms(2) by (intro set_period_frozen) auto
  qed (use assms(2) in \<open>simp add: frozen_refl\<close>)
next
  case (CmdReopen p v reason)
  then obtain j q where j: "\<not> td_payroll_final db j"
      "db' = set_period j (open_period (trim_space reason)) db"
    using assms(1) Reopen_Inr by fastforce
  then have "j \<noteq> i" using assms(3) CmdReopen by auto
  then show ?thesis unfolding j(2) using assms(2) by (intro set_period_frozen) auto
qed

fun ts_run :: "(ts_env \<times> ts_session \<times> ts_db \<times> ts_cmd) list \<Rightarrow> ts_db \<Rightarrow> ts_db" where
  "ts_run [] db = db"
| "ts_run ((env, s, r, cmd) # rest) db = ts_run rest (ts_after env s cmd r db)"

section \<open>Every row is well typed\<close>

definition typed_period :: "Period \<Rightarrow> bool" where
  "typed_period p =
     (2000 \<le> pd_Year p \<and> pd_Year p \<le> 2200 \<and> 1 \<le> pd_Month p \<and> pd_Month p \<le> 12 \<and> 0 < pd_Generation p \<and> 0 < pd_Version p
      \<and> (if pd_Status p = ''DRAFT'' then pd_Checksum p = None \<and> pd_FinalizedBy p = None
         else pd_Status p = ''FINALIZED'' \<and> pd_Checksum p \<noteq> None \<and> pd_FinalizedBy p \<noteq> None))"

definition in_month :: "Period \<Rightarrow> string \<Rightarrow> bool" where
  "in_month p x =
     (\<exists>n. 1 \<le> n \<and> n \<le> days_in_month (nat (pd_Year p)) (nat (pd_Month p))
          \<and> x = date_text \<lparr>dt_year = nat (pd_Year p), dt_month = nat (pd_Month p), dt_day = n\<rparr>)"

definition typed_day :: "ts_db \<Rightarrow> day_row \<Rightarrow> bool" where
  "typed_day db d = (minutes_ok d \<and> (\<exists>p. map_of (td_periods db) (dr_Period d) = Some p \<and> in_month p (dy_Date d)))"

definition day_key :: "day_row \<Rightarrow> string \<times> string \<times> string" where
  "day_key d = (dr_Period d, dr_Employee d, dy_Date d)"

definition ts_typed :: "ts_db \<Rightarrow> bool" where
  "ts_typed db =
     (list_all (typed_day db) (td_days db) \<and> distinct (map day_key (td_days db)) \<and> distinct (map dr_ID (td_days db))
      \<and> (\<forall>(i, p) \<in> set (td_periods db). typed_period p) \<and> distinct (map fst (td_periods db))
      \<and> distinct (map (\<lambda>(i, p). (pd_Year p, pd_Month p)) (td_periods db)))"

text \<open>No command takes a period away or moves it to another month.\<close>

definition keeps :: "ts_db \<Rightarrow> ts_db \<Rightarrow> bool" where
  "keeps db db' =
     (\<forall>i p. map_of (td_periods db) i = Some p \<longrightarrow>
        (\<exists>p'. map_of (td_periods db') i = Some p' \<and> pd_Year p' = pd_Year p \<and> pd_Month p' = pd_Month p))"

lemma keeps_refl: "keeps db db"
  by (simp add: keeps_def)

lemma keeps_trans: "keeps a b \<Longrightarrow> keeps b c \<Longrightarrow> keeps a c"
  unfolding keeps_def by fastforce

lemma keeps_same: "td_periods db' = td_periods db \<Longrightarrow> keeps db db'"
  by (simp add: keeps_def)

lemma typed_day_keeps: "typed_day db d \<Longrightarrow> keeps db db' \<Longrightarrow> typed_day db' d"
  unfolding typed_day_def keeps_def in_month_def by fastforce

lemma insert_day_typed:
  assumes "insert_day d db = Inr db'" "ts_typed db" "\<And>p. map_of (td_periods db) (dr_Period d) = Some p \<Longrightarrow> in_month p (dy_Date d)"
  shows "ts_typed db'" "td_periods db' = td_periods db"
proof -
  have d: "minutes_ok d" "\<forall>x \<in> set (td_days db). \<not> same_day d x \<and> dr_ID x \<noteq> dr_ID d" "map_of (td_periods db) (dr_Period d) \<noteq> None"
    "db' = db\<lparr>td_days := td_days db @ [d]\<rparr>"
    using assms(1) by (auto simp: insert_day_def bindE_Inr_iff list_ex_iff)
  then show "td_periods db' = td_periods db" by simp
  have "typed_day db d" using d assms(3) by (auto simp: typed_day_def)
  moreover have "typed_day db' = typed_day db" using d(4) by (simp add: fun_eq_iff typed_day_def)
  moreover have "day_key d \<notin> day_key ` set (td_days db)" "dr_ID d \<notin> dr_ID ` set (td_days db)"
    using d(2) by (auto simp: day_key_def same_day_def)
  ultimately show "ts_typed db'" using assms(2) d(4) by (simp add: ts_typed_def)
qed

lemma update_day_typed:
  assumes "update_day sel f db = Inr db'" "ts_typed db" "\<And>d. day_key (f d) = day_key d \<and> dr_ID (f d) = dr_ID d"
  shows "ts_typed db'" "td_periods db' = td_periods db"
proof -
  let ?g = "\<lambda>d. if sel d then f d else d"
  have u: "\<forall>d \<in> set (td_days db). sel d \<longrightarrow> minutes_ok (f d)" "db' = db\<lparr>td_days := map ?g (td_days db)\<rparr>"
    using assms(1) by (auto simp: update_day_def bindE_Inr_iff list_all_iff)
  then show per: "td_periods db' = td_periods db" by simp
  have key: "day_key (?g d) = day_key d" "dr_ID (?g d) = dr_ID d" for d using assms(3) by simp_all
  have same: "dr_Period (f d) = dr_Period d" "dy_Date (f d) = dy_Date d" for d using assms(3) [of d] by (simp_all add: day_key_def)
  have "typed_day db' (?g d)" if "d \<in> set (td_days db)" for d
    using that u assms(2) same [of d] by (auto simp: ts_typed_def typed_day_def list_all_iff)
  then have "typed_day db' x" if "x \<in> ?g ` set (td_days db)" for x using that by (elim imageE) simp
  then have "list_all (typed_day db') (td_days db')" unfolding u(2) list_all_iff by simp
  moreover have "map day_key (td_days db') = map day_key (td_days db)" "map dr_ID (td_days db') = map dr_ID (td_days db)"
    using u(2) key by simp_all
  ultimately show "ts_typed db'" using assms(2) per unfolding ts_typed_def by metis
qed

lemma delete_days_typed:
  assumes "delete_days sel db = Inr db'" "ts_typed db"
  shows "ts_typed db'" "td_periods db' = td_periods db"
proof -
  have u: "db' = db\<lparr>td_days := filter (\<lambda>d. \<not> sel d) (td_days db)\<rparr>" using assms(1) by (auto simp: delete_days_def bindE_Inr_iff)
  then show "td_periods db' = td_periods db" by simp
  have "typed_day db' = typed_day db" using u by (simp add: fun_eq_iff typed_day_def)
  then show "ts_typed db'" using assms(2) u by (auto simp: ts_typed_def list_all_iff distinct_map_filter)
qed

lemma set_period_typed:
  assumes "ts_typed db" "\<And>p. map_of (td_periods db) i = Some p \<Longrightarrow> typed_period p \<Longrightarrow>
    typed_period (f p) \<and> pd_Year (f p) = pd_Year p \<and> pd_Month (f p) = pd_Month p"
  shows "ts_typed (set_period i f db)" "keeps db (set_period i f db)"
proof -
  let ?g = "\<lambda>(j, p). (j, if j = i then f p else p)"
  have f: "typed_period (f p) \<and> pd_Year (f p) = pd_Year p \<and> pd_Month (f p) = pd_Month p" if "(i, p) \<in> set (td_periods db)" for p
    using that assms by (auto simp: ts_typed_def)
  show k: "keeps db (set_period i f db)" using assms by (auto simp: keeps_def ts_typed_def dest: map_of_SomeD)
  have "map fst (map ?g (td_periods db)) = map fst (td_periods db)"
    "map (\<lambda>(i, p). (pd_Year p, pd_Month p)) (map ?g (td_periods db)) = map (\<lambda>(i, p). (pd_Year p, pd_Month p)) (td_periods db)"
    using f by auto
  moreover have "\<forall>(j, p) \<in> set (map ?g (td_periods db)). typed_period p" using f assms(1) by (auto simp: ts_typed_def)
  moreover have "list_all (typed_day (set_period i f db)) (td_days db)"
    using assms(1) typed_day_keeps [OF _ k] by (auto simp: ts_typed_def list_all_iff)
  moreover have "td_periods (set_period i f db) = map ?g (td_periods db)" "td_days (set_period i f db) = td_days db"
    by (simp_all add: set_period_def)
  ultimately show "ts_typed (set_period i f db)" using assms(1) unfolding ts_typed_def by (simp only: simp_thms)
qed

lemma insert_rows_typed:
  assumes "insert_rows env i e v k ds db = Inr (db', k')" "ts_typed db"
    "\<And>d p. d \<in> set ds \<Longrightarrow> dy_Source d = ''GENERATED'' \<Longrightarrow> map_of (td_periods db) i = Some p \<Longrightarrow> in_month p (dy_Date d)"
  shows "ts_typed db' \<and> td_periods db' = td_periods db"
  using assms
proof (induction ds arbitrary: db k)
  case (Cons d ds)
  show ?case
  proof (cases "dy_Source d = ''GENERATED''")
    case True
    then obtain db1 where s: "insert_day (generated_row (te_new_id env k) i e v d) db = Inr db1" "insert_rows env i e v (k + 1) ds db1 = Inr (db', k')"
      using Cons.prems(1) by (auto simp: bindE_Inr_iff)
    have t: "ts_typed db1" "td_periods db1 = td_periods db"
      by (rule insert_day_typed [OF s(1) Cons.prems(2)]; use True Cons.prems(3) in \<open>simp add: generated_row_def\<close>)+
    have "ts_typed db' \<and> td_periods db' = td_periods db1"
      by (rule Cons.IH [OF s(2) t(1)]) (use Cons.prems(3) t(2) in auto)
    then show ?thesis using t(2) by simp
  qed (use Cons in simp)
qed simp

lemma month_in_month:
  assumes "d \<in> set (fst (Generate digest inp))" "dy_Source d = ''GENERATED''" "gi_Year inp = nat (pd_Year p)" "gi_Month inp = nat (pd_Month p)"
  shows "in_month p (dy_Date d)"
proof -
  obtain n where n: "day_for inp n = Some d" "n \<in> set [1..<days_in_month (gi_Year inp) (gi_Month inp) + 1]"
    using assms(1) unfolding Generate_days(1) by (auto simp: month_list_def List.map_filter_def)
  then have "dy_Date d = date_text (month_day inp n)" using day_for_date by simp
  then show ?thesis using n(2) assms(3,4) unfolding in_month_def month_day_def by (intro exI [of _ n]) (auto simp del: upt_Suc)
qed

lemma generate_employees_typed:
  assumes "generate_employees env r i p k emps db = Inr db'" "ts_typed db"
    "\<And>q. map_of (td_periods db) i = Some q \<Longrightarrow> pd_Year q = pd_Year p \<and> pd_Month q = pd_Month p"
  shows "ts_typed db' \<and> td_periods db' = td_periods db"
  using assms
proof (induction emps arbitrary: db k)
  case (Cons emp emps)
  obtain db1 k1 where s: "insert_rows env i (fst emp) (snd (loadSchedule r (fst emp) (month_start p) (month_end p))) k
      (fst (Generate (\<lambda>_. []) (month_input r db i p emp))) db = Inr (db1, k1)" "generate_employees env r i p k1 emps db1 = Inr db'"
    using Cons.prems(1) by (auto simp: bindE_Inr_iff)
  have t: "ts_typed db1 \<and> td_periods db1 = td_periods db"
  proof (rule insert_rows_typed [OF s(1) Cons.prems(2)])
    fix d q assume d: "d \<in> set (fst (Generate (\<lambda>_. []) (month_input r db i p emp)))" "dy_Source d = ''GENERATED''" "map_of (td_periods db) i = Some q"
    show "in_month q (dy_Date d)"
      by (rule month_in_month [OF d(1,2)]) (use Cons.prems(3) [OF d(3)] in \<open>simp_all add: month_input_def\<close>)
  qed
  then have "ts_typed db' \<and> td_periods db' = td_periods db1"
    by (intro Cons.IH [OF s(2)]) (use Cons.prems(3) in auto)
  then show ?case using t by simp
qed simp

lemma GetPeriod_Inr: "GetPeriod env s r pid = Inr (i, p, ds) \<Longrightarrow> map_of (td_periods r) i = Some p"
  by (auto simp: GetPeriod_def period_by_id_def bindE_Inr_iff split: if_splits)

lemma GenerateDays_Inr:
  "GenerateDays env s pid r db = Inr db' \<Longrightarrow> \<exists>i p ds db1 db2. GetPeriod env s r pid = Inr (i, p, ds)
     \<and> pd_Status p \<noteq> ''FINALIZED'' \<and> delete_days (\<lambda>d. dr_Period d = i \<and> dy_Source d = ''GENERATED'') db = Inr db1
     \<and> generate_employees env r i p 0 (loadEmployments r (month_start p) (month_end p)) db1 = Inr db2
     \<and> db' = set_period i (\<lambda>p. p\<lparr>pd_Generation := pd_Generation p + 1, pd_Version := pd_Version p + 1\<rparr>) db2"
  unfolding GenerateDays_def by (fastforce elim!: bindE_InrE)

lemma exec_typed:
  assumes "ts_exec env s cmd r db = Inr db'" "ts_typed db" "keeps r db"
  shows "ts_typed db' \<and> keeps db db'"
proof (cases cmd)
  case (CmdCreate y m)
  then have c: "\<not> (y < 2000 \<or> 2200 < y \<or> m < 1 \<or> 12 < m)" "map_of (td_periods db) (te_new_id env 0) = None"
    "\<forall>(_, p) \<in> set (td_periods db). \<not> (pd_Year p = y \<and> pd_Month p = m)"
    "db' = db\<lparr>td_periods := td_periods db @ [(te_new_id env 0,
       \<lparr>pd_Year = y, pd_Month = m, pd_Status = ''DRAFT'', pd_Generation = 1, pd_Checksum = None, pd_FinalizedBy = None,
        pd_ReopenReason = None, pd_Version = 1\<rparr>)]\<rparr>"
    using assms(1) by (auto simp: CreatePeriod_def bindE_Inr_iff list_ex_iff)
  have k: "keeps db db'" using c(2,4) by (auto simp: keeps_def map_add_def split: option.split)
  have "te_new_id env 0 \<notin> fst ` set (td_periods db)" using c(2) by (metis map_of_eq_None_iff)
  moreover have "(y, m) \<notin> (\<lambda>(i, p). (pd_Year p, pd_Month p)) ` set (td_periods db)" using c(3) by auto
  moreover have "list_all (typed_day db') (td_days db)"
    using assms(2) typed_day_keeps [OF _ k] by (auto simp: ts_typed_def list_all_iff)
  ultimately have "ts_typed db'" using assms(2) c(1) unfolding ts_typed_def c(4) by (simp add: typed_period_def)
  with k show ?thesis by simp
next
  case (CmdGenerate pid)
  then obtain i p ds db1 db2 where g: "GetPeriod env s r pid = Inr (i, p, ds)"
    "delete_days (\<lambda>d. dr_Period d = i \<and> dy_Source d = ''GENERATED'') db = Inr db1"
    "generate_employees env r i p 0 (loadEmployments r (month_start p) (month_end p)) db1 = Inr db2"
    "db' = set_period i (\<lambda>p. p\<lparr>pd_Generation := pd_Generation p + 1, pd_Version := pd_Version p + 1\<rparr>) db2"
    using assms(1) GenerateDays_Inr by fastforce
  note d = delete_days_typed [OF g(2) assms(2)]
  have "pd_Year q = pd_Year p \<and> pd_Month q = pd_Month p" if "map_of (td_periods db1) i = Some q" for q
    using that d(2) assms(3) GetPeriod_Inr [OF g(1)] by (fastforce simp: keeps_def)
  then have e: "ts_typed db2 \<and> td_periods db2 = td_periods db1"
    using generate_employees_typed [OF g(3) d(1)] by blast
  have "ts_typed db' \<and> keeps db2 db'" unfolding g(4) using e
    by (intro conjI set_period_typed) (auto simp: typed_period_def)
  then show ?thesis using e d(2) by (metis keeps_same keeps_trans)
next
  case (CmdUpdate pid d v x)
  then obtain sel leave where u: "update_day sel (manual_update x leave) db = Inr db'"
    using assms(1) UpdateDay_Inr by fastforce
  have "ts_typed db'" "td_periods db' = td_periods db"
    by (rule update_day_typed [OF u assms(2)]; simp add: manual_update_def day_key_def)+
  then show ?thesis by (simp add: keeps_same)
next
  case (CmdUpsert pid u)
  then obtain i p ds x e b leave planned overtime where w: "GetPeriod env s r pid = Inr (i, p, ds)"
    "parse_date (trim_space (ui_WorkDate u)) = Some x" "int (dt_year x) = pd_Year p" "int (dt_month x) = pd_Month p"
    "upsert_write env u i e x b leave planned overtime db = Inr db'"
    using assms(1) UpsertDay_Inr by (metis ts_exec.simps(4))
  have month: "in_month q (date_text x)" if "map_of (td_periods db) i = Some q" for q
  proof -
    have "pd_Year q = pd_Year p" "pd_Month q = pd_Month p"
      using that assms(3) GetPeriod_Inr [OF w(1)] by (fastforce simp: keeps_def)+
    then have "nat (pd_Year q) = dt_year x" "nat (pd_Month q) = dt_month x" using w(3,4) by auto
    then show ?thesis using parse_date_range [OF w(2)] unfolding in_month_def by (intro exI [of _ "dt_day x"]) (cases x, simp)
  qed
  show ?thesis
  proof (cases "list_ex (same_day (blank_row [] i e (date_text x))) (td_days db)")
    case True
    then obtain f where u: "update_day (same_day (blank_row [] i e (date_text x))) f db = Inr db'"
      "\<And>d. day_key (f d) = day_key d \<and> dr_ID (f d) = dr_ID d"
      using w(5) unfolding upsert_write_def Let_def by (auto simp: upsert_row_def day_key_def)
    have "ts_typed db'" "td_periods db' = td_periods db" by (rule update_day_typed [OF u(1) assms(2) u(2)])+
    then show ?thesis by (simp add: keeps_same)
  next
    case False
    then obtain d where u: "insert_day d db = Inr db'" "dr_Period d = i" "dy_Date d = date_text x"
      using w(5) unfolding upsert_write_def Let_def by (auto simp: upsert_row_def blank_row_def)
    have "ts_typed db'" "td_periods db' = td_periods db" by (rule insert_day_typed [OF u(1) assms(2)]; use month u in simp)+
    then show ?thesis by (simp add: keeps_same)
  qed
next
  case (CmdDelete pid d)
  then obtain sel where u: "delete_days sel db = Inr db'" using assms(1) DeleteDay_Inr by fastforce
  then show ?thesis using delete_days_typed [OF u assms(2)] by (simp add: keeps_same)
next
  case (CmdFinalize pid v)
  then consider "db' = db" | j q c where "map_of (td_periods db) j = Some q" "pd_Status q = ''DRAFT''"
      "db' = set_period j (close_period (ss_UserID s) c) db"
    using assms(1) Finalize_Inr by fastforce
  then show ?thesis
  proof cases
    case (2 j q c)
    then show ?thesis unfolding 2(3) using assms(2)
      by (intro conjI set_period_typed) (auto simp: typed_period_def close_period_def)
  qed (use assms(2) in \<open>simp add: keeps_refl\<close>)
next
  case (CmdReopen pid v reason)
  then obtain j q where j: "map_of (td_periods db) j = Some q" "pd_Status q = ''FINALIZED''" "db' = set_period j (open_period (trim_space reason)) db"
    using assms(1) Reopen_Inr by fastforce
  then show ?thesis unfolding j(3) using assms(2)
    by (intro conjI set_period_typed) (auto simp: typed_period_def open_period_def)
qed

text \<open>
  The committed states, the newest first.  A command reads any of them, so its reads may be outdated; anything else may
  change the other tables between two commands.
\<close>

inductive ts_hist :: "ts_db list \<Rightarrow> bool" where
  start: "td_periods db = [] \<Longrightarrow> td_days db = [] \<Longrightarrow> ts_hist [db]"
| step: "ts_hist (db # h) \<Longrightarrow> r \<in> set (db # h) \<Longrightarrow> ts_hist (ts_after env s cmd r db # db # h)"
| other: "ts_hist (db # h) \<Longrightarrow> td_periods db' = td_periods db \<Longrightarrow> td_days db' = td_days db \<Longrightarrow> ts_hist (db' # db # h)"

inductive_cases ts_histE: "ts_hist (db # h)"

lemma ts_hist_inv: "ts_hist hs \<Longrightarrow> hs = db # h \<Longrightarrow> ts_typed db \<and> (\<forall>r \<in> set hs. keeps r db)"
proof (induction arbitrary: db h rule: ts_hist.induct)
  case (start db0)
  then show ?case by (simp add: ts_typed_def keeps_refl)
next
  case (step db0 h0 r env s cmd)
  have ok: "ts_typed db0" "\<forall>r \<in> set (db0 # h0). keeps r db0" using step.IH by auto
  have "ts_typed db \<and> keeps db0 db"
  proof (cases "ts_exec env s cmd r db0")
    case (Inl e)
    then show ?thesis using ok(1) step.prems by (simp add: ts_after_def keeps_refl)
  next
    case (Inr db1)
    then show ?thesis using exec_typed [OF Inr ok(1) ok(2) [THEN bspec, OF step.hyps(2)]] step.prems by (simp add: ts_after_def)
  qed
  then show ?case using ok(2) step.prems by (auto intro: keeps_trans keeps_refl)
next
  case (other db0 h0 db')
  have ok: "ts_typed db0" "\<forall>r \<in> set (db0 # h0). keeps r db0" using other.IH by auto
  have "typed_day db = typed_day db0" using other by (simp add: fun_eq_iff typed_day_def)
  then have "ts_typed db" using ok(1) other.hyps other.prems by (simp add: ts_typed_def)
  moreover have "keeps db0 db" using other by (simp add: keeps_same)
  ultimately show ?case using ok(2) other.prems by (auto intro: keeps_trans keeps_refl)
qed

section \<open>What a generated month pays\<close>

definition rows_of :: "ts_db \<Rightarrow> string \<Rightarrow> string \<Rightarrow> day_row list" where
  "rows_of db i e = filter (\<lambda>d. dr_Employee d = e) (period_days db i)"

text \<open>The counts the payroll run queries: paid days, unpaid days, all recorded days.\<close>

definition attendance_counts :: "ts_db \<Rightarrow> string \<Rightarrow> string \<Rightarrow> int \<times> int \<times> int" where
  "attendance_counts db i e =
     (int (length (filter paid_day (rows_of db i e))),
      int (length (filter (\<lambda>d. 0 < dy_UnpaidLeaveMinutes d \<or> 0 < dr_Absence d) (rows_of db i e))),
      int (length (rows_of db i e)))"

lemma insert_rows_new:
  "insert_rows env i e v k ds db = Inr (db', k') \<Longrightarrow> \<exists>new. td_days db' = td_days db @ new
     \<and> map Day.truncate new = filter (\<lambda>d. dy_Source d = ''GENERATED'') ds
     \<and> (\<forall>d \<in> set new. dr_Period d = i \<and> dr_Employee d = e \<and> dr_Absence d = 0)"
proof (induction ds arbitrary: db k)
  case (Cons d ds)
  show ?case
  proof (cases "dy_Source d = ''GENERATED''")
    case True
    let ?row = "generated_row (te_new_id env k) i e v d"
    obtain db1 where s: "insert_day ?row db = Inr db1" "insert_rows env i e v (k + 1) ds db1 = Inr (db', k')"
      using Cons.prems True by (auto simp: bindE_Inr_iff)
    obtain new where n: "td_days db' = td_days db1 @ new" "map Day.truncate new = filter (\<lambda>d. dy_Source d = ''GENERATED'') ds"
      "\<forall>d \<in> set new. dr_Period d = i \<and> dr_Employee d = e \<and> dr_Absence d = 0"
      using Cons.IH [OF s(2)] by blast
    have "td_days db1 = td_days db @ [?row]" using s(1) by (auto simp: insert_day_def bindE_Inr_iff)
    moreover have "Day.truncate ?row = d" using True by (simp add: generated_row_def Day.truncate_def)
    ultimately show ?thesis using n True by (intro exI [of _ "?row # new"]) (simp add: generated_row_def)
  qed (use Cons in simp)
qed simp

lemma month_input_rows: "rows_of db i (fst emp) = rows_of db' i (fst emp) \<Longrightarrow> month_input r db i p emp = month_input r db' i p emp"
proof -
  have m: "loadManualDays db i e = map Day.truncate (filter (\<lambda>d. dy_Source d = ''MANUAL'') (rows_of db i e))" for db e
    by (simp add: loadManualDays_def rows_of_def conj_commute)
  show "rows_of db i (fst emp) = rows_of db' i (fst emp) \<Longrightarrow> month_input r db i p emp = month_input r db' i p emp"
    by (simp add: month_input_def m)
qed

definition generated_part :: "gen_input \<Rightarrow> Day list" where
  "generated_part inp = filter (\<lambda>d. dy_Source d = ''GENERATED'') (month_list inp)"

lemma generate_employees_rows:
  "generate_employees env r i p k emps db = Inr db' \<Longrightarrow> distinct (map fst emps) \<Longrightarrow>
    (e \<notin> fst ` set emps \<longrightarrow> rows_of db' i e = rows_of db i e)
    \<and> ((e, sp) \<in> set emps \<longrightarrow> (\<exists>new. rows_of db' i e = rows_of db i e @ new
      \<and> map Day.truncate new = generated_part (month_input r db i p (e, sp)) \<and> (\<forall>d \<in> set new. dr_Absence d = 0)))"
proof (induction emps arbitrary: db k)
  case (Cons emp emps)
  let ?e = "fst emp"
  obtain db1 k1 where s: "insert_rows env i ?e (snd (loadSchedule r ?e (month_start p) (month_end p))) k
      (fst (Generate (\<lambda>_. []) (month_input r db i p emp))) db = Inr (db1, k1)" "generate_employees env r i p k1 emps db1 = Inr db'"
    using Cons.prems(1) by (auto simp: bindE_Inr_iff)
  obtain new where n: "td_days db1 = td_days db @ new" "map Day.truncate new = generated_part (month_input r db i p emp)"
      "\<forall>d \<in> set new. dr_Period d = i \<and> dr_Employee d = ?e \<and> dr_Absence d = 0"
    using insert_rows_new [OF s(1)] by (auto simp: generated_part_def Generate_days(1))
  have rows1: "rows_of db1 i x = rows_of db i x @ (if x = ?e then new else [])" for x
    using n(1,3) by (auto simp: rows_of_def period_days_def filter_id_conv filter_empty_conv)
  have "distinct (map fst emps)" "?e \<notin> fst ` set emps" using Cons.prems(2) by simp_all
  note IH = Cons.IH [OF s(2) this(1)] and fresh = this(2)
  show ?case
  proof (cases "e = ?e")
    case True
    then have eq: "rows_of db' i e = rows_of db i e @ new" using IH fresh rows1 [of e] by simp
    moreover have "(e, sp) \<in> set (emp # emps) \<Longrightarrow> emp = (e, sp)" using True fresh by (cases emp) force
    ultimately show ?thesis using True n by (auto intro: exI [of _ new])
  next
    case False
    then have same: "rows_of db1 i e = rows_of db i e" using rows1 by simp
    then have "month_input r db1 i p (e, sp) = month_input r db i p (e, sp)" by (intro month_input_rows) simp
    moreover have "(e, sp) \<in> set (emp # emps) \<longleftrightarrow> (e, sp) \<in> set emps" using False by (cases emp) auto
    ultimately show ?thesis using IH same False by simp
  qed
qed simp

lemma loadEmployments_distinct:
  assumes "distinct (map em_ID (td_employees db))" shows "distinct (map fst (loadEmployments db x y))"
proof -
  let ?f = "\<lambda>e. employment_span db x y (em_ID e)"
  let ?xs = "List.map_filter (\<lambda>e. map_option (Pair (em_ID e)) (?f e)) (filter em_Active (td_employees db))"
  have "map fst (List.map_filter (\<lambda>e. map_option (Pair (em_ID e)) (?f e)) es) = map em_ID (filter (\<lambda>e. ?f e \<noteq> None) es)" for es
    by (induction es) (auto simp: List.map_filter_simps split: option.split)
  then have eq: "map fst ?xs = map em_ID (filter (\<lambda>e. ?f e \<noteq> None) (filter em_Active (td_employees db)))" .
  have "distinct (map fst ?xs)" unfolding eq by (rule distinct_map_filter, rule distinct_map_filter, rule assms)
  moreover have "mset (map fst (loadEmployments db x y)) = mset (map fst ?xs)"
    unfolding loadEmployments_def mset_map mset_stable_sort ..
  ultimately show ?thesis using mset_eq_imp_distinct_iff by blast
qed

lemma length_filter_truncate:
  fixes xs :: "day_row list"
  shows "map Day.truncate xs = ys \<Longrightarrow> length (filter paid_day xs) = length (filter paid_day ys)"
proof -
  have "paid_day (Day.truncate d) = paid_day d" for d :: day_row by (simp add: paid_day_def Day.truncate_def)
  then show "map Day.truncate xs = ys \<Longrightarrow> length (filter paid_day xs) = length (filter paid_day ys)"
    by (auto simp: filter_map o_def)
qed

text \<open>The days of the month on which the employee of an input is employed.\<close>

definition employed_days :: "gen_input \<Rightarrow> nat list" where
  "employed_days inp = filter (\<lambda>n. employed_on inp (month_day inp n)) [1..<days_in_month (gi_Year inp) (gi_Month inp) + 1]"

lemma generated_all:
  assumes "gi_ExistingManual inp = []" "schedule_ok inp"
  shows "generated_part inp = month_list inp" "length (month_list inp) = length (employed_days inp)"
    "\<forall>d \<in> set (month_list inp). settled d"
proof -
  have none: "manual_day inp x = None" for x using assms(1) by (simp add: manual_day_def)
  show st: "\<forall>d \<in> set (month_list inp). settled d" using month_list_mem [OF assms(2)] none by fastforce
  then show "generated_part inp = month_list inp" by (auto simp: generated_part_def settled_def filter_id_conv)
  have "length (month_list inp) = length (map dy_Date (month_list inp))" by simp
  also have "\<dots> = length (employed_days inp)"
    unfolding month_list_dates employed_days_def by (simp add: covered_def [abs_def] none del: upt_Suc)
  finally show "length (month_list inp) = length (employed_days inp)" .
qed

definition schedules_ok :: "ts_db \<Rightarrow> bool" where \<comment> \<open>the check of \<^verbatim>\<open>work_schedule_days\<close>\<close>
  "schedules_ok db = list_all (\<lambda>(_, _, m). 0 \<le> m) (td_schedule_days db)"

lemma find_mem: "find P xs = Some x \<Longrightarrow> x \<in> set xs"
  by (induction xs) (auto split: if_splits)

lemma loadSchedule_ok: "schedules_ok db \<Longrightarrow> fst (loadSchedule db e x y) w = Some m \<Longrightarrow> 0 \<le> m"
proof -
  assume ok: "schedules_ok db"
  have s: "0 \<le> m" if "schedule_of db v w = Some m" for v m
    using that ok by (auto simp: schedule_of_def schedules_ok_def list_all_iff dest!: find_mem)
  assume "fst (loadSchedule db e x y) w = Some m"
  then show "0 \<le> m" using s by (auto simp: loadSchedule_def DefaultSchedule_def split: option.splits if_splits)
qed

lemma generate_counts:
  assumes "GenerateDays env s pid r db = Inr db'" "GetPeriod env s r pid = Inr (i, p, ds)" "distinct (map em_ID (td_employees r))"
    "schedules_ok r" "(e, sp) \<in> set (loadEmployments r (month_start p) (month_end p))" "loadManualDays db i e = []"
    "list_all (\<lambda>d. dy_Source d \<in> {''GENERATED'', ''MANUAL''}) (td_days db)"
  defines "k \<equiv> int (length (employed_days (month_input r db i p (e, sp))))"
  shows "attendance_counts db' i e = (k, 0, k)"
proof -
  let ?inp = "month_input r db i p (e, sp)"
  obtain db1 db2 where g: "delete_days (\<lambda>d. dr_Period d = i \<and> dy_Source d = ''GENERATED'') db = Inr db1"
    "generate_employees env r i p 0 (loadEmployments r (month_start p) (month_end p)) db1 = Inr db2"
    "db' = set_period i (\<lambda>p. p\<lparr>pd_Generation := pd_Generation p + 1, pd_Version := pd_Version p + 1\<rparr>) db2"
    using GenerateDays_Inr [OF assms(1)] assms(2) by auto
  have manual: "filter (\<lambda>d. dy_Source d = ''MANUAL'') (rows_of db i e) = []"
    using assms(6) by (simp add: loadManualDays_def rows_of_def filter_empty_conv)
  have "db1 = db\<lparr>td_days := filter (\<lambda>d. \<not> (dr_Period d = i \<and> dy_Source d = ''GENERATED'')) (td_days db)\<rparr>"
    using g(1) by (auto simp: delete_days_def bindE_Inr_iff)
  then have none: "rows_of db1 i e = []"
    using manual assms(7) by (auto simp: rows_of_def period_days_def filter_empty_conv list_all_iff)
  have inp: "gi_ExistingManual ?inp = []" using assms(6) by (simp add: month_input_def)
  have same: "month_input r db1 i p (e, sp) = ?inp"
    using assms(6) none by (simp add: month_input_def loadManualDays_def rows_of_def filter_empty_conv)
  have sched: "schedule_ok ?inp" using loadSchedule_ok [OF assms(4)] by (auto simp: schedule_ok_def month_input_def)
  note all = generated_all [OF inp sched]
  obtain new where n: "rows_of db2 i e = new" "map Day.truncate new = month_list ?inp" "\<forall>d \<in> set new. dr_Absence d = 0"
    using generate_employees_rows [OF g(2) loadEmployments_distinct [OF assms(3)], of e sp] assms(5) none same all(1) by auto
  have rows: "rows_of db' i e = new" using n(1) by (simp add: g(3) rows_of_def)
  have len: "int (length new) = k" using arg_cong [OF n(2), of length] all(2) by (simp add: k_def)
  have paid: "length (filter paid_day new) = length new"
    using length_filter_truncate [OF n(2)] all(3) arg_cong [OF n(2), of length] by (auto simp: settled_def filter_id_conv)
  have "\<forall>d \<in> set new. dy_UnpaidLeaveMinutes d = 0"
  proof
    fix d assume "d \<in> set new"
    then have "Day.truncate d \<in> set (month_list ?inp)" using n(2) by (metis image_eqI list.set_map)
    then have "settled (Day.truncate d)" using all(3) by blast
    then show "dy_UnpaidLeaveMinutes d = 0" by (simp add: settled_def Day.truncate_def)
  qed
  then have "filter (\<lambda>d. 0 < dy_UnpaidLeaveMinutes d \<or> 0 < dr_Absence d) new = []" using n(3) by (auto simp: filter_empty_conv)
  then show ?thesis using paid len rows by (simp add: attendance_counts_def)
qed

section \<open>A sample month\<close>

definition sample_env :: ts_env where
  "sample_env = \<lparr>te_parse_uuid = Some, te_new_id = (\<lambda>k. CHR ''n'' # dec_of_nat k), te_digest = (\<lambda>ds. dec_of_nat (length ds))\<rparr>"

definition sample_session :: ts_session where
  "sample_session = \<lparr>ss_Permissions = [''hr.timesheet.read'', ''hr.timesheet.edit'', ''hr.timesheet.finalize''], ss_UserID = ''u''\<rparr>"

definition april :: "nat \<Rightarrow> date" where
  "april n = \<lparr>dt_year = 2026, dt_month = 4, dt_day = n\<rparr>"

definition sample_start :: ts_db where
  "sample_start = \<lparr>td_periods = [], td_days = [], td_employees = [\<lparr>em_ID = ''e1'', em_Name = ''A B'', em_Active = True\<rparr>],
     td_employments = [\<lparr>sp_Owner = ''e1'', sp_From = april 28, sp_To = None, sp_Value = []\<rparr>], td_assignments = [], td_versions = [],
     td_schedule_days = [], td_holidays = [], td_leave_types = Map.empty, td_payroll_final = (\<lambda>_. False)\<rparr>"

definition sample_created :: ts_db where
  "sample_created = ts_alone sample_env sample_session (CmdCreate 2026 4) sample_start"

definition sample_generated :: ts_db where
  "sample_generated = ts_alone sample_env sample_session (CmdGenerate ''n0'') sample_created"

definition sample_finalized :: ts_db where
  "sample_finalized = ts_alone sample_env sample_session (CmdFinalize ''n0'' 2) sample_generated"

definition sample_entry :: DayUpsertInput where
  "sample_entry = \<lparr>ui_EmployeeID = ''e1'', ui_WorkDate = ''2026-04-21'', ui_Kind = '' absent'', ui_Minutes = 0, ui_OvertimeMinutes = None,
     ui_Explanation = [], ui_LeaveTypeID = None\<rparr>"

lemma sample_hist: "ts_hist [sample_finalized, sample_generated, sample_created, sample_start]"
  unfolding sample_finalized_def sample_generated_def sample_created_def ts_alone_def
  by (intro ts_hist.step ts_hist.start) (simp_all add: sample_start_def)

lemma sample_states:
  "map_option (\<lambda>p. (pd_Status p, pd_Checksum p)) (map_of (td_periods sample_finalized) ''n0'') = Some (''FINALIZED'', Some ''3'')"
  "length (td_days sample_finalized) = 3" "length (period_days sample_finalized ''n0'') = 3"
proof -
  have "(case sample_finalized of db \<Rightarrow> map_option (\<lambda>p. (pd_Status p, pd_Checksum p)) (map_of (td_periods db) ''n0'') = Some (''FINALIZED'', Some ''3'')
      \<and> length (td_days db) = 3 \<and> length (period_days db ''n0'') = 3)"
    by code_simp
  then show "map_option (\<lambda>p. (pd_Status p, pd_Checksum p)) (map_of (td_periods sample_finalized) ''n0'') = Some (''FINALIZED'', Some ''3'')"
    "length (td_days sample_finalized) = 3" "length (period_days sample_finalized ''n0'') = 3" by simp_all
qed

text \<open>A day marked between the reads of \<^verbatim>\<open>Finalize\<close> and its transaction is missing in the checksum it stores.\<close>

definition sample_marked :: ts_db where
  "sample_marked = ts_alone sample_env sample_session (CmdUpsert ''n0'' sample_entry) sample_created"

definition sample_stale :: ts_db where
  "sample_stale = ts_after sample_env sample_session (CmdFinalize ''n0'' 1) sample_created sample_marked"

lemma finalize_checksum_stale:
  "ts_hist [sample_stale, sample_marked, sample_created, sample_start]
   \<and> map_option pd_Checksum (map_of (td_periods sample_stale) ''n0'') = Some (Some (te_digest sample_env []))
   \<and> map dy_Date (period_days sample_stale ''n0'') = [''2026-04-21'']
   \<and> te_digest sample_env [] \<noteq> te_digest sample_env (period_days sample_stale ''n0'')"
proof (intro conjI)
  show "ts_hist [sample_stale, sample_marked, sample_created, sample_start]"
    unfolding sample_stale_def sample_marked_def sample_created_def ts_alone_def
    by (intro ts_hist.step ts_hist.start) (simp_all add: sample_start_def)
  have "(case sample_stale of db \<Rightarrow> map_option pd_Checksum (map_of (td_periods db) ''n0'') = Some (Some (te_digest sample_env []))
      \<and> map dy_Date (period_days db ''n0'') = [''2026-04-21''] \<and> te_digest sample_env [] \<noteq> te_digest sample_env (period_days db ''n0''))"
    by code_simp
  then show "map_option pd_Checksum (map_of (td_periods sample_stale) ''n0'') = Some (Some (te_digest sample_env []))"
    "map dy_Date (period_days sample_stale ''n0'') = [''2026-04-21'']"
    "te_digest sample_env [] \<noteq> te_digest sample_env (period_days sample_stale ''n0'')" by simp_all
qed

text \<open>The days between two employments of one month count as employed.\<close>

lemma employment_gap_employed:
  "employment_span (sample_start\<lparr>td_employments := [\<lparr>sp_Owner = ''e1'', sp_From = april 1, sp_To = Some (april 10), sp_Value = []\<rparr>,
       \<lparr>sp_Owner = ''e1'', sp_From = april 20, sp_To = None, sp_Value = []\<rparr>]\<rparr>) (april 1) (april 30) ''e1'' = Some (april 1, None)"
  by code_simp

text \<open>A schedule version without days plans nothing: every generated day is then a paid rest.\<close>

lemma schedule_without_days:
  "td_schedule_days db = [] \<Longrightarrow> latest (filter (\<lambda>sp. sp_Owner sp = e \<and> overlaps x y sp) (td_assignments db)) = Some a \<Longrightarrow>
   latest (filter (\<lambda>sp. sp_Owner sp = sp_Value a \<and> overlaps x y sp) (td_versions db)) = Some v \<Longrightarrow>
   fst (loadSchedule db e x y) = Map.empty"
  by (simp add: loadSchedule_def schedule_of_def fun_eq_iff)

section \<open>Properties\<close>

text \<open>
  Claim C5.  Once a month is finalized its days and its checksum stay as they are, whatever commands are sent in whatever order and however outdated
  the rows are that they read, until it is reopened; and a month a finalized payroll refers to cannot be reopened.
\<close>

theorem finalized_month_frozen:
  assumes "finalized db i" "td_payroll_final db i \<or> (\<forall>(env, s, r, cmd) \<in> set cmds. \<forall>p v reason. cmd \<noteq> CmdReopen p v reason)"
  shows "frozen i db (ts_run cmds db)"
  using assms
proof (induction cmds arbitrary: db)
  case Nil
  then show ?case by (simp add: frozen_refl)
next
  case (Cons c cmds)
  obtain env s r cmd where c: "c = (env, s, r, cmd)" by (cases c)
  have f: "frozen i db (ts_after env s cmd r db)"
  proof (cases "ts_exec env s cmd r db")
    case (Inr db')
    then show ?thesis using exec_frozen [OF Inr Cons.prems(1)] Cons.prems(2) c by (auto simp: ts_after_def)
  qed (simp add: ts_after_def frozen_refl Cons.prems(1))
  have "td_payroll_final (ts_after env s cmd r db) i = td_payroll_final db i" using f by (simp add: frozen_def)
  then have "frozen i (ts_after env s cmd r db) (ts_run cmds (ts_after env s cmd r db))"
    using Cons.IH [OF frozen_finalized [OF f]] Cons.prems(2) by auto
  then show ?case using f c by (auto intro: frozen_trans)
qed

theorem finalized_month_frozen_witness:
  "period_days (ts_run [(sample_env, sample_session, sample_generated, CmdUpsert ''n0'' sample_entry),
       (sample_env, sample_session, sample_generated, CmdGenerate ''n0''),
       (sample_env, sample_session, sample_finalized, CmdDelete ''n0'' ''n3'')] sample_finalized) ''n0'' = period_days sample_finalized ''n0''
   \<and> length (period_days sample_finalized ''n0'') = 3"
proof -
  have "finalized sample_finalized ''n0''" using sample_states(1) by (auto simp: finalized_iff)
  from finalized_month_frozen [OF this, of "[(sample_env, sample_session, sample_generated, CmdUpsert ''n0'' sample_entry),
       (sample_env, sample_session, sample_generated, CmdGenerate ''n0''),
       (sample_env, sample_session, sample_finalized, CmdDelete ''n0'' ''n3'')]"]
  have "frozen ''n0'' sample_finalized (ts_run [(sample_env, sample_session, sample_generated, CmdUpsert ''n0'' sample_entry),
       (sample_env, sample_session, sample_generated, CmdGenerate ''n0''),
       (sample_env, sample_session, sample_finalized, CmdDelete ''n0'' ''n3'')] sample_finalized)" by simp
  then show ?thesis using sample_states(3) unfolding frozen_def by blast
qed

text \<open>
  Claim C35.  In every state a company can reach, whatever rows the commands read, each attendance period is a month of the years 2000 to 2200,
  a draft without or finalized with checksum and author, no two of the same month; and each day has minutes in range, falls
  into the month of its period, and is the only one of its employee and date there.
\<close>

theorem timesheet_typed: "ts_hist (db # h) \<Longrightarrow> ts_typed db"
  using ts_hist_inv by blast

theorem timesheet_typed_witness:
  "ts_typed sample_finalized \<and> length (td_days sample_finalized) = 3"
  using timesheet_typed [OF sample_hist] sample_states(2) by simp

text \<open>
  Claim C34.  What payroll makes of a generated month.  Take an active employee with an employment in the month and without days
  marked by hand in it, in a database with distinct employee ids, planned minutes within their check constraint and days that
  are generated or manual.  The span of the employee reaches from the earliest start to the latest end of the employments that
  overlap the month, so that the days of a gap between two of them belong to it (\<open>employment_gap_employed\<close>).  With k the number
  of days of the month inside the span: after \<^verbatim>\<open>GenerateDays\<close> payroll counts k days as paid, none as unpaid and k as recorded; the
  work days are the smaller of 30 and k; the month is full exactly when k is the number of its days; the days paid are 30 for a
  full month and the smaller of 30 and k otherwise (30 of 31 days thus pay 30 as well); and the attendance check passes exactly
  when k is not 0.
\<close>

theorem generated_month_pays:
  assumes "GenerateDays env s pid r db = Inr db'" "GetPeriod env s r pid = Inr (i, p, ds)" "distinct (map em_ID (td_employees r))"
    "schedules_ok r" "(e, sp) \<in> set (loadEmployments r (month_start p) (month_end p))" "loadManualDays db i e = []"
    "list_all (\<lambda>d. dy_Source d \<in> {''GENERATED'', ''MANUAL''}) (td_days db)"
  shows "let k = int (length (employed_days (month_input r db i p (e, sp))));
             last = int (days_in_month (nat (pd_Year p)) (nat (pd_Month p)));
             (paid, unpaid, recorded) = attendance_counts db' i e;
             (workDays, full) = attendanceDays paid unpaid recorded last in
         (paid, unpaid, recorded) = (k, 0, k) \<and> workDays = min 30 k \<and> (full \<longleftrightarrow> k = last)
         \<and> pickDays full workDays = (if k = last then 30 else min 30 k) \<and> (checkAttendance paid unpaid recorded \<longleftrightarrow> k \<noteq> 0)"
proof -
  let ?inp = "month_input r db i p (e, sp)"
  have "length (employed_days ?inp) \<le> length [1..<days_in_month (gi_Year ?inp) (gi_Month ?inp) + 1]"
    unfolding employed_days_def by (rule length_filter_le)
  then have "int (length (employed_days ?inp)) \<le> int (days_in_month (nat (pd_Year p)) (nat (pd_Month p)))"
    unfolding length_upt by (simp add: month_input_def)
  then show ?thesis unfolding generate_counts [OF assms]
    by (auto simp: attendanceDays_def pickDays_def checkAttendance_def Let_def)
qed

theorem generated_month_pays_witness:
  "attendance_counts sample_generated ''n0'' ''e1'' = (3, 0, 3) \<and> attendanceDays 3 0 3 30 = (3, False)"
proof -
  have run: "(case GenerateDays sample_env sample_session ''n0'' sample_created sample_created of Inl e \<Rightarrow> False | Inr db \<Rightarrow> True)"
    by code_simp
  then have g: "GenerateDays sample_env sample_session ''n0'' sample_created sample_created = Inr sample_generated"
    by (auto simp: sample_generated_def ts_alone_def ts_after_def split: sum.splits)
  have "(case GetPeriod sample_env sample_session sample_created ''n0'' of Inl e \<Rightarrow> False
      | Inr (i, p, ds) \<Rightarrow> i = ''n0'' \<and> pd_Year p = 2026 \<and> pd_Month p = 4)"
    by code_simp
  then obtain p ds where p: "GetPeriod sample_env sample_session sample_created ''n0'' = Inr (''n0'', p, ds)" "pd_Year p = 2026" "pd_Month p = 4"
    by (auto split: sum.splits prod.splits)
  have m: "month_start p = april 1" "month_end p = april 30"
    using p by (simp_all add: month_start_def month_end_def april_def days_in_month_def)
  have e: "(''e1'', april 28, None) \<in> set (loadEmployments sample_created (month_start p) (month_end p))"
    "distinct (map em_ID (td_employees sample_created))" "schedules_ok sample_created" "loadManualDays sample_created ''n0'' ''e1'' = []"
    "list_all (\<lambda>d. dy_Source d \<in> {''GENERATED'', ''MANUAL''}) (td_days sample_created)"
    unfolding m by code_simp+
  have "employed_days (month_input sample_created sample_created ''n0'' p (''e1'', april 28, None))
      = filter (\<lambda>n. \<not> Before (april n) (april 28)) [1..<31]"
    using p by (simp add: employed_days_def month_input_def employed_on_def month_day_def april_def days_in_month_def del: upt_Suc)
  then have "length (employed_days (month_input sample_created sample_created ''n0'' p (''e1'', april 28, None)))
      = length (filter (\<lambda>n. \<not> Before (april n) (april 28)) [1..<31])" by simp
  also have "\<dots> = 3" by code_simp
  finally have k: "length (employed_days (month_input sample_created sample_created ''n0'' p (''e1'', april 28, None))) = 3" .
  show ?thesis
    using generated_month_pays [OF g p(1) e(2,3,1,4,5)] k p
    by (auto simp: Let_def case_prod_beta days_in_month_def prod_eq_iff attendanceDays_def)
qed

end
