(* ===== verification/Iban.thy ===== *)
theory Iban
  imports Money "HOL-Library.Code_Target_Nat"
begin

text \<open>
  \<^verbatim>\<open>NormalizeIBAN\<close> of \<^verbatim>\<open>src/internal/finance/account_core.go\<close>.  A text is the list of code points \<^verbatim>\<open>range\<close> yields; the
  Unicode tables are a parameter whose ASCII part is fixed by \<open>ascii_tables\<close>.
\<close>

section \<open>Normalization\<close>

record rune_tables =
  ru_ToUpper :: "nat \<Rightarrow> nat"
  ru_IsSpace :: "nat \<Rightarrow> bool"
  ru_IsLetter :: "nat \<Rightarrow> bool"
  ru_IsDigit :: "nat \<Rightarrow> bool"

definition upper_rune :: "nat \<Rightarrow> bool" where
  "upper_rune c = (65 \<le> c \<and> c \<le> 90)"

definition digit_rune :: "nat \<Rightarrow> bool" where
  "digit_rune c = (48 \<le> c \<and> c \<le> 57)"

definition ascii_tables :: "rune_tables \<Rightarrow> bool" where
  "ascii_tables u =
     (\<forall>c \<in> {0..<128}. ru_ToUpper u c = (if 97 \<le> c \<and> c \<le> 122 then c - 32 else c)
        \<and> ru_IsSpace u c = (c \<in> {9, 10, 11, 12, 13, 32}) \<and> ru_IsDigit u c = digit_rune c
        \<and> ru_IsLetter u c = (upper_rune c \<or> 97 \<le> c \<and> c \<le> 122))"

definition TrimSpace_runes :: "rune_tables \<Rightarrow> nat list \<Rightarrow> nat list" where
  "TrimSpace_runes u s = rev (dropWhile (ru_IsSpace u) (rev (dropWhile (ru_IsSpace u) s)))"

fun iban_runes :: "rune_tables \<Rightarrow> nat list \<Rightarrow> nat list option" where
  "iban_runes u [] = Some []"
| "iban_runes u (c # s) =
     (if ru_IsSpace u c then iban_runes u s
      else if \<not> ru_IsLetter u c \<and> \<not> ru_IsDigit u c then None
      else map_option (Cons c) (iban_runes u s))"

definition rune_bytes :: "nat \<Rightarrow> nat" where \<comment> \<open>length of the UTF-8 encoding\<close>
  "rune_bytes c = (if c < 128 then 1 else if c < 2048 then 2 else if c < 65536 then 3 else 4)"

definition iban_shape :: "nat list \<Rightarrow> bool" where
  "iban_shape s =
     (let n = sum_list (map rune_bytes s) in
      \<not> (n < 15 \<or> 34 < n) \<and> upper_rune (s ! 0) \<and> upper_rune (s ! 1) \<and> digit_rune (s ! 2) \<and> digit_rune (s ! 3))"

fun iban_remainder :: "nat list \<Rightarrow> nat \<Rightarrow> nat option" where
  "iban_remainder [] r = Some r"
| "iban_remainder (c # s) r =
     (if digit_rune c then iban_remainder s ((r * 10 + (c - 48)) mod 97)
      else if \<not> upper_rune c then None
      else iban_remainder s ((r * 100 + (c - 65 + 10)) mod 97))"

definition NormalizeIBAN :: "rune_tables \<Rightarrow> nat list \<Rightarrow> string option" where
  "NormalizeIBAN u value =
     (case iban_runes u (map (ru_ToUpper u) (TrimSpace_runes u value)) of
        None \<Rightarrow> None
      | Some iban \<Rightarrow>
          if iban = [] then Some []
          else if \<not> iban_shape iban then None
          else if iban_remainder (drop 4 iban @ take 4 iban) 0 = Some 1 then Some (map char_of iban) else None)"

section \<open>The remainder\<close>

text \<open>The number ISO 13616 speaks of: every letter written as two digits.\<close>

definition rune_digits :: "nat \<Rightarrow> string" where
  "rune_digits c = dec_of_nat (if digit_rune c then c - 48 else c - 65 + 10)"

definition iban_number :: "nat list \<Rightarrow> nat" where
  "iban_number s = nat_of_dec (concat (map rune_digits s))"

definition iban_chars :: "nat list \<Rightarrow> bool" where
  "iban_chars s = list_all (\<lambda>c. digit_rune c \<or> upper_rune c) s"

lemma iban_number_append: "iban_number (s @ t) = iban_number s * 10 ^ length (concat (map rune_digits t)) + iban_number t"
  by (simp add: iban_number_def nat_of_dec_append)

lemma rune_digits_length: "digit_rune c \<Longrightarrow> length (rune_digits c) = 1" "upper_rune c \<Longrightarrow> length (rune_digits c) = 2"
proof -
  show "digit_rune c \<Longrightarrow> length (rune_digits c) = 1"
    by (subst rune_digits_def, subst dec_of_nat.simps) (auto simp: digit_rune_def)
  assume u: "upper_rune c"
  then have "\<not> digit_rune c" "10 \<le> c - 65 + 10" "c - 65 + 10 < 100" by (auto simp: upper_rune_def digit_rune_def)
  then show "length (rune_digits c) = 2"
    unfolding rune_digits_def by (subst dec_of_nat.simps, subst dec_of_nat.simps) auto
qed

lemma iban_remainder_number:
  "r < 97 \<Longrightarrow> iban_remainder s r =
     (if iban_chars s then Some ((r * 10 ^ length (concat (map rune_digits s)) + iban_number s) mod 97) else None)"
proof (induction s arbitrary: r)
  case (Cons c s)
  let ?L = "length (concat (map rune_digits s))"
  have number: "iban_number (c # s) = nat_of_dec (rune_digits c) * 10 ^ ?L + iban_number s"
    using iban_number_append [of "[c]" s] by (simp add: iban_number_def)
  have step: "(((r * 10 ^ w + v) mod 97) * 10 ^ ?L + iban_number s) mod 97
      = (r * 10 ^ (w + ?L) + (v * 10 ^ ?L + iban_number s)) mod 97" for w v
  proof -
    have "((x mod 97) * p + b) mod 97 = (x * p + b) mod 97" for x p b :: nat by (metis mod_add_left_eq mod_mult_left_eq)
    then show ?thesis by (simp add: algebra_simps power_add)
  qed
  consider (digit) "digit_rune c" "\<not> upper_rune c" | (letter) "upper_rune c" "\<not> digit_rune c" | (other) "\<not> digit_rune c" "\<not> upper_rune c"
    by (auto simp: upper_rune_def digit_rune_def)
  then show ?case
  proof cases
    case digit
    then show ?thesis using step [of 1 "c - 48"] rune_digits_length(1) [of c]
      by (simp add: Cons.IH iban_chars_def number) (simp add: rune_digits_def)
  next
    case letter
    then show ?thesis using step [of 2 "c - 65 + 10"] rune_digits_length(2) [of c]
      by (simp add: Cons.IH iban_chars_def number) (simp add: rune_digits_def)
  qed (use Cons in \<open>simp add: iban_chars_def\<close>)
qed (simp add: iban_chars_def iban_number_def)

section \<open>What is accepted\<close>

lemma ascii_rune:
  assumes "ascii_tables u" "digit_rune c \<or> upper_rune c"
  shows "ru_ToUpper u c = c" "\<not> ru_IsSpace u c" "ru_IsLetter u c \<or> ru_IsDigit u c"
proof -
  have c: "c \<in> {0..<128}" "\<not> (97 \<le> c \<and> c \<le> 122)" "c \<notin> {9, 10, 11, 12, 13, 32}"
    using assms(2) by (auto simp: digit_rune_def upper_rune_def)
  note t = bspec [OF assms(1) [unfolded ascii_tables_def] c(1)]
  show "ru_ToUpper u c = c" "\<not> ru_IsSpace u c" "ru_IsLetter u c \<or> ru_IsDigit u c"
    using t c(2,3) assms(2) by auto
qed

lemma iban_runes_chars: "ascii_tables u \<Longrightarrow> iban_chars s \<Longrightarrow> iban_runes u (map (ru_ToUpper u) (TrimSpace_runes u s)) = Some s"
proof -
  assume a: "ascii_tables u" "iban_chars s"
  have c: "\<forall>c \<in> set s. digit_rune c \<or> upper_rune c" using a(2) by (simp add: iban_chars_def list_all_iff)
  have "dropWhile (ru_IsSpace u) t = t" if "set t \<subseteq> set s" for t
    using that c ascii_rune(2) [OF a(1)] by (cases t) auto
  then have "TrimSpace_runes u s = s" by (simp add: TrimSpace_runes_def)
  moreover have "map (ru_ToUpper u) s = s" using c ascii_rune(1) [OF a(1)] by (simp add: map_idI)
  moreover have "iban_runes u t = Some t" if "\<forall>c \<in> set t. digit_rune c \<or> upper_rune c" for t
    using that ascii_rune [OF a(1)] by (induction t) auto
  ultimately show ?thesis using c by simp
qed

lemma iban_chars_split: "iban_chars (drop 4 s @ take 4 s) = iban_chars s"
  by (simp add: iban_chars_def list_all_append [symmetric] del: list_all_append)
   (metis append_take_drop_id list_all_append conj_commute)

lemma NormalizeIBAN_iff:
  assumes "ascii_tables u" "iban_chars s" "s \<noteq> []"
  shows "NormalizeIBAN u s = (if iban_shape s \<and> iban_number (drop 4 s @ take 4 s) mod 97 = 1 then Some (map char_of s) else None)"
  using assms iban_chars_split [of s]
  by (simp add: NormalizeIBAN_def iban_runes_chars iban_remainder_number)

text \<open>Exchanging one letter for another or one digit for another changes the number by a multiple of a power of ten.\<close>

lemma number_differs:
  assumes "iban_number (as @ c # bs) mod 97 = 1" "iban_number (as @ d # bs) mod 97 = 1"
    "digit_rune c \<and> digit_rune d \<or> upper_rune c \<and> upper_rune d"
  shows "c = d"
proof -
  let ?L = "length (concat (map rune_digits bs))" and ?v = "\<lambda>c. int (nat_of_dec (rune_digits c))"
  have coprime10: "coprime (97 :: int) 10" by (simp add: coprime_iff_gcd_eq_1 gcd_non_0_int)
  have len: "length (rune_digits c) = length (rune_digits d)"
    using assms(3) rune_digits_length by metis
  have num: "int (iban_number (as @ x # bs)) = int (iban_number as) * 10 ^ (length (rune_digits x) + ?L) + ?v x * 10 ^ ?L + int (iban_number bs)" for x
    using iban_number_append [of "as" "x # bs"] iban_number_append [of "[x]" bs] by (simp add: iban_number_def)
  have "int (iban_number (as @ c # bs)) mod 97 = int (iban_number (as @ d # bs)) mod 97"
    using arg_cong [where f = int, OF assms(1) [folded assms(2)]] by (simp add: zmod_int)
  then have "97 dvd int (iban_number (as @ c # bs)) - int (iban_number (as @ d # bs))" by (simp only: mod_eq_dvd_iff)
  then have "97 dvd (?v c - ?v d) * 10 ^ ?L" unfolding num len by (simp add: left_diff_distrib)
  moreover have "coprime (97 :: int) (10 ^ ?L)" using coprime10 by simp
  ultimately have dvd: "97 dvd ?v c - ?v d" by (simp add: coprime_dvd_mult_left_iff)
  have v: "?v x = (if digit_rune x then int x - 48 else int x - 55)" if "digit_rune x \<or> upper_rune x" for x
    using that by (auto simp: rune_digits_def digit_rune_def upper_rune_def)
  have bound: "0 \<le> ?v x \<and> ?v x < 36" if "digit_rune x \<or> upper_rune x" for x
    using that v [OF that] by (auto simp: digit_rune_def upper_rune_def)
  have "\<bar>?v c - ?v d\<bar> < 97" using assms(3) bound [of c] bound [of d] by linarith
  then have "?v c - ?v d = 0" using dvd dvd_imp_le_int [of "?v c - ?v d" 97] by linarith
  then have eq: "?v c = ?v d" by simp
  have digit_upper: "digit_rune x \<Longrightarrow> \<not> upper_rune x" for x by (simp add: digit_rune_def upper_rune_def)
  from assms(3) show ?thesis
  proof
    assume "digit_rune c \<and> digit_rune d"
    then show ?thesis using eq v [of c] v [of d] by simp
  next
    assume "upper_rune c \<and> upper_rune d"
    moreover from this have "\<not> digit_rune c" "\<not> digit_rune d" using digit_upper by blast+
    ultimately show ?thesis using eq v [of c] v [of d] by simp
  qed
qed

lemma reorder_update:
  assumes "i < length s" "4 \<le> length s"
  shows "\<exists>as bs. \<forall>x. drop 4 (s[i := x]) @ take 4 (s[i := x]) = as @ x # bs"
proof (cases "i < 4")
  case True
  then have four: "4 - i = Suc (3 - i)" by simp
  from True have "drop 4 (s[i := x]) @ take 4 (s[i := x]) = (drop 4 s @ take i s) @ x # drop (Suc i) (take 4 s)" for x
    using assms by (simp add: upd_conv_take_nth_drop drop_take four)
  then show ?thesis by blast
next
  case False
  then have "drop 4 (s[i := x]) @ take 4 (s[i := x]) = take (i - 4) (drop 4 s) @ x # (drop (Suc (i - 4)) (drop 4 s) @ take 4 s)" for x
    using assms by (simp add: drop_update_swap upd_conv_take_nth_drop drop_take)
  then show ?thesis by blast
qed

lemma NormalizeIBAN_Some:
  assumes "NormalizeIBAN u v = Some t" "t \<noteq> []"
  obtains s where "t = map char_of s" "map of_char t = s" "iban_chars s" "iban_shape s" "iban_number (drop 4 s @ take 4 s) mod 97 = 1"
proof -
  obtain s where s: "iban_shape s" "iban_remainder (drop 4 s @ take 4 s) 0 = Some 1" "t = map char_of s"
    using assms by (auto simp: NormalizeIBAN_def split: option.splits if_splits)
  then have c: "iban_chars s" "iban_number (drop 4 s @ take 4 s) mod 97 = 1"
    by (auto simp: iban_remainder_number iban_chars_split split: if_splits)
  have "c < 256" if "c \<in> set s" for c
    using that c(1) by (auto simp: iban_chars_def list_all_iff digit_rune_def upper_rune_def)
  then have "map of_char t = s" unfolding s(3) by (auto simp: of_char_of intro!: map_idI)
  then show thesis using that s(1,3) c by blast
qed

text \<open>
  Claim C40.  An IBAN that is accepted is accepted again as it was normalized, and mistyping one of its digits or one of its letters for
  another is always noticed.
\<close>

theorem iban_typo_detected:
  assumes "ascii_tables u" "NormalizeIBAN u v = Some t" "i < length t" "x \<noteq> t ! i"
    "digit_rune (of_char x) \<and> digit_rune (of_char (t ! i)) \<or> upper_rune (of_char x) \<and> upper_rune (of_char (t ! i))"
  shows "NormalizeIBAN u (map of_char t) = Some t \<and> NormalizeIBAN u (map of_char (t[i := x])) = None"
proof -
  have ne: "t \<noteq> []" using assms(3) by auto
  obtain s where s: "t = map char_of s" "map of_char t = s" "iban_chars s" "iban_shape s" "iban_number (drop 4 s @ take 4 s) mod 97 = 1"
    using NormalizeIBAN_Some [OF assms(2) ne] by blast
  let ?d = "of_char x :: nat" and ?s' = "s[i := of_char x]"
  have i: "i < length s" "s ! i = of_char (t ! i)" using s(2) assms(3) by auto
  have "s \<noteq> []" using ne s(1) by auto
  then have ok: "NormalizeIBAN u s = Some t" using NormalizeIBAN_iff [OF assms(1) s(3)] s(1,4,5) by simp
  have four: "4 \<le> length s"
  proof -
    have "sum_list (map rune_bytes s) = length s"
      using s(3) by (induction s) (auto simp: iban_chars_def rune_bytes_def digit_rune_def upper_rune_def)
    then show ?thesis using s(4) by (simp add: iban_shape_def Let_def)
  qed
  have chars: "iban_chars ?s'" using s(3) assms(5) set_update_subset_insert [of s i ?d] by (auto simp: iban_chars_def list_all_iff)
  obtain as bs where upd: "\<And>c. drop 4 (s[i := c]) @ take 4 (s[i := c]) = as @ c # bs" using reorder_update [OF i(1) four] by blast
  have "drop 4 s @ take 4 s = as @ s ! i # bs" using upd [of "s ! i"] by simp
  moreover have "?d \<noteq> s ! i" using assms(4) i(2) by (metis char_of_char)
  ultimately have "iban_number (drop 4 ?s' @ take 4 ?s') mod 97 \<noteq> 1"
    using number_differs [of "as" "s ! i" bs ?d] s(5) assms(5) i(2) upd by metis
  moreover have "?s' \<noteq> []" using \<open>s \<noteq> []\<close> by simp
  ultimately have "NormalizeIBAN u ?s' = None" using NormalizeIBAN_iff [OF assms(1) chars] by simp
  then show ?thesis using ok s(2) by (simp add: map_update)
qed

definition ascii_only :: rune_tables where
  "ascii_only = \<lparr>ru_ToUpper = (\<lambda>c. if 97 \<le> c \<and> c \<le> 122 then c - 32 else c), ru_IsSpace = (\<lambda>c. c \<in> {9, 10, 11, 12, 13, 32}),
     ru_IsLetter = (\<lambda>c. upper_rune c \<or> 97 \<le> c \<and> c \<le> 122), ru_IsDigit = digit_rune\<rparr>"

theorem iban_typo_detected_witness:
  "NormalizeIBAN ascii_only (map of_char ''GB82WEST12345698765432'') = Some ''GB82WEST12345698765432''
   \<and> NormalizeIBAN ascii_only (map of_char ''GB82WEST12345698765433'') = None"
proof -
  have "ascii_tables ascii_only" by (simp add: ascii_tables_def ascii_only_def)
  moreover have "NormalizeIBAN ascii_only (map of_char '' gb82 West 1234 5698 7654 32'') = Some ''GB82WEST12345698765432''" by code_simp
  ultimately show ?thesis using iban_typo_detected [of ascii_only _ "''GB82WEST12345698765432''" 21 "CHR ''3''"]
    by (simp add: digit_rune_def)
qed

end
