(* ===== verification/Cash_Accounts.thy ===== *)
theory Cash_Accounts
  imports Iban Calendar Allocation_Ledger "HOL-Library.AList"
begin

text \<open>
  Cash and bank accounts (\<^verbatim>\<open>src/internal/finance/account_core.go\<close>): an append-only ledger of movements, transfers between
  accounts with their reversal, and the ports through which advances and payroll payments post.  Amounts are
  \<^verbatim>\<open>numeric(20,4)\<close>, counted in ten-thousandths, rates \<^verbatim>\<open>numeric(20,10)\<close>.  The state holds the rows of the session's company.
  A posting is one serializable transaction; reversing a transfer reads the rows \<open>r\<close> first and posts on the rows \<open>db\<close> its
  transaction meets.  Parameters stand for the uuid package and the uuid cast of the database, fresh ids, the day of the
  company's clock and the decoding of UTF-8 with the Unicode tables.  Movements are dated by day; a rate column takes the value the
  text of the rate was read with.
\<close>

section \<open>Rows\<close>

datatype cash_error = CashForbidden | CashValidation | CashConflict | ErrFutureFinanceDateNotAllowed | ErrPeriodLocked
  | ErrAccountInactive | ErrCurrencyMismatch | ErrExchangeRateRequired | ErrNegativeBalanceBlocked
  | ErrNegativeBalanceConfirmation | ErrAccountBranchImmutable | ErrOpeningBalanceExists | CashKeyReused
  | ErrAlreadyReversed | CashDatabase

record AccountInput =
  ac_AccountType :: string
  ac_Code :: string
  ac_Name :: string
  ac_Currency :: string
  ac_BranchID :: string
  ac_BankName :: string
  ac_BankBranchName :: string
  ac_BankBranchCode :: string
  ac_IBAN :: string
  ac_AccountNumber :: string
  ac_Description :: string
  ac_Notes :: string

record Account = AccountInput +
  ac_IsActive :: bool
  ac_Version :: int

record AccountMovement =
  mv_ID :: string
  mv_AccountID :: string
  mv_MovementKind :: string
  mv_Direction :: string
  mv_Currency :: string
  mv_Amount :: int
  mv_TransactionDate :: date
  mv_SourceType :: string
  mv_SourceID :: string
  mv_IdempotencyKey :: string
  mv_Description :: string
  mv_ExternalReference :: string
  mv_ReversalOfID :: "string option"
  mv_ExchangeRate :: int
  mv_BaseCurrency :: string
  mv_BaseAmount :: int
  mv_DocumentNo :: string

record FinanceTransfer =
  tf_ID :: string
  tf_FromAccountID :: string
  tf_ToAccountID :: string
  tf_OutMovementID :: string
  tf_InMovementID :: string
  tf_Currency :: string
  tf_Amount :: int
  tf_DocumentNo :: string
  tf_ExternalReference :: string
  tf_Description :: string
  tf_TransactionDate :: date
  tf_IdempotencyKey :: string
  tf_ReversalOfID :: "string option"

record cash_db =
  cd_accounts :: "(string \<times> Account) list"
  cd_movements :: "AccountMovement list"
  cd_transfers :: "FinanceTransfer list"
  cd_sequences :: "((string \<times> nat) \<times> nat) list" \<comment> \<open>next number of a prefix and a year\<close>
  cd_locks :: "(date \<times> date) list"
  cd_policy :: string
  cd_base_currency :: string
  cd_branches :: "string list" \<comment> \<open>the active branches\<close>
  cd_account_scopes :: "(string \<times> string) list" \<comment> \<open>user and account\<close>
  cd_rates :: "(string \<times> date \<times> string) list" \<comment> \<open>in the order they were fetched\<close>

record cash_env =
  ce_Parse :: "string \<Rightarrow> string option"
  ce_Validate :: "string \<Rightarrow> bool"
  ce_cast :: "string \<Rightarrow> string option"
  ce_new_id :: "nat \<Rightarrow> string"
  ce_now :: date
  ce_decode :: "string \<Rightarrow> nat list"
  ce_tables :: rune_tables

section \<open>Guards\<close>

definition zero_time :: date where \<comment> \<open>\<^verbatim>\<open>time.Time{}\<close>\<close>
  "zero_time = \<lparr>dt_year = 1, dt_month = 1, dt_day = 1\<rparr>"

definition accountPermission :: "string \<Rightarrow> string \<Rightarrow> string" where
  "accountPermission accountType action =
     (if equal_fold accountType ''BANK'' then ''finance.bank_account.'' else ''finance.cash_account.'') @ action"

definition movementPermission :: "string \<Rightarrow> string \<Rightarrow> string" where
  "movementPermission accountType action =
     (if equal_fold accountType ''BANK'' then ''finance.bank_movement.'' else ''finance.cash_movement.'') @ action"

definition ensureFinanceDate :: "cash_env \<Rightarrow> date \<Rightarrow> cash_error + unit" where
  "ensureFinanceDate env x = need (\<not> Before (ce_now env) x) ErrFutureFinanceDateNotAllowed"

definition ensurePeriodOpen :: "'a cash_db_scheme \<Rightarrow> date \<Rightarrow> cash_error + unit" where
  "ensurePeriodOpen db x = need (\<not> list_ex (\<lambda>(a, b). \<not> Before x a \<and> \<not> Before b x) (cd_locks db)) ErrPeriodLocked"

definition ensureFinanceAccountAccess :: "cash_env \<Rightarrow> fin_session \<Rightarrow> 'a cash_db_scheme \<Rightarrow> string \<Rightarrow> string \<Rightarrow> cash_error + unit" where
  "ensureFinanceAccountAccess env s db accountID branch =
     bindE (need (ValidateExternalActor (ce_Parse env) s \<and> ce_Validate env accountID) CashForbidden) (\<lambda>_.
     bindE (need (branch = [] \<or> branch_allowed (ce_Parse env) (cd_branches db) s branch) CashForbidden) (\<lambda>_.
     need (\<not> list_ex (\<lambda>(u, a). u = fs_UserID s) (cd_account_scopes db)
           \<or> list_ex (\<lambda>(u, a). u = fs_UserID s \<and> Some a = ce_cast env accountID) (cd_account_scopes db)) CashForbidden))"

section \<open>Rates and balances\<close>

definition units :: "nat \<Rightarrow> rat \<Rightarrow> int" where \<comment> \<open>a numeric column with \<open>k\<close> decimals\<close>
  "units k r = round_half_away (r * 10 ^ k)"

definition mv_signed :: "AccountMovement \<Rightarrow> int" where
  "mv_signed m = (if mv_Direction m = ''IN'' then mv_Amount m else - mv_Amount m)"

definition account_balance :: "'a cash_db_scheme \<Rightarrow> string \<Rightarrow> int" where
  "account_balance db a = (\<Sum>m\<leftarrow>cd_movements db. if mv_AccountID m = a then mv_signed m else 0)"

definition enforceNegativeBalanceTx :: "cash_env \<Rightarrow> fin_session \<Rightarrow> 'a cash_db_scheme \<Rightarrow> string \<Rightarrow> rat \<Rightarrow> string \<Rightarrow> cash_error + unit" where
  "enforceNegativeBalanceTx env s db accountID outAmount reason =
     (let remaining = mustRat (numeric_text (account_balance db accountID)) - outAmount in
      if 0 \<le> remaining \<or> cd_policy db = ''ALLOW'' then Inr ()
      else if cd_policy db = ''BLOCK'' then Inl ErrNegativeBalanceBlocked
      else need (can (ce_Parse env) s ''finance.negative_balance.override'' \<and> trim_space reason \<noteq> []) ErrNegativeBalanceConfirmation)"

definition rateScale :: int where "rateScale = 8"

definition maxFinanceRateAgeDays :: nat where "maxFinanceRateAgeDays = 30"

definition NormalizeRateText :: "string \<Rightarrow> string" where
  "NormalizeRateText value =
     (let trimmed = trim_space value in
      if CHR ''e'' \<in> set trimmed \<or> CHR ''E'' \<in> set trimmed then trimmed
      else (case rat_SetString trimmed of
          None \<Rightarrow> trimmed
        | Some ratio \<Rightarrow>
            if ratio \<le> 0 then trimmed
            else let formatted = trim_right (CHR ''.'') (trim_right (CHR ''0'') (rat_FloatString (nat rateScale) ratio)) in
              if formatted = [] \<or> formatted = ''0'' then trimmed else formatted))"

definition parseRate :: "string \<Rightarrow> money_error + rat" where
  "parseRate value = parsePositive (NormalizeRateText value) rateScale"

text \<open>\<^verbatim>\<open>ORDER BY rate_date DESC,fetched_at DESC LIMIT 1\<close>.\<close>

definition latest_rate :: "'a cash_db_scheme \<Rightarrow> string \<Rightarrow> date \<Rightarrow> (date \<times> string) option" where
  "latest_rate db currency x =
     fold (\<lambda>(c, d, rate) best. if c \<noteq> currency \<or> Before x d then best
             else (case best of None \<Rightarrow> Some (d, rate) | Some (d', rate') \<Rightarrow> if Before d d' then best else Some (d, rate)))
       (cd_rates db) None"

definition financeRateTx :: "'a cash_db_scheme \<Rightarrow> string \<Rightarrow> date \<Rightarrow> cash_error + string" where
  "financeRateTx db currency x =
     (if currency = cd_base_currency db then Inr ''1.0000000000''
      else bindE (found (latest_rate db currency x) ErrExchangeRateRequired) (\<lambda>(d, rate).
           if day_number x - day_number d > maxFinanceRateAgeDays then Inl ErrExchangeRateRequired
           else Inr (NormalizeRateText rate)))"

definition base_is_zero :: "rat \<Rightarrow> rat \<Rightarrow> bool" where
  "base_is_zero amount rate = (amountString (amount * rate) 4 = ''0.0000'')"

section \<open>Writing rows\<close>

definition fits :: "int \<Rightarrow> bool" where \<comment> \<open>twenty digits\<close>
  "fits n = (0 < n \<and> n < 10 ^ 20)"

text \<open>The checks, the unique keys and the foreign key to the account and its currency.\<close>

definition insert_movement :: "AccountMovement \<Rightarrow> 'a cash_db_scheme \<Rightarrow> cash_error + 'a cash_db_scheme" where
  "insert_movement m db =
     bindE (need (fits (mv_Amount m) \<and> fits (mv_ExchangeRate m) \<and> fits (mv_BaseAmount m) \<and> mv_Direction m \<in> {''IN'', ''OUT''}
                  \<and> mv_ReversalOfID m \<noteq> Some (mv_ID m)) CashDatabase) (\<lambda>_.
     bindE (need (\<not> (mv_MovementKind m = ''OPENING_BALANCE'' \<and> mv_ReversalOfID m = None
                  \<and> list_ex (\<lambda>x. mv_AccountID x = mv_AccountID m \<and> mv_MovementKind x = ''OPENING_BALANCE'' \<and> mv_ReversalOfID x = None)
                       (cd_movements db))) ErrOpeningBalanceExists) (\<lambda>_.
     bindE (need (\<not> list_ex (\<lambda>x. mv_ID x = mv_ID m \<or> mv_IdempotencyKey x = mv_IdempotencyKey m
                  \<or> (mv_ReversalOfID m \<noteq> None \<and> mv_ReversalOfID x = mv_ReversalOfID m)
                  \<or> (mv_DocumentNo m \<noteq> [] \<and> mv_DocumentNo x = mv_DocumentNo m)) (cd_movements db)
                  \<and> (case mv_ReversalOfID m of None \<Rightarrow> True | Some i \<Rightarrow> list_ex (\<lambda>x. mv_ID x = i) (cd_movements db))) CashDatabase) (\<lambda>_.
     bindE (need (map_option ac_Currency (map_of (cd_accounts db) (mv_AccountID m)) = Some (mv_Currency m)) ErrCurrencyMismatch) (\<lambda>_.
     Inr (db\<lparr>cd_movements := cd_movements db @ [m]\<rparr>)))))"

text \<open>The trigger looks for the two movements of the transfer.\<close>

definition transfer_side :: "FinanceTransfer \<Rightarrow> string \<Rightarrow> string \<Rightarrow> string \<Rightarrow> AccountMovement \<Rightarrow> bool" where
  "transfer_side t i account direction m =
     (mv_ID m = i \<and> mv_AccountID m = account \<and> mv_Currency m = tf_Currency t \<and> mv_Direction m = direction
      \<and> mv_MovementKind m = ''TRANSFER'' \<and> mv_SourceType m = ''finance_transfer'' \<and> mv_SourceID m = tf_ID t)"

definition insert_transfer :: "FinanceTransfer \<Rightarrow> 'a cash_db_scheme \<Rightarrow> cash_error + 'a cash_db_scheme" where
  "insert_transfer t db =
     bindE (need (list_ex (transfer_side t (tf_OutMovementID t) (tf_FromAccountID t) ''OUT'') (cd_movements db)
                  \<and> list_ex (transfer_side t (tf_InMovementID t) (tf_ToAccountID t) ''IN'') (cd_movements db)) ErrCurrencyMismatch) (\<lambda>_.
     bindE (need (fits (tf_Amount t) \<and> tf_FromAccountID t \<noteq> tf_ToAccountID t \<and> tf_OutMovementID t \<noteq> tf_InMovementID t
                  \<and> tf_ReversalOfID t \<noteq> Some (tf_ID t)) CashDatabase) (\<lambda>_.
     bindE (need (\<not> list_ex (\<lambda>x. tf_ID x = tf_ID t \<or> tf_DocumentNo x = tf_DocumentNo t) (cd_transfers db)) CashDatabase) (\<lambda>_.
     bindE (need (\<not> list_ex (\<lambda>x. tf_IdempotencyKey x = tf_IdempotencyKey t
                  \<or> (tf_ReversalOfID t \<noteq> None \<and> tf_ReversalOfID x = tf_ReversalOfID t)) (cd_transfers db)) CashKeyReused) (\<lambda>_.
     bindE (need (case tf_ReversalOfID t of None \<Rightarrow> True | Some i \<Rightarrow> list_ex (\<lambda>x. tf_ID x = i) (cd_transfers db)) CashDatabase) (\<lambda>_.
     Inr (db\<lparr>cd_transfers := cd_transfers db @ [t]\<rparr>))))))"

definition nextPaymentNumberTx :: "string \<Rightarrow> date \<Rightarrow> 'a cash_db_scheme \<Rightarrow> cash_error + 'a cash_db_scheme \<times> string" where
  "nextPaymentNumberTx prefix x db =
     (let year = dt_year x; k = (case map_of (cd_sequences db) (prefix, year) of None \<Rightarrow> 1 | Some k \<Rightarrow> k) in
      if year < 2000 \<or> 2200 < year then Inl CashValidation
      else Inr (db\<lparr>cd_sequences := AList.update (prefix, year) (k + 1) (cd_sequences db)\<rparr>,
                prefix @ ''-'' @ frac_digits 4 year @ ''-'' @ frac_digits 6 k))"

section \<open>Posting one movement\<close>

definition parse_amount :: "string \<Rightarrow> int \<Rightarrow> cash_error + rat" where
  "parse_amount value scale = (case parsePositive value scale of Inl e \<Rightarrow> Inl CashValidation | Inr amount \<Rightarrow> Inr amount)"

record MovementInput =
  mi_AccountID :: string
  mi_Direction :: string
  mi_Amount :: string
  mi_TransactionDate :: date
  mi_Description :: string
  mi_ExternalReference :: string
  mi_IdempotencyKey :: string
  mi_OverrideReason :: string

record PortInput = MovementInput +
  pi_SourceID :: string
  pi_ReversalOfID :: "string option"

text \<open>The row of an account a posting locks; it must be active.\<close>

definition lock_account :: "cash_env \<Rightarrow> 'a cash_db_scheme \<Rightarrow> string \<Rightarrow> cash_error + string \<times> Account" where
  "lock_account env db accountID =
     bindE (found (ce_cast env accountID) CashDatabase) (\<lambda>i.
     bindE (found (map_of (cd_accounts db) i) CashForbidden) (\<lambda>a.
     bindE (need (ac_IsActive a) ErrAccountInactive) (\<lambda>_. Inr (i, a))))"

definition enforce_out :: "cash_env \<Rightarrow> fin_session \<Rightarrow> 'a cash_db_scheme \<Rightarrow> string \<Rightarrow> string \<Rightarrow> rat \<Rightarrow> string \<Rightarrow> cash_error + unit" where
  "enforce_out env s db direction accountID amount reason =
     (if direction = ''OUT'' then enforceNegativeBalanceTx env s db accountID amount reason else Inr ())"

text \<open>
  The two ports are the same text up to the kind and the source of the movement.  The id of the row is the first fresh one.
\<close>

definition port_movement :: "string \<Rightarrow> string \<Rightarrow> cash_env \<Rightarrow> fin_session \<Rightarrow> PortInput \<Rightarrow> 'a cash_db_scheme \<Rightarrow> cash_error + 'a cash_db_scheme \<times> string" where
  "port_movement kind source env s i db =
     (let accountID = trim_space (mi_AccountID i); direction = to_upper (trim_space (mi_Direction i));
          key = trim_space (mi_IdempotencyKey i); x = mi_TransactionDate i in
      bindE (need (ce_Validate env accountID \<and> ce_Validate env (pi_SourceID i) \<and> direction \<in> {''IN'', ''OUT''}
                   \<and> x \<noteq> zero_time \<and> key \<noteq> []) CashValidation) (\<lambda>_.
      bindE (parse_amount (mi_Amount i) 2) (\<lambda>amount.
      bindE (ensureFinanceDate env x) (\<lambda>_.
      bindE (ensurePeriodOpen db x) (\<lambda>_.
      bindE (lock_account env db accountID) (\<lambda>(aid, a).
      bindE (need (ac_Currency a = ''TRY'') ErrCurrencyMismatch) (\<lambda>_.
      bindE (ensureFinanceAccountAccess env s db accountID (ac_BranchID a)) (\<lambda>_.
      bindE (enforce_out env s db direction aid amount (mi_OverrideReason i)) (\<lambda>_.
      bindE (financeRateTx db (ac_Currency a) x) (\<lambda>rate.
      bindE (found (ce_cast env (pi_SourceID i)) CashDatabase) (\<lambda>source_id.
      bindE (case pi_ReversalOfID i of None \<Rightarrow> Inr None
             | Some r \<Rightarrow> bindE (found (ce_cast env r) CashDatabase) (\<lambda>r. Inr (Some r))) (\<lambda>reversal.
      let m = \<lparr>mv_ID = ce_new_id env 0, mv_AccountID = aid, mv_MovementKind = kind, mv_Direction = direction, mv_Currency = ''TRY'',
               mv_Amount = units 4 (mustRat (amountString amount 2)), mv_TransactionDate = x, mv_SourceType = source,
               mv_SourceID = source_id, mv_IdempotencyKey = key, mv_Description = trim_space (mi_Description i),
               mv_ExternalReference = trim_space (mi_ExternalReference i), mv_ReversalOfID = reversal,
               mv_ExchangeRate = units 10 (mustRat rate), mv_BaseCurrency = cd_base_currency db,
               mv_BaseAmount = units 4 (mustRat (amountString amount 2) * mustRat rate), mv_DocumentNo = []\<rparr> in
      bindE (insert_movement m db) (\<lambda>db. Inr (db, mv_ID m))))))))))))))"

definition PostEmployeeAdvanceMovementTx :: "cash_env \<Rightarrow> fin_session \<Rightarrow> PortInput \<Rightarrow> 'a cash_db_scheme \<Rightarrow> cash_error + 'a cash_db_scheme \<times> string" where
  "PostEmployeeAdvanceMovementTx = port_movement ''EMPLOYEE_ADVANCE'' ''employee_advance_transaction''"

definition PostPayrollPaymentMovementTx :: "cash_env \<Rightarrow> fin_session \<Rightarrow> PortInput \<Rightarrow> 'a cash_db_scheme \<Rightarrow> cash_error + 'a cash_db_scheme \<times> string" where
  "PostPayrollPaymentMovementTx = port_movement ''PAYROLL'' ''payroll_payment''"

text \<open>A movement already posted under the key, with the type of its account.\<close>

definition movement_by_key :: "'a cash_db_scheme \<Rightarrow> string \<Rightarrow> (AccountMovement \<times> Account) option" where
  "movement_by_key db key =
     (case find (\<lambda>m. mv_IdempotencyKey m = key) (cd_movements db) of
        None \<Rightarrow> None
      | Some m \<Rightarrow> map_option (Pair m) (map_of (cd_accounts db) (mv_AccountID m)))"

definition ensureAccountMovementAccess :: "cash_env \<Rightarrow> fin_session \<Rightarrow> 'a cash_db_scheme \<Rightarrow> string \<Rightarrow> cash_error + unit" where
  "ensureAccountMovementAccess env s db accountID =
     bindE (found (map_of (cd_accounts db) accountID) CashForbidden) (\<lambda>a.
     ensureFinanceAccountAccess env s db accountID (ac_BranchID a))"

definition postAccountMovement :: "string \<Rightarrow> cash_env \<Rightarrow> fin_session \<Rightarrow> MovementInput \<Rightarrow> 'a cash_db_scheme \<Rightarrow> cash_error + 'a cash_db_scheme \<times> string" where
  "postAccountMovement kind env s i db =
     (let direction = to_upper (trim_space (mi_Direction i)); description = trim_space (mi_Description i);
          reference = trim_space (mi_ExternalReference i); key = trim_space (mi_IdempotencyKey i); x = mi_TransactionDate i in
      bindE (found (ce_Parse env (trim_space (mi_AccountID i))) CashValidation) (\<lambda>aid.
      bindE (need (direction \<in> {''IN'', ''OUT''} \<and> x \<noteq> zero_time \<and> key \<noteq> []) CashValidation) (\<lambda>_.
      bindE (need (kind = ''OPENING_BALANCE'' \<or> description \<noteq> []) CashValidation) (\<lambda>_.
      bindE (parse_amount (mi_Amount i) 4) (\<lambda>amount.
      case movement_by_key db key of
        Some (e, a) \<Rightarrow>
          bindE (need (can (ce_Parse env) s (movementPermission (ac_AccountType a) ''post'')) CashForbidden) (\<lambda>_.
          bindE (ensureAccountMovementAccess env s db (mv_AccountID e)) (\<lambda>_.
          bindE (need (\<not> (mv_AccountID e \<noteq> aid \<or> mv_MovementKind e \<noteq> kind \<or> mv_Direction e \<noteq> direction
                       \<or> numeric_text (mv_Amount e) \<noteq> amountString amount 4 \<or> mv_TransactionDate e \<noteq> x
                       \<or> mv_Description e \<noteq> description \<or> mv_ExternalReference e \<noteq> reference)) CashKeyReused) (\<lambda>_.
          Inr (db, mv_ID e))))
      | None \<Rightarrow>
          bindE (ensureFinanceDate env x) (\<lambda>_.
          bindE (ensurePeriodOpen db x) (\<lambda>_.
          bindE (lock_account env db aid) (\<lambda>(aid, a).
          bindE (need (can (ce_Parse env) s (movementPermission (ac_AccountType a) ''post'')) CashForbidden) (\<lambda>_.
          bindE (ensureFinanceAccountAccess env s db aid (ac_BranchID a)) (\<lambda>_.
          bindE (need (\<not> (kind = ''OPENING_BALANCE'' \<and> list_ex (\<lambda>m. mv_AccountID m = aid) (cd_movements db))) ErrOpeningBalanceExists) (\<lambda>_.
          bindE (enforce_out env s db direction aid amount (mi_OverrideReason i)) (\<lambda>_.
          bindE (financeRateTx db (ac_Currency a) x) (\<lambda>rate.
          bindE (case parseRate rate of Inl e \<Rightarrow> Inl CashValidation | Inr r \<Rightarrow> Inr r) (\<lambda>rateValue.
          bindE (need (\<not> base_is_zero amount rateValue) CashValidation) (\<lambda>_.
          bindE (nextPaymentNumberTx ''KH'' x db) (\<lambda>(db, documentNo).
          let m = \<lparr>mv_ID = ce_new_id env 0, mv_AccountID = aid, mv_MovementKind = kind, mv_Direction = direction,
                   mv_Currency = ac_Currency a, mv_Amount = units 4 (mustRat (amountString amount 4)), mv_TransactionDate = x,
                   mv_SourceType = ''finance_account_movement'', mv_SourceID = ce_new_id env 0, mv_IdempotencyKey = key,
                   mv_Description = description, mv_ExternalReference = reference, mv_ReversalOfID = None,
                   mv_ExchangeRate = units 10 rateValue, mv_BaseCurrency = cd_base_currency db,
                   mv_BaseAmount = units 4 (mustRat (amountString amount 4) * rateValue), mv_DocumentNo = documentNo\<rparr> in
          bindE (insert_movement m db) (\<lambda>db. Inr (db, mv_ID m))))))))))))))))))"

definition PostOpeningBalance :: "cash_env \<Rightarrow> fin_session \<Rightarrow> MovementInput \<Rightarrow> 'a cash_db_scheme \<Rightarrow> cash_error + 'a cash_db_scheme \<times> string" where
  "PostOpeningBalance = postAccountMovement ''OPENING_BALANCE''"

definition PostManualAccountMovement :: "cash_env \<Rightarrow> fin_session \<Rightarrow> MovementInput \<Rightarrow> 'a cash_db_scheme \<Rightarrow> cash_error + 'a cash_db_scheme \<times> string" where
  "PostManualAccountMovement env s i =
     postAccountMovement (if equal_fold (mi_Direction i) ''OUT'' then ''MANUAL_OUT'' else ''MANUAL_IN'') env s i"

section \<open>Transfers\<close>

record FinanceTransferInput =
  ti_FromAccountID :: string
  ti_ToAccountID :: string
  ti_Amount :: string
  ti_TransactionDate :: date
  ti_Description :: string
  ti_ExternalReference :: string
  ti_IdempotencyKey :: string
  ti_OverrideReason :: string

definition transfer_by_key :: "'a cash_db_scheme \<Rightarrow> string \<Rightarrow> FinanceTransfer option" where
  "transfer_by_key db key = find (\<lambda>t. tf_IdempotencyKey t = key) (cd_transfers db)"

definition default_description :: string where
  "default_description = ''Hesaplar aras'' @ [CHR 0xC4, CHR 0xB1] @ '' transfer''"

text \<open>A reversal moves at the rate of the transfer it takes back, as the movement that left the account stores it.\<close>

definition original_rate :: "cash_env \<Rightarrow> 'a cash_db_scheme \<Rightarrow> string \<Rightarrow> string \<Rightarrow> cash_error + string \<times> string" where
  "original_rate env db currency original =
     bindE (found (ce_cast env original) CashDatabase) (\<lambda>i.
     bindE (found (find (\<lambda>t. tf_ID t = i) (cd_transfers db)) CashForbidden) (\<lambda>t.
     bindE (found (find (\<lambda>m. mv_ID m = tf_OutMovementID t) (cd_movements db)) CashForbidden) (\<lambda>m.
     bindE (need (mv_Currency m = currency) ErrCurrencyMismatch) (\<lambda>_.
     Inr (formatScaled (mv_ExchangeRate m) 10, if mv_BaseCurrency m = [] then cd_base_currency db else mv_BaseCurrency m)))))"

definition transfer_movement :: "string \<Rightarrow> string \<Rightarrow> string \<Rightarrow> string \<Rightarrow> string \<Rightarrow> rat \<Rightarrow> rat \<Rightarrow> string \<Rightarrow> FinanceTransferInput \<Rightarrow> AccountMovement" where
  "transfer_movement new account direction source currency amount rate base i =
     \<lparr>mv_ID = new, mv_AccountID = account, mv_MovementKind = ''TRANSFER'', mv_Direction = direction, mv_Currency = currency,
      mv_Amount = units 4 (mustRat (amountString amount 4)), mv_TransactionDate = ti_TransactionDate i,
      mv_SourceType = ''finance_transfer'', mv_SourceID = source,
      mv_IdempotencyKey = ''transfer:'' @ ti_IdempotencyKey i @ (if direction = ''OUT'' then '':out'' else '':in''),
      mv_Description = ti_Description i, mv_ExternalReference = ti_ExternalReference i, mv_ReversalOfID = None,
      mv_ExchangeRate = units 10 (rate), mv_BaseCurrency = base,
      mv_BaseAmount = units 4 (mustRat (amountString amount 4) * rate), mv_DocumentNo = []\<rparr>"

definition write_transfer :: "cash_env \<Rightarrow> FinanceTransferInput \<Rightarrow> string option \<Rightarrow> string \<Rightarrow> rat \<Rightarrow> rat \<Rightarrow> string \<Rightarrow> 'a cash_db_scheme \<Rightarrow>
    cash_error + 'a cash_db_scheme \<times> string" where
  "write_transfer env i reversal currency amount rate base db =
     bindE (nextPaymentNumberTx ''TRF'' (ti_TransactionDate i) db) (\<lambda>(db, documentNo).
     let t = \<lparr>tf_ID = ce_new_id env 0, tf_FromAccountID = ti_FromAccountID i, tf_ToAccountID = ti_ToAccountID i,
              tf_OutMovementID = ce_new_id env 1, tf_InMovementID = ce_new_id env 2, tf_Currency = currency,
              tf_Amount = units 4 (mustRat (amountString amount 4)), tf_DocumentNo = documentNo,
              tf_ExternalReference = ti_ExternalReference i, tf_Description = ti_Description i,
              tf_TransactionDate = ti_TransactionDate i, tf_IdempotencyKey = ti_IdempotencyKey i, tf_ReversalOfID = reversal\<rparr> in
     bindE (insert_movement (transfer_movement (tf_OutMovementID t) (tf_FromAccountID t) ''OUT'' (tf_ID t) currency amount rate base i) db) (\<lambda>db.
     bindE (insert_movement (transfer_movement (tf_InMovementID t) (tf_ToAccountID t) ''IN'' (tf_ID t) currency amount rate base i) db) (\<lambda>db.
     bindE (insert_transfer t db) (\<lambda>db. Inr (db, tf_ID t)))))"

definition normalize_transfer :: "FinanceTransferInput \<Rightarrow> string \<Rightarrow> string \<Rightarrow> FinanceTransferInput" where
  "normalize_transfer i source target =
     i\<lparr>ti_FromAccountID := source, ti_ToAccountID := target, ti_IdempotencyKey := trim_space (ti_IdempotencyKey i),
       ti_Description := (let d = trim_space (ti_Description i) in if d = [] then default_description else d),
       ti_ExternalReference := trim_space (ti_ExternalReference i)\<rparr>"

definition postFinanceTransfer :: "cash_env \<Rightarrow> fin_session \<Rightarrow> FinanceTransferInput \<Rightarrow> string option \<Rightarrow> 'a cash_db_scheme \<Rightarrow>
    cash_error + 'a cash_db_scheme \<times> string" where
  "postFinanceTransfer env s i reversalOf db =
     bindE (need (can (ce_Parse env) s (if reversalOf = None then ''finance.transfer.post'' else ''finance.transfer.reverse'')) CashForbidden) (\<lambda>_.
     bindE (found (ce_Parse env (trim_space (ti_FromAccountID i))) CashForbidden) (\<lambda>source.
     bindE (found (ce_Parse env (trim_space (ti_ToAccountID i))) CashForbidden) (\<lambda>target.
     let i = normalize_transfer i source target; x = ti_TransactionDate i in
     bindE (need (source \<noteq> target \<and> ti_IdempotencyKey i \<noteq> [] \<and> x \<noteq> zero_time) CashValidation) (\<lambda>_.
     bindE (parse_amount (ti_Amount i) 4) (\<lambda>amount.
     case transfer_by_key db (ti_IdempotencyKey i) of
       Some e \<Rightarrow>
         bindE (need (\<not> (tf_FromAccountID e \<noteq> source \<or> tf_ToAccountID e \<noteq> target \<or> numeric_text (tf_Amount e) \<noteq> amountString amount 4
                      \<or> tf_Description e \<noteq> ti_Description i \<or> tf_ExternalReference e \<noteq> ti_ExternalReference i
                      \<or> tf_TransactionDate e \<noteq> x)) CashKeyReused) (\<lambda>_. Inr (db, tf_ID e))
     | None \<Rightarrow>
         bindE (ensureFinanceDate env x) (\<lambda>_.
         bindE (ensurePeriodOpen db x) (\<lambda>_.
         bindE (found (map_of (cd_accounts db) source) CashForbidden) (\<lambda>a.
         bindE (found (map_of (cd_accounts db) target) CashForbidden) (\<lambda>b.
         bindE (need (ac_IsActive a \<and> ac_IsActive b) ErrAccountInactive) (\<lambda>_.
         bindE (need (ac_Currency a = ac_Currency b) ErrCurrencyMismatch) (\<lambda>_.
         bindE (ensureFinanceAccountAccess env s db source (ac_BranchID a)) (\<lambda>_.
         bindE (ensureFinanceAccountAccess env s db target (ac_BranchID b)) (\<lambda>_.
         bindE (enforceNegativeBalanceTx env s db source amount (ti_OverrideReason i)) (\<lambda>_.
         bindE (case reversalOf of
                  None \<Rightarrow> bindE (financeRateTx db (ac_Currency a) x) (\<lambda>rate. Inr (rate, cd_base_currency db))
                | Some original \<Rightarrow> original_rate env db (ac_Currency a) original) (\<lambda>(rate, base).
         bindE (parse_amount rate 10) (\<lambda>rateValue.
         bindE (need (\<not> base_is_zero amount rateValue) CashValidation) (\<lambda>_.
         bindE (case reversalOf of None \<Rightarrow> Inr None
                | Some r \<Rightarrow> bindE (found (ce_cast env r) CashDatabase) (\<lambda>r. Inr (Some r))) (\<lambda>reversal.
         write_transfer env i reversal (ac_Currency a) amount rateValue base db))))))))))))))))))"

definition PostFinanceTransfer :: "cash_env \<Rightarrow> fin_session \<Rightarrow> FinanceTransferInput \<Rightarrow> 'a cash_db_scheme \<Rightarrow> cash_error + 'a cash_db_scheme \<times> string" where
  "PostFinanceTransfer env s i db = postFinanceTransfer env s i None db"

definition loadAccount :: "cash_env \<Rightarrow> fin_session \<Rightarrow> bool \<Rightarrow> 'a cash_db_scheme \<Rightarrow> string \<Rightarrow> cash_error + string \<times> Account" where
  "loadAccount env s requireRead db accountID =
     bindE (found (ce_cast env accountID) CashDatabase) (\<lambda>i.
     bindE (found (map_of (cd_accounts db) i) CashForbidden) (\<lambda>a.
     bindE (need (requireRead \<longrightarrow> can (ce_Parse env) s (accountPermission (ac_AccountType a) ''read'')) CashForbidden) (\<lambda>_.
     bindE (ensureFinanceAccountAccess env s db i (ac_BranchID a)) (\<lambda>_. Inr (i, a)))))"

definition loadFinanceTransfer :: "cash_env \<Rightarrow> fin_session \<Rightarrow> bool \<Rightarrow> 'a cash_db_scheme \<Rightarrow> string \<Rightarrow> cash_error + FinanceTransfer \<times> string" where
  "loadFinanceTransfer env s requireRead db transferID =
     bindE (need (requireRead \<longrightarrow> can (ce_Parse env) s ''finance.transfer.read'') CashForbidden) (\<lambda>_.
     bindE (found (ce_cast env transferID) CashDatabase) (\<lambda>i.
     bindE (found (find (\<lambda>t. tf_ID t = i) (cd_transfers db)) CashForbidden) (\<lambda>t.
     bindE (loadAccount env s requireRead db (tf_FromAccountID t)) (\<lambda>_.
     bindE (loadAccount env s requireRead db (tf_ToAccountID t)) (\<lambda>_.
     Inr (t, if tf_ReversalOfID t = None \<and> list_ex (\<lambda>u. tf_ReversalOfID u = Some (tf_ID t)) (cd_transfers db)
             then ''REVERSED'' else ''POSTED''))))))"

definition reversal_description :: "string \<Rightarrow> string" where
  "reversal_description reason = ''Ters kay'' @ [CHR 0xC4, CHR 0xB1] @ ''t: '' @ trim_space reason"

definition ReverseFinanceTransfer :: "cash_env \<Rightarrow> fin_session \<Rightarrow> string \<Rightarrow> string \<Rightarrow> string \<Rightarrow> date \<Rightarrow> 'a cash_db_scheme \<Rightarrow> 'a cash_db_scheme \<Rightarrow>
    cash_error + 'a cash_db_scheme \<times> string" where
  "ReverseFinanceTransfer env s transferID key reason x r db =
     bindE (need (can (ce_Parse env) s ''finance.transfer.reverse'' \<and> trim_space reason \<noteq> [] \<and> trim_space key \<noteq> []) CashForbidden) (\<lambda>_.
     bindE (loadFinanceTransfer env s False r transferID) (\<lambda>(original, _).
     case transfer_by_key r (trim_space key) of
       Some e \<Rightarrow>
         bindE (need (tf_ReversalOfID e = Some transferID \<and> tf_Description e = reversal_description reason) CashKeyReused) (\<lambda>_. Inr (db, tf_ID e))
     | None \<Rightarrow>
         bindE (need (tf_ReversalOfID original = None) ErrAlreadyReversed) (\<lambda>_.
         bindE (found (ce_cast env transferID) CashDatabase) (\<lambda>i.
         bindE (need (\<not> list_ex (\<lambda>u. tf_ReversalOfID u = Some i) (cd_transfers r)) ErrAlreadyReversed) (\<lambda>_.
         let x = (if x = zero_time then ce_now env else x) in
         bindE (need (\<not> Before x (tf_TransactionDate original)) CashValidation) (\<lambda>_.
         postFinanceTransfer env s
           \<lparr>ti_FromAccountID = tf_ToAccountID original, ti_ToAccountID = tf_FromAccountID original,
            ti_Amount = numeric_text (tf_Amount original), ti_TransactionDate = x, ti_Description = reversal_description reason,
            ti_ExternalReference = tf_ExternalReference original, ti_IdempotencyKey = trim_space key, ti_OverrideReason = []\<rparr>
           (Some transferID) db))))))"

section \<open>The accounts\<close>

definition normalizeAccountInput :: "cash_env \<Rightarrow> AccountInput \<Rightarrow> cash_error + AccountInput" where
  "normalizeAccountInput env i =
     (let i = i\<lparr>ac_AccountType := to_upper (trim_space (ac_AccountType i)), ac_Currency := to_upper (trim_space (ac_Currency i)),
            ac_Code := trim_space (ac_Code i), ac_Name := trim_space (ac_Name i), ac_BankName := trim_space (ac_BankName i),
            ac_BankBranchName := trim_space (ac_BankBranchName i), ac_BankBranchCode := trim_space (ac_BankBranchCode i),
            ac_AccountNumber := trim_space (ac_AccountNumber i), ac_Description := trim_space (ac_Description i),
            ac_Notes := trim_space (ac_Notes i), ac_BranchID := trim_space (ac_BranchID i)\<rparr> in
      bindE (need (ac_AccountType i \<in> {''CASH'', ''BANK''} \<and> ac_Code i \<noteq> [] \<and> ac_Name i \<noteq> [] \<and> length (ac_Currency i) = 3) CashValidation) (\<lambda>_.
      bindE (need (ac_BranchID i = [] \<or> ce_Validate env (ac_BranchID i)) CashValidation) (\<lambda>_.
      bindE (found (NormalizeIBAN (ce_tables env) (ce_decode env (ac_IBAN i))) CashValidation) (\<lambda>iban.
      let i = i\<lparr>ac_IBAN := iban\<rparr> in
      bindE (need (\<not> (ac_AccountType i = ''CASH'' \<and> (ac_BankName i \<noteq> [] \<or> ac_BankBranchName i \<noteq> [] \<or> ac_BankBranchCode i \<noteq> []
                   \<or> ac_IBAN i \<noteq> [] \<or> ac_AccountNumber i \<noteq> []))) CashValidation) (\<lambda>_. Inr i)))))"

definition branch_column :: "cash_env \<Rightarrow> string \<Rightarrow> cash_error + string" where \<comment> \<open>\<^verbatim>\<open>NULLIF($3,'')::uuid\<close>\<close>
  "branch_column env b = (if b = [] then Inr [] else found (ce_cast env b) CashDatabase)"

definition may_use_branch :: "cash_env \<Rightarrow> fin_session \<Rightarrow> 'a cash_db_scheme \<Rightarrow> string \<Rightarrow> cash_error + unit" where
  "may_use_branch env s db branch = need (branch = [] \<or> branch_allowed (ce_Parse env) (cd_branches db) s branch) CashForbidden"

text \<open>Codes are unique up to the letter case; \<^verbatim>\<open>btrim\<close> and the form of the currency are checked by the table.\<close>

definition account_row_ok :: "AccountInput \<Rightarrow> bool" where
  "account_row_ok i =
     (ac_AccountType i \<in> {''CASH'', ''BANK'', ''POS''} \<and> trim_right (CHR '' '') (trim_left (CHR '' '') (ac_Code i)) \<noteq> []
      \<and> trim_right (CHR '' '') (trim_left (CHR '' '') (ac_Name i)) \<noteq> []
      \<and> length (ac_Currency i) = 3 \<and> list_all (\<lambda>c. upper_rune (of_char c)) (ac_Currency i))"

definition code_free :: "'a cash_db_scheme \<Rightarrow> string \<Rightarrow> string \<Rightarrow> bool" where
  "code_free db i code = (\<not> list_ex (\<lambda>(j, a). j \<noteq> i \<and> equal_fold (ac_Code a) code) (cd_accounts db))"

definition CreateAccount :: "cash_env \<Rightarrow> fin_session \<Rightarrow> string \<Rightarrow> AccountInput \<Rightarrow> 'a cash_db_scheme \<Rightarrow> cash_error + 'a cash_db_scheme" where
  "CreateAccount env s accountID i db =
     bindE (need (can (ce_Parse env) s (accountPermission (to_upper (trim_space (ac_AccountType i))) ''create'')) CashForbidden) (\<lambda>_.
     bindE (normalizeAccountInput env i) (\<lambda>i.
     bindE (if accountID = [] then Inr (ce_new_id env 0) else found (ce_cast env accountID) CashDatabase) (\<lambda>new.
     bindE (may_use_branch env s db (ac_BranchID i)) (\<lambda>_.
     bindE (branch_column env (ac_BranchID i)) (\<lambda>branch.
     bindE (need (account_row_ok i \<and> map_of (cd_accounts db) new = None) CashDatabase) (\<lambda>_.
     bindE (need (code_free db new (ac_Code i)) CashValidation) (\<lambda>_.
     Inr (db\<lparr>cd_accounts := cd_accounts db @
       [(new, AccountInput.extend (i\<lparr>ac_BranchID := branch\<rparr>) \<lparr>ac_IsActive = True, ac_Version = 1\<rparr>)]\<rparr>))))))))"

definition set_account :: "string \<Rightarrow> Account \<Rightarrow> 'a cash_db_scheme \<Rightarrow> 'a cash_db_scheme" where
  "set_account i a db = db\<lparr>cd_accounts := map (\<lambda>(j, b). (j, if j = i then a else b)) (cd_accounts db)\<rparr>"

definition UpdateAccount :: "cash_env \<Rightarrow> fin_session \<Rightarrow> string \<Rightarrow> int \<Rightarrow> AccountInput \<Rightarrow> 'a cash_db_scheme \<Rightarrow> cash_error + 'a cash_db_scheme" where
  "UpdateAccount env s accountID expectedVersion i db =
     bindE (found (ce_cast env accountID) CashDatabase) (\<lambda>aid.
     bindE (found (map_of (cd_accounts db) aid) CashForbidden) (\<lambda>current.
     bindE (need (can (ce_Parse env) s (accountPermission (ac_AccountType current) ''edit'')) CashForbidden) (\<lambda>_.
     bindE (ensureFinanceAccountAccess env s db accountID (ac_BranchID current)) (\<lambda>_.
     let i = i\<lparr>ac_AccountType := (if ac_AccountType i = [] then ac_AccountType current else ac_AccountType i),
            ac_Currency := (if ac_Currency i = [] then ac_Currency current else ac_Currency i),
            ac_IBAN := (if ac_AccountType current = ''BANK'' \<and> trim_space (ac_IBAN i) = [] then ac_IBAN current else ac_IBAN i)\<rparr> in
     bindE (normalizeAccountInput env i) (\<lambda>i.
     bindE (need (ac_AccountType i = ac_AccountType current \<and> ac_Currency i = ac_Currency current) CashValidation) (\<lambda>_.
     bindE (may_use_branch env s db (ac_BranchID i)) (\<lambda>_.
     bindE (need (ac_BranchID current = ac_BranchID i \<or> \<not> list_ex (\<lambda>m. mv_AccountID m = aid) (cd_movements db)) ErrAccountBranchImmutable) (\<lambda>_.
     bindE (branch_column env (ac_BranchID i)) (\<lambda>branch.
     bindE (need (ac_Version current = expectedVersion) CashConflict) (\<lambda>_.
     bindE (need (account_row_ok i) CashDatabase) (\<lambda>_.
     bindE (need (code_free db aid (ac_Code i)) CashValidation) (\<lambda>_.
     Inr (set_account aid (AccountInput.extend (i\<lparr>ac_BranchID := branch\<rparr>)
            \<lparr>ac_IsActive = ac_IsActive current, ac_Version = ac_Version current + 1\<rparr>) db)))))))))))))"

definition SetAccountActive :: "cash_env \<Rightarrow> fin_session \<Rightarrow> string \<Rightarrow> int \<Rightarrow> bool \<Rightarrow> 'a cash_db_scheme \<Rightarrow> cash_error + 'a cash_db_scheme" where
  "SetAccountActive env s accountID expectedVersion active db =
     bindE (found (ce_cast env accountID) CashDatabase) (\<lambda>aid.
     bindE (found (map_of (cd_accounts db) aid) CashForbidden) (\<lambda>a.
     bindE (need (can (ce_Parse env) s (accountPermission (ac_AccountType a) ''deactivate'')) CashForbidden) (\<lambda>_.
     bindE (ensureFinanceAccountAccess env s db accountID (ac_BranchID a)) (\<lambda>_.
     bindE (need (ac_Version a = expectedVersion) CashConflict) (\<lambda>_.
     Inr (set_account aid (a\<lparr>ac_IsActive := active, ac_Version := ac_Version a + 1\<rparr>) db))))))"

section \<open>Reading\<close>

definition GetAccountBalance :: "cash_env \<Rightarrow> fin_session \<Rightarrow> 'a cash_db_scheme \<Rightarrow> string \<Rightarrow> cash_error + string \<times> string" where
  "GetAccountBalance env s db accountID =
     bindE (loadAccount env s True db accountID) (\<lambda>(i, a).
     Inr (ac_Currency a, amountString (mustRat (numeric_text (account_balance db i))) 4))"

definition statement_sum :: "(AccountMovement \<Rightarrow> bool) \<Rightarrow> 'a cash_db_scheme \<Rightarrow> string \<Rightarrow> int" where
  "statement_sum P db a = (\<Sum>m\<leftarrow>cd_movements db. if mv_AccountID m = a \<and> P m then mv_signed m else 0)"

definition on_or_after :: "date option \<Rightarrow> AccountMovement \<Rightarrow> bool" where
  "on_or_after d m = (case d of None \<Rightarrow> True | Some x \<Rightarrow> \<not> Before (mv_TransactionDate m) x)"

definition on_or_before :: "date option \<Rightarrow> AccountMovement \<Rightarrow> bool" where
  "on_or_before d m = (case d of None \<Rightarrow> True | Some x \<Rightarrow> \<not> Before x (mv_TransactionDate m))"

text \<open>
  Movements of a day come in the order they were posted: one transaction posts at most one movement of an account.
\<close>

definition AccountStatement :: "cash_env \<Rightarrow> fin_session \<Rightarrow> 'a cash_db_scheme \<Rightarrow> string \<Rightarrow> date option \<Rightarrow> date option \<Rightarrow> int \<Rightarrow>
    cash_error + string \<times> string \<times> AccountMovement list" where
  "AccountStatement env s db accountID from_date to_date limit =
     bindE (loadAccount env s True db accountID) (\<lambda>(i, a).
     bindE (need (can (ce_Parse env) s (movementPermission (ac_AccountType a) ''read'')) CashForbidden) (\<lambda>_.
     let limit = (if limit \<le> 0 \<or> 500 < limit then 100 else limit);
         opening = statement_sum (\<lambda>m. from_date \<noteq> None \<and> \<not> on_or_after from_date m) db i;
         closing = statement_sum (on_or_before to_date) db i;
         items = filter (\<lambda>m. mv_AccountID m = i \<and> on_or_after from_date m \<and> on_or_before to_date m) (cd_movements db) in
     Inr (amountString (mustRat (numeric_text opening)) 4, amountString (mustRat (numeric_text closing)) 4,
          take (nat limit) (stable_sort (\<lambda>x y. Before (mv_TransactionDate x) (mv_TransactionDate y)) items))))"

end
