(* ===== verification/Cash_Ledger.thy ===== *)
theory Cash_Ledger
  imports Cash_Accounts
begin

text \<open>
  What the commands on cash and bank accounts write, and what they keep: every state of a history carries \<open>cash_inv\<close>, by which each
  transfer has its two movements and a reversal mirrors its transfer.
\<close>

section \<open>Amounts and rates\<close>

lemma units_grid [simp]: "units k (of_int n / 10 ^ k) = n"
  by (simp add: units_def)

lemma parsePositive_scale:
  assumes "parsePositive s (int k) = Inr r" shows "0 < r \<and> (\<exists>n :: int. 0 < n \<and> r = of_int n / 10 ^ k)"
proof -
  obtain d where d: "ParseDecimal s (int k) = Inr d" "0 < dec_Sign d" "parseRat (dec_String d) = Inr r"
    using assms by (auto simp: parsePositive_def split: sum.splits if_splits)
  have ok: "decimal_ok d" and sc: "dscale d \<le> k" using ParseDecimal_ok [OF d(1)] by simp_all
  have r: "r = decimal_rat d"
    using d(3) parseRat_format [of "dvalue d" "dscale d"] by (simp add: dec_String_ok [OF ok] decimal_rat_def)
  have pos: "0 < r" using d(2) by (simp add: r dec_Sign_rat split: if_splits)
  have "(10::rat) ^ dscale d * 10 ^ (k - dscale d) = 10 ^ k" using sc by (simp flip: power_add)
  then have n: "r = of_int (dvalue d * 10 ^ (k - dscale d)) / 10 ^ k"
    unfolding r decimal_rat_def by (simp add: divide_simps) (simp add: mult.commute mult.left_commute)
  have "0 < dvalue d * 10 ^ (k - dscale d)" using pos unfolding n by (simp add: zero_less_divide_iff del: of_int_mult)
  then show ?thesis using pos n by blast
qed

lemma amount_text: "mustRat (amountString (of_int n / 10 ^ k) k) = of_int n / 10 ^ k"
  using settlementRat_format [of n k] by (simp add: amountString_eq mustRat_eq)

lemma parse_amount_grid:
  assumes "parse_amount s (int k) = Inr r"
  obtains n where "0 < n" "r = of_int n / 10 ^ k" "mustRat (amountString r k) = r"
  using assms parsePositive_scale [of s k r] amount_text by (fastforce simp: parse_amount_def split: sum.splits)

lemma posted_amount:
  assumes "parse_amount s (int k) = Inr r" "k \<le> 4"
  shows "of_int (units 4 (mustRat (amountString r k))) = r * 10000"
proof -
  obtain n where n: "r = of_int n / 10 ^ k" "mustRat (amountString r k) = r" using parse_amount_grid [OF assms(1)] by blast
  have "(10::rat) ^ k * 10 ^ (4 - k) = 10000" using assms(2) by (simp flip: power_add)
  then have "r * 10000 = of_int (n * 10 ^ (4 - k))" unfolding n(1) by (simp add: field_simps)
  then show ?thesis unfolding n(2) units_def by (simp del: of_int_mult)
qed

lemma parse_amount_numeric: "0 < n \<Longrightarrow> parse_amount (numeric_text n) 4 = Inr (of_int n / 10000)"
  using parsePositive_format [of n 4] by (simp add: parse_amount_def numeric_text_def)

lemma exact_rate: "0 < n \<Longrightarrow> parse_amount (formatScaled n 10) 10 = Inr (of_int n / 10 ^ 10)"
proof -
  assume n: "0 < n"
  let ?d = "fromScaledInt n 10"
  have t: "dec_String ?d = formatScaled n 10" by (simp add: dec_String_ok)
  have "ParseDecimal (dec_String ?d) 10 = Inr ?d" using Parse_String [of ?d 10] by simp
  moreover have "\<not> dec_Sign ?d \<le> 0" using n by (simp add: dec_Sign_rat not_less)
  ultimately show ?thesis unfolding parse_amount_def parsePositive_def using parseRat_format [of n 10] by (simp add: t)
qed

section \<open>What a posting writes\<close>

lemma insert_movement_Inr:
  "insert_movement m db = Inr db' \<longleftrightarrow> db' = db\<lparr>cd_movements := cd_movements db @ [m]\<rparr>
   \<and> fits (mv_Amount m) \<and> fits (mv_ExchangeRate m) \<and> fits (mv_BaseAmount m) \<and> mv_Direction m \<in> {''IN'', ''OUT''}
   \<and> mv_ReversalOfID m \<noteq> Some (mv_ID m)
   \<and> (mv_MovementKind m = ''OPENING_BALANCE'' \<longrightarrow> mv_ReversalOfID m = None \<longrightarrow>
        (\<forall>x \<in> set (cd_movements db). \<not> (mv_AccountID x = mv_AccountID m \<and> mv_MovementKind x = ''OPENING_BALANCE'' \<and> mv_ReversalOfID x = None)))
   \<and> (\<forall>x \<in> set (cd_movements db). mv_ID x \<noteq> mv_ID m \<and> mv_IdempotencyKey x \<noteq> mv_IdempotencyKey m
        \<and> (mv_ReversalOfID m \<noteq> None \<longrightarrow> mv_ReversalOfID x \<noteq> mv_ReversalOfID m)
        \<and> (mv_DocumentNo m \<noteq> [] \<longrightarrow> mv_DocumentNo x \<noteq> mv_DocumentNo m))
   \<and> (\<forall>i. mv_ReversalOfID m = Some i \<longrightarrow> (\<exists>x \<in> set (cd_movements db). mv_ID x = i))
   \<and> map_option ac_Currency (map_of (cd_accounts db) (mv_AccountID m)) = Some (mv_Currency m)"
  unfolding insert_movement_def bindE_Inr_iff need_Inr by (auto simp: list_ex_iff split: option.splits)

lemma insert_transfer_Inr:
  "insert_transfer t db = Inr db' \<longleftrightarrow> db' = db\<lparr>cd_transfers := cd_transfers db @ [t]\<rparr>
   \<and> (\<exists>m \<in> set (cd_movements db). transfer_side t (tf_OutMovementID t) (tf_FromAccountID t) ''OUT'' m)
   \<and> (\<exists>m \<in> set (cd_movements db). transfer_side t (tf_InMovementID t) (tf_ToAccountID t) ''IN'' m)
   \<and> fits (tf_Amount t) \<and> tf_FromAccountID t \<noteq> tf_ToAccountID t \<and> tf_OutMovementID t \<noteq> tf_InMovementID t
   \<and> tf_ReversalOfID t \<noteq> Some (tf_ID t)
   \<and> (\<forall>x \<in> set (cd_transfers db). tf_ID x \<noteq> tf_ID t \<and> tf_DocumentNo x \<noteq> tf_DocumentNo t \<and> tf_IdempotencyKey x \<noteq> tf_IdempotencyKey t
        \<and> (tf_ReversalOfID t \<noteq> None \<longrightarrow> tf_ReversalOfID x \<noteq> tf_ReversalOfID t))
   \<and> (\<forall>i. tf_ReversalOfID t = Some i \<longrightarrow> (\<exists>x \<in> set (cd_transfers db). tf_ID x = i))"
  unfolding insert_transfer_def bindE_Inr_iff need_Inr by (auto simp: list_ex_iff split: option.splits)

text \<open>A movement that leaves an account is covered by its balance, where the policy asks for it.\<close>

definition covered :: "'a cash_db_scheme \<Rightarrow> AccountMovement \<Rightarrow> bool" where
  "covered db m = (cd_policy db = ''BLOCK'' \<longrightarrow> mv_Direction m = ''OUT'' \<longrightarrow> mv_Amount m \<le> account_balance db (mv_AccountID m))"

lemma enforce_covers:
  assumes "enforceNegativeBalanceTx env s db a amount reason = Inr u" "cd_policy db = ''BLOCK''" "of_int n = amount * 10000"
  shows "n \<le> account_balance db a"
proof -
  have "0 \<le> of_int (account_balance db a) / 10000 - amount"
    using assms(1,2) unfolding enforceNegativeBalanceTx_def Let_def mustRat_numeric by (simp split: if_splits)
  then have "of_int n \<le> (of_int (account_balance db a) :: rat)" using assms(3) by (simp add: field_simps)
  then show ?thesis by simp
qed

lemma enforce_out_covers:
  "enforce_out env s db dir a amount reason = Inr u \<Longrightarrow> cd_policy db = ''BLOCK'' \<Longrightarrow> dir = ''OUT'' \<Longrightarrow> of_int n = amount * 10000
   \<Longrightarrow> n \<le> account_balance db a"
  by (simp add: enforce_out_def enforce_covers)

lemma account_balance_cong [simp]: "account_balance (db\<lparr>cd_sequences := q\<rparr>) a = account_balance db a"
  by (simp add: account_balance_def)

lemma nextPaymentNumberTx_Inr:
  "nextPaymentNumberTx p x db = Inr (db', no) \<Longrightarrow> \<exists>q. db' = db\<lparr>cd_sequences := q\<rparr>"
  by (auto simp: nextPaymentNumberTx_def Let_def split: if_splits)

lemma port_movement_Inr:
  assumes "port_movement kind source env s i db = Inr (db', new)"
  obtains m where "insert_movement m db = Inr db'" "covered db m" "mv_SourceType m = source" "mv_IdempotencyKey m = trim_space (mi_IdempotencyKey i)"
proof -
  from assms obtain a x reversal aid where
    p: "parse_amount (mi_Amount i) (int 2) = Inr x" and lk: "lock_account env db (trim_space (mi_AccountID i)) = Inr (aid, a)" and
    e: "enforce_out env s db (to_upper (trim_space (mi_Direction i))) aid x (mi_OverrideReason i) = Inr ()" and
    ins: "\<exists>rate source_id. insert_movement \<lparr>mv_ID = ce_new_id env 0, mv_AccountID = aid, mv_MovementKind = kind,
            mv_Direction = to_upper (trim_space (mi_Direction i)), mv_Currency = ''TRY'',
            mv_Amount = units 4 (mustRat (amountString x 2)), mv_TransactionDate = mi_TransactionDate i, mv_SourceType = source,
            mv_SourceID = source_id, mv_IdempotencyKey = trim_space (mi_IdempotencyKey i), mv_Description = trim_space (mi_Description i),
            mv_ExternalReference = trim_space (mi_ExternalReference i), mv_ReversalOfID = reversal,
            mv_ExchangeRate = units 10 (mustRat rate), mv_BaseCurrency = cd_base_currency db,
            mv_BaseAmount = units 4 (mustRat (amountString x 2) * mustRat rate), mv_DocumentNo = []\<rparr> db = Inr db'"
    unfolding port_movement_def Let_def bindE_Inr_iff need_Inr by fastforce
  obtain m where m: "insert_movement m db = Inr db'" "mv_SourceType m = source" "mv_IdempotencyKey m = trim_space (mi_IdempotencyKey i)"
    "mv_Direction m = to_upper (trim_space (mi_Direction i))" "mv_AccountID m = aid" "mv_Amount m = units 4 (mustRat (amountString x 2))"
    using ins by auto
  have "covered db m"
    using enforce_out_covers [OF e] posted_amount [OF p] by (simp add: covered_def m)
  then show ?thesis using that m by blast
qed

lemma postAccountMovement_Inr:
  assumes "postAccountMovement kind env s i db = Inr (db', new)"
  obtains (replay) "db' = db" "list_ex (\<lambda>m. mv_IdempotencyKey m = trim_space (mi_IdempotencyKey i)) (cd_movements db)"
    | (new) m q where "insert_movement m (db\<lparr>cd_sequences := q\<rparr>) = Inr db'" "covered db m"
        "mv_SourceType m = ''finance_account_movement''" "mv_IdempotencyKey m = trim_space (mi_IdempotencyKey i)"
proof (cases "movement_by_key db (trim_space (mi_IdempotencyKey i))")
  case (Some ea)
  then obtain e a where ea: "movement_by_key db (trim_space (mi_IdempotencyKey i)) = Some (e, a)" by (cases ea) auto
  then have "db' = db" using assms unfolding postAccountMovement_def Let_def bindE_Inr_iff by auto
  moreover have "e \<in> set (cd_movements db)" "mv_IdempotencyKey e = trim_space (mi_IdempotencyKey i)"
    using ea by (auto simp: movement_by_key_def find_Some_iff split: option.splits)
  ultimately show ?thesis using replay by (auto simp: list_ex_iff)
next
  case None
  obtain aid x cur xr bc bv db0 no where p: "parse_amount (mi_Amount i) 4 = Inr x" and
    e: "enforce_out env s db (to_upper (trim_space (mi_Direction i))) aid x (mi_OverrideReason i) = Inr ()" and
    nx: "nextPaymentNumberTx ''KH'' (mi_TransactionDate i) db = Inr (db0, no)" and
    ins: "insert_movement \<lparr>mv_ID = ce_new_id env 0, mv_AccountID = aid, mv_MovementKind = kind, mv_Direction = to_upper (trim_space (mi_Direction i)),
           mv_Currency = cur, mv_Amount = units 4 (mustRat (amountString x 4)), mv_TransactionDate = mi_TransactionDate i,
           mv_SourceType = ''finance_account_movement'', mv_SourceID = ce_new_id env 0, mv_IdempotencyKey = trim_space (mi_IdempotencyKey i),
           mv_Description = trim_space (mi_Description i), mv_ExternalReference = trim_space (mi_ExternalReference i), mv_ReversalOfID = None,
           mv_ExchangeRate = xr, mv_BaseCurrency = bc,
           mv_BaseAmount = bv, mv_DocumentNo = no\<rparr> db0 = Inr db'"
    using assms unfolding postAccountMovement_def Let_def bindE_Inr_iff None option.case
    by (clarsimp simp: bindE_Inr_iff split_beta)
  from ins obtain m where m: "insert_movement m db0 = Inr db'" "mv_SourceType m = ''finance_account_movement''" "mv_IdempotencyKey m = trim_space (mi_IdempotencyKey i)"
    "mv_Direction m = to_upper (trim_space (mi_Direction i))" "mv_AccountID m = aid" "mv_Amount m = units 4 (mustRat (amountString x 4))" by simp
  obtain q where q: "db0 = db\<lparr>cd_sequences := q\<rparr>" using nextPaymentNumberTx_Inr [OF nx] by blast
  have "covered db m" using enforce_out_covers [OF e] posted_amount [of _ 4 x] p by (simp add: covered_def m)
  then show ?thesis using new m q by blast
qed

text \<open>The two movements of a transfer.\<close>

definition legs :: "'a cash_db_scheme \<Rightarrow> FinanceTransfer \<Rightarrow> AccountMovement \<Rightarrow> AccountMovement \<Rightarrow> bool" where
  "legs db t mo mi =
     (filter (\<lambda>m. mv_SourceType m = ''finance_transfer'' \<and> mv_SourceID m = tf_ID t) (cd_movements db) = [mo, mi]
      \<and> mv_ID mo = tf_OutMovementID t \<and> mv_AccountID mo = tf_FromAccountID t \<and> mv_Direction mo = ''OUT'' \<and> mv_Amount mo = tf_Amount t
      \<and> mv_AccountID mi = tf_ToAccountID t \<and> mv_Direction mi = ''IN'' \<and> mv_Amount mi = tf_Amount t
      \<and> mv_BaseAmount mi = mv_BaseAmount mo \<and> 0 < tf_Amount t \<and> 0 < mv_ExchangeRate mo
      \<and> mv_BaseAmount mo = units 4 (of_int (tf_Amount t) / 10000 * (of_int (mv_ExchangeRate mo) / 10 ^ 10)))"

lemma write_transfer_Inr:
  assumes w: "write_transfer env i reversal currency (of_int n / 10000) (of_int k / 10 ^ 10) base db = Inr (db', new)"
    and fresh: "\<forall>m \<in> set (cd_movements db). mv_SourceType m = ''finance_transfer'' \<longrightarrow> (\<exists>t \<in> set (cd_transfers db). mv_SourceID m = tf_ID t)"
  obtains t mo mi q where "db' = db\<lparr>cd_sequences := q, cd_movements := cd_movements db @ [mo, mi], cd_transfers := cd_transfers db @ [t]\<rparr>"
    "legs db' t mo mi" "mv_ExchangeRate mo = k"
    "mv_SourceType mo = ''finance_transfer''" "mv_SourceType mi = ''finance_transfer''" "mv_SourceID mo = tf_ID t" "mv_SourceID mi = tf_ID t"
    "tf_FromAccountID t = ti_FromAccountID i" "tf_ToAccountID t = ti_ToAccountID i" "tf_Amount t = n" "tf_ReversalOfID t = reversal"
    "tf_IdempotencyKey t = ti_IdempotencyKey i" "mv_IdempotencyKey mo = ''transfer:'' @ ti_IdempotencyKey i @ '':out''"
    "\<forall>x \<in> set (cd_transfers db). tf_ID x \<noteq> tf_ID t \<and> (reversal \<noteq> None \<longrightarrow> tf_ReversalOfID x \<noteq> reversal)"
    "\<forall>j. reversal = Some j \<longrightarrow> (\<exists>x \<in> set (cd_transfers db). tf_ID x = j)"
    "\<forall>x \<in> set (cd_movements db). mv_IdempotencyKey x \<noteq> mv_IdempotencyKey mo" "mv_ID mo \<noteq> mv_ID mi"
    "\<forall>x \<in> set (cd_movements db). mv_ID x \<noteq> mv_ID mo \<and> mv_ID x \<noteq> mv_ID mi"
proof -
  have u: "units 4 (mustRat (amountString (of_int n / 10000) 4)) = n" using amount_text [of n 4] by (simp add: units_def)
  obtain db1 no where nx: "nextPaymentNumberTx ''TRF'' (ti_TransactionDate i) db = Inr (db1, no)"
    using w unfolding write_transfer_def bindE_Inr_iff by auto
  obtain q where q: "db1 = db\<lparr>cd_sequences := q\<rparr>" using nextPaymentNumberTx_Inr [OF nx] by blast
  define t where "t = \<lparr>tf_ID = ce_new_id env 0, tf_FromAccountID = ti_FromAccountID i, tf_ToAccountID = ti_ToAccountID i,
              tf_OutMovementID = ce_new_id env 1, tf_InMovementID = ce_new_id env 2, tf_Currency = currency,
              tf_Amount = n, tf_DocumentNo = no,
              tf_ExternalReference = ti_ExternalReference i, tf_Description = ti_Description i,
              tf_TransactionDate = ti_TransactionDate i, tf_IdempotencyKey = ti_IdempotencyKey i, tf_ReversalOfID = reversal\<rparr>"
  define leg where "leg = (\<lambda>j a d. transfer_movement j a d (tf_ID t) currency (of_int n / 10000) (of_int k / 10 ^ 10) base i)"
  define mo where "mo = leg (tf_OutMovementID t) (tf_FromAccountID t) ''OUT''"
  define mi where "mi = leg (tf_InMovementID t) (tf_ToAccountID t) ''IN''"
  obtain db2 db3 where ins: "insert_movement mo db1 = Inr db2" "insert_movement mi db2 = Inr db3" "insert_transfer t db3 = Inr db'"
    using w unfolding write_transfer_def Let_def u nx bindE_simps prod.case t_def [symmetric] mo_def mi_def leg_def
    by (auto simp: bindE_Inr_iff)
  have m2: "db2 = db1\<lparr>cd_movements := cd_movements db1 @ [mo]\<rparr>" "db3 = db2\<lparr>cd_movements := cd_movements db2 @ [mi]\<rparr>"
    "db' = db3\<lparr>cd_transfers := cd_transfers db3 @ [t]\<rparr>"
    using ins unfolding insert_movement_Inr insert_transfer_Inr by blast+
  have row [simp]: "mv_ID (leg j a d) = j" "mv_AccountID (leg j a d) = a" "mv_Direction (leg j a d) = d" "mv_Amount (leg j a d) = n"
    "mv_SourceType (leg j a d) = ''finance_transfer''" "mv_SourceID (leg j a d) = tf_ID t" "mv_ExchangeRate (leg j a d) = k"
    "mv_BaseAmount (leg j a d) = units 4 (of_int n / 10000 * (of_int k / 10 ^ 10))" for j a d
    by (simp_all add: leg_def transfer_movement_def amount_roundtrip units_def)
  show ?thesis
  proof (rule that)
    show "db' = db\<lparr>cd_sequences := q, cd_movements := cd_movements db @ [mo, mi], cd_transfers := cd_transfers db @ [t]\<rparr>"
      by (simp add: m2 q)
    have "filter (\<lambda>m. mv_SourceType m = ''finance_transfer'' \<and> mv_SourceID m = tf_ID t) (cd_movements db) = []"
      using fresh ins(3) unfolding insert_transfer_Inr by (fastforce simp: m2 q filter_empty_conv)
    then show "legs db' t mo mi"
      using ins unfolding insert_movement_Inr insert_transfer_Inr by (simp add: legs_def m2 q mo_def mi_def fits_def t_def)
    show "mv_IdempotencyKey mo = ''transfer:'' @ ti_IdempotencyKey i @ '':out''" by (simp add: mo_def leg_def transfer_movement_def)
  qed (use ins in \<open>auto simp: insert_movement_Inr insert_transfer_Inr m2 q mo_def mi_def t_def\<close>)
qed

lemma parse_amount_units:
  assumes "parse_amount s (int k) = Inr r" shows "r = of_int (units k r) / 10 ^ k" "0 < units k r"
proof -
  obtain n where n: "0 < n" "r = of_int n / 10 ^ k" using parse_amount_grid [OF assms] by blast
  show "r = of_int (units k r) / 10 ^ k" "0 < units k r" unfolding n(2) units_grid using n(1) by simp_all
qed

lemma postFinanceTransfer_Inr:
  assumes "postFinanceTransfer env s i ro db = Inr (db', new)"
  obtains (replay) "db' = db" "transfer_by_key db (trim_space (ti_IdempotencyKey i)) \<noteq> None"
    | (new) source target currency amount rate base reversal where
        "transfer_by_key db (trim_space (ti_IdempotencyKey i)) = None"
        "write_transfer env (normalize_transfer i source target) reversal currency amount rate base db = Inr (db', new)"
        "parse_amount (ti_Amount i) 4 = Inr amount" "\<exists>rt. parse_amount rt 10 = Inr rate"
        "ce_Parse env (trim_space (ti_FromAccountID i)) = Some source" "ce_Parse env (trim_space (ti_ToAccountID i)) = Some target"
        "\<exists>u. enforceNegativeBalanceTx env s db source amount (ti_OverrideReason i) = Inr u" "ro = None \<longrightarrow> reversal = None"
        "\<And>o'. ro = Some o' \<Longrightarrow> \<exists>rt. original_rate env db currency o' = Inr (rt, base) \<and> parse_amount rt 10 = Inr rate
            \<and> reversal = ce_cast env o' \<and> reversal \<noteq> None"
proof (cases "transfer_by_key db (trim_space (ti_IdempotencyKey i))")
  case (Some e)
  then have "db' = db" using assms by (auto simp: postFinanceTransfer_def Let_def normalize_transfer_def bindE_Inr_iff)
  then show ?thesis using replay Some by simp
next
  case None
  obtain source target amount cur rt rate base reversal where
    p: "ce_Parse env (trim_space (ti_FromAccountID i)) = Some source" "ce_Parse env (trim_space (ti_ToAccountID i)) = Some target"
      "parse_amount (ti_Amount i) 4 = Inr amount" "parse_amount rt 10 = Inr rate"
      "enforceNegativeBalanceTx env s db source amount (ti_OverrideReason i) = Inr ()"
      "write_transfer env (normalize_transfer i source target) reversal cur amount rate base db = Inr (db', new)"
    and c: "(case ro of None \<Rightarrow> bindE (financeRateTx db cur (ti_TransactionDate i)) (\<lambda>rate. Inr (rate, cd_base_currency db))
        | Some original \<Rightarrow> original_rate env db cur original) = Inr (rt, base)"
      "(case ro of None \<Rightarrow> Inr None | Some r \<Rightarrow> bindE (found (ce_cast env r) CashDatabase) (\<lambda>r. Inr (Some r))) = Inr reversal"
  proof -
    have k: "ti_IdempotencyKey (normalize_transfer i a b) = trim_space (ti_IdempotencyKey i)" "ti_TransactionDate (normalize_transfer i a b) = ti_TransactionDate i"
      "ti_OverrideReason (normalize_transfer i a b) = ti_OverrideReason i" "ti_Amount (normalize_transfer i a b) = ti_Amount i" for a b
      by (simp_all add: normalize_transfer_def)
    show ?thesis
      using assms unfolding postFinanceTransfer_def Let_def k None option.case(1)
      apply (simp only: found_Inr need_Inr bindE_Inr_iff)
      apply (elim exE conjE)
      apply (simp only: split_beta bindE_Inr_iff)
      apply (elim exE conjE)
      apply (rule that)
             apply (assumption | simp)+
      done
  qed
  show ?thesis
  proof (rule new [OF None p(6,3) _ p(1,2)])
    show "\<exists>rt. parse_amount rt 10 = Inr rate" "\<exists>u. enforceNegativeBalanceTx env s db source amount (ti_OverrideReason i) = Inr u"
      using p by blast+
    show "ro = None \<longrightarrow> reversal = None" using c(2) by auto
    show "\<And>o'. ro = Some o' \<Longrightarrow> \<exists>rt. original_rate env db cur o' = Inr (rt, base) \<and> parse_amount rt 10 = Inr rate
            \<and> reversal = ce_cast env o' \<and> reversal \<noteq> None"
      using c p(4) by (auto simp: bindE_Inr_iff)
  qed
qed

lemma loadFinanceTransfer_Inr:
  "loadFinanceTransfer env s b r tid = Inr x \<Longrightarrow> \<exists>i. ce_cast env tid = Some i \<and> find (\<lambda>t. tf_ID t = i) (cd_transfers r) = Some (fst x)"
  unfolding loadFinanceTransfer_def by (auto simp: bindE_Inr_iff)

lemma ReverseFinanceTransfer_Inr:
  assumes "ReverseFinanceTransfer env s transferID key reason x r db = Inr (db', new)"
  obtains (replay) "db' = db" "transfer_by_key r (trim_space key) \<noteq> None"
    | (new) original i j where "find (\<lambda>t. tf_ID t = i) (cd_transfers r) = Some original" "ce_cast env transferID = Some i"
        "tf_ReversalOfID original = None" "postFinanceTransfer env s j (Some transferID) db = Inr (db', new)"
        "ti_FromAccountID j = tf_ToAccountID original" "ti_ToAccountID j = tf_FromAccountID original"
        "ti_Amount j = numeric_text (tf_Amount original)" "ti_IdempotencyKey j = trim_space key"
proof (cases "transfer_by_key r (trim_space key)")
  case (Some e)
  then show ?thesis using assms replay unfolding ReverseFinanceTransfer_def bindE_Inr_iff by auto
next
  case None
  then show ?thesis
    using assms unfolding ReverseFinanceTransfer_def Let_def None option.case(1)
    apply (simp only: found_Inr need_Inr bindE_Inr_iff split_beta)
    apply (elim exE conjE)
    apply (drule loadFinanceTransfer_Inr, elim exE conjE)
    apply (rule new)
           apply (assumption | simp)+
    done
qed

section \<open>Histories\<close>

datatype cash_cmd = CmdCreate string AccountInput | CmdUpdate string int AccountInput | CmdActive string int bool
  | CmdOpening MovementInput | CmdManual MovementInput | CmdAdvance PortInput | CmdPayroll PortInput
  | CmdTransfer FinanceTransferInput | CmdReverse string string string date

fun run_cash :: "cash_env \<Rightarrow> fin_session \<Rightarrow> cash_cmd \<Rightarrow> 'a cash_db_scheme \<Rightarrow> 'a cash_db_scheme \<Rightarrow> cash_error + 'a cash_db_scheme" where
  "run_cash env s (CmdCreate new i) r db = CreateAccount env s new i db"
| "run_cash env s (CmdUpdate a v i) r db = UpdateAccount env s a v i db"
| "run_cash env s (CmdActive a v active) r db = SetAccountActive env s a v active db"
| "run_cash env s (CmdOpening i) r db = map_sum id fst (PostOpeningBalance env s i db)"
| "run_cash env s (CmdManual i) r db = map_sum id fst (PostManualAccountMovement env s i db)"
| "run_cash env s (CmdAdvance i) r db = map_sum id fst (PostEmployeeAdvanceMovementTx env s i db)"
| "run_cash env s (CmdPayroll i) r db = map_sum id fst (PostPayrollPaymentMovementTx env s i db)"
| "run_cash env s (CmdTransfer i) r db = map_sum id fst (PostFinanceTransfer env s i db)"
| "run_cash env s (CmdReverse t key reason x) r db = map_sum id fst (ReverseFinanceTransfer env s t key reason x r db)"

text \<open>
  The states of a company, the last one first.  A command may have read any earlier one; rates, periods, the policy and the
  rights of the users change in between.
\<close>

inductive cash_history :: "(string \<Rightarrow> string option) \<Rightarrow> 'a cash_db_scheme list \<Rightarrow> bool" for P where
  start: "cd_movements db = [] \<Longrightarrow> cd_transfers db = [] \<Longrightarrow> cash_history P [db]"
| command: "cash_history P (db # h) \<Longrightarrow> r \<in> set (db # h) \<Longrightarrow> ce_Parse env = P \<Longrightarrow> run_cash env s c r db = Inr db' \<Longrightarrow> cash_history P (db' # db # h)"
| settings: "cash_history P (db # h) \<Longrightarrow> cd_accounts db' = cd_accounts db \<Longrightarrow> cd_movements db' = cd_movements db
    \<Longrightarrow> cd_transfers db' = cd_transfers db \<Longrightarrow> cash_history P (db' # db # h)"

text \<open>What one command does to the ledger.\<close>

inductive ledger_step :: "cash_env \<Rightarrow> 'a cash_db_scheme \<Rightarrow> 'a cash_db_scheme \<Rightarrow> 'a cash_db_scheme \<Rightarrow> bool" for env r db db' where
  same: "cd_movements db' = cd_movements db \<Longrightarrow> cd_transfers db' = cd_transfers db \<Longrightarrow> ledger_step env r db db'"
| movement: "insert_movement m (db\<lparr>cd_sequences := q\<rparr>) = Inr db' \<Longrightarrow> covered db m \<Longrightarrow> mv_SourceType m \<noteq> ''finance_transfer'' \<Longrightarrow> ledger_step env r db db'"
| transfer: "postFinanceTransfer env s i None db = Inr (db', new) \<Longrightarrow> ledger_step env r db db'"
| reversal: "find (\<lambda>t. tf_ID t = i) (cd_transfers r) = Some original \<Longrightarrow> ce_cast env transferID = Some i
    \<Longrightarrow> tf_ReversalOfID original = None \<Longrightarrow> postFinanceTransfer env s j (Some transferID) db = Inr (db', new)
    \<Longrightarrow> ti_FromAccountID j = tf_ToAccountID original \<Longrightarrow> ti_ToAccountID j = tf_FromAccountID original
    \<Longrightarrow> ti_Amount j = numeric_text (tf_Amount original) \<Longrightarrow> ledger_step env r db db'"

lemma map_sum_fst_Inr: "map_sum id fst x = Inr y \<longleftrightarrow> (\<exists>n. x = Inr (y, n))"
  by (cases x) auto

lemma run_cash_ledger:
  assumes run: "run_cash env s c r db = Inr db'" shows "ledger_step env r db db'"
proof -
  have port: "ledger_step env r db db'" if "port_movement kind src env s i db = Inr (db', new)" "src \<noteq> ''finance_transfer''" for kind src i new
    using that(1)
  proof (cases rule: port_movement_Inr)
    case (1 m)
    then show ?thesis using that(2) by (intro movement [where m = m and q = "cd_sequences db"]) simp_all
  qed
  have post: "ledger_step env r db db'" if "postAccountMovement kind env s i db = Inr (db', new)" for kind i new
    using that by (cases rule: postAccountMovement_Inr) (auto intro: same movement)
  show ?thesis
  proof (cases c)
    case (CmdReverse t key reason x)
    then obtain new where "ReverseFinanceTransfer env s t key reason x r db = Inr (db', new)" using run by (auto simp: map_sum_fst_Inr)
    then show ?thesis by (cases rule: ReverseFinanceTransfer_Inr) (auto intro: same reversal)
  qed (use run port post in \<open>auto simp: map_sum_fst_Inr PostOpeningBalance_def PostManualAccountMovement_def PostEmployeeAdvanceMovementTx_def
        PostPayrollPaymentMovementTx_def PostFinanceTransfer_def CreateAccount_def UpdateAccount_def SetAccountActive_def set_account_def Let_def
        bindE_Inr_iff intro: same transfer\<close>)
qed

section \<open>Invariants\<close>

definition movements_source :: "'a cash_db_scheme \<Rightarrow> bool" where
  "movements_source db = (distinct (map mv_ID (cd_movements db)) \<and> distinct (map tf_ID (cd_transfers db))
     \<and> (\<forall>m \<in> set (cd_movements db). mv_SourceType m = ''finance_transfer'' \<longrightarrow> (\<exists>t \<in> set (cd_transfers db). mv_SourceID m = tf_ID t)))"

definition canonical :: "(string \<Rightarrow> string option) \<Rightarrow> bool" where
  "canonical P = (\<forall>x y. P x = Some y \<longrightarrow> P (trim_space y) = Some y)"

definition transfers_have_legs :: "(string \<Rightarrow> string option) \<Rightarrow> 'a cash_db_scheme \<Rightarrow> bool" where
  "transfers_have_legs P db = (\<forall>t \<in> set (cd_transfers db). (\<exists>mo mi. legs db t mo mi)
     \<and> P (trim_space (tf_FromAccountID t)) = Some (tf_FromAccountID t) \<and> P (trim_space (tf_ToAccountID t)) = Some (tf_ToAccountID t))"

definition reverses :: "'a cash_db_scheme \<Rightarrow> FinanceTransfer \<Rightarrow> FinanceTransfer \<Rightarrow> bool" where
  "reverses db u t = (tf_ReversalOfID t = None \<and> tf_FromAccountID u = tf_ToAccountID t \<and> tf_ToAccountID u = tf_FromAccountID t
     \<and> tf_Amount u = tf_Amount t \<and> (\<exists>mo mi no ni. legs db t mo mi \<and> legs db u no ni \<and> mv_BaseAmount no = mv_BaseAmount mo))"

definition reversals_ok :: "'a cash_db_scheme \<Rightarrow> bool" where
  "reversals_ok db = (\<forall>u \<in> set (cd_transfers db). \<forall>i. tf_ReversalOfID u = Some i \<longrightarrow>
     (\<exists>t \<in> set (cd_transfers db). tf_ID t = i \<and> reverses db u t)
     \<and> (\<forall>v \<in> set (cd_transfers db). tf_ReversalOfID v = Some i \<longrightarrow> v = u))"

definition cash_inv :: "(string \<Rightarrow> string option) \<Rightarrow> 'a cash_db_scheme \<Rightarrow> bool" where
  "cash_inv P db = (movements_source db \<and> transfers_have_legs P db \<and> reversals_ok db)"

definition extends :: "'a cash_db_scheme \<Rightarrow> 'a cash_db_scheme \<Rightarrow> bool" where
  "extends r db = (\<exists>ms ts. cd_movements db = cd_movements r @ ms \<and> cd_transfers db = cd_transfers r @ ts)"

lemma extends_refl [simp]: "extends db db" by (simp add: extends_def)

lemma extends_trans: "extends a b \<Longrightarrow> extends b c \<Longrightarrow> extends a c" by (auto simp: extends_def)

text \<open>Later rows leave the legs of a transfer alone.\<close>

lemma legs_later:
  assumes "legs db t mo mi" "cd_movements db' = cd_movements db @ ms"
    "\<forall>m \<in> set ms. mv_SourceType m = ''finance_transfer'' \<longrightarrow> mv_SourceID m \<noteq> tf_ID t"
  shows "legs db' t mo mi"
proof -
  have "filter (\<lambda>m. mv_SourceType m = ''finance_transfer'' \<and> mv_SourceID m = tf_ID t) ms = []"
    using assms(3) by (auto simp: filter_empty_conv)
  then show ?thesis using assms(1,2) by (simp add: legs_def)
qed

lemma legs_mem: "legs db t mo mi \<Longrightarrow> mo \<in> set (cd_movements db)"
  unfolding legs_def by (metis (no_types, lifting) list.set_intros(1) mem_Collect_eq set_filter)

lemma legs_unique: "legs db t mo mi \<Longrightarrow> legs db t no ni \<Longrightarrow> no = mo \<and> ni = mi"
  by (simp add: legs_def)

lemma find_extends: "find P xs = Some x \<Longrightarrow> find P (xs @ ys) = Some x"
  by (induction xs) auto

lemma cash_inv_same:
  assumes "cd_movements db' = cd_movements db" "cd_transfers db' = cd_transfers db" "cash_inv P db" shows "cash_inv P db'"
  using assms by (simp add: cash_inv_def movements_source_def transfers_have_legs_def reversals_ok_def reverses_def legs_def)

lemma inv_movement:
  assumes "cd_movements db' = cd_movements db @ [m]" "cd_transfers db' = cd_transfers db" "mv_SourceType m \<noteq> ''finance_transfer''"
    "\<forall>x \<in> set (cd_movements db). mv_ID x \<noteq> mv_ID m" "cash_inv P db"
  shows "cash_inv P db'"
proof -
  have "legs db' = legs db" using assms(1,3) by (intro ext) (simp add: legs_def)
  then show ?thesis using assms
    unfolding cash_inv_def transfers_have_legs_def reversals_ok_def reverses_def movements_source_def by (simp add: ball_Un) (metis imageE)
qed

lemma inv_transfer:
  assumes inv: "cash_inv P db" and m: "cd_movements db' = cd_movements db @ [mo, mi]" and t: "cd_transfers db' = cd_transfers db @ [t]"
    and l: "legs db' t mo mi" and src: "mv_SourceType mo = ''finance_transfer''" "mv_SourceType mi = ''finance_transfer''" "mv_SourceID mo = tf_ID t" "mv_SourceID mi = tf_ID t"
    and ids: "mv_ID mo \<noteq> mv_ID mi" "\<forall>x \<in> set (cd_movements db). mv_ID x \<noteq> mv_ID mo \<and> mv_ID x \<noteq> mv_ID mi"
    and new: "\<forall>x \<in> set (cd_transfers db). tf_ID x \<noteq> tf_ID t \<and> (tf_ReversalOfID t \<noteq> None \<longrightarrow> tf_ReversalOfID x \<noteq> tf_ReversalOfID t)"
    and canon: "P (trim_space (tf_FromAccountID t)) = Some (tf_FromAccountID t)" "P (trim_space (tf_ToAccountID t)) = Some (tf_ToAccountID t)"
    and r: "\<And>i. tf_ReversalOfID t = Some i \<Longrightarrow> \<exists>x \<in> set (cd_transfers db). tf_ID x = i \<and> tf_ReversalOfID x = None \<and> tf_FromAccountID t = tf_ToAccountID x
       \<and> tf_ToAccountID t = tf_FromAccountID x \<and> tf_Amount t = tf_Amount x \<and> (\<exists>no ni. legs db x no ni \<and> mv_BaseAmount mo = mv_BaseAmount no)"
  shows "cash_inv P db'"
proof -
  have keep: "legs db' x no ni" if "legs db x no ni" "x \<in> set (cd_transfers db)" for x no ni
    using legs_later [OF that(1) m] new that(2) src by auto
  have "movements_source db'" using inv src ids new unfolding cash_inv_def movements_source_def m t by auto
  moreover have "transfers_have_legs P db'" using inv keep l canon unfolding cash_inv_def transfers_have_legs_def t by (simp add: ball_Un) meson
  moreover have "reversals_ok db'"
    unfolding reversals_ok_def
  proof (intro ballI allI impI)
    fix u i assume u: "u \<in> set (cd_transfers db')" "tf_ReversalOfID u = Some i"
    show "(\<exists>x \<in> set (cd_transfers db'). tf_ID x = i \<and> reverses db' u x) \<and> (\<forall>v \<in> set (cd_transfers db'). tf_ReversalOfID v = Some i \<longrightarrow> v = u)"
    proof (cases "u \<in> set (cd_transfers db)")
      case True
      then obtain x where "x \<in> set (cd_transfers db)" "tf_ID x = i" "reverses db u x" "\<forall>v \<in> set (cd_transfers db). tf_ReversalOfID v = Some i \<longrightarrow> v = u"
        using inv u(2) unfolding cash_inv_def reversals_ok_def by blast
      moreover have "reverses db' u x" using calculation keep True unfolding reverses_def by blast
      moreover have "tf_ReversalOfID t \<noteq> Some i" using new True u(2) by auto
      ultimately show ?thesis using t by auto
    next
      case False
      then have "u = t" using u(1) t by simp
      obtain x where "x \<in> set (cd_transfers db)" "tf_ID x = i" "reverses db' t x"
        using r [of i] keep l u(2) \<open>u = t\<close> unfolding reverses_def by metis
      then show ?thesis using u(2) \<open>u = t\<close> new t by auto
    qed
  qed
  ultimately show ?thesis by (simp add: cash_inv_def)
qed

lemma original_rate_legs:
  assumes inv: "cash_inv P db" and t: "t \<in> set (cd_transfers db)" "legs db t mo mi" and c: "ce_cast env tid = Some (tf_ID t)"
    and f: "find (\<lambda>x. tf_ID x = tf_ID t) (cd_transfers db) = Some t" and o': "original_rate env db cur tid = Inr (rt, base)"
  shows "rt = formatScaled (mv_ExchangeRate mo) 10"
proof -
  have mo: "mo \<in> set (cd_movements db)" "mv_ID mo = tf_OutMovementID t"
    using t(2) legs_mem by (auto simp: legs_def)
  have "m = mo" if "find (\<lambda>m. mv_ID m = tf_OutMovementID t) (cd_movements db) = Some m" for m
  proof -
    have "inj_on mv_ID (set (cd_movements db))" using inv by (simp add: cash_inv_def movements_source_def distinct_map)
    moreover have "m \<in> set (cd_movements db)" "mv_ID m = mv_ID mo" using that mo(2) by (auto simp: find_Some_iff)
    ultimately show ?thesis using mo(1) by (auto dest: inj_onD)
  qed
  then show ?thesis using o' unfolding original_rate_def by (auto simp: bindE_Inr_iff c f)
qed

lemma transfer_inv:
  assumes inv: "cash_inv P db" and can: "canonical P" "ce_Parse env = P" and post: "postFinanceTransfer env s i ro db = Inr (db', new)"
    and r: "\<And>tid. ro = Some tid \<Longrightarrow> \<exists>t. ce_cast env tid = Some (tf_ID t) \<and> tf_ReversalOfID t = None
       \<and> find (\<lambda>x. tf_ID x = tf_ID t) (cd_transfers db) = Some t \<and> ti_FromAccountID i = tf_ToAccountID t
       \<and> ti_ToAccountID i = tf_FromAccountID t \<and> ti_Amount i = numeric_text (tf_Amount t)"
  shows "cash_inv P db' \<and> extends db db'"
  using post
proof (cases rule: postFinanceTransfer_Inr)
  case replay
  then show ?thesis using inv by simp
next
  case (new source target currency amount rate base reversal)
  obtain n where n: "amount = of_int n / 10000" using parse_amount_grid [of "ti_Amount i" 4 amount] new(3) by auto
  obtain k where k: "rate = of_int k / 10 ^ 10" using parse_amount_grid [of _ 10 rate] new(4) by auto
  have fresh: "\<forall>m \<in> set (cd_movements db). mv_SourceType m = ''finance_transfer'' \<longrightarrow> (\<exists>t \<in> set (cd_transfers db). mv_SourceID m = tf_ID t)"
    using inv by (simp add: cash_inv_def movements_source_def)
  from new(2) [unfolded n k] fresh show ?thesis
  proof (cases rule: write_transfer_Inr)
    case w: (1 t mo mi q)
    have e: "extends db db'" by (simp add: extends_def w(1))
    have ft: "tf_FromAccountID t = source" "tf_ToAccountID t = target" using w(8,9) by (simp_all add: normalize_transfer_def)
    have orig: "\<exists>x \<in> set (cd_transfers db). tf_ID x = j \<and> tf_ReversalOfID x = None \<and> tf_FromAccountID t = tf_ToAccountID x
       \<and> tf_ToAccountID t = tf_FromAccountID x \<and> tf_Amount t = tf_Amount x \<and> (\<exists>no ni. legs db x no ni \<and> mv_BaseAmount mo = mv_BaseAmount no)"
      if sj: "tf_ReversalOfID t = Some j" for j
    proof -
      obtain tid where tid: "ro = Some tid" using sj w(11) new(8) by (cases ro) auto
      obtain x where x: "ce_cast env tid = Some (tf_ID x)" "tf_ReversalOfID x = None" "find (\<lambda>y. tf_ID y = tf_ID x) (cd_transfers db) = Some x"
        "ti_FromAccountID i = tf_ToAccountID x" "ti_ToAccountID i = tf_FromAccountID x" "ti_Amount i = numeric_text (tf_Amount x)" using r [OF tid] by blast
      have mem: "x \<in> set (cd_transfers db)" using x(3) by (auto simp: find_Some_iff)
      then obtain no ni where no: "legs db x no ni" and ac: "P (trim_space (tf_FromAccountID x)) = Some (tf_FromAccountID x)" "P (trim_space (tf_ToAccountID x)) = Some (tf_ToAccountID x)"
        using inv unfolding cash_inv_def transfers_have_legs_def by blast
      obtain rt where rt: "original_rate env db currency tid = Inr (rt, base)" "parse_amount rt 10 = Inr rate" "reversal = ce_cast env tid" using new(9) [OF tid] by blast
      have pos: "0 < tf_Amount x" "0 < mv_ExchangeRate no" using no by (simp_all add: legs_def)
      have "rt = formatScaled (mv_ExchangeRate no) 10" using original_rate_legs [OF inv mem no x(1,3) rt(1)] .
      then have kk: "k = mv_ExchangeRate no" using rt(2) exact_rate [OF pos(2)] k by simp
      have nn: "n = tf_Amount x" using new(3) parse_amount_numeric [OF pos(1)] n x(6) by simp
      have "mv_BaseAmount mo = mv_BaseAmount no" using w(2,3,10) no kk nn by (simp add: legs_def)
      moreover have "tf_ID x = j" using sj w(11) rt(3) x(1) by simp
      ultimately show ?thesis using x mem no w(10) nn new(5,6) can(2) ac ft by (intro bexI [of _ x]) auto
    qed
    have "cash_inv P db'"
      by (rule inv_transfer [OF inv _ _ w(2) w(4-7) w(17,18) _ _ _ orig])
         (use w(11,14) ft new(5,6) can in \<open>simp_all add: w(1) canonical_def\<close>)
    then show ?thesis using e by simp
  qed
qed

lemma step_inv:
  assumes step: "ledger_step env r db db'" and inv: "cash_inv P db" and can: "canonical P" "ce_Parse env = P" and r: "extends r db"
  shows "cash_inv P db' \<and> extends db db'"
  using step
proof cases
  case same
  then show ?thesis using cash_inv_same [OF _ _ inv] by (simp add: extends_def)
next
  case (movement m q)
  then show ?thesis using inv_movement [OF _ _ _ _ inv, of db' m] by (simp add: insert_movement_Inr extends_def)
next
  case (transfer i new)
  then show ?thesis using transfer_inv [OF inv can] by blast
next
  case (reversal i original tid j new)
  have "find (\<lambda>x. tf_ID x = i) (cd_transfers db) = Some original" using r reversal(1) find_extends by (auto simp: extends_def)
  moreover have "tf_ID original = i" using reversal(1) by (auto simp: find_Some_iff)
  ultimately show ?thesis using transfer_inv [OF inv can reversal(4)] reversal by auto
qed

lemma history_inv:
  "cash_history P h \<Longrightarrow> canonical P \<Longrightarrow> cash_inv P (hd h) \<and> (\<forall>r \<in> set h. extends r (hd h))"
proof (induction rule: cash_history.induct)
  case (start db)
  then show ?case by (simp add: cash_inv_def movements_source_def transfers_have_legs_def reversals_ok_def)
next
  case (command db h r env s c db')
  then have "cash_inv P db' \<and> extends db db'" by (intro step_inv [OF run_cash_ledger [OF command.hyps(4)]]) auto
  then show ?case using command extends_trans by auto
next
  case (settings db h db')
  moreover have "extends db db'" using settings by (simp add: extends_def)
  ultimately show ?case using cash_inv_same [of db' db P] extends_trans by auto
qed

end
