(* ===== verification/Cash_Safety.thy ===== *)
theory Cash_Safety
  imports Cash_Ledger
begin

text \<open>
  What a company's cash and bank accounts promise, whatever commands run on them and however old the rows a reversal reads: transfers
  taken back exactly and once, no balance below zero under the policy \<^verbatim>\<open>BLOCK\<close>, no posting command posted twice, and statements
  that add up.
\<close>

section \<open>Transfers cancel\<close>

definition transfer_effect :: "(AccountMovement \<Rightarrow> int) \<Rightarrow> 'a cash_db_scheme \<Rightarrow> FinanceTransfer \<Rightarrow> string \<Rightarrow> int" where
  "transfer_effect f db t a =
     (\<Sum>m\<leftarrow>filter (\<lambda>m. mv_SourceType m = ''finance_transfer'' \<and> mv_SourceID m = tf_ID t) (cd_movements db).
        if mv_AccountID m \<noteq> a then 0 else if mv_Direction m = ''IN'' then f m else - f m)"

lemma legs_effect:
  assumes "legs db t mo mi"
  shows "transfer_effect f db t a = (if tf_FromAccountID t = a then - f mo else 0) + (if tf_ToAccountID t = a then f mi else 0)"
  using assms by (simp add: transfer_effect_def legs_def)

lemma legs_columns:
  assumes "legs db t mo mi"
  shows "mv_Amount mo = tf_Amount t" "mv_Amount mi = tf_Amount t" "mv_BaseAmount mi = mv_BaseAmount mo"
  using assms by (simp_all add: legs_def)

text \<open>
  Claim C3.  In every reachable state, whatever older states the reversals read: a reversed transfer has exactly one reversal and is
  none itself, and the movements of the two cancel on every account, in the currency of the accounts and in the base currency,
  whatever the rates have become.
\<close>

theorem reversal_cancels:
  assumes "cash_history P (db # h)" "canonical P"
    and "t \<in> set (cd_transfers db)" "u \<in> set (cd_transfers db)" "tf_ReversalOfID u = Some (tf_ID t)"
  shows "transfer_effect mv_Amount db t a + transfer_effect mv_Amount db u a = 0
    \<and> transfer_effect mv_BaseAmount db t a + transfer_effect mv_BaseAmount db u a = 0
    \<and> tf_ReversalOfID t = None \<and> (\<forall>v \<in> set (cd_transfers db). tf_ReversalOfID v = Some (tf_ID t) \<longrightarrow> v = u)"
proof -
  have inv: "cash_inv P db" using history_inv [OF assms(1,2)] by simp
  then have one: "\<forall>v \<in> set (cd_transfers db). tf_ReversalOfID v = Some (tf_ID t) \<longrightarrow> v = u"
    and "\<exists>x \<in> set (cd_transfers db). tf_ID x = tf_ID t \<and> reverses db u x"
    using assms(4,5) unfolding cash_inv_def reversals_ok_def by blast+
  then obtain x where x: "x \<in> set (cd_transfers db)" "tf_ID x = tf_ID t" "reverses db u x" by blast
  have "inj_on tf_ID (set (cd_transfers db))" using inv by (simp add: cash_inv_def movements_source_def distinct_map)
  then have "x = t" using x assms(3) by (simp add: inj_on_def)
  then have rv: "reverses db u t" using x(3) by simp
  then obtain mo mi no ni where l: "legs db t mo mi" "legs db u no ni" "mv_BaseAmount no = mv_BaseAmount mo" unfolding reverses_def by blast
  have f: "tf_FromAccountID u = tf_ToAccountID t" "tf_ToAccountID u = tf_FromAccountID t" "tf_Amount u = tf_Amount t" "tf_ReversalOfID t = None"
    using rv by (simp_all add: reverses_def)
  show ?thesis
    unfolding legs_effect [OF l(1)] legs_effect [OF l(2)] f legs_columns [OF l(1)] legs_columns [OF l(2)] l(3) using one by simp
qed

section \<open>No overdraft under a blocking policy\<close>

lemma balance_append:
  "cd_movements db' = cd_movements db @ ms \<Longrightarrow>
   account_balance db' a = account_balance db a + (\<Sum>m\<leftarrow>ms. if mv_AccountID m = a then mv_signed m else 0)"
  by (simp add: account_balance_def)

lemma covered_step:
  assumes step: "ledger_step env r db db'" and inv: "cash_inv P db" and pol: "cd_policy db = ''BLOCK''" and nn: "\<forall>a. 0 \<le> account_balance db a"
  shows "0 \<le> account_balance db' a"
proof -
  have post: "0 \<le> account_balance db' a" if "postFinanceTransfer env s i ro db = Inr (db', new)" for s i ro new
    using that
  proof (cases rule: postFinanceTransfer_Inr)
    case replay
    then show ?thesis using nn by simp
  next
    case (new source target currency amount rate base reversal)
    obtain n where n: "amount = of_int n / 10000" using parse_amount_grid [of "ti_Amount i" 4 amount] new(3) by auto
    obtain k where k: "rate = of_int k / 10 ^ 10" using parse_amount_grid [of _ 10 rate] new(4) by auto
    have c: "n \<le> account_balance db source" using new(7) enforce_covers [OF _ pol] n by (auto simp del: of_int_mult)
    have fresh: "\<forall>m \<in> set (cd_movements db). mv_SourceType m = ''finance_transfer'' \<longrightarrow> (\<exists>t \<in> set (cd_transfers db). mv_SourceID m = tf_ID t)"
      using inv by (simp add: cash_inv_def movements_source_def)
    from new(2) [unfolded n k] fresh show ?thesis
    proof (cases rule: write_transfer_Inr)
      case w: (1 t mo mi q)
      have "account_balance db' a = account_balance db a + (\<Sum>m\<leftarrow>[mo, mi]. if mv_AccountID m = a then mv_signed m else 0)"
        by (rule balance_append) (simp add: w(1))
      then show ?thesis
        using w(2,8,9,10) c nn [rule_format, of a] by (auto simp: legs_def mv_signed_def normalize_transfer_def)
    qed
  qed
  show ?thesis
    using step
  proof cases
    case same
    then show ?thesis using nn by (simp add: account_balance_def)
  next
    case (movement m q)
    then have i: "db' = db\<lparr>cd_sequences := q, cd_movements := cd_movements db @ [m]\<rparr>" "0 < mv_Amount m" "mv_Direction m \<in> {''IN'', ''OUT''}"
      by (auto simp: insert_movement_Inr fits_def)
    have "account_balance db' a = account_balance db a + (\<Sum>m\<leftarrow>[m]. if mv_AccountID m = a then mv_signed m else 0)"
      by (rule balance_append) (simp add: i)
    then show ?thesis using movement(2) pol i nn [rule_format, of a] by (auto simp: covered_def mv_signed_def)
  next
    case transfer
    then show ?thesis using post by blast
  next
    case reversal
    then show ?thesis using post by blast
  qed
qed

lemma blocked_history:
  "cash_history P h \<Longrightarrow> canonical P \<Longrightarrow> \<forall>db \<in> set h. cd_policy db = ''BLOCK'' \<Longrightarrow> 0 \<le> account_balance (hd h) a"
proof (induction arbitrary: a rule: cash_history.induct)
  case (start db)
  then show ?case by (simp add: account_balance_def)
next
  case (command db h r env s c db')
  then have "cash_inv P db" "\<forall>a. 0 \<le> account_balance db a" using history_inv [OF command.hyps(1)] by simp_all
  then show ?case using covered_step [OF run_cash_ledger [OF command.hyps(4)]] command.prems by simp
next
  case (settings db h db')
  then show ?case by (simp add: account_balance_def)
qed

text \<open>
  Claim C6.  While a company keeps the policy that blocks negative balances, no command, whichever account and currency it moves and
  however it is repeated or reversed, leaves an account below zero: the balance a user reads is never negative.
\<close>

theorem blocked_never_overdrawn:
  assumes "cash_history P (db # h)" "canonical P" "\<forall>x \<in> set (db # h). cd_policy x = ''BLOCK''"
  shows "case GetAccountBalance env s db accountID of Inl e \<Rightarrow> True | Inr (currency, balance) \<Rightarrow> 0 \<le> mustRat balance"
proof -
  have "0 \<le> mustRat (amountString (mustRat (numeric_text (account_balance db a))) 4)" for a
    unfolding mustRat_numeric amount_roundtrip using blocked_history [OF assms] by simp
  then show ?thesis
    unfolding GetAccountBalance_def by (auto simp: bindE_def split: sum.split)
qed

section \<open>Commands repeated\<close>

fun is_posting :: "cash_cmd \<Rightarrow> bool" where
  "is_posting (CmdCreate new i) = False" | "is_posting (CmdUpdate a v i) = False" | "is_posting (CmdActive a v active) = False"
| "is_posting _ = True"

text \<open>The row under the key of a posting command.\<close>

fun posted_row :: "cash_cmd \<Rightarrow> 'a cash_db_scheme \<Rightarrow> bool" where
  "posted_row (CmdOpening i) db = (trim_space (mi_IdempotencyKey i) \<in> mv_IdempotencyKey ` set (cd_movements db))"
| "posted_row (CmdManual i) db = (trim_space (mi_IdempotencyKey i) \<in> mv_IdempotencyKey ` set (cd_movements db))"
| "posted_row (CmdAdvance i) db = (trim_space (mi_IdempotencyKey i) \<in> mv_IdempotencyKey ` set (cd_movements db))"
| "posted_row (CmdPayroll i) db = (trim_space (mi_IdempotencyKey i) \<in> mv_IdempotencyKey ` set (cd_movements db))"
| "posted_row (CmdTransfer i) db = (trim_space (ti_IdempotencyKey i) \<in> tf_IdempotencyKey ` set (cd_transfers db))"
| "posted_row (CmdReverse t key reason x) db = (trim_space key \<in> tf_IdempotencyKey ` set (cd_transfers db))"
| "posted_row _ db = False"

lemma posted_later: "posted_row c r \<Longrightarrow> extends r db \<Longrightarrow> posted_row c db"
  by (cases c) (auto simp: extends_def)

lemma transfer_by_key_None: "transfer_by_key db key = None \<longleftrightarrow> key \<notin> tf_IdempotencyKey ` set (cd_transfers db)"
  by (auto simp: transfer_by_key_def find_None_iff)

lemma transfer_posts_row:
  assumes "postFinanceTransfer env s i ro db = Inr (db', new)" "cash_inv P db"
  shows "trim_space (ti_IdempotencyKey i) \<in> tf_IdempotencyKey ` set (cd_transfers db')"
  using assms(1)
proof (cases rule: postFinanceTransfer_Inr)
  case replay
  then show ?thesis by (auto simp: transfer_by_key_None)
next
  case (new source target currency amount rate base reversal)
  obtain n where n: "amount = of_int n / 10000" using parse_amount_grid [of "ti_Amount i" 4 amount] new(3) by auto
  obtain k where k: "rate = of_int k / 10 ^ 10" using parse_amount_grid [of _ 10 rate] new(4) by auto
  have fresh: "\<forall>m \<in> set (cd_movements db). mv_SourceType m = ''finance_transfer'' \<longrightarrow> (\<exists>t \<in> set (cd_transfers db). mv_SourceID m = tf_ID t)"
    using assms(2) by (simp add: cash_inv_def movements_source_def)
  from new(2) [unfolded n k] fresh show ?thesis by (cases rule: write_transfer_Inr) (simp add: normalize_transfer_def)
qed

lemma posting_leaves_row:
  assumes "run_cash env s c r db = Inr db'" "is_posting c" "cash_inv P db" "extends r db"
  shows "posted_row c db'"
proof -
  have port: "trim_space (mi_IdempotencyKey i) \<in> mv_IdempotencyKey ` set (cd_movements db')" if "port_movement kind src env s i db = Inr (db', new)" for kind src i new
    using that by (cases rule: port_movement_Inr) (auto simp: insert_movement_Inr)
  have post: "trim_space (mi_IdempotencyKey i) \<in> mv_IdempotencyKey ` set (cd_movements db')" if "postAccountMovement kind env s i db = Inr (db', new)" for kind i new
    using that by (cases rule: postAccountMovement_Inr) (auto simp: insert_movement_Inr list_ex_iff intro: rev_image_eqI)
  show ?thesis
  proof (cases c)
    case (CmdReverse t key reason x)
    then obtain new where "ReverseFinanceTransfer env s t key reason x r db = Inr (db', new)" using assms(1) by (auto simp: map_sum_fst_Inr)
    then show ?thesis
    proof (cases rule: ReverseFinanceTransfer_Inr)
      case replay
      then show ?thesis using assms(4) CmdReverse by (auto simp: transfer_by_key_None extends_def)
    next
      case (new original i j)
      then show ?thesis using transfer_posts_row [OF new(4) assms(3)] CmdReverse by simp
    qed
  qed (use assms port post transfer_posts_row in \<open>auto simp: map_sum_fst_Inr PostOpeningBalance_def PostManualAccountMovement_def
        PostEmployeeAdvanceMovementTx_def PostPayrollPaymentMovementTx_def PostFinanceTransfer_def\<close>)
qed

lemma posted_row_stays:
  assumes "run_cash env s c r db = Inr db'" "posted_row c db"
  shows "cd_movements db' = cd_movements db \<and> cd_transfers db' = cd_transfers db"
proof -
  have port: False if "port_movement kind src env s i db = Inr (db', new)" "trim_space (mi_IdempotencyKey i) \<in> mv_IdempotencyKey ` set (cd_movements db)" for kind src i new
    using that(1) by (cases rule: port_movement_Inr) (use that(2) in \<open>auto simp: insert_movement_Inr\<close>)
  have post: "db' = db" if "postAccountMovement kind env s i db = Inr (db', new)" "trim_space (mi_IdempotencyKey i) \<in> mv_IdempotencyKey ` set (cd_movements db)" for kind i new
    using that(1) by (cases rule: postAccountMovement_Inr) (use that(2) in \<open>auto simp: insert_movement_Inr\<close>)
  have transfer: "db' = db" if "postFinanceTransfer env s i ro db = Inr (db', new)" "trim_space (ti_IdempotencyKey i) \<in> tf_IdempotencyKey ` set (cd_transfers db)" for i ro new
    using that(1) by (cases rule: postFinanceTransfer_Inr) (use that(2) in \<open>auto simp: transfer_by_key_None\<close>)
  show ?thesis
  proof (cases c)
    case (CmdReverse t key reason x)
    then obtain new where "ReverseFinanceTransfer env s t key reason x r db = Inr (db', new)" using assms(1) by (auto simp: map_sum_fst_Inr)
    then show ?thesis
    proof (cases rule: ReverseFinanceTransfer_Inr)
      case (new original i j)
      then show ?thesis using transfer [OF new(4)] assms(2) CmdReverse by simp
    qed simp
  qed (use assms in \<open>auto dest: port post transfer del: imageE simp: map_sum_fst_Inr PostOpeningBalance_def PostManualAccountMovement_def
        PostEmployeeAdvanceMovementTx_def PostPayrollPaymentMovementTx_def PostFinanceTransfer_def\<close>)
qed

lemma history_suffix: "cash_history P (h1 @ h) \<Longrightarrow> h \<noteq> [] \<Longrightarrow> cash_history P h"
proof (induction h1)
  case (Cons x h1)
  from Cons.prems(1) show ?case by (cases rule: cash_history.cases) (use Cons in \<open>auto simp: Cons_eq_append_conv\<close>)
qed simp

text \<open>
  Claim C37.  A posting repeated at any later time, by any user and on any outdated read, posts nothing: once a command of a key has
  succeeded, the same command either fails or leaves the movements and the transfers as they are.
\<close>

theorem posting_happens_once:
  assumes "cash_history P (h1 @ db1 # db # h)" "canonical P" "r \<in> set (db # h)" "is_posting c" "run_cash env s c r db = Inr db1"
    and "db2 = hd (h1 @ [db1])" "run_cash env' s' c r' db2 = Inr db3"
  shows "cd_movements db3 = cd_movements db2 \<and> cd_transfers db3 = cd_transfers db2"
proof -
  have "cash_inv P db \<and> (\<forall>r \<in> set (db # h). extends r db)"
    using history_inv [OF history_suffix [of P "h1 @ [db1]" "db # h"] assms(2)] assms(1) by simp
  then have row: "posted_row c db1" using posting_leaves_row [OF assms(5,4)] assms(3) by blast
  have "extends db1 db2" using history_inv [OF assms(1,2)] assms(6) by (cases h1) auto
  then show ?thesis using posted_row_stays [OF assms(7)] posted_later [OF row] by blast
qed

section \<open>Statements\<close>

definition signed_total :: "AccountMovement list \<Rightarrow> int" where
  "signed_total ms = (\<Sum>m\<leftarrow>ms. mv_signed m)"

lemma signed_total_sort [simp]: "signed_total (stable_sort lt ms) = signed_total ms"
proof -
  have "signed_total xs = \<Sum>\<^sub># (image_mset mv_signed (mset xs))" for xs by (simp add: signed_total_def sum_mset_sum_list flip: mset_map)
  then show ?thesis by simp
qed

lemma statement_split:
  assumes "\<And>m. Q m = (R m \<and> \<not> S m)" "\<And>m. \<not> S m \<Longrightarrow> True" "\<And>m. S m \<Longrightarrow> R m"
  shows "statement_sum R db a = statement_sum S db a + signed_total (filter (\<lambda>m. mv_AccountID m = a \<and> Q m) (cd_movements db))"
proof -
  have "(\<Sum>m\<leftarrow>ms. if mv_AccountID m = a \<and> R m then mv_signed m else 0) =
      (\<Sum>m\<leftarrow>ms. if mv_AccountID m = a \<and> S m then mv_signed m else 0) + signed_total (filter (\<lambda>m. mv_AccountID m = a \<and> Q m) ms)" for ms
    using assms(1,3) by (induction ms) (auto simp: signed_total_def)
  then show ?thesis by (simp add: statement_sum_def)
qed

interpretation by_date: weak_less "\<lambda>x y. Before (mv_TransactionDate x) (mv_TransactionDate y)"
  by unfold_locales (auto simp: Before_def)

definition effective_limit :: "int \<Rightarrow> int" where
  "effective_limit limit = (if limit \<le> 0 \<or> 500 < limit then 100 else limit)"

definition ordered_dates :: "date option \<Rightarrow> date option \<Rightarrow> bool" where
  "ordered_dates a b = (case (a, b) of (Some x, Some y) \<Rightarrow> \<not> Before y x | _ \<Rightarrow> True)"

text \<open>The movements of a statement before its page is cut: those of the account between the dates, in order of date.\<close>

definition statement_range :: "cash_db \<Rightarrow> string \<Rightarrow> date option \<Rightarrow> date option \<Rightarrow> AccountMovement list" where
  "statement_range db i from_date to_date =
     stable_sort (\<lambda>x y. Before (mv_TransactionDate x) (mv_TransactionDate y))
       (filter (\<lambda>m. mv_AccountID m = i \<and> on_or_after from_date m \<and> on_or_before to_date m) (cd_movements db))"

lemma signed_total_rat: "(\<Sum>m\<leftarrow>items. of_int (mv_signed m)) = (of_int (signed_total items) :: rat)"
  by (induction items) (simp_all add: signed_total_def)

text \<open>
  Claim C38.  A statement whose first date is not after its last (where both are given) adds up: closing - opening is exactly the sum
  of all movements of the account between the dates.  The listed rows are these movements in order of date, cut to the page
  (the limit, or 100 when it is not between 1 and 500), so they account for the difference themselves whenever fewer rows than the
  limit are listed; a full page may not.  Without dates the statement opens at zero and
  closes at the balance of the account.
\<close>

theorem statement_adds_up:
  assumes "AccountStatement env s db a from_date to_date limit = Inr (opening, closing, items)" "ordered_dates from_date to_date"
  shows "\<exists>i acc. loadAccount env s True db a = Inr (i, acc)
    \<and> items = take (nat (effective_limit limit)) (statement_range db i from_date to_date)
    \<and> mustRat closing = mustRat opening + (\<Sum>m\<leftarrow>statement_range db i from_date to_date. of_int (mv_signed m)) / 10000
    \<and> (int (length items) < effective_limit limit \<longrightarrow> mustRat closing = mustRat opening + (\<Sum>m\<leftarrow>items. of_int (mv_signed m)) / 10000)
    \<and> sorted_wrt (\<lambda>x y. \<not> Before (mv_TransactionDate y) (mv_TransactionDate x)) items
    \<and> (from_date = None \<and> to_date = None \<longrightarrow> mustRat opening = 0 \<and> map_sum id snd (GetAccountBalance env s db a) = Inr closing)"
proof -
  obtain i acc where l: "loadAccount env s True db a = Inr (i, acc)"
    and o': "opening = amountString (mustRat (numeric_text (statement_sum (\<lambda>m. from_date \<noteq> None \<and> \<not> on_or_after from_date m) db i))) 4"
    and c: "closing = amountString (mustRat (numeric_text (statement_sum (on_or_before to_date) db i))) 4"
    and it: "items = take (nat (effective_limit limit)) (statement_range db i from_date to_date)"
    using assms(1) unfolding AccountStatement_def Let_def effective_limit_def statement_range_def by (auto simp: bindE_Inr_iff)
  let ?S = "\<lambda>m. from_date \<noteq> None \<and> \<not> on_or_after from_date m"
  have "statement_sum (on_or_before to_date) db i = statement_sum ?S db i
      + signed_total (filter (\<lambda>m. mv_AccountID m = i \<and> on_or_before to_date m \<and> \<not> ?S m) (cd_movements db))"
    by (rule statement_split) (use assms(2) in \<open>auto simp: on_or_after_def on_or_before_def ordered_dates_def Before_def split: option.splits\<close>)
  moreover have "(\<lambda>m. mv_AccountID m = i \<and> on_or_before to_date m \<and> \<not> ?S m) = (\<lambda>m. mv_AccountID m = i \<and> on_or_after from_date m \<and> on_or_before to_date m)"
    by (auto simp: on_or_after_def split: option.split)
  ultimately have eq: "statement_sum (on_or_before to_date) db i = statement_sum ?S db i + signed_total (statement_range db i from_date to_date)"
    by (simp add: statement_range_def)
  have sum: "mustRat closing = mustRat opening + (\<Sum>m\<leftarrow>statement_range db i from_date to_date. of_int (mv_signed m)) / 10000"
    unfolding o' c mustRat_numeric amount_roundtrip eq signed_total_rat by (simp add: add_divide_distrib)
  have page: "items = statement_range db i from_date to_date" if "int (length items) < effective_limit limit"
    using it that by (simp add: min_def split: if_splits)
  have sorted: "sorted_wrt (\<lambda>x y. \<not> Before (mv_TransactionDate y) (mv_TransactionDate x)) items"
    unfolding it statement_range_def by (intro sorted_wrt_take by_date.sorted_stable)
  have free: "mustRat opening = 0 \<and> map_sum id snd (GetAccountBalance env s db a) = Inr closing" if "from_date = None" "to_date = None"
    using that l unfolding o' c mustRat_numeric amount_roundtrip
    by (simp add: GetAccountBalance_def statement_sum_def account_balance_def on_or_before_def mustRat_numeric)
  have short: "mustRat closing = mustRat opening + (\<Sum>m\<leftarrow>items. of_int (mv_signed m)) / 10000" if "int (length items) < effective_limit limit"
    using sum unfolding page [OF that] .
  show ?thesis by (intro exI [of _ i] exI [of _ acc] conjI impI l it sum short sorted) (simp_all add: free)
qed

section \<open>A company\<close>

definition sample_cash_env :: "nat \<Rightarrow> cash_env" where
  "sample_cash_env n = \<lparr>ce_Parse = (\<lambda>x. Some (trim_space x)), ce_Validate = (\<lambda>_. True), ce_cast = Some, ce_new_id = (\<lambda>k. dec_of_nat (10 * n + k)),
     ce_now = \<lparr>dt_year = 2026, dt_month = 5, dt_day = 20\<rparr>, ce_decode = (\<lambda>_. []),
     ce_tables = \<lparr>ru_ToUpper = id, ru_IsSpace = (\<lambda>_. False), ru_IsLetter = (\<lambda>_. False), ru_IsDigit = (\<lambda>_. False)\<rparr>\<rparr>"

definition sample_cash_session :: fin_session where
  "sample_cash_session = \<lparr>fs_CompanyID = ''c'', fs_UserID = ''u'',
     fs_Permissions = [''finance.cash_account.read'', ''finance.cash_movement.read'', ''finance.cash_movement.post'', ''finance.transfer.post'', ''finance.transfer.reverse''], fs_scopes = []\<rparr>"

definition sample_account :: "string \<Rightarrow> Account" where
  "sample_account code = \<lparr>ac_AccountType = ''CASH'', ac_Code = code, ac_Name = code, ac_Currency = ''TRY'', ac_BranchID = [], ac_BankName = [],
     ac_BankBranchName = [], ac_BankBranchCode = [], ac_IBAN = [], ac_AccountNumber = [], ac_Description = [], ac_Notes = [], ac_IsActive = True, ac_Version = 1\<rparr>"

definition sample_day :: date where "sample_day = \<lparr>dt_year = 2026, dt_month = 5, dt_day = 11\<rparr>"

definition sample_company :: cash_db where
  "sample_company = \<lparr>cd_accounts = [(''a'', sample_account ''K1''), (''b'', sample_account ''K2'')], cd_movements = [], cd_transfers = [],
     cd_sequences = [], cd_locks = [], cd_policy = ''BLOCK'', cd_base_currency = ''TRY'', cd_branches = [], cd_account_scopes = [], cd_rates = []\<rparr>"

definition sample_repayment :: cash_cmd where
  "sample_repayment = CmdAdvance \<lparr>mi_AccountID = ''a'', mi_Direction = ''in'', mi_Amount = ''100.5'', mi_TransactionDate = sample_day,
     mi_Description = [], mi_ExternalReference = [], mi_IdempotencyKey = ''k1'', mi_OverrideReason = [], pi_SourceID = ''s'', pi_ReversalOfID = None\<rparr>"

definition sample_move :: cash_cmd where
  "sample_move = CmdTransfer \<lparr>ti_FromAccountID = ''a'', ti_ToAccountID = ''b'', ti_Amount = ''40'', ti_TransactionDate = sample_day,
     ti_Description = ''m'', ti_ExternalReference = [], ti_IdempotencyKey = ''k2'', ti_OverrideReason = []\<rparr>"

definition sample_back :: cash_cmd where
  "sample_back = CmdReverse ''20'' ''k3'' ''x'' zero_time"

definition sample_row :: "string \<Rightarrow> string \<Rightarrow> string \<Rightarrow> string \<Rightarrow> int \<Rightarrow> string \<Rightarrow> string \<Rightarrow> string \<Rightarrow> string \<Rightarrow> date \<Rightarrow> AccountMovement" where
  "sample_row new a kind direction amount source source_id key description x =
     \<lparr>mv_ID = new, mv_AccountID = a, mv_MovementKind = kind, mv_Direction = direction, mv_Currency = ''TRY'', mv_Amount = amount,
      mv_TransactionDate = x, mv_SourceType = source, mv_SourceID = source_id, mv_IdempotencyKey = key,
      mv_Description = description, mv_ExternalReference = [], mv_ReversalOfID = None, mv_ExchangeRate = 10000000000,
      mv_BaseCurrency = ''TRY'', mv_BaseAmount = amount, mv_DocumentNo = []\<rparr>"

definition sample_transfer :: "string \<Rightarrow> string \<Rightarrow> string \<Rightarrow> string \<Rightarrow> string \<Rightarrow> string \<Rightarrow> string \<Rightarrow> string \<Rightarrow> date \<Rightarrow> string option \<Rightarrow> FinanceTransfer" where
  "sample_transfer new source target out into no description key x original =
     \<lparr>tf_ID = new, tf_FromAccountID = source, tf_ToAccountID = target, tf_OutMovementID = out, tf_InMovementID = into, tf_Currency = ''TRY'',
      tf_Amount = 400000, tf_DocumentNo = no, tf_ExternalReference = [], tf_Description = description, tf_TransactionDate = x,
      tf_IdempotencyKey = key, tf_ReversalOfID = original\<rparr>"

definition sample_opened :: cash_db where
  "sample_opened = sample_company\<lparr>cd_movements := [sample_row ''10'' ''a'' ''EMPLOYEE_ADVANCE'' ''IN'' 1005000 ''employee_advance_transaction'' ''s'' ''k1'' [] sample_day]\<rparr>"

definition sample_moved :: cash_db where
  "sample_moved = sample_opened\<lparr>cd_sequences := [((''TRF'', 2026), 2)], cd_movements := cd_movements sample_opened @
       [sample_row ''21'' ''a'' ''TRANSFER'' ''OUT'' 400000 ''finance_transfer'' ''20'' ''transfer:k2:out'' ''m'' sample_day,
        sample_row ''22'' ''b'' ''TRANSFER'' ''IN'' 400000 ''finance_transfer'' ''20'' ''transfer:k2:in'' ''m'' sample_day],
     cd_transfers := [sample_transfer ''20'' ''a'' ''b'' ''21'' ''22'' ''TRF-2026-000001'' ''m'' ''k2'' sample_day None]\<rparr>"

definition sample_reversed :: cash_db where
  "sample_reversed = sample_moved\<lparr>cd_sequences := [((''TRF'', 2026), 3)], cd_movements := cd_movements sample_moved @
       [sample_row ''31'' ''b'' ''TRANSFER'' ''OUT'' 400000 ''finance_transfer'' ''30'' ''transfer:k3:out'' (reversal_description ''x'') (ce_now (sample_cash_env 3)),
        sample_row ''32'' ''a'' ''TRANSFER'' ''IN'' 400000 ''finance_transfer'' ''30'' ''transfer:k3:in'' (reversal_description ''x'') (ce_now (sample_cash_env 3))],
     cd_transfers := cd_transfers sample_moved @
       [sample_transfer ''30'' ''b'' ''a'' ''31'' ''32'' ''TRF-2026-000002'' (reversal_description ''x'') ''k3'' (ce_now (sample_cash_env 3)) (Some ''20'')]\<rparr>"

lemma sample_opened_step: "run_cash (sample_cash_env 1) sample_cash_session sample_repayment sample_company sample_company = Inr sample_opened"
  by code_simp

lemma sample_moved_step: "run_cash (sample_cash_env 2) sample_cash_session sample_move sample_opened sample_opened = Inr sample_moved"
  by code_simp

lemma sample_reversed_step: "run_cash (sample_cash_env 3) sample_cash_session sample_back sample_moved sample_moved = Inr sample_reversed"
  by code_simp

lemma sample_repeated_step: "run_cash (sample_cash_env 4) sample_cash_session sample_move sample_moved sample_moved = Inr sample_moved"
  by code_simp

lemma sample_balance: "GetAccountBalance (sample_cash_env 5) sample_cash_session sample_moved ''a'' = Inr (''TRY'', ''60.5000'')"
  by code_simp

lemma sample_statement:
  "map_sum id (\<lambda>(opening, closing, items). length items) (AccountStatement (sample_cash_env 5) sample_cash_session sample_moved ''a'' None None 10) = Inr 2"
  by code_simp

lemma sample_canonical: "canonical (\<lambda>x. Some (trim_space x))"
  by (simp add: canonical_def)

lemma sample_history:
  "cash_history (\<lambda>x. Some (trim_space x)) [sample_company]"
  "cash_history (\<lambda>x. Some (trim_space x)) [sample_opened, sample_company]"
  "cash_history (\<lambda>x. Some (trim_space x)) [sample_moved, sample_opened, sample_company]"
  "cash_history (\<lambda>x. Some (trim_space x)) [sample_reversed, sample_moved, sample_opened, sample_company]"
proof -
  have p: "ce_Parse (sample_cash_env n) = (\<lambda>x. Some (trim_space x))" for n by (simp add: sample_cash_env_def)
  show 1: "cash_history (\<lambda>x. Some (trim_space x)) [sample_company]" by (rule start) (simp_all add: sample_company_def)
  show 2: "cash_history (\<lambda>x. Some (trim_space x)) [sample_opened, sample_company]" by (rule command [OF 1 _ p sample_opened_step]) simp
  show 3: "cash_history (\<lambda>x. Some (trim_space x)) [sample_moved, sample_opened, sample_company]" by (rule command [OF 2 _ p sample_moved_step]) simp
  show "cash_history (\<lambda>x. Some (trim_space x)) [sample_reversed, sample_moved, sample_opened, sample_company]"
    by (rule command [OF 3 _ p sample_reversed_step]) simp
qed

lemmas sample_cash_states = sample_reversed_def sample_moved_def sample_opened_def sample_company_def sample_transfer_def sample_row_def

theorem reversal_cancels_witness:
  "\<exists>t \<in> set (cd_transfers sample_reversed). \<exists>u \<in> set (cd_transfers sample_reversed). tf_ReversalOfID u = Some (tf_ID t)
     \<and> transfer_effect mv_Amount sample_reversed t ''a'' = - 400000
     \<and> transfer_effect mv_Amount sample_reversed t ''a'' + transfer_effect mv_Amount sample_reversed u ''a'' = 0"
proof -
  obtain t u where s: "cd_transfers sample_reversed = [t, u]" "tf_ReversalOfID u = Some (tf_ID t)" "tf_ID t = ''20''" by (simp add: sample_cash_states)
  then show ?thesis using reversal_cancels [OF sample_history(4) sample_canonical, of t u "''a''"]
    by (auto simp: transfer_effect_def) (simp_all add: sample_cash_states)
qed

theorem blocked_never_overdrawn_witness:
  "case GetAccountBalance (sample_cash_env 5) sample_cash_session sample_moved ''a'' of Inl e \<Rightarrow> False
   | Inr (currency, balance) \<Rightarrow> balance = ''60.5000'' \<and> 0 \<le> mustRat balance"
proof -
  have "\<forall>x \<in> set [sample_moved, sample_opened, sample_company]. cd_policy x = ''BLOCK''" by (simp add: sample_cash_states)
  from blocked_never_overdrawn [OF sample_history(3) sample_canonical this, of "sample_cash_env 5" sample_cash_session "''a''"]
  show ?thesis
    using sample_balance by (simp split: sum.splits)
qed

theorem posting_happens_once_witness:
  "case run_cash (sample_cash_env 4) sample_cash_session sample_move sample_moved sample_moved of Inl e \<Rightarrow> False
   | Inr db3 \<Rightarrow> cd_movements db3 = cd_movements sample_moved \<and> length (cd_movements db3) = 3"
proof -
  have "cd_movements db3 = cd_movements sample_moved"
    if "run_cash (sample_cash_env 4) sample_cash_session sample_move sample_moved sample_moved = Inr db3" for db3
    using posting_happens_once [of "\<lambda>x. Some (trim_space x)" "[]" sample_moved sample_opened "[sample_company]" sample_opened sample_move
        "sample_cash_env 2" sample_cash_session sample_moved "sample_cash_env 4" sample_cash_session sample_moved db3]
      sample_history(3) sample_canonical sample_moved_step that by (simp add: sample_move_def)
  then show ?thesis using sample_repeated_step by (simp add: sample_cash_states)
qed

theorem statement_adds_up_witness:
  "\<exists>opening closing items. AccountStatement (sample_cash_env 5) sample_cash_session sample_moved ''a'' None None 10 = Inr (opening, closing, items)
     \<and> length items = 2 \<and> mustRat closing = mustRat opening + (\<Sum>m\<leftarrow>items. of_int (mv_signed m)) / 10000"
proof -
  obtain o1 c1 items where s: "AccountStatement (sample_cash_env 5) sample_cash_session sample_moved ''a'' None None 10 = Inr (o1, c1, items)"
    "length items = 2"
    using sample_statement by (cases "AccountStatement (sample_cash_env 5) sample_cash_session sample_moved ''a'' None None 10") auto
  then show ?thesis using statement_adds_up [OF s(1)] by (fastforce simp: ordered_dates_def effective_limit_def)
qed

end
