(* ===== verification/Outbox_Progress.thy ===== *)
theory Outbox_Progress
  imports Outbox
begin

text \<open>
  The loop \<^verbatim>\<open>Run\<close> of the outbox worker and its progress: whatever the handlers answer, a worker left alone settles every open
  event after a bounded number of cycles.  The loop waits for a \<^verbatim>\<open>time.Ticker\<close> of one second, whose ticks come on its own period and
  not counted from the end of a cycle.
\<close>

section \<open>The loop\<close>

text \<open>
  A cycle: the number of the tick that started it (read only when the loop waited for one), when it began, the transaction time and
  the clock of its claim, and the time of its last statement.
\<close>

record cycle =
  cy_tick :: int
  cy_begin :: int
  cy_now :: int
  cy_clock :: int
  cy_later :: int

text \<open>A cycle that found work is followed at once by the next one, another by the next tick.\<close>

fun Run :: "handlers \<Rightarrow> cycle list \<Rightarrow> outbox \<Rightarrow> outbox" where
  "Run hs [] t = t"
| "Run hs (c # cs) t = Run hs cs (fst (runOne hs True [] (cy_now c) (cy_clock c) (cy_later c) t))"

text \<open>
  The ticker: tick \<open>k\<close> fires \<open>k\<close> seconds after its start.  Its channel buffers one tick and drops the others, so a tick that is received
  fired after the tick before it was received, but possibly long before the loop asked for it.
\<close>

record ticker =
  tk_start :: int
  tk_last :: int \<comment> \<open>the tick received last\<close>
  tk_received :: int \<comment> \<open>and when\<close>

definition fires :: "ticker \<Rightarrow> int \<Rightarrow> int" where
  "fires k n = tk_start k + n * second"

definition new_ticker :: "int \<Rightarrow> ticker" where
  "new_ticker start = \<lparr>tk_start = start, tk_last = 0, tk_received = start\<rparr>"

definition receive_tick :: "cycle \<Rightarrow> ticker \<Rightarrow> ticker" where
  "receive_tick c k = k\<lparr>tk_last := cy_tick c, tk_received := cy_begin c\<rparr>"

definition tick_ok :: "ticker \<Rightarrow> cycle \<Rightarrow> bool" where
  "tick_ok k c = (tk_last k < cy_tick c \<and> tk_received k \<le> fires k (cy_tick c) \<and> fires k (cy_tick c) \<le> cy_begin c)"

text \<open>
  The times of a run: a cycle begins after the one before it has ended, at once when that one worked (as does the first), and
  otherwise with a tick.
\<close>

fun paced :: "handlers \<Rightarrow> ticker \<Rightarrow> bool \<Rightarrow> int \<Rightarrow> cycle list \<Rightarrow> outbox \<Rightarrow> bool" where
  "paced hs k at_once earliest [] t = True"
| "paced hs k at_once earliest (c # cs) t =
     (let (t', worked) = runOne hs True [] (cy_now c) (cy_clock c) (cy_later c) t in
      earliest \<le> cy_begin c \<and> cy_begin c \<le> cy_now c \<and> cy_now c \<le> cy_later c
      \<and> (at_once \<or> tick_ok k c)
      \<and> paced hs (if at_once then k else receive_tick c k) worked (cy_later c) cs t')"

section \<open>What is left to do\<close>

definition cost :: "outbox_row \<Rightarrow> nat" where
  "cost row = (if is_open row then nat (max 1 (maxAttempts - ob_attempts row)) else 0)"

definition work :: "outbox \<Rightarrow> nat" where
  "work t = (\<Sum>i \<in> fst ` set t. case row_of t i of None \<Rightarrow> 0 | Some row \<Rightarrow> cost row)"

definition all_closed :: "outbox \<Rightarrow> bool" where
  "all_closed t = (\<forall>(i, row) \<in> set t. \<not> is_open row)"

text \<open>No lease is running, and every open row is due at time \<open>b\<close> at the latest.\<close>

definition quiet :: "int \<Rightarrow> int \<Rightarrow> outbox \<Rightarrow> bool" where
  "quiet now b t = (\<forall>(i, row) \<in> set t. is_open row \<longrightarrow> ob_available_at row \<le> b
     \<and> (case ob_locked_at row of None \<Rightarrow> True | Some l \<Rightarrow> l < now - lock_timeout))"

lemma row_of_mem: "distinct (map fst t) \<Longrightarrow> row_of t i = Some row \<longleftrightarrow> (i, row) \<in> set t"
  by (simp add: row_of_def)

lemma work_0: "distinct (map fst t) \<Longrightarrow> work t = 0 \<Longrightarrow> all_closed t"
proof -
  assume d: "distinct (map fst t)" and w: "work t = 0"
  have "\<not> is_open row" if m: "(i, row) \<in> set t" for i row
  proof -
    have "(case row_of t i of None \<Rightarrow> 0 | Some row \<Rightarrow> cost row) = 0" using w m unfolding work_def by (force simp: sum_eq_0_iff)
    moreover have "row_of t i = Some row" using row_of_mem [OF d] m by simp
    ultimately show ?thesis by (auto simp: cost_def split: if_splits)
  qed
  then show ?thesis by (auto simp: all_closed_def)
qed

lemma runOne_ids: "map fst (fst (runOne hs True held now clock later t)) = map fst t"
  by (auto simp: runOne_def claim_def Let_def dispatch_update split: option.split prod.split)

lemma first_due_None: "first_due [] now t = None \<Longrightarrow> (i, row) \<in> set t \<Longrightarrow> \<not> due now row"
proof -
  assume n: "first_due [] now t = None" and m: "(i, row) \<in> set t"
  have some: "foldl (\<lambda>best x. case best of None \<Rightarrow> Some x | Some b \<Rightarrow> if before x b then Some x else Some b) (Some a) xs \<noteq> None" for a xs
    by (induction xs arbitrary: a) auto
  have "filter (\<lambda>(i, row). due now row \<and> i \<notin> set []) t = []"
  proof (cases "filter (\<lambda>(i, row). due now row \<and> i \<notin> set []) t")
    case (Cons x xs)
    then show ?thesis using n some [of x xs] by (simp add: first_due_def)
  qed simp
  then show ?thesis using m by (auto simp: filter_empty_conv)
qed

lemma idle_cycle:
  assumes "runOne hs True [] now clock later t = (t', False)"
  shows "t' = t \<and> (\<forall>(i, row) \<in> set t. \<not> due now row)"
proof -
  have "first_due [] now t = None" "t' = t"
    using assms by (auto simp: runOne_def claim_def Let_def split: option.splits prod.splits)
  then show ?thesis using first_due_None by blast
qed

lemma working_cycle:
  assumes d: "distinct (map fst t)" and r: "runOne hs True [] now clock later t = (t', True)" and q: "quiet now b t" and o': "now \<le> later"
  shows "work t' < work t \<and> (\<forall>now' \<ge> later. quiet now' (max b (later + 128 * second)) t')"
proof -
  obtain i row row' where s: "row_of t i = Some row" "due now row" "row_of t' i = Some row'" "ob_attempts row' = ob_attempts row + 1" "ob_locked_at row' = None"
    "(ob_processed_at row' = Some later \<and> ob_dead_lettered_at row' = None) \<or> (ob_dead_lettered_at row' = Some later \<and> ob_processed_at row' = None)
      \<or> (is_open row' \<and> ob_attempts row' < maxAttempts \<and> hs (ob_type row) \<noteq> None
          \<and> later + second \<le> ob_available_at row' \<and> ob_available_at row' \<le> later + 128 * second)"
    "\<And>j. j \<noteq> i \<Longrightarrow> row_of t' j = row_of t j"
    using runOne_settles [OF d r] by blast
  have ids: "map fst t' = map fst t" using runOne_ids [of hs "[]" now clock later t] r by simp
  then have d': "distinct (map fst t')" using d by simp
  have c: "cost row' < cost row"
    using s(2,4,6) by (auto simp: cost_def due_def is_open_def)
  have fs: "fst ` set t' = fst ` set t" using arg_cong [OF ids, of set] by simp
  have i: "i \<in> fst ` set t" using s(1) by (auto simp: row_of_mem [OF d] intro: rev_image_eqI)
  have "work t' = cost row' + (\<Sum>j \<in> fst ` set t - {i}. case row_of t j of None \<Rightarrow> 0 | Some row \<Rightarrow> cost row)"
    unfolding work_def fs using i s(3,7) by (simp add: sum.remove [of _ i])
  moreover have "work t = cost row + (\<Sum>j \<in> fst ` set t - {i}. case row_of t j of None \<Rightarrow> 0 | Some row \<Rightarrow> cost row)"
    unfolding work_def using i s(1) by (simp add: sum.remove [of _ i])
  moreover have "quiet now' (max b (later + 128 * second)) t'" if "later \<le> now'" for now'
    unfolding quiet_def
  proof (clarify, intro conjI)
    fix j x assume x: "(j, x) \<in> set t'" "is_open x"
    have "ob_available_at x \<le> max b (later + 128 * second) \<and> (case ob_locked_at x of None \<Rightarrow> True | Some l \<Rightarrow> l < now' - lock_timeout)"
    proof (cases "j = i")
      case True
      then have "x = row'" using x s(3) by (simp add: row_of_mem [OF d', symmetric])
      then show ?thesis using s(5,6) x(2) by (auto simp: is_open_def)
    next
      case False
      then have "(j, x) \<in> set t" using x s(7) by (simp add: row_of_mem [OF d, symmetric] row_of_mem [OF d', symmetric])
      then show ?thesis using q x(2) that o' unfolding quiet_def by (fastforce split: option.splits)
    qed
    then show "ob_available_at x \<le> max b (later + 128 * second)" "case ob_locked_at x of None \<Rightarrow> True | Some l \<Rightarrow> l < now' - lock_timeout"
      by simp_all
  qed
  ultimately show ?thesis using c by simp
qed

text \<open>
  Cycles a table may still take.  An attempt makes an event wait for at most 128 seconds; the cycle right after it and the one started by
  a tick from the buffer may come too early, so there are at most 130 idle cycles between two attempts.  \<open>extra\<close> counts
  those two; \<open>f\<close> is a time no later cycle precedes.
\<close>

definition patience :: "nat \<Rightarrow> int \<Rightarrow> int \<Rightarrow> outbox \<Rightarrow> nat" where
  "patience extra f b t = (if work t = 0 then 0 else 131 * (work t - 1) + 1 + extra + nat ((b - f + second - 1) div second))"

definition waiting :: "nat \<Rightarrow> ticker \<Rightarrow> bool \<Rightarrow> int \<Rightarrow> int \<Rightarrow> bool" where
  "waiting extra k at_once e f =
     (if at_once then extra = 2 \<and> f \<le> e
      else extra = 1 \<and> f \<le> e \<or> extra = 0 \<and> (f \<le> fires k (tk_last k + 1) \<or> f \<le> tk_received k))"

lemma idle_closed: "all_closed t \<Longrightarrow> runOne hs True [] now clock later t = (t, False)"
proof -
  assume c: "all_closed t"
  have "first_due [] now t = None"
  proof (cases "first_due [] now t")
    case (Some x)
    then show ?thesis using first_due_Some [of "[]" now t "fst x" "snd x"] c by (auto simp: all_closed_def due_def)
  qed
  then show ?thesis by (simp add: runOne_def claim_def)
qed

lemma Run_closed: "all_closed t \<Longrightarrow> Run hs cs t = t"
  by (induction cs) (simp_all add: idle_closed)

lemma fires_next: "n < m \<Longrightarrow> fires k n + second \<le> fires k m"
proof -
  assume "n < m"
  then have "(n + 1) * second \<le> m * second" by (intro mult_right_mono) (simp_all add: second_def)
  then show ?thesis by (simp add: fires_def algebra_simps)
qed

text \<open>One idle cycle uses up an extra or brings the floor forward by a second.\<close>

lemma waiting_step:
  assumes "waiting extra k at_once e f" "e \<le> cy_begin c" "at_once \<or> tick_ok k c" "cy_begin c \<le> e'"
  shows "\<exists>extra' f'. waiting extra' (if at_once then k else receive_tick c k) False e' f'
    \<and> (extra = Suc extra' \<and> f' = f \<or> extra = 0 \<and> extra' = 0 \<and> f' = f + second \<and> f \<le> cy_begin c)"
proof (cases at_once)
  case True
  then show ?thesis using assms by (intro exI [of _ 1] exI [of _ f]) (simp add: waiting_def)
next
  case False
  then have tick: "tk_last k < cy_tick c" "tk_received k \<le> fires k (cy_tick c)" "fires k (cy_tick c) \<le> cy_begin c"
    using assms(3) by (simp_all add: tick_ok_def)
  consider "extra = 1" "f \<le> e" | "extra = 0" "f \<le> fires k (tk_last k + 1) \<or> f \<le> tk_received k"
    using assms(1) False by (auto simp: waiting_def)
  then show ?thesis
  proof cases
    case 1
    then show ?thesis using False assms(2)
      by (intro exI [of _ 0] exI [of _ f]) (simp add: waiting_def receive_tick_def)
  next
    case 2
    have "fires k (tk_last k + 1) \<le> fires k (cy_tick c)"
      using tick(1) fires_next [of "tk_last k + 1" "cy_tick c" k] by (cases "tk_last k + 1 = cy_tick c") (auto simp: second_def)
    then have f: "f \<le> fires k (cy_tick c)" using 2(2) tick(2) by linarith
    have "f + second \<le> fires k (cy_tick c + 1)" using f fires_next [of "cy_tick c" "cy_tick c + 1" k] by linarith
    then show ?thesis using False 2(1) f tick(3)
      by (intro exI [of _ 0] exI [of _ "f + second"]) (simp add: waiting_def receive_tick_def fires_def)
  qed
qed

lemma Run_drains:
  assumes "distinct (map fst t)" "quiet e b t" "b \<le> e + 128 * second" "waiting extra k at_once e f" "paced hs k at_once e cs t"
    "patience extra f b t \<le> length cs"
  shows "all_closed (Run hs cs t)"
  using assms
proof (induction cs arbitrary: t e b extra k at_once f)
  case Nil
  then have "work t = 0" by (simp add: patience_def split: if_splits)
  then show ?case using work_0 Nil by simp
next
  case (Cons c cs)
  obtain t' worked where r: "runOne hs True [] (cy_now c) (cy_clock c) (cy_later c) t = (t', worked)"
    by (cases "runOne hs True [] (cy_now c) (cy_clock c) (cy_later c) t")
  let ?k = "if at_once then k else receive_tick c k"
  have e: "e \<le> cy_begin c" "cy_begin c \<le> cy_now c" "cy_now c \<le> cy_later c" "at_once \<or> tick_ok k c"
    and p: "paced hs ?k worked (cy_later c) cs t'"
    using Cons.prems(5) r by auto
  have q: "quiet now' b t" if "e \<le> now'" for now'
    using Cons.prems(2) that unfolding quiet_def by (fastforce split: option.splits)
  have ids: "distinct (map fst t')" using Cons.prems(1) runOne_ids [of hs "[]" "cy_now c" "cy_clock c" "cy_later c" t] r by simp
  have run: "Run hs (c # cs) t = Run hs cs t'" using r by simp
  show ?case
  proof (cases worked)
    case True
    have le: "e \<le> cy_now c" using e by linarith
    have w: "work t' < work t" "quiet (cy_later c) (max b (cy_later c + 128 * second)) t'"
      using working_cycle [OF Cons.prems(1) _ q [OF le] e(3), of hs "cy_clock c" t'] r True by auto
    have b: "max b (cy_later c + 128 * second) = cy_later c + 128 * second" using Cons.prems(3) e by simp
    have "patience 2 (cy_later c) (cy_later c + 128 * second) t' \<le> 131 * work t'"
      by (cases "work t'") (simp_all add: patience_def second_def)
    also have "\<dots> \<le> patience extra f b t - 1" using w(1) by (simp add: patience_def)
    also have "\<dots> \<le> length cs" using Cons.prems(6) by simp
    finally have pat: "patience 2 (cy_later c) (cy_later c + 128 * second) t' \<le> length cs" .
    have wait: "waiting 2 ?k True (cy_later c) (cy_later c)" by (simp add: waiting_def)
    show ?thesis unfolding run
      by (rule Cons.IH [OF ids w(2) [unfolded b] _ wait _ pat]) (use p True in simp_all)
  next
    case False
    then have t': "t' = t" and nd: "\<forall>(i, row) \<in> set t. \<not> due (cy_now c) row" using idle_cycle r by auto
    show ?thesis
    proof (cases "all_closed t")
      case True
      then show ?thesis by (simp only: Run_closed [OF True])
    next
      case op: False
      then obtain i row where row: "(i, row) \<in> set t" "is_open row" by (auto simp: all_closed_def)
      have le: "e \<le> cy_now c" "e \<le> cy_later c" using e by linarith+
      have "cy_now c < ob_available_at row" using row nd q [OF le(1)] unfolding quiet_def due_def by (fastforce split: option.splits)
      then have b: "cy_now c < b" using row Cons.prems(2) unfolding quiet_def by fastforce
      have w: "work t \<noteq> 0" using op work_0 Cons.prems(1) by blast
      have begin_later: "cy_begin c \<le> cy_later c" using e by linarith
      obtain extra' f' where wait: "waiting extra' ?k False (cy_later c) f'"
        and cases: "extra = Suc extra' \<and> f' = f \<or> extra = 0 \<and> extra' = 0 \<and> f' = f + second \<and> f \<le> cy_begin c"
        using waiting_step [OF Cons.prems(4) e(1,4) begin_later] by blast
      have less: "patience extra' f' b t < patience extra f b t" using cases
      proof
        assume "extra = Suc extra' \<and> f' = f"
        then show ?thesis using w by (simp add: patience_def)
      next
        assume c: "extra = 0 \<and> extra' = 0 \<and> f' = f + second \<and> f \<le> cy_begin c"
        then have "f < b" using e(2) b by linarith
        then have "0 \<le> (b - (f + second) + second - 1) div second" by (simp add: second_def)
        moreover have "(b - f + second - 1) div second = (b - (f + second) + second - 1) div second + 1"
          by (simp add: second_def div_add_self2 [symmetric] algebra_simps)
        ultimately show ?thesis using w c by (simp add: patience_def nat_add_distrib)
      qed
      have pat: "patience extra' f' b t \<le> length cs" using less Cons.prems(6) by simp
      have "b \<le> cy_later c + 128 * second" using Cons.prems(3) le(2) by simp
      then show ?thesis unfolding run t'
        using Cons.IH [OF Cons.prems(1) q [OF le(2)] _ wait _ pat] p False t' by simp
    qed
  qed
qed

lemma Run_ids: "map fst (Run hs cs t) = map fst t"
  by (induction cs arbitrary: t) (simp_all add: runOne_ids)

text \<open>
  Claim C39.  Progress: a worker left alone settles everything.  \<^verbatim>\<open>Run\<close> starts at time \<open>start\<close> on a table of distinct ids in which no lease is
  running (each open event is unlocked or its lock older than the timeout) and each open event is due.  No other worker or
  producer acts, every cycle gets the write barrier and its statements succeed.  Cycles follow each other as the loop makes them:
  at once after work, otherwise with a tick of a ticker that fires every second from \<open>start\<close> and buffers one tick.  Then,
  whatever the handlers answer, errors for ever included, after 131 cycles for each attempt left every event is processed
  or dead-lettered, and none is lost.
\<close>

theorem outbox_drains:
  assumes "distinct (map fst t)" "quiet start start t" "paced hs (new_ticker start) True start cs t" "131 * work t \<le> length cs"
  shows "map fst (Run hs cs t) = map fst t
    \<and> (\<forall>(i, row) \<in> set (Run hs cs t). ob_processed_at row \<noteq> None \<or> ob_dead_lettered_at row \<noteq> None)"
proof -
  have pat: "patience 2 start start t \<le> length cs" using assms(4) by (cases "work t") (simp_all add: patience_def second_def)
  have wait: "waiting 2 (new_ticker start) True start start" by (simp add: waiting_def)
  have "all_closed (Run hs cs t)"
    by (rule Run_drains [OF assms(1,2) _ wait assms(3) pat]) (simp add: second_def)
  then show ?thesis using Run_ids by (auto simp: all_closed_def is_open_def)
qed

text \<open>
  A handler that always fails, on an event with one attempt left: the first cycle dead-letters it, 130 idle ones follow, the first of them
  at once and the others with the ticks, the first of which was waiting in the buffer.
\<close>

definition tired_row :: outbox_row where
  "tired_row = sample_row\<lparr>ob_attempts := 9\<rparr>"

definition idle_from :: "int \<Rightarrow> int \<Rightarrow> cycle" where
  "idle_from n x = \<lparr>cy_tick = n, cy_begin = x, cy_now = x, cy_clock = x, cy_later = x\<rparr>"

definition tired_run :: "cycle list" where
  "tired_run = [\<lparr>cy_tick = 0, cy_begin = 5, cy_now = 5, cy_clock = 6, cy_later = 3000005\<rparr>, idle_from 0 3000005]
     @ map (\<lambda>n. idle_from (int n) (5 + max 3 (int n) * second)) (1 # [4..<132])"

lemma idle_ticks:
  assumes "all_closed t" "tk_start k = 5" "tk_last k < int m" "tk_received k \<le> fires k (int m)" "e \<le> fires k (int m)" "3 \<le> m"
  shows "paced hs k False e (map (\<lambda>n. idle_from (int n) (5 + max 3 (int n) * second)) [m..<n]) t"
  using assms(2-)
proof (induction "n - m" arbitrary: m k e)
  case (Suc d)
  have up: "[m..<n] = m # [Suc m..<n]" using Suc(2) by (intro upt_conv_Cons) simp
  let ?c = "idle_from (int m) (5 + max 3 (int m) * second)"
  have m: "fires k (int m) = 5 + int m * second" "max 3 (int m) = int m" using Suc.prems by (simp_all add: fires_def)
  have "paced hs (receive_tick ?c k) False (cy_later ?c)
      (map (\<lambda>n. idle_from (int n) (5 + max 3 (int n) * second)) [Suc m..<n]) t"
    by (rule Suc(1)) (use Suc m in \<open>simp_all add: receive_tick_def idle_from_def fires_def second_def\<close>)
  then show ?case unfolding up using Suc.prems m
    by (simp add: idle_closed [OF assms(1)] tick_ok_def) (simp add: idle_from_def)
qed simp

theorem outbox_drains_witness:
  "list_all (\<lambda>(i, row). case (ob_processed_at row, ob_dead_lettered_at row) of (None, None) \<Rightarrow> False | _ \<Rightarrow> True)
     (Run flaky tired_run [(3, tired_row)])"
proof -
  let ?t = "[(3, tired_row\<lparr>ob_attempts := 10, ob_dead_lettered_at := Some 3000005, ob_last_error_class := Some ''permanent''\<rparr>)]"
  have one: "runOne flaky True [] 5 6 3000005 [(3, tired_row)] = (?t, True)"
    by (simp add: runOne_def claim_def first_due_def due_def is_open_def sample_row_def tired_row_def update_row_def coalesce_def Let_def
        dispatch_def flaky_def deadLetter_def owns_def maxAttempts_def supportedSchemaVersion_def)
  have closed: "all_closed ?t" by (simp add: all_closed_def is_open_def)
  note idle = idle_closed [OF closed]
  let ?k = "\<lparr>tk_start = 5, tk_last = 1, tk_received = 3000005\<rparr>"
  have "paced flaky ?k False 3000005 (map (\<lambda>n. idle_from (int n) (5 + max 3 (int n) * second)) [4..<132]) ?t"
    by (rule idle_ticks [OF closed]) (simp_all add: fires_def second_def)
  then have p: "paced flaky (new_ticker 5) True 5 tired_run [(3, tired_row)]"
    unfolding tired_run_def
    by (simp add: one idle idle_from_def new_ticker_def receive_tick_def tick_ok_def fires_def second_def del: upt_Suc upt_rec_numeral)
  have w: "131 * work [(3, tired_row)] \<le> length tired_run"
    by (simp add: work_def row_of_def cost_def tired_row_def sample_row_def is_open_def maxAttempts_def tired_run_def del: upt_Suc upt_rec_numeral)
  have q: "quiet 5 5 [(3, tired_row)]" by (simp add: quiet_def tired_row_def sample_row_def)
  have d: "distinct (map fst [(3, tired_row)])" by simp
  show ?thesis using conjunct2 [OF outbox_drains [OF d q p w]] by (fastforce simp: list_all_iff split: option.split)
qed

end
