(* ===== verification/Spec2Isabelle.thy ===== *)
theory Spec2Isabelle
  imports Tax_Document Payroll_Proofs Idempotency Outbox Opctl_Safety Allocation_Safety Data_Import Transfer_Commands Landed_Cost Timesheet_Service
    Cash_Safety Outbox_Progress
begin

text \<open>
  A verification development of varyaone, an ERP server written in Go: the calculations that put numbers on documents, and the state
  machines and ledgers whose mistakes cannot be taken back.  Paths below are relative to \<^verbatim>\<open>src/internal/\<close>.

  \<^bold>\<open>Parts and how they interact.\<close>
  Exact decimals (\<^verbatim>\<open>money\<close>) and Go's \<^verbatim>\<open>big.Rat\<close> texts are the numbers of everything else.  The tax calculator (\<^verbatim>\<open>taxes\<close>) turns the lines of a
  document into amounts; the settlement module (\<^verbatim>\<open>finance/settlement.go\<close>) says how much of a document is paid, and payment allocation
  (\<^verbatim>\<open>finance/service.go\<close>) spends payments on open items; cash and bank accounts (\<^verbatim>\<open>finance/account_core.go\<close>) keep the
  movements and transfers of money, also those of advances and payroll.  The payroll calculator (\<^verbatim>\<open>payroll/calculation\<close>) computes payslips from a legislation
  pack; the attendance months (\<^verbatim>\<open>hr/timesheet\<close>) it counts are generated, edited and frozen.  Warehouse transfers (\<^verbatim>\<open>inventory\<close>) move stock over an
  append-only ledger, and landed costs (\<^verbatim>\<open>purchasing\<close>) are split over receipt lines and adjust the value of their stock layers.  The import engine (\<^verbatim>\<open>dataexchange\<close>) maps tables
  to domain rows.  Under all commands lie the idempotency records (\<^verbatim>\<open>platform/idempotency\<close>), which allocation and transfers use, the outbox worker
  (\<^verbatim>\<open>platform/outbox\<close>) and the control of destructive operations (\<^verbatim>\<open>platform/opctl\<close>).

  \<^bold>\<open>Theories and sources.\<close>
  \<^item> \<open>Prelude\<close>: the sum type of fallible steps (\<open>bindE\<close>, \<open>mapE\<close>), Go byte strings (\<^verbatim>\<open>TrimSpace\<close>, \<^verbatim>\<open>ToUpper\<close>, splitting, decimal digits), generic lemmas
    on lists and maps and the \<open>named_theorems\<close> the components share.
  \<^item> \<open>Money\<close> (\<^verbatim>\<open>money/decimal.go\<close>): \<open>decimal\<close> is text, scale and integer value as in the struct; parsing, arithmetic, comparison and the two roundings.
  \<^item> \<open>Go_Rat\<close>, \<open>Go_Sort\<close>: what the sources use of \<^verbatim>\<open>big.Rat\<close> (\<^verbatim>\<open>SetString\<close>, \<^verbatim>\<open>FloatString\<close>) and of \<^verbatim>\<open>sort\<close>.
  \<^item> \<open>Apportion\<close>, \<open>Taxes\<close>, \<open>Tax_Document\<close> (\<^verbatim>\<open>taxes/calculator.go\<close>): discount chains, header discount, included taxes, compound and
    withholding components; \<open>Calculate\<close> is the exported function.
  \<^item> \<open>Payroll\<close>, \<open>Payroll_Proofs\<close> (\<^verbatim>\<open>payroll/calculation/calculator.go\<close>, \<^verbatim>\<open>payroll/legislation/model.go\<close>): \<open>Calculate\<close>, \<open>Preview\<close> and the net-to-gross search.
  \<^item> \<open>Idempotency\<close> (\<^verbatim>\<open>platform/idempotency\<close>): SQL store, in-transaction variant and memory store over one table of records.
  \<^item> \<open>Outbox\<close> (\<^verbatim>\<open>platform/outbox/worker.go\<close>): rows, claims under a lease, verdicts, and a worker whose steps interleave with others;
    \<open>Outbox_Progress\<close> adds the loop of the worker.
  \<^item> \<open>Opctl\<close>, \<open>Opctl_Safety\<close> (\<^verbatim>\<open>platform/opctl\<close>): the state file, the journal, leases, external operations; an operation is a list of file effects
    of which a crash keeps a prefix.
  \<^item> \<open>Settlement\<close> (\<^verbatim>\<open>finance/settlement.go\<close>, status parts of \<^verbatim>\<open>sales/status.go\<close> and \<^verbatim>\<open>purchasing/status.go\<close>).
  \<^item> \<open>Allocation\<close>, \<open>Allocation_Ledger\<close>, \<open>Allocation_Safety\<close> (\<^verbatim>\<open>finance/service.go\<close>): the FIFO distribution; payments, open items and allocation rows as
    tables, with the three commands that write allocations.
  \<^item> \<open>Iban\<close>, \<open>Cash_Accounts\<close>, \<open>Cash_Ledger\<close>, \<open>Cash_Safety\<close> (\<^verbatim>\<open>finance/account_core.go\<close>): \<open>cash_db\<close> holds accounts, movements, transfers, number
    sequences, rates, locked periods and the policy on negative balances, with the checks, keys and the trigger of the tables; \<open>ledger_step\<close> is what a
    command may do to the ledger, \<open>cash_history\<close> a sequence of commands with outdated reads and changes of the settings in between.
  \<^item> \<open>Data_Exchange\<close>, \<open>Data_Import\<close> (\<^verbatim>\<open>dataexchange\<close>): jobs, header mapping, row validators, preview and the run.
  \<^item> \<open>Stock_Decimal\<close> (\<^verbatim>\<open>inventory/reconcile.go\<close>, quantity helpers of \<^verbatim>\<open>inventory/service.go\<close>): quantities are texts; \<open>denotes\<close> says which number of
    hundred-millionths a text stands for, the scale of the \<^verbatim>\<open>numeric(24,8)\<close> columns.
  \<^item> \<open>Stock_Transfer\<close> (\<^verbatim>\<open>inventory/service.go\<close>, \<^verbatim>\<open>inventory/state.go\<close>): \<open>stock\<close> holds transfers, lines, movements, positions, reservations, resolutions
    and command records; \<open>transfer_guard\<close>, \<open>project\<close> and \<open>conserved\<close> are the triggers of the baseline migration the commands rely on.
  \<^item> \<open>Transfer_Safety\<close>, \<open>Transfer_Receipt\<close>, \<open>Transfer_Commands\<close>: the balance of a line as an invariant with an effective state per line, one lemma for
    a step on one line, the loops of each command, whole commands and histories of them.
  \<^item> \<open>Purchase_Common\<close> (\<^verbatim>\<open>purchasing/service.go\<close>): guards, exchange rates and document numbers every purchasing command starts with.
  \<^item> \<open>Landed_Cost\<close> (\<^verbatim>\<open>purchasing/landed_cost.go\<close>): \<open>lc_db\<close> holds landed costs, their lines, receipt lines, stock layers, adjustments and command
    records; \<open>landedShares\<close> is the largest-remainder loop, an instance of the locale \<open>exact_split\<close> of \<open>Apportion\<close> the tax splits also use.
  \<^item> \<open>Calendar\<close>: days, their order, texts and weekdays.
  \<^item> \<open>Timesheet\<close> (\<^verbatim>\<open>hr/timesheet/generator.go\<close>, the attendance counts of \<^verbatim>\<open>payroll/run/calculate.go\<close>) and \<open>Timesheet_Service\<close>
    (\<^verbatim>\<open>hr/timesheet/service.go\<close>): the days of a month, and the commands on periods and days.  A command takes the rows it read before its transaction
    and the rows the transaction meets as two states, so that histories include outdated reads.

  \<^bold>\<open>What the lemmas show.\<close>
  Calculations are exact: sums of lines are the document's totals, the parts of a split add up, printing and reading give the same number, optimised code equals
  a closed formula (progressive tax, FIFO distribution), and every rejection has its branch.  Tables keep invariants over every sequence
  of commands: no payment is overspent, an outbox row gets one verdict, at most one caller of a key executes,
  an interrupted destructive operation blocks every new one, transfer lines balance against the stock ledger, a reversed money transfer
  leaves nothing behind, and the outbox is emptied in a bounded number of cycles.  Interfaces that several
  implementations share (the idempotency store, decimals) are locales, interpreted on the code's definitions.

  \<^bold>\<open>Bounds.\<close>
  Go's \<^verbatim>\<open>int\<close> counters and amounts are far from 64 bits and are integers here; rounding modes and other byte enumerations are 8-bit words.  Loops over input are
  structural recursion; the doubling and bisection of the net search run the code's own fixed number of rounds, so no fuel is added to
  the code's bounds.  The loop of the outbox worker runs over a given list of cycles; 131 of them per attempt left are enough, since a retry waits
  at most 128 seconds, a waiting worker polls with every tick of its one-second ticker, and at most two polls come earlier: the one right after work
  and the one of a buffered tick.

  \<^bold>\<open>Parameters.\<close>
  What is not under \<^verbatim>\<open>src/\<close> is an argument: UUID parsing and generation, SHA-256 and JSON encodings, clocks, the Unicode tables beyond ASCII, the
  target adapter of an import, the publisher of the outbox, and for stock movements the verdict of the guards that read other tables (\<open>admits\<close>,
  \<open>variant_ok\<close>, \<open>may\<close>).  A command is one database transaction: an error leaves the tables as they were.  Row and advisory locks serialise
  transactions and are not modelled further.

  \<^bold>\<open>Hypotheses on callers and known differences.\<close>
  Transfers are conserved as long as no receipt names a line twice, which the service does not check: \<open>duplicate_entries_unbalance\<close> shows what
  happens otherwise.  The safety of interrupted operations rests on a rule for the holders of leases, the parameter \<open>honest\<close> of its step relation.
  A repeated allocation command answers rows without their idempotency key, as JSON does.  The card and the payment filter of an invoice without open
  item disagree, and the filter's query leaves the order of open items created at one instant to the database, where the model takes the
  largest id.  \<open>rat_SetString\<close> reads decimal and fraction texts only, not the base prefixes, underscores and hexadecimal texts of \<^verbatim>\<open>big.Rat\<close>.  The trigger that freezes
  a finalized month reads the period without a lock; a transaction that overlaps the one that finalizes is outside the one-transaction
  abstraction.  \<^verbatim>\<open>GenerateDays\<close> reads its tables in several statements, which the model takes as one outdated state.

  \<^bold>\<open>Not modelled.\<close>
  HTTP routing and generated contracts, SQL reporting and list queries, identity and its cryptography, the desktop client, media, e-mail, demo data
  and migrations: I/O and glue around the parts above.  Posting of invoices and payments, sales and purchasing documents, stock
  counts and the bulk movement operations of \<^verbatim>\<open>inventory\<close> are program logic that is not reached yet.  Unit costs and audit rows of movements are left out: no
  modelled decision reads them.
\<close>

end
